(* ===== verification/Prelude.thy ===== *)
theory Prelude
  imports Main
begin

text \<open>
  Shared vocabulary of the development: JavaScript list and string primitives the code uses
  everywhere (\<open>slice\<close>, \<open>startsWith\<close>, \<open>trim\<close>, \<open>toLowerCase\<close>, \<open>split\<close>, \<open>join\<close>, decimal
  printing), a stable insertion sort driven by a comparator (what \<open>Array.prototype.sort\<close>
  computes for a consistent comparator), and the lemma collections the components share.

  A JavaScript string is a sequence of code units. It is modelled as a HOL \<open>string\<close>, so
  the code units are those below 256; every function used on them here is uniform in the unit.
\<close>

named_theorems js_simps \<open>characteristic equations of the JavaScript primitives\<close>
named_theorems store_simps \<open>what a lookup returns after an update of a store\<close>

section \<open>Slices\<close>

definition js_length :: "'a list \<Rightarrow> int" where
  "js_length xs = int (length xs)"

definition js_slice_from :: "int \<Rightarrow> 'a list \<Rightarrow> 'a list" where
  \<comment> \<open>\<open>xs.slice(i)\<close>: a negative index counts from the end, and \<open>slice(-0)\<close> is everything\<close>
  "js_slice_from i xs =
     (if i < 0 then drop (nat (max 0 (js_length xs + i))) xs else drop (nat i) xs)"

definition js_take :: "int \<Rightarrow> 'a list \<Rightarrow> 'a list" where
  \<comment> \<open>\<open>xs.slice(0, n)\<close>\<close>
  "js_take n xs = (if n < 0 then take (nat (max 0 (js_length xs + n))) xs else take (nat n) xs)"

definition last_n :: "nat \<Rightarrow> 'a list \<Rightarrow> 'a list" where
  "last_n n xs = drop (length xs - n) xs"

lemma length_last_n [simp]: "length (last_n n xs) = min n (length xs)"
  by (simp add: last_n_def)

lemma last_n_all [simp]: "length xs \<le> n \<Longrightarrow> last_n n xs = xs"
  by (simp add: last_n_def)

lemma last_n_0 [simp]: "last_n 0 xs = []"
  by (simp add: last_n_def)

lemma last_n_append_last_n:
  "m \<le> n + length ys \<Longrightarrow> last_n m (last_n n xs @ ys) = last_n m (xs @ ys)"
proof -
  assume "m \<le> n + length ys"
  then have "length xs + length ys - (length xs - n + m) + (length xs - n) = length xs + length ys - m"
    by arith
  with \<open>m \<le> n + length ys\<close> show ?thesis by (auto simp: last_n_def min_def drop_append)
qed

lemma last_n_last_n [simp]: "last_n m (last_n n xs) = last_n (min m n) xs"
proof -
  have "m \<le> n \<Longrightarrow> length xs - (length xs - n + m) + (length xs - n) = length xs - m" by arith
  then show ?thesis by (auto simp: last_n_def min_def)
qed

lemma last_n_append_left: "length ys \<ge> n \<Longrightarrow> last_n n (xs @ ys) = last_n n ys"
  by (simp add: last_n_def)

lemma last_n_append_right:
  "length ys \<le> n \<Longrightarrow> last_n n (xs @ ys) = last_n (n - length ys) xs @ ys"
  by (auto simp: last_n_def drop_append)

lemma js_length_simps [simp, js_simps]:
  "js_length [] = 0" "js_length (x # xs) = 1 + js_length xs"
  "js_length (xs @ ys) = js_length xs + js_length ys" "0 \<le> js_length xs"
  by (simp_all add: js_length_def)

lemma js_slice_from_neg [js_simps]: "0 < k \<Longrightarrow> js_slice_from (- k) xs = last_n (nat k) xs"
proof -
  assume "0 < k"
  then have "nat (max 0 (js_length xs + - k)) = length xs - nat k"
    by (simp add: js_length_def)
  with \<open>0 < k\<close> show ?thesis by (simp add: js_slice_from_def last_n_def)
qed

lemma js_take_nonneg [js_simps]: "0 \<le> n \<Longrightarrow> js_take n xs = take (nat n) xs"
  by (simp add: js_take_def)

lemma length_js_take_le: "0 \<le> n \<Longrightarrow> js_length (js_take n xs) \<le> n"
  by (simp add: js_take_def js_length_def)

section \<open>Decimal printing\<close>

definition digit_char :: "nat \<Rightarrow> char" where
  "digit_char n = char_of (48 + n)"

fun dec_nat :: "nat \<Rightarrow> string" where
  "dec_nat n = (if n < 10 then [digit_char n] else dec_nat (n div 10) @ [digit_char (n mod 10)])"

declare dec_nat.simps [simp del]

lemma dec_nat_small: "n < 10 \<Longrightarrow> dec_nat n = [digit_char n]"
  by (simp add: dec_nat.simps [of n])

lemma dec_nat_big: "10 \<le> n \<Longrightarrow> dec_nat n = dec_nat (n div 10) @ [digit_char (n mod 10)]"
  by (simp add: dec_nat.simps [of n])

lemma dec_nat_nonempty [simp]: "dec_nat n \<noteq> []"
  by (cases "n < 10") (auto simp: dec_nat_small dec_nat_big not_less)

lemma length_dec_nat_mono: "m \<le> n \<Longrightarrow> length (dec_nat m) \<le> length (dec_nat n)"
proof (induction n arbitrary: m rule: dec_nat.induct)
  case (1 n)
  show ?case
  proof (cases "m < 10")
    case True
    then show ?thesis by (simp add: dec_nat_small Suc_leI)
  next
    case False
    with "1.prems" have "\<not> n < 10" and "m div 10 \<le> n div 10" by (auto intro: div_le_mono)
    then have "length (dec_nat (m div 10)) \<le> length (dec_nat (n div 10))" by (rule "1.IH")
    with False \<open>\<not> n < 10\<close> show ?thesis by (simp add: dec_nat_big)
  qed
qed

lemma length_dec_nat_le: "2 * length (dec_nat n) \<le> n + 2"
proof (induction n rule: dec_nat.induct)
  case (1 n)
  show ?case
  proof (cases "n < 10")
    case True
    then show ?thesis by (simp add: dec_nat_small)
  next
    case False
    then have "2 * length (dec_nat (n div 10)) \<le> n div 10 + 2" by (rule "1.IH")
    with False show ?thesis by (simp add: dec_nat_big)
  qed
qed

definition dec_int :: "int \<Rightarrow> string" where
  "dec_int i = (if i < 0 then CHR ''-'' # dec_nat (nat (- i)) else dec_nat (nat i))"

section \<open>Strings\<close>

definition starts_with :: "string \<Rightarrow> string \<Rightarrow> bool" where
  "starts_with p s \<longleftrightarrow> take (length p) s = p"

definition ends_with :: "string \<Rightarrow> string \<Rightarrow> bool" where
  "ends_with p s \<longleftrightarrow> length p \<le> length s \<and> last_n (length p) s = p"

lemma starts_with_iff: "starts_with p s \<longleftrightarrow> (\<exists>r. s = p @ r)"
  by (metis append_eq_conv_conj append_take_drop_id starts_with_def)

lemma ends_with_iff: "ends_with p s \<longleftrightarrow> (\<exists>r. s = r @ p)"
proof
  assume "ends_with p s"
  then have "s = take (length s - length p) s @ p"
    by (metis append_take_drop_id ends_with_def last_n_def)
  then show "\<exists>r. s = r @ p" ..
next
  assume "\<exists>r. s = r @ p"
  then show "ends_with p s" by (auto simp: ends_with_def last_n_def)
qed

definition is_digit :: "char \<Rightarrow> bool" where
  "is_digit c \<longleftrightarrow> 48 \<le> (of_char c :: nat) \<and> (of_char c :: nat) \<le> 57"

definition to_lower_char :: "char \<Rightarrow> char" where
  \<comment> \<open>\<open>toLowerCase\<close> below 256: the letters A-Z and the accented capitals 192-222 except 215\<close>
  "to_lower_char c =
     (let n = (of_char c :: nat) in
      if (65 \<le> n \<and> n \<le> 90) \<or> (192 \<le> n \<and> n \<le> 222 \<and> n \<noteq> 215) then char_of (n + 32) else c)"

definition to_lower :: "string \<Rightarrow> string" where
  "to_lower s = map to_lower_char s"

definition is_ws :: "char \<Rightarrow> bool" where
  \<comment> \<open>the white space and line terminators \<open>trim\<close> strips, below 256\<close>
  "is_ws c \<longleftrightarrow> (of_char c :: nat) \<in> {9, 10, 11, 12, 13, 32, 160}"

definition trim :: "string \<Rightarrow> string" where
  "trim s = rev (dropWhile is_ws (rev (dropWhile is_ws s)))"

fun split_on :: "char \<Rightarrow> string \<Rightarrow> string list" where
  "split_on c [] = [[]]"
| "split_on c (x # xs) =
     (if x = c then [] # split_on c xs
      else (case split_on c xs of [] \<Rightarrow> [[x]] | w # ws \<Rightarrow> (x # w) # ws))"

lemma split_on_nonempty [simp]: "split_on c s \<noteq> []"
  by (cases s) (auto split: list.splits)

fun join_with :: "string \<Rightarrow> string list \<Rightarrow> string" where
  "join_with sep [] = []"
| "join_with sep [x] = x"
| "join_with sep (x # y # xs) = x @ sep @ join_with sep (y # xs)"

definition truthy_str :: "string option \<Rightarrow> bool" where
  \<comment> \<open>a string is truthy when it is present and not empty\<close>
  "truthy_str s \<longleftrightarrow> (case s of None \<Rightarrow> False | Some t \<Rightarrow> t \<noteq> [])"

lemma truthy_str_simps [simp]: "truthy_str None = False" "truthy_str (Some t) = (t \<noteq> [])"
  by (simp_all add: truthy_str_def)

definition nullish :: "'a option \<Rightarrow> 'a \<Rightarrow> 'a" where
  \<comment> \<open>\<open>x ?? d\<close>\<close>
  "nullish x d = (case x of None \<Rightarrow> d | Some v \<Rightarrow> v)"

lemma nullish_simps [simp]: "nullish None d = d" "nullish (Some v) d = v"
  by (simp_all add: nullish_def)

section \<open>Stable sorting by a comparator\<close>

fun insert_cmp :: "('a \<Rightarrow> 'a \<Rightarrow> int) \<Rightarrow> 'a \<Rightarrow> 'a list \<Rightarrow> 'a list" where
  "insert_cmp cmp x [] = [x]"
| "insert_cmp cmp x (y # ys) = (if cmp x y \<le> 0 then x # y # ys else y # insert_cmp cmp x ys)"

fun sort_cmp :: "('a \<Rightarrow> 'a \<Rightarrow> int) \<Rightarrow> 'a list \<Rightarrow> 'a list" where
  "sort_cmp cmp [] = []"
| "sort_cmp cmp (x # xs) = insert_cmp cmp x (sort_cmp cmp xs)"

lemma set_insert_cmp [simp]: "set (insert_cmp cmp x ys) = insert x (set ys)"
  by (induction ys) auto

lemma set_sort_cmp [simp]: "set (sort_cmp cmp xs) = set xs"
  by (induction xs) auto

lemma length_insert_cmp [simp]: "length (insert_cmp cmp x ys) = Suc (length ys)"
  by (induction ys) auto

lemma length_sort_cmp [simp]: "length (sort_cmp cmp xs) = length xs"
  by (induction xs) auto

lemma distinct_insert_cmp_map:
  "distinct (map f (insert_cmp cmp x ys)) \<longleftrightarrow> f x \<notin> f ` set ys \<and> distinct (map f ys)"
  by (induction ys) auto

lemma distinct_sort_cmp_map [simp]: "distinct (map f (sort_cmp cmp xs)) \<longleftrightarrow> distinct (map f xs)"
  by (induction xs) (auto simp: distinct_insert_cmp_map)

text \<open>
  The contract of a comparator passed to \<open>Array.prototype.sort\<close>: its sign is
  antisymmetric and "not greater" is transitive. Two comparators that satisfy it can be
  combined by falling through on 0, which is how the code builds its tie-breaks.
\<close>

locale comparator =
  fixes cmp :: "'a \<Rightarrow> 'a \<Rightarrow> int"
  assumes flip: "cmp x y < 0 \<longleftrightarrow> 0 < cmp y x"
    and le_trans: "cmp x y \<le> 0 \<Longrightarrow> cmp y z \<le> 0 \<Longrightarrow> cmp x z \<le> 0"
begin

lemma cmp_total: "cmp x y \<le> 0 \<or> cmp y x \<le> 0"
  using flip [of y x] by linarith

lemma cmp_refl: "cmp x x = 0"
  using flip [of x x] by linarith

lemma cmp_zero_sym: "cmp x y = 0 \<Longrightarrow> cmp y x = 0"
  using flip [of x y] flip [of y x] by linarith

lemma cmp_lt_le_trans: "cmp x y < 0 \<Longrightarrow> cmp y z \<le> 0 \<Longrightarrow> cmp x z < 0"
  by (meson flip le_trans linorder_not_le)

lemma cmp_le_lt_trans: "cmp x y \<le> 0 \<Longrightarrow> cmp y z < 0 \<Longrightarrow> cmp x z < 0"
  by (meson flip le_trans linorder_not_le)

lemma sorted_insert_cmp:
  "sorted_wrt (\<lambda>a b. cmp a b \<le> 0) ys \<Longrightarrow> sorted_wrt (\<lambda>a b. cmp a b \<le> 0) (insert_cmp cmp x ys)"
proof (induction ys)
  case Nil
  then show ?case by simp
next
  case (Cons y ys)
  show ?case
  proof (cases "cmp x y \<le> 0")
    case True
    with Cons.prems show ?thesis by (auto intro: le_trans)
  next
    case False
    then have "cmp y x \<le> 0" using cmp_total by blast
    with False Cons show ?thesis by auto
  qed
qed

lemma sorted_sort_cmp: "sorted_wrt (\<lambda>a b. cmp a b \<le> 0) (sort_cmp cmp xs)"
  by (induction xs) (auto intro: sorted_insert_cmp)

lemma filter_insert_cmp_eq:
  "filter (\<lambda>a. cmp a z = 0) (insert_cmp cmp x ys) =
   (if cmp x z = 0 then x # filter (\<lambda>a. cmp a z = 0) ys else filter (\<lambda>a. cmp a z = 0) ys)"
proof (induction ys)
  case Nil
  then show ?case by simp
next
  case (Cons y ys)
  show ?case
  proof (cases "cmp x y \<le> 0")
    case True
    then show ?thesis by simp
  next
    case False
    have "cmp x z = 0 \<Longrightarrow> cmp y z \<noteq> 0"
    proof
      assume "cmp x z = 0" and "cmp y z = 0"
      then have "cmp x z \<le> 0" and "cmp z y \<le> 0" using cmp_zero_sym by auto
      then have "cmp x y \<le> 0" by (rule le_trans)
      with False show False by simp
    qed
    with False Cons.IH show ?thesis by auto
  qed
qed

text \<open>Elements the comparator does not separate keep their order.\<close>

lemma stable_sort_cmp:
  "filter (\<lambda>a. cmp a z = 0) (sort_cmp cmp xs) = filter (\<lambda>a. cmp a z = 0) xs"
  by (induction xs) (auto simp: filter_insert_cmp_eq)

end

definition then_cmp :: "('a \<Rightarrow> 'a \<Rightarrow> int) \<Rightarrow> ('a \<Rightarrow> 'a \<Rightarrow> int) \<Rightarrow> 'a \<Rightarrow> 'a \<Rightarrow> int" where
  "then_cmp c d x y = (if c x y = 0 then d x y else c x y)"

lemma then_cmp_comparator:
  assumes "comparator c" and "comparator d"
  shows "comparator (then_cmp c d)"
proof
  fix x y
  show "then_cmp c d x y < 0 \<longleftrightarrow> 0 < then_cmp c d y x"
    using comparator.flip [OF assms(1)] comparator.flip [OF assms(2)]
      comparator.cmp_zero_sym [OF assms(1)]
    by (auto simp: then_cmp_def)
next
  fix x y z
  assume le: "then_cmp c d x y \<le> 0" "then_cmp c d y z \<le> 0"
  then have "c x y \<le> 0" "c y z \<le> 0" by (auto simp: then_cmp_def split: if_splits)
  then have xz: "c x z \<le> 0" by (rule comparator.le_trans [OF assms(1)])
  show "then_cmp c d x z \<le> 0"
  proof (cases "c x z = 0")
    case False
    with xz show ?thesis by (simp add: then_cmp_def)
  next
    case True
    have "0 \<le> c x y"
      using True \<open>c y z \<le> 0\<close> comparator.cmp_lt_le_trans [OF assms(1), of x y z] by linarith
    moreover have "0 \<le> c y z"
      using True \<open>c x y \<le> 0\<close> comparator.cmp_le_lt_trans [OF assms(1), of x y z] by linarith
    ultimately have "c x y = 0" "c y z = 0" using \<open>c x y \<le> 0\<close> \<open>c y z \<le> 0\<close> by simp_all
    with le have "d x y \<le> 0" "d y z \<le> 0" by (auto simp: then_cmp_def)
    then have "d x z \<le> 0" by (rule comparator.le_trans [OF assms(2)])
    with True show ?thesis by (simp add: then_cmp_def)
  qed
qed

lemma comparator_on: "comparator c \<Longrightarrow> comparator (\<lambda>x y. c (f x) (f y))"
  unfolding comparator_def by blast

definition int_cmp :: "int \<Rightarrow> int \<Rightarrow> int" where
  "int_cmp a b = a - b"

interpretation int_order: comparator int_cmp
  by unfold_locales (auto simp: int_cmp_def)

text \<open>
  Lexicographic comparison of strings by code unit: the collation used to instantiate the
  \<open>localeCompare\<close> parameter of the definitions that sort.
\<close>

fun lex_cmp :: "string \<Rightarrow> string \<Rightarrow> int" where
  "lex_cmp [] [] = 0"
| "lex_cmp [] (y # ys) = - 1"
| "lex_cmp (x # xs) [] = 1"
| "lex_cmp (x # xs) (y # ys) =
     (if x = y then lex_cmp xs ys else if (of_char x :: nat) < of_char y then - 1 else 1)"

lemma lex_cmp_flip: "lex_cmp x y < 0 \<longleftrightarrow> 0 < lex_cmp y x"
  by (induction x y rule: lex_cmp.induct) auto

lemma lex_cmp_trans: "lex_cmp x y \<le> 0 \<Longrightarrow> lex_cmp y z \<le> 0 \<Longrightarrow> lex_cmp x z \<le> 0"
proof (induction x y arbitrary: z rule: lex_cmp.induct)
  case (4 x xs y ys)
  then show ?case by (cases z) (auto split: if_splits)
next
  case (2 y ys)
  then show ?case by (cases z) auto
qed auto

lemma lex_cmp_zero: "lex_cmp x y = 0 \<longleftrightarrow> x = y"
  by (induction x y rule: lex_cmp.induct) auto

interpretation lex_order: comparator lex_cmp
  by unfold_locales (use lex_cmp_flip lex_cmp_trans in auto)

section \<open>Operations on a state that may fail\<close>

text \<open>
  An \<open>async\<close> method that awaits other operations is a function of the state it works on;
  \<open>Inl\<close> is the exception it throws, and the state then is the state at the throw.
\<close>

type_synonym ('s, 'e, 'a) op = "'s \<Rightarrow> ('e + 'a) \<times> 's"

definition op_return :: "'a \<Rightarrow> ('s, 'e, 'a) op" where
  "op_return x = (\<lambda>s. (Inr x, s))"

definition op_fail :: "'e \<Rightarrow> ('s, 'e, 'a) op" where
  "op_fail e = (\<lambda>s. (Inl e, s))"

definition op_bind :: "('s, 'e, 'a) op \<Rightarrow> ('a \<Rightarrow> ('s, 'e, 'b) op) \<Rightarrow> ('s, 'e, 'b) op" where
  "op_bind m f = (\<lambda>s. case m s of (Inl e, s') \<Rightarrow> (Inl e, s') | (Inr x, s') \<Rightarrow> f x s')"

definition op_state :: "('s, 'e, 's) op" where
  "op_state = (\<lambda>s. (Inr s, s))"

definition op_modify :: "('s \<Rightarrow> 's) \<Rightarrow> ('s, 'e, unit) op" where
  "op_modify f = (\<lambda>s. (Inr (), f s))"

definition op_when :: "bool \<Rightarrow> ('s, 'e, unit) op \<Rightarrow> ('s, 'e, unit) op" where
  "op_when b m = (if b then m else op_return ())"

fun op_foreach :: "('a \<Rightarrow> ('s, 'e, unit) op) \<Rightarrow> 'a list \<Rightarrow> ('s, 'e, unit) op" where
  "op_foreach f [] = op_return ()"
| "op_foreach f (x # xs) = op_bind (f x) (\<lambda>_. op_foreach f xs)"

fun op_map :: "('a \<Rightarrow> ('s, 'e, 'b) op) \<Rightarrow> 'a list \<Rightarrow> ('s, 'e, 'b list) op" where
  "op_map f [] = op_return []"
| "op_map f (x # xs) = op_bind (f x) (\<lambda>y. op_bind (op_map f xs) (\<lambda>ys. op_return (y # ys)))"

definition op_catch :: "('s, 'e, 'a) op \<Rightarrow> ('e \<Rightarrow> ('s, 'e, 'a) op) \<Rightarrow> ('s, 'e, 'a) op" where
  "op_catch m h = (\<lambda>s. case m s of (Inl e, s') \<Rightarrow> h e s' | (Inr x, s') \<Rightarrow> (Inr x, s'))"

definition op_finally :: "('s, 'e, 'a) op \<Rightarrow> ('s \<Rightarrow> 's) \<Rightarrow> ('s, 'e, 'a) op" where
  "op_finally m f = (\<lambda>s. let (r, s') = m s in (r, f s'))"

named_theorems op_simps \<open>running the state-and-error operations\<close>

lemma op_run [op_simps]:
  "op_return x s = (Inr x, s)"
  "op_fail e s = (Inl e, s)"
  "op_state s = (Inr s, s)"
  "op_modify f s = (Inr (), f s)"
  "op_when b m s = (if b then m s else (Inr (), s))"
  by (simp_all add: op_return_def op_fail_def op_state_def op_modify_def op_when_def)

lemma op_bind_run [op_simps]:
  "m s = (Inr x, s') \<Longrightarrow> op_bind m f s = f x s'"
  "m s = (Inl e, s') \<Longrightarrow> op_bind m f s = (Inl e, s')"
  by (simp_all add: op_bind_def)

lemma op_bind_Inr_iff:
  "op_bind m f s = (Inr y, t) \<longleftrightarrow> (\<exists>x s'. m s = (Inr x, s') \<and> f x s' = (Inr y, t))"
  by (auto simp: op_bind_def split: prod.splits sum.splits)

text \<open>A predicate every step of an operation keeps is kept by the operation.\<close>

definition op_keeps :: "('s \<Rightarrow> bool) \<Rightarrow> ('s, 'e, 'a) op \<Rightarrow> bool" where
  "op_keeps P m \<longleftrightarrow> (\<forall>s. P s \<longrightarrow> P (snd (m s)))"

lemma op_keepsI: "(\<And>s. P s \<Longrightarrow> P (snd (m s))) \<Longrightarrow> op_keeps P m"
  by (simp add: op_keeps_def)

lemma op_keepsD: "op_keeps P m \<Longrightarrow> P s \<Longrightarrow> m s = (r, s') \<Longrightarrow> P s'"
  by (auto simp: op_keeps_def dest: spec [of _ s])

lemma op_keeps_bind: "op_keeps P m \<Longrightarrow> (\<And>x. op_keeps P (f x)) \<Longrightarrow> op_keeps P (op_bind m f)"
  unfolding op_keeps_def op_bind_def by (auto split: prod.splits sum.splits)

lemma op_keeps_basic [simp]:
  "op_keeps P (op_return x)" "op_keeps P (op_fail e)" "op_keeps P op_state"
  by (simp_all add: op_keeps_def op_return_def op_fail_def op_state_def)

lemma op_keeps_foreach: "(\<And>x. x \<in> set xs \<Longrightarrow> op_keeps P (f x)) \<Longrightarrow> op_keeps P (op_foreach f xs)"
  by (induction xs) (auto intro: op_keeps_bind)

lemma op_keeps_map: "(\<And>x. x \<in> set xs \<Longrightarrow> op_keeps P (f x)) \<Longrightarrow> op_keeps P (op_map f xs)"
  by (induction xs) (auto intro!: op_keeps_bind)

end
