(* ===== verification/JsonValue.thy ===== *)
theory JsonValue
  imports Prelude
begin

text \<open>
  JSON values as the code handles them after \<open>JSON.parse\<close> (an object is its list of
  properties), reading a property (\<open>None\<close> is \<open>undefined\<close>), the \<open>typeof\<close> tests of the
  validators, building an object whose undefined properties are dropped (what
  \<open>JSON.stringify\<close> does), and string quoting. Numbers are integers: every number the three
  packages write (milliseconds, counts, exit codes, HTTP codes) is one.
\<close>

datatype json =
    JNull
  | JBool bool
  | JNum int
  | JStr string
  | JArr "json list"
  | JObj "(string \<times> json) list"

fun isRecord :: "json \<Rightarrow> bool" where
  "isRecord (JObj _) = True"
| "isRecord _ = False"

fun is_string :: "json \<Rightarrow> bool" where
  "is_string (JStr _) = True"
| "is_string _ = False"

fun is_number :: "json \<Rightarrow> bool" where
  "is_number (JNum _) = True"
| "is_number _ = False"

fun is_boolean :: "json \<Rightarrow> bool" where
  "is_boolean (JBool _) = True"
| "is_boolean _ = False"

fun is_array_of :: "(json \<Rightarrow> bool) \<Rightarrow> json \<Rightarrow> bool" where
  "is_array_of p (JArr xs) = list_all p xs"
| "is_array_of p _ = False"

fun jfield :: "json \<Rightarrow> string \<Rightarrow> json option" where
  "jfield (JObj kvs) k = map_of kvs k"
| "jfield _ k = None"

definition present :: "(json \<Rightarrow> bool) \<Rightarrow> json option \<Rightarrow> bool" where
  \<comment> \<open>the property is defined and passes the test\<close>
  "present p v = (case v of None \<Rightarrow> False | Some x \<Rightarrow> p x)"

definition optional :: "(json \<Rightarrow> bool) \<Rightarrow> json option \<Rightarrow> bool" where
  \<comment> \<open>\<open>value.f === undefined || p(value.f)\<close>\<close>
  "optional p v = (case v of None \<Rightarrow> True | Some x \<Rightarrow> p x)"

lemma present_simps [simp]: "present p None = False" "present p (Some x) = p x"
  by (simp_all add: present_def)

lemma optional_simps [simp]: "optional p None = True" "optional p (Some x) = p x"
  by (simp_all add: optional_def)

lemma optional_map_option: "optional p (map_option f v) \<longleftrightarrow> (case v of None \<Rightarrow> True | Some x \<Rightarrow> p (f x))"
  by (cases v) auto

definition null_or :: "(json \<Rightarrow> bool) \<Rightarrow> json \<Rightarrow> bool" where
  "null_or p v \<longleftrightarrow> v = JNull \<or> p v"

definition object_of :: "(string \<times> json option) list \<Rightarrow> json" where
  \<comment> \<open>an object literal as it is serialised: properties whose value is undefined are left out\<close>
  "object_of fields = JObj (List.map_filter (\<lambda>(k, v). map_option (Pair k) v) fields)"

lemma map_of_map_filter:
  "distinct (map fst fields) \<Longrightarrow>
   map_of (List.map_filter (\<lambda>(k, v). map_option (Pair k) v) fields) k = Option.bind (map_of fields k) id"
proof (induction fields)
  case Nil
  then show ?case by (simp add: List.map_filter_simps)
next
  case (Cons f fields)
  obtain k' v where f: "f = (k', v)" by (cases f)
  have notin: "k' \<notin> fst ` set fields" using Cons.prems f by simp
  then have "map_of fields k' = None" by (simp add: map_of_eq_None_iff)
  with Cons f show ?case by (cases v) (auto simp: List.map_filter_simps)
qed

lemma jfield_object_of [simp]:
  "distinct (map fst fields) \<Longrightarrow> jfield (object_of fields) k = Option.bind (map_of fields k) id"
  by (simp add: object_of_def map_of_map_filter)

lemma isRecord_object_of [simp]: "isRecord (object_of fields)"
  by (simp add: object_of_def)

text \<open>Reading a validated value back at its type.\<close>

fun str_of :: "json \<Rightarrow> string" where
  "str_of (JStr s) = s"
| "str_of _ = []"

fun num_of :: "json \<Rightarrow> int" where
  "num_of (JNum i) = i"
| "num_of _ = 0"

fun bool_of :: "json \<Rightarrow> bool" where
  "bool_of (JBool b) = b"
| "bool_of _ = False"

fun props_of :: "json \<Rightarrow> (string \<times> json) list" where
  "props_of (JObj kvs) = kvs"
| "props_of _ = []"

fun items_of :: "json \<Rightarrow> json list" where
  "items_of (JArr xs) = xs"
| "items_of _ = []"

fun nullable_num :: "json \<Rightarrow> int option" where
  "nullable_num (JNum i) = Some i"
| "nullable_num _ = None"

fun json_nullable :: "int option \<Rightarrow> json" where
  "json_nullable None = JNull"
| "json_nullable (Some i) = JNum i"

lemma nullable_num_json [simp]: "nullable_num (json_nullable v) = v"
  by (cases v) simp_all

lemma null_or_number_nullable [simp]: "null_or is_number (json_nullable v)"
  by (cases v) (simp_all add: null_or_def)

text \<open>String enumerations: a value is written as its name and read back by searching the list.\<close>

definition enum_find :: "('a \<Rightarrow> string) \<Rightarrow> 'a list \<Rightarrow> string \<Rightarrow> 'a option" where
  "enum_find name values s = find (\<lambda>x. name x = s) values"

definition isOneOf :: "('a \<Rightarrow> string) \<Rightarrow> 'a list \<Rightarrow> json \<Rightarrow> bool" where
  "isOneOf name values v \<longleftrightarrow> (case v of JStr s \<Rightarrow> enum_find name values s \<noteq> None | _ \<Rightarrow> False)"

definition enum_of :: "('a \<Rightarrow> string) \<Rightarrow> 'a list \<Rightarrow> json \<Rightarrow> 'a" where
  "enum_of name values v = the (enum_find name values (str_of v))"

lemma enum_find_inj:
  assumes "inj name" and "x \<in> set values"
  shows "enum_find name values (name x) = Some x"
proof -
  have "enum_find name values (name x) \<noteq> None"
    using assms(2) by (auto simp: enum_find_def find_None_iff)
  then obtain y where y: "enum_find name values (name x) = Some y" by blast
  then have "name y = name x" by (auto simp: enum_find_def find_Some_iff)
  with y assms(1) show ?thesis by (simp add: inj_eq)
qed

lemma enum_find_name: "enum_find name values s = Some x \<Longrightarrow> name x = s"
  by (auto simp: enum_find_def find_Some_iff)

lemma isOneOf_JStr [simp]: "isOneOf name values (JStr s) \<longleftrightarrow> enum_find name values s \<noteq> None"
  by (simp add: isOneOf_def)

text \<open>\<open>JSON.stringify\<close> of a string: quotes, backslashes and control characters are escaped.\<close>

definition hex_digit :: "nat \<Rightarrow> char" where
  "hex_digit n = (if n < 10 then char_of (48 + n) else char_of (87 + n))"

definition json_escape_char :: "char \<Rightarrow> string" where
  "json_escape_char c =
     (let n = (of_char c :: nat) in
      if n = 34 then [char_of (92::nat), char_of (34::nat)]
      else if n = 92 then [char_of (92::nat), char_of (92::nat)]
      else if n = 8 then [char_of (92::nat), CHR ''b'']
      else if n = 9 then [char_of (92::nat), CHR ''t'']
      else if n = 10 then [char_of (92::nat), CHR ''n'']
      else if n = 12 then [char_of (92::nat), CHR ''f'']
      else if n = 13 then [char_of (92::nat), CHR ''r'']
      else if n < 32 then [char_of (92::nat), CHR ''u'', CHR ''0'', CHR ''0'', hex_digit (n div 16), hex_digit (n mod 16)]
      else [c])"

definition json_quote :: "string \<Rightarrow> string" where
  "json_quote s = [char_of (34::nat)] @ concat (map json_escape_char s) @ [char_of (34::nat)]"

end
