(* ===== verification/JobTypes.thy ===== *)
theory JobTypes
  imports JsonValue
begin

text \<open>
  The data model of \<open>src/jobs/job.types.ts\<close>: the enumerations with the strings the code
  writes, the job record and its parts (an optional property is an \<open>option\<close>; a property
  that may be null as well is an \<open>option option\<close>), and the serialisation of a job. The
  interface \<open>string_enum\<close> states what the validators rely on: the strings tell the
  constructors apart and the value list is complete.
\<close>

section \<open>Enumerations\<close>

datatype job_status = Queued | Running | Succeeded | Failed | Cancelled
datatype execution_mode = ExecMode | TmuxMode
datatype tmux_status = TStarting | TRunning | TExited | TCancelled | TFailed
datatype error_type =
  SpawnError | TimeoutError | NonZeroExit | CancelledError | ExecutionError | InvalidCwd
datatype job_source = Dispatch | Channel | OpenClaw
datatype notify_mode = NotifyOpenClaw | NotifyClaude
datatype notify_trigger = AutoTrigger | ManualTrigger
datatype channel_status = ChOk | ChFailed | ChSkipped

fun status_name :: "job_status \<Rightarrow> string" where
  "status_name Queued = ''queued''"
| "status_name Running = ''running''"
| "status_name Succeeded = ''succeeded''"
| "status_name Failed = ''failed''"
| "status_name Cancelled = ''cancelled''"

fun mode_name :: "execution_mode \<Rightarrow> string" where
  "mode_name ExecMode = ''exec''"
| "mode_name TmuxMode = ''tmux''"

fun tmux_status_name :: "tmux_status \<Rightarrow> string" where
  "tmux_status_name TStarting = ''starting''"
| "tmux_status_name TRunning = ''running''"
| "tmux_status_name TExited = ''exited''"
| "tmux_status_name TCancelled = ''cancelled''"
| "tmux_status_name TFailed = ''failed''"

fun error_type_name :: "error_type \<Rightarrow> string" where
  "error_type_name SpawnError = ''spawn_error''"
| "error_type_name TimeoutError = ''timeout''"
| "error_type_name NonZeroExit = ''non_zero_exit''"
| "error_type_name CancelledError = ''cancelled''"
| "error_type_name ExecutionError = ''execution_error''"
| "error_type_name InvalidCwd = ''invalid_cwd''"

fun source_name :: "job_source \<Rightarrow> string" where
  "source_name Dispatch = ''dispatch''"
| "source_name Channel = ''channel''"
| "source_name OpenClaw = ''openclaw''"

fun notify_mode_name :: "notify_mode \<Rightarrow> string" where
  "notify_mode_name NotifyOpenClaw = ''openclaw''"
| "notify_mode_name NotifyClaude = ''claude''"

fun trigger_name :: "notify_trigger \<Rightarrow> string" where
  "trigger_name AutoTrigger = ''auto''"
| "trigger_name ManualTrigger = ''manual''"

fun channel_status_name :: "channel_status \<Rightarrow> string" where
  "channel_status_name ChOk = ''ok''"
| "channel_status_name ChFailed = ''failed''"
| "channel_status_name ChSkipped = ''skipped''"

definition JOB_STATUSES :: "job_status list" where
  "JOB_STATUSES = [Queued, Running, Succeeded, Failed, Cancelled]"

definition JOB_EXECUTION_MODES :: "execution_mode list" where
  "JOB_EXECUTION_MODES = [ExecMode, TmuxMode]"

definition TMUX_SESSION_STATUSES :: "tmux_status list" where
  "TMUX_SESSION_STATUSES = [TStarting, TRunning, TExited, TCancelled, TFailed]"

definition EXECUTION_ERROR_TYPES :: "error_type list" where
  "EXECUTION_ERROR_TYPES =
     [SpawnError, TimeoutError, NonZeroExit, CancelledError, ExecutionError, InvalidCwd]"

definition JOB_SOURCE_VALUES :: "job_source list" where
  "JOB_SOURCE_VALUES = [Dispatch, Channel, OpenClaw]"

definition NOTIFY_MODE_VALUES :: "notify_mode list" where
  "NOTIFY_MODE_VALUES = [NotifyOpenClaw, NotifyClaude]"

definition NOTIFY_TRIGGER_VALUES :: "notify_trigger list" where
  "NOTIFY_TRIGGER_VALUES = [AutoTrigger, ManualTrigger]"

definition NOTIFY_CHANNEL_STATUSES :: "channel_status list" where
  "NOTIFY_CHANNEL_STATUSES = [ChOk, ChFailed, ChSkipped]"

locale string_enum =
  fixes name :: "'a \<Rightarrow> string" and vals :: "'a list"
  assumes name_inj: "name x = name y \<Longrightarrow> x = y"
    and complete: "x \<in> set vals"
begin

lemma find_name: "enum_find name vals (name x) = Some x"
  by (rule enum_find_inj) (auto intro: injI name_inj complete)

lemma find_iff: "enum_find name vals s = Some x \<longleftrightarrow> s = name x"
  using find_name enum_find_name by metis

lemma accepts_name: "isOneOf name vals (JStr (name x))"
  by (simp add: find_name)

lemma read_name: "enum_of name vals (JStr (name x)) = x"
  by (simp add: enum_of_def find_name)

lemma accepted_is_name: "isOneOf name vals v \<longleftrightarrow> (\<exists>x. v = JStr (name x))"
  using find_iff by (cases v) (auto simp: isOneOf_def)

end

interpretation statuses: string_enum status_name JOB_STATUSES
proof
  show "status_name x = status_name y \<Longrightarrow> x = y" for x y by (cases x; cases y) simp_all
  show "x \<in> set JOB_STATUSES" for x by (cases x) (simp_all add: JOB_STATUSES_def)
qed

interpretation modes: string_enum mode_name JOB_EXECUTION_MODES
proof
  show "mode_name x = mode_name y \<Longrightarrow> x = y" for x y by (cases x; cases y) simp_all
  show "x \<in> set JOB_EXECUTION_MODES" for x by (cases x) (simp_all add: JOB_EXECUTION_MODES_def)
qed

interpretation tmux_statuses: string_enum tmux_status_name TMUX_SESSION_STATUSES
proof
  show "tmux_status_name x = tmux_status_name y \<Longrightarrow> x = y" for x y by (cases x; cases y) simp_all
  show "x \<in> set TMUX_SESSION_STATUSES" for x
    by (cases x) (simp_all add: TMUX_SESSION_STATUSES_def)
qed

interpretation error_types: string_enum error_type_name EXECUTION_ERROR_TYPES
proof
  show "error_type_name x = error_type_name y \<Longrightarrow> x = y" for x y by (cases x; cases y) simp_all
  show "x \<in> set EXECUTION_ERROR_TYPES" for x
    by (cases x) (simp_all add: EXECUTION_ERROR_TYPES_def)
qed

interpretation sources: string_enum source_name JOB_SOURCE_VALUES
proof
  show "source_name x = source_name y \<Longrightarrow> x = y" for x y by (cases x; cases y) simp_all
  show "x \<in> set JOB_SOURCE_VALUES" for x by (cases x) (simp_all add: JOB_SOURCE_VALUES_def)
qed

interpretation notify_modes: string_enum notify_mode_name NOTIFY_MODE_VALUES
proof
  show "notify_mode_name x = notify_mode_name y \<Longrightarrow> x = y" for x y by (cases x; cases y) simp_all
  show "x \<in> set NOTIFY_MODE_VALUES" for x by (cases x) (simp_all add: NOTIFY_MODE_VALUES_def)
qed

interpretation triggers: string_enum trigger_name NOTIFY_TRIGGER_VALUES
proof
  show "trigger_name x = trigger_name y \<Longrightarrow> x = y" for x y by (cases x; cases y) simp_all
  show "x \<in> set NOTIFY_TRIGGER_VALUES" for x
    by (cases x) (simp_all add: NOTIFY_TRIGGER_VALUES_def)
qed

interpretation channel_statuses: string_enum channel_status_name NOTIFY_CHANNEL_STATUSES
proof
  show "channel_status_name x = channel_status_name y \<Longrightarrow> x = y" for x y
    by (cases x; cases y) simp_all
  show "x \<in> set NOTIFY_CHANNEL_STATUSES" for x
    by (cases x) (simp_all add: NOTIFY_CHANNEL_STATUSES_def)
qed

lemmas enum_reads [simp] =
  statuses.find_name modes.find_name tmux_statuses.find_name error_types.find_name
  sources.find_name notify_modes.find_name triggers.find_name channel_statuses.find_name
  statuses.read_name modes.read_name tmux_statuses.read_name error_types.read_name
  sources.read_name notify_modes.read_name triggers.read_name channel_statuses.read_name

section \<open>Records\<close>

record exec_meta =
  em_command :: string
  em_timeoutMs :: int
  em_maxOutputChars :: int
  em_durationMs :: "int option"
  em_timedOut :: "bool option"
  em_outputTruncated :: "bool option"
  em_errorType :: "error_type option"
  em_recoveredFromRestart :: "bool option"

text \<open>The \<open>backend\<close> of a session is the constant \<open>'tmux'\<close>; it is written and checked below.\<close>

record tmux_session =
  ts_sessionName :: string
  ts_status :: tmux_status
  ts_createdAt :: string
  ts_updatedAt :: string
  ts_attachCommand :: string
  ts_cwd :: "string option"
  ts_lastExitCode :: "int option option"

record channel_result =
  cr_status :: channel_status
  cr_error :: "string option"
  cr_httpStatus :: "int option"
  cr_attempts :: "int option"
  cr_skippedReason :: "string option"

record notify_outcome =
  no_attemptedAt :: string
  no_mode :: notify_mode
  no_trigger :: "notify_trigger option"
  no_attemptIndex :: "int option"
  no_claudeWebhook :: "channel_result option"
  no_openclaw :: "channel_result option"
  no_telegram :: "channel_result option"

record bridge_job =
  j_id :: string
  j_prompt :: string
  j_executionMode :: "execution_mode option"
  j_cwd :: "string option"
  j_queueOrder :: "string option"
  j_requestId :: "string option"
  j_requestFingerprint :: "string option"
  j_originRoutingKey :: "string option"
  j_source :: "job_source option"
  j_sourceName :: "string option"
  j_metadata :: "(string \<times> json) list option"
  j_notifyUrl :: "string option"
  j_status :: job_status
  j_createdAt :: string
  j_startedAt :: "string option"
  j_finishedAt :: "string option"
  j_exitCode :: "int option option"
  j_stdout :: string
  j_stderr :: string
  j_execution :: exec_meta
  j_session :: "tmux_session option"
  j_notifyOutcome :: "notify_outcome option"
  j_notifyHistory :: "notify_outcome list option"

record session_summary =
  ss_jobId :: string
  ss_jobStatus :: job_status
  ss_executionMode :: execution_mode
  ss_attachCommand :: "string option"
  ss_session :: "tmux_session option"

record execution_result =
  er_status :: job_status
  er_stdout :: string
  er_stderr :: string
  er_exitCode :: "int option"
  er_execution :: exec_meta

fun isTerminal :: "job_status \<Rightarrow> bool" where
  "isTerminal s = (s = Succeeded \<or> s = Failed \<or> s = Cancelled)"

lemma isTerminal_iff: "isTerminal s \<longleftrightarrow> s \<noteq> Queued \<and> s \<noteq> Running"
  by (cases s) auto

section \<open>Serialisation\<close>

definition exec_meta_json :: "exec_meta \<Rightarrow> json" where
  "exec_meta_json e = object_of
    [(''command'', Some (JStr (em_command e))),
     (''timeoutMs'', Some (JNum (em_timeoutMs e))),
     (''maxOutputChars'', Some (JNum (em_maxOutputChars e))),
     (''durationMs'', map_option JNum (em_durationMs e)),
     (''timedOut'', map_option JBool (em_timedOut e)),
     (''outputTruncated'', map_option JBool (em_outputTruncated e)),
     (''errorType'', map_option (JStr \<circ> error_type_name) (em_errorType e)),
     (''recoveredFromRestart'', map_option JBool (em_recoveredFromRestart e))]"

definition tmux_session_json :: "tmux_session \<Rightarrow> json" where
  "tmux_session_json s = object_of
    [(''backend'', Some (JStr ''tmux'')),
     (''sessionName'', Some (JStr (ts_sessionName s))),
     (''status'', Some (JStr (tmux_status_name (ts_status s)))),
     (''createdAt'', Some (JStr (ts_createdAt s))),
     (''updatedAt'', Some (JStr (ts_updatedAt s))),
     (''attachCommand'', Some (JStr (ts_attachCommand s))),
     (''cwd'', map_option JStr (ts_cwd s)),
     (''lastExitCode'', map_option json_nullable (ts_lastExitCode s))]"

definition channel_result_json :: "channel_result \<Rightarrow> json" where
  "channel_result_json r = object_of
    [(''status'', Some (JStr (channel_status_name (cr_status r)))),
     (''error'', map_option JStr (cr_error r)),
     (''httpStatus'', map_option JNum (cr_httpStatus r)),
     (''attempts'', map_option JNum (cr_attempts r)),
     (''skippedReason'', map_option JStr (cr_skippedReason r))]"

definition notify_outcome_json :: "notify_outcome \<Rightarrow> json" where
  "notify_outcome_json r = object_of
    [(''attemptedAt'', Some (JStr (no_attemptedAt r))),
     (''mode'', Some (JStr (notify_mode_name (no_mode r)))),
     (''trigger'', map_option (JStr \<circ> trigger_name) (no_trigger r)),
     (''attemptIndex'', map_option JNum (no_attemptIndex r)),
     (''claudeWebhook'', map_option channel_result_json (no_claudeWebhook r)),
     (''openclaw'', map_option channel_result_json (no_openclaw r)),
     (''telegram'', map_option channel_result_json (no_telegram r))]"

definition job_json :: "bridge_job \<Rightarrow> json" where
  "job_json j = object_of
    [(''id'', Some (JStr (j_id j))),
     (''prompt'', Some (JStr (j_prompt j))),
     (''executionMode'', map_option (JStr \<circ> mode_name) (j_executionMode j)),
     (''cwd'', map_option JStr (j_cwd j)),
     (''queueOrder'', map_option JStr (j_queueOrder j)),
     (''requestId'', map_option JStr (j_requestId j)),
     (''requestFingerprint'', map_option JStr (j_requestFingerprint j)),
     (''originRoutingKey'', map_option JStr (j_originRoutingKey j)),
     (''source'', map_option (JStr \<circ> source_name) (j_source j)),
     (''sourceName'', map_option JStr (j_sourceName j)),
     (''metadata'', map_option JObj (j_metadata j)),
     (''notifyUrl'', map_option JStr (j_notifyUrl j)),
     (''status'', Some (JStr (status_name (j_status j)))),
     (''createdAt'', Some (JStr (j_createdAt j))),
     (''startedAt'', map_option JStr (j_startedAt j)),
     (''finishedAt'', map_option JStr (j_finishedAt j)),
     (''exitCode'', map_option json_nullable (j_exitCode j)),
     (''stdout'', Some (JStr (j_stdout j))),
     (''stderr'', Some (JStr (j_stderr j))),
     (''execution'', Some (exec_meta_json (j_execution j))),
     (''session'', map_option tmux_session_json (j_session j)),
     (''notifyOutcome'', map_option notify_outcome_json (j_notifyOutcome j)),
     (''notifyHistory'', map_option (JArr \<circ> map notify_outcome_json) (j_notifyHistory j))]"

end
