(* ===== verification/JobValidation.thy ===== *)
theory JobValidation
  imports JobTypes
begin

text \<open>
  The validators of \<open>src/jobs/job-queue.repository.ts\<close> (\<open>isBridgeJob\<close> and the ones it
  calls), the legacy source normalisation, and reading a validated value as a job record (in
  the code a type cast). The lemmas show that whatever the bridge serialises its own validator
  accepts and reads back unchanged.
\<close>

section \<open>The validators\<close>

definition isNotifyChannelResult :: "json \<Rightarrow> bool" where
  "isNotifyChannelResult v \<longleftrightarrow>
     isRecord v \<and>
     present (isOneOf channel_status_name NOTIFY_CHANNEL_STATUSES) (jfield v ''status'') \<and>
     optional is_string (jfield v ''error'') \<and>
     optional is_number (jfield v ''httpStatus'') \<and>
     optional is_number (jfield v ''attempts'') \<and>
     optional is_string (jfield v ''skippedReason'')"

definition isNotifyOutcome :: "json \<Rightarrow> bool" where
  "isNotifyOutcome v \<longleftrightarrow>
     isRecord v \<and>
     present is_string (jfield v ''attemptedAt'') \<and>
     present (isOneOf notify_mode_name NOTIFY_MODE_VALUES) (jfield v ''mode'') \<and>
     optional (isOneOf trigger_name NOTIFY_TRIGGER_VALUES) (jfield v ''trigger'') \<and>
     optional is_number (jfield v ''attemptIndex'') \<and>
     optional isNotifyChannelResult (jfield v ''claudeWebhook'') \<and>
     optional isNotifyChannelResult (jfield v ''openclaw'') \<and>
     optional isNotifyChannelResult (jfield v ''telegram'')"

definition isTmuxSessionState :: "json \<Rightarrow> bool" where
  "isTmuxSessionState v \<longleftrightarrow>
     isRecord v \<and>
     jfield v ''backend'' = Some (JStr ''tmux'') \<and>
     present is_string (jfield v ''sessionName'') \<and>
     present (isOneOf tmux_status_name TMUX_SESSION_STATUSES) (jfield v ''status'') \<and>
     present is_string (jfield v ''createdAt'') \<and>
     present is_string (jfield v ''updatedAt'') \<and>
     present is_string (jfield v ''attachCommand'') \<and>
     optional is_string (jfield v ''cwd'') \<and>
     optional (null_or is_number) (jfield v ''lastExitCode'')"

definition isExecutionMetadata :: "json \<Rightarrow> bool" where
  "isExecutionMetadata v \<longleftrightarrow>
     isRecord v \<and>
     present is_string (jfield v ''command'') \<and>
     present is_number (jfield v ''timeoutMs'') \<and>
     present is_number (jfield v ''maxOutputChars'') \<and>
     optional is_number (jfield v ''durationMs'') \<and>
     optional is_boolean (jfield v ''timedOut'') \<and>
     optional is_boolean (jfield v ''outputTruncated'') \<and>
     optional (isOneOf error_type_name EXECUTION_ERROR_TYPES) (jfield v ''errorType'') \<and>
     optional is_boolean (jfield v ''recoveredFromRestart'')"

definition isBridgeJob :: "json \<Rightarrow> string \<Rightarrow> bool" where
  "isBridgeJob v jobId \<longleftrightarrow>
     isRecord v \<and>
     jfield v ''id'' = Some (JStr jobId) \<and>
     present is_string (jfield v ''prompt'') \<and>
     optional (isOneOf mode_name JOB_EXECUTION_MODES) (jfield v ''executionMode'') \<and>
     optional is_string (jfield v ''queueOrder'') \<and>
     optional is_string (jfield v ''cwd'') \<and>
     optional is_string (jfield v ''requestId'') \<and>
     optional is_string (jfield v ''requestFingerprint'') \<and>
     optional is_string (jfield v ''originRoutingKey'') \<and>
     optional (isOneOf source_name JOB_SOURCE_VALUES) (jfield v ''source'') \<and>
     optional is_string (jfield v ''sourceName'') \<and>
     optional isRecord (jfield v ''metadata'') \<and>
     optional is_string (jfield v ''notifyUrl'') \<and>
     present is_string (jfield v ''createdAt'') \<and>
     optional is_string (jfield v ''startedAt'') \<and>
     optional is_string (jfield v ''finishedAt'') \<and>
     optional (null_or is_number) (jfield v ''exitCode'') \<and>
     present is_string (jfield v ''stdout'') \<and>
     present is_string (jfield v ''stderr'') \<and>
     present (isOneOf status_name JOB_STATUSES) (jfield v ''status'') \<and>
     present isExecutionMetadata (jfield v ''execution'') \<and>
     optional isTmuxSessionState (jfield v ''session'') \<and>
     optional isNotifyOutcome (jfield v ''notifyOutcome'') \<and>
     optional (is_array_of isNotifyOutcome) (jfield v ''notifyHistory'')"

section \<open>Legacy jobs\<close>

fun put_prop :: "string \<Rightarrow> json \<Rightarrow> (string \<times> json) list \<Rightarrow> (string \<times> json) list" where
  \<comment> \<open>\<open>{ ...value, k: v }\<close>: an existing property keeps its place\<close>
  "put_prop k v [] = [(k, v)]"
| "put_prop k v ((k', v') # kvs) = (if k = k' then (k, v) # kvs else (k', v') # put_prop k v kvs)"

lemma map_of_put_prop [store_simps]: "map_of (put_prop k v kvs) = (map_of kvs)(k \<mapsto> v)"
  by (induction kvs) (auto simp: fun_eq_iff)

definition normalizeLegacyJobSource :: "json \<Rightarrow> json" where
  "normalizeLegacyJobSource v =
     (case v of
        JObj kvs \<Rightarrow>
          (if jfield v ''source'' \<noteq> Some (JStr ''synapse'') then v
           else JObj (put_prop ''sourceName''
                  (case jfield v ''sourceName'' of
                     Some (JStr s) \<Rightarrow> JStr s
                   | _ \<Rightarrow> JStr ''claude-synapse'')
                  (put_prop ''source'' (JStr ''channel'') kvs)))
      | _ \<Rightarrow> v)"

section \<open>Reading a validated job\<close>

definition exec_meta_of :: "json \<Rightarrow> exec_meta" where
  "exec_meta_of v = \<lparr>
     em_command = str_of (the (jfield v ''command'')),
     em_timeoutMs = num_of (the (jfield v ''timeoutMs'')),
     em_maxOutputChars = num_of (the (jfield v ''maxOutputChars'')),
     em_durationMs = map_option num_of (jfield v ''durationMs''),
     em_timedOut = map_option bool_of (jfield v ''timedOut''),
     em_outputTruncated = map_option bool_of (jfield v ''outputTruncated''),
     em_errorType = map_option (enum_of error_type_name EXECUTION_ERROR_TYPES) (jfield v ''errorType''),
     em_recoveredFromRestart = map_option bool_of (jfield v ''recoveredFromRestart'')\<rparr>"

definition tmux_session_of :: "json \<Rightarrow> tmux_session" where
  "tmux_session_of v = \<lparr>
     ts_sessionName = str_of (the (jfield v ''sessionName'')),
     ts_status = enum_of tmux_status_name TMUX_SESSION_STATUSES (the (jfield v ''status'')),
     ts_createdAt = str_of (the (jfield v ''createdAt'')),
     ts_updatedAt = str_of (the (jfield v ''updatedAt'')),
     ts_attachCommand = str_of (the (jfield v ''attachCommand'')),
     ts_cwd = map_option str_of (jfield v ''cwd''),
     ts_lastExitCode = map_option nullable_num (jfield v ''lastExitCode'')\<rparr>"

definition channel_result_of :: "json \<Rightarrow> channel_result" where
  "channel_result_of v = \<lparr>
     cr_status = enum_of channel_status_name NOTIFY_CHANNEL_STATUSES (the (jfield v ''status'')),
     cr_error = map_option str_of (jfield v ''error''),
     cr_httpStatus = map_option num_of (jfield v ''httpStatus''),
     cr_attempts = map_option num_of (jfield v ''attempts''),
     cr_skippedReason = map_option str_of (jfield v ''skippedReason'')\<rparr>"

definition notify_outcome_of :: "json \<Rightarrow> notify_outcome" where
  "notify_outcome_of v = \<lparr>
     no_attemptedAt = str_of (the (jfield v ''attemptedAt'')),
     no_mode = enum_of notify_mode_name NOTIFY_MODE_VALUES (the (jfield v ''mode'')),
     no_trigger = map_option (enum_of trigger_name NOTIFY_TRIGGER_VALUES) (jfield v ''trigger''),
     no_attemptIndex = map_option num_of (jfield v ''attemptIndex''),
     no_claudeWebhook = map_option channel_result_of (jfield v ''claudeWebhook''),
     no_openclaw = map_option channel_result_of (jfield v ''openclaw''),
     no_telegram = map_option channel_result_of (jfield v ''telegram'')\<rparr>"

definition job_of :: "json \<Rightarrow> bridge_job" where
  "job_of v = \<lparr>
     j_id = str_of (the (jfield v ''id'')),
     j_prompt = str_of (the (jfield v ''prompt'')),
     j_executionMode = map_option (enum_of mode_name JOB_EXECUTION_MODES) (jfield v ''executionMode''),
     j_cwd = map_option str_of (jfield v ''cwd''),
     j_queueOrder = map_option str_of (jfield v ''queueOrder''),
     j_requestId = map_option str_of (jfield v ''requestId''),
     j_requestFingerprint = map_option str_of (jfield v ''requestFingerprint''),
     j_originRoutingKey = map_option str_of (jfield v ''originRoutingKey''),
     j_source = map_option (enum_of source_name JOB_SOURCE_VALUES) (jfield v ''source''),
     j_sourceName = map_option str_of (jfield v ''sourceName''),
     j_metadata = map_option props_of (jfield v ''metadata''),
     j_notifyUrl = map_option str_of (jfield v ''notifyUrl''),
     j_status = enum_of status_name JOB_STATUSES (the (jfield v ''status'')),
     j_createdAt = str_of (the (jfield v ''createdAt'')),
     j_startedAt = map_option str_of (jfield v ''startedAt''),
     j_finishedAt = map_option str_of (jfield v ''finishedAt''),
     j_exitCode = map_option nullable_num (jfield v ''exitCode''),
     j_stdout = str_of (the (jfield v ''stdout'')),
     j_stderr = str_of (the (jfield v ''stderr'')),
     j_execution = exec_meta_of (the (jfield v ''execution'')),
     j_session = map_option tmux_session_of (jfield v ''session''),
     j_notifyOutcome = map_option notify_outcome_of (jfield v ''notifyOutcome''),
     j_notifyHistory = map_option (map notify_outcome_of \<circ> items_of) (jfield v ''notifyHistory'')\<rparr>"

section \<open>What is written is accepted and read back\<close>

lemma bind_map_option_id [simp]: "Option.bind (Some x) id = x"
  by simp

lemma optional_map [simp]: "(\<And>x. p (f x)) \<Longrightarrow> optional p (map_option f v)"
  by (cases v) auto

lemma map_option_read [simp]: "(\<And>x. g (f x) = x) \<Longrightarrow> map_option g (map_option f v) = v"
  by (cases v) auto

lemma exec_meta_fields:
  "jfield (exec_meta_json e) ''command'' = Some (JStr (em_command e))"
  "jfield (exec_meta_json e) ''timeoutMs'' = Some (JNum (em_timeoutMs e))"
  "jfield (exec_meta_json e) ''maxOutputChars'' = Some (JNum (em_maxOutputChars e))"
  "jfield (exec_meta_json e) ''durationMs'' = map_option JNum (em_durationMs e)"
  "jfield (exec_meta_json e) ''timedOut'' = map_option JBool (em_timedOut e)"
  "jfield (exec_meta_json e) ''outputTruncated'' = map_option JBool (em_outputTruncated e)"
  "jfield (exec_meta_json e) ''errorType'' = map_option (JStr \<circ> error_type_name) (em_errorType e)"
  "jfield (exec_meta_json e) ''recoveredFromRestart'' = map_option JBool (em_recoveredFromRestart e)"
  by (simp_all add: exec_meta_json_def)

lemma isExecutionMetadata_json [simp]: "isExecutionMetadata (exec_meta_json e)"
  by (simp add: isExecutionMetadata_def exec_meta_fields exec_meta_json_def [THEN arg_cong [of _ _ isRecord]])

lemma exec_meta_of_json [simp]: "exec_meta_of (exec_meta_json e) = e"
  by (simp add: exec_meta_of_def exec_meta_fields)

lemma tmux_session_fields:
  "jfield (tmux_session_json s) ''backend'' = Some (JStr ''tmux'')"
  "jfield (tmux_session_json s) ''sessionName'' = Some (JStr (ts_sessionName s))"
  "jfield (tmux_session_json s) ''status'' = Some (JStr (tmux_status_name (ts_status s)))"
  "jfield (tmux_session_json s) ''createdAt'' = Some (JStr (ts_createdAt s))"
  "jfield (tmux_session_json s) ''updatedAt'' = Some (JStr (ts_updatedAt s))"
  "jfield (tmux_session_json s) ''attachCommand'' = Some (JStr (ts_attachCommand s))"
  "jfield (tmux_session_json s) ''cwd'' = map_option JStr (ts_cwd s)"
  "jfield (tmux_session_json s) ''lastExitCode'' = map_option json_nullable (ts_lastExitCode s)"
  by (simp_all add: tmux_session_json_def)

lemma isTmuxSessionState_json [simp]: "isTmuxSessionState (tmux_session_json s)"
  by (simp add: isTmuxSessionState_def tmux_session_fields tmux_session_json_def [THEN arg_cong [of _ _ isRecord]])

lemma tmux_session_of_json [simp]: "tmux_session_of (tmux_session_json s) = s"
  by (simp add: tmux_session_of_def tmux_session_fields)

lemma channel_result_fields:
  "jfield (channel_result_json r) ''status'' = Some (JStr (channel_status_name (cr_status r)))"
  "jfield (channel_result_json r) ''error'' = map_option JStr (cr_error r)"
  "jfield (channel_result_json r) ''httpStatus'' = map_option JNum (cr_httpStatus r)"
  "jfield (channel_result_json r) ''attempts'' = map_option JNum (cr_attempts r)"
  "jfield (channel_result_json r) ''skippedReason'' = map_option JStr (cr_skippedReason r)"
  by (simp_all add: channel_result_json_def)

lemma isNotifyChannelResult_json [simp]: "isNotifyChannelResult (channel_result_json r)"
  by (simp add: isNotifyChannelResult_def channel_result_fields channel_result_json_def [THEN arg_cong [of _ _ isRecord]])

lemma channel_result_of_json [simp]: "channel_result_of (channel_result_json r) = r"
  by (simp add: channel_result_of_def channel_result_fields)

lemma notify_outcome_fields:
  "jfield (notify_outcome_json r) ''attemptedAt'' = Some (JStr (no_attemptedAt r))"
  "jfield (notify_outcome_json r) ''mode'' = Some (JStr (notify_mode_name (no_mode r)))"
  "jfield (notify_outcome_json r) ''trigger'' = map_option (JStr \<circ> trigger_name) (no_trigger r)"
  "jfield (notify_outcome_json r) ''attemptIndex'' = map_option JNum (no_attemptIndex r)"
  "jfield (notify_outcome_json r) ''claudeWebhook'' = map_option channel_result_json (no_claudeWebhook r)"
  "jfield (notify_outcome_json r) ''openclaw'' = map_option channel_result_json (no_openclaw r)"
  "jfield (notify_outcome_json r) ''telegram'' = map_option channel_result_json (no_telegram r)"
  by (simp_all add: notify_outcome_json_def)

lemma isNotifyOutcome_json [simp]: "isNotifyOutcome (notify_outcome_json r)"
  by (simp add: isNotifyOutcome_def notify_outcome_fields notify_outcome_json_def [THEN arg_cong [of _ _ isRecord]])

lemma notify_outcome_of_json [simp]: "notify_outcome_of (notify_outcome_json r) = r"
  by (simp add: notify_outcome_of_def notify_outcome_fields)

lemma job_fields:
  "jfield (job_json j) ''id'' = Some (JStr (j_id j))"
  "jfield (job_json j) ''prompt'' = Some (JStr (j_prompt j))"
  "jfield (job_json j) ''executionMode'' = map_option (JStr \<circ> mode_name) (j_executionMode j)"
  "jfield (job_json j) ''cwd'' = map_option JStr (j_cwd j)"
  "jfield (job_json j) ''queueOrder'' = map_option JStr (j_queueOrder j)"
  "jfield (job_json j) ''requestId'' = map_option JStr (j_requestId j)"
  "jfield (job_json j) ''requestFingerprint'' = map_option JStr (j_requestFingerprint j)"
  "jfield (job_json j) ''originRoutingKey'' = map_option JStr (j_originRoutingKey j)"
  "jfield (job_json j) ''source'' = map_option (JStr \<circ> source_name) (j_source j)"
  "jfield (job_json j) ''sourceName'' = map_option JStr (j_sourceName j)"
  "jfield (job_json j) ''metadata'' = map_option JObj (j_metadata j)"
  "jfield (job_json j) ''notifyUrl'' = map_option JStr (j_notifyUrl j)"
  by (simp_all add: job_json_def)

lemma job_fields2:
  "jfield (job_json j) ''status'' = Some (JStr (status_name (j_status j)))"
  "jfield (job_json j) ''createdAt'' = Some (JStr (j_createdAt j))"
  "jfield (job_json j) ''startedAt'' = map_option JStr (j_startedAt j)"
  "jfield (job_json j) ''finishedAt'' = map_option JStr (j_finishedAt j)"
  "jfield (job_json j) ''exitCode'' = map_option json_nullable (j_exitCode j)"
  "jfield (job_json j) ''stdout'' = Some (JStr (j_stdout j))"
  "jfield (job_json j) ''stderr'' = Some (JStr (j_stderr j))"
  "jfield (job_json j) ''execution'' = Some (exec_meta_json (j_execution j))"
  "jfield (job_json j) ''session'' = map_option tmux_session_json (j_session j)"
  "jfield (job_json j) ''notifyOutcome'' = map_option notify_outcome_json (j_notifyOutcome j)"
  "jfield (job_json j) ''notifyHistory'' = map_option (JArr \<circ> map notify_outcome_json) (j_notifyHistory j)"
  by (simp_all add: job_json_def)

lemmas json_fields =
  exec_meta_fields tmux_session_fields channel_result_fields notify_outcome_fields
  job_fields job_fields2

lemma isRecord_job_json [simp]: "isRecord (job_json j)"
  by (simp add: job_json_def)

lemma isBridgeJob_job_json: "isBridgeJob (job_json j) jobId \<longleftrightarrow> jobId = j_id j"
  by (auto simp: isBridgeJob_def job_fields job_fields2 list_all_iff)

lemma job_of_job_json [simp]: "job_of (job_json j) = j"
  by (simp add: job_of_def job_fields job_fields2 comp_def)

lemma normalizeLegacyJobSource_job_json [simp]: "normalizeLegacyJobSource (job_json j) = job_json j"
proof -
  have "jfield (job_json j) ''source'' \<noteq> Some (JStr ''synapse'')"
    by (cases "j_source j") (auto simp: job_fields elim: source_name.elims)
  then show ?thesis by (cases "job_json j") (auto simp: normalizeLegacyJobSource_def)
qed

lemma isBridgeJob_job_of_id: "isBridgeJob v jobId \<Longrightarrow> j_id (job_of v) = jobId"
  by (simp add: isBridgeJob_def job_of_def)

end
