(* ===== verification/PrivateFs.thy ===== *)
theory PrivateFs
  imports Prelude JsonValue "HOL-Library.AList"
begin

text \<open>
  The state directories on disk and \<open>src/jobs/private-state-directory.ts\<close>: file name
  patterns, \<open>ensurePrivateOwnedDirectory\<close>, \<open>assertPrivateOwnedDirectory\<close>,
  \<open>assertPrivateOwnedFile\<close> and \<open>tightenPrivateOwnedFile\<close>.

  A path is the list of its components from the root. The file system is an association list
  from paths to nodes, in directory order; a symbolic link is a leaf that is never followed (the
  code refuses paths with link components before it uses them). A file's content is the value
  \<open>JSON.parse\<close> gives for it, or, when it would throw, the raw text.
\<close>

section \<open>The file system\<close>

datatype content = JsonText json | RawText string

datatype node_kind = FileNode content | DirNode | LinkNode

record fnode =
  n_kind :: node_kind
  n_uid :: nat
  n_mode :: nat

type_synonym path = "string list"
type_synonym fs = "(path \<times> fnode) list"

text \<open>The process: its platform and its user (\<open>process.getuid\<close> is absent on Windows).\<close>

record process_env =
  pe_win32 :: bool
  pe_uid :: "nat option"

definition PRIVATE_DIRECTORY_MODE :: nat where "PRIVATE_DIRECTORY_MODE = 448"
definition PRIVATE_FILE_MODE :: nat where "PRIVATE_FILE_MODE = 384"

definition lstatIfExists :: "path \<Rightarrow> fs \<Rightarrow> fnode option" where
  "lstatIfExists p fs = map_of fs p"

definition isFile :: "fnode \<Rightarrow> bool" where
  "isFile n \<longleftrightarrow> (case n_kind n of FileNode _ \<Rightarrow> True | _ \<Rightarrow> False)"

definition isDirectory :: "fnode \<Rightarrow> bool" where
  "isDirectory n \<longleftrightarrow> n_kind n = DirNode"

definition isSymbolicLink :: "fnode \<Rightarrow> bool" where
  "isSymbolicLink n \<longleftrightarrow> n_kind n = LinkNode"

definition readdir :: "path \<Rightarrow> fs \<Rightarrow> (string \<times> fnode) list" where
  "readdir d fs = map (\<lambda>(p, n). (last p, n)) (filter (\<lambda>(p, n). p \<noteq> [] \<and> butlast p = d) fs)"

definition fs_put :: "path \<Rightarrow> fnode \<Rightarrow> fs \<Rightarrow> fs" where
  "fs_put p n fs = AList.update p n fs"

definition fs_rm :: "path \<Rightarrow> fs \<Rightarrow> fs" where
  \<comment> \<open>\<open>rm\<close> with \<open>force\<close> of a file: a missing file is no error\<close>
  "fs_rm p fs = AList.delete p fs"

definition fs_rename :: "path \<Rightarrow> path \<Rightarrow> fs \<Rightarrow> fs" where
  "fs_rename p q fs = (case map_of fs p of None \<Rightarrow> fs | Some n \<Rightarrow> fs_put q n (fs_rm p fs))"

definition chmod :: "path \<Rightarrow> nat \<Rightarrow> fs \<Rightarrow> fs" where
  "chmod p m fs = (case map_of fs p of None \<Rightarrow> fs | Some n \<Rightarrow> fs_put p (n\<lparr>n_mode := m\<rparr>) fs)"

definition uid_of :: "process_env \<Rightarrow> nat" where
  "uid_of env = nullish (pe_uid env) 0"

definition write_file :: "process_env \<Rightarrow> path \<Rightarrow> content \<Rightarrow> nat \<Rightarrow> fs \<Rightarrow> fs" where
  \<comment> \<open>\<open>writeFile\<close>: the mode applies only when the file is created\<close>
  "write_file env p c m fs =
     (case map_of fs p of
        None \<Rightarrow> fs_put p \<lparr>n_kind = FileNode c, n_uid = uid_of env, n_mode = m\<rparr> fs
      | Some n \<Rightarrow> fs_put p (n\<lparr>n_kind := FileNode c\<rparr>) fs)"

definition file_content :: "path \<Rightarrow> fs \<Rightarrow> content option" where
  "file_content p fs =
     (case map_of fs p of
        Some n \<Rightarrow> (case n_kind n of FileNode c \<Rightarrow> Some c | _ \<Rightarrow> None)
      | None \<Rightarrow> None)"

fun prefixes_from :: "path \<Rightarrow> string list \<Rightarrow> path list" where
  \<comment> \<open>the paths visited when the components are joined one by one\<close>
  "prefixes_from base [] = []"
| "prefixes_from base (c # cs) = (base @ [c]) # prefixes_from (base @ [c]) cs"

fun mkdir_missing :: "process_env \<Rightarrow> nat \<Rightarrow> path list \<Rightarrow> fs \<Rightarrow> fs" where
  "mkdir_missing env m [] fs = fs"
| "mkdir_missing env m (p # ps) fs =
     mkdir_missing env m ps
       (if map_of fs p = None then fs_put p \<lparr>n_kind = DirNode, n_uid = uid_of env, n_mode = m\<rparr> fs
        else fs)"

subsection \<open>Lookup after update\<close>

lemma map_of_fs_put [store_simps]: "map_of (fs_put p n fs) = (map_of fs)(p \<mapsto> n)"
  by (simp add: fs_put_def update_conv')

lemma map_of_fs_rm [store_simps]: "map_of (fs_rm p fs) = (map_of fs)(p := None)"
  by (simp add: fs_rm_def delete_conv')

lemma map_of_fs_rename [store_simps]:
  "map_of (fs_rename p q fs) =
     (case map_of fs p of None \<Rightarrow> map_of fs | Some n \<Rightarrow> (map_of fs)(p := None, q \<mapsto> n))"
  by (simp add: fs_rename_def store_simps split: option.splits)

lemma map_of_chmod [store_simps]:
  "map_of (chmod p m fs) =
     (case map_of fs p of None \<Rightarrow> map_of fs | Some n \<Rightarrow> (map_of fs)(p \<mapsto> n\<lparr>n_mode := m\<rparr>))"
  by (simp add: chmod_def store_simps split: option.splits)

lemma file_content_put: "file_content p (fs_put q n fs) =
    (if p = q then (case n_kind n of FileNode c \<Rightarrow> Some c | _ \<Rightarrow> None) else file_content p fs)"
  by (simp add: file_content_def store_simps)

lemma file_content_rm: "file_content p (fs_rm q fs) = (if p = q then None else file_content p fs)"
  by (simp add: file_content_def store_simps)

lemma file_content_chmod [simp]: "file_content p (chmod q m fs) = file_content p fs"
  by (auto simp: file_content_def store_simps split: option.splits)

lemma file_content_write:
  "file_content p (write_file env q c m fs) = (if p = q then Some c else file_content p fs)"
  by (simp add: write_file_def file_content_put split: option.split)

lemma file_content_rename:
  "p \<noteq> q \<Longrightarrow> file_content r (fs_rename p q fs) =
     (if map_of fs p = None then file_content r fs
      else if r = q then file_content p fs else if r = p then None else file_content r fs)"
  by (simp add: fs_rename_def file_content_put file_content_rm split: option.split)
     (auto simp: file_content_def)

lemma file_content_missing [simp]: "map_of fs p = None \<Longrightarrow> file_content p fs = None"
  by (simp add: file_content_def)

lemma file_content_mkdir [simp]: "file_content p (mkdir_missing env m ps fs) = file_content p fs"
  by (induction ps arbitrary: fs) (auto simp: file_content_put)

lemma map_of_mkdir:
  "map_of fs q \<noteq> None \<Longrightarrow> map_of (mkdir_missing env m ps fs) q = map_of fs q"
  by (induction ps arbitrary: fs) (auto simp: store_simps)

text \<open>Paths stay unique: the operations keep the association list a map.\<close>

definition fs_ok :: "fs \<Rightarrow> bool" where
  "fs_ok fs \<longleftrightarrow> distinct (map fst fs)"

lemma fs_ok_put [simp]: "fs_ok fs \<Longrightarrow> fs_ok (fs_put p n fs)"
  by (simp add: fs_ok_def fs_put_def distinct_update)

lemma fs_ok_rm [simp]: "fs_ok fs \<Longrightarrow> fs_ok (fs_rm p fs)"
  by (simp add: fs_ok_def fs_rm_def distinct_delete)

lemma fs_ok_rename [simp]: "fs_ok fs \<Longrightarrow> fs_ok (fs_rename p q fs)"
  by (simp add: fs_rename_def split: option.split)

lemma fs_ok_chmod [simp]: "fs_ok fs \<Longrightarrow> fs_ok (chmod p m fs)"
  by (simp add: chmod_def split: option.split)

lemma fs_ok_write [simp]: "fs_ok fs \<Longrightarrow> fs_ok (write_file env p c m fs)"
  by (simp add: write_file_def split: option.split)

lemma fs_ok_mkdir [simp]: "fs_ok fs \<Longrightarrow> fs_ok (mkdir_missing env m ps fs)"
  by (induction ps arbitrary: fs) simp_all

lemma readdir_iff:
  assumes "fs_ok fs"
  shows "(name, n) \<in> set (readdir d fs) \<longleftrightarrow> map_of fs (d @ [name]) = Some n"
proof
  assume "(name, n) \<in> set (readdir d fs)"
  then obtain p where "(p, n) \<in> set fs" "p \<noteq> []" "butlast p = d" "name = last p"
    by (auto simp: readdir_def)
  then have "p = d @ [name]" by auto
  with \<open>(p, n) \<in> set fs\<close> assms show "map_of fs (d @ [name]) = Some n"
    by (simp add: fs_ok_def)
next
  assume "map_of fs (d @ [name]) = Some n"
  then have "(d @ [name], n) \<in> set fs" by (rule map_of_SomeD)
  then show "(name, n) \<in> set (readdir d fs)" by (force simp: readdir_def)
qed

section \<open>Name patterns\<close>

definition is_hex :: "char \<Rightarrow> bool" where
  \<comment> \<open>\<open>[0-9a-f]\<close> with the \<open>i\<close> flag\<close>
  "is_hex c \<longleftrightarrow> is_digit c \<or> (let n = (of_char c :: nat) in (65 \<le> n \<and> n \<le> 70) \<or> (97 \<le> n \<and> n \<le> 102))"

definition JOB_ID_PATTERN :: "string \<Rightarrow> bool" where
  "JOB_ID_PATTERN s \<longleftrightarrow>
     map length (split_on CHR ''-'' s) = [8, 4, 4, 4, 12] \<and>
     list_all (list_all is_hex) (split_on CHR ''-'' s)"

definition JOB_STATE_FILE_PATTERN :: "string \<Rightarrow> bool" where
  "JOB_STATE_FILE_PATTERN s \<longleftrightarrow>
     JOB_ID_PATTERN (take 36 s) \<and>
     (let rest = drop 36 s in
      to_lower rest = ''.json'' \<or>
      (to_lower (take 6 rest) = ''.json.'' \<and> JOB_ID_PATTERN (take 36 (drop 6 rest)) \<and>
       to_lower (drop 42 rest) = ''.tmp''))"

fun matches_template :: "string \<Rightarrow> string \<Rightarrow> bool" where
  \<comment> \<open>a \<open>9\<close> of the template stands for a digit, any other character for itself, in either case\<close>
  "matches_template [] [] = True"
| "matches_template (t # ts) (c # cs) =
     ((if t = CHR ''9'' then is_digit c else to_lower_char c = to_lower_char t) \<and> matches_template ts cs)"
| "matches_template _ _ = False"

definition QUARANTINE_FILE_PATTERN :: "string \<Rightarrow> bool" where
  "QUARANTINE_FILE_PATTERN s \<longleftrightarrow>
     30 \<le> length s \<and>
     matches_template ''.9999-99-99T99-99-99-999Z.json'' (last_n 30 s) \<and>
     (let front = take (length s - 30) s in
      (\<exists>suffix \<in> set [''.invalid'', ''.malformed''].
         to_lower (last_n (length suffix) front) = suffix \<and>
         (let stem = take (length front - length suffix) front in
          stem \<noteq> [] \<and> CHR ''/'' \<notin> set stem \<and> char_of (92::nat) \<notin> set stem)))"

section \<open>Private directories and files\<close>

datatype private_error =
    LinkComponent path
  | MustNotBeLink path
  | NotADirectory path
  | MustBeRealDirectory path
  | MustBeRealFile path
  | NotOwned path
  | UnrelatedEntry string path
  | MissingPath path

fun scan_components :: "path list \<Rightarrow> fs \<Rightarrow> private_error + unit" where
  "scan_components [] fs = Inr ()"
| "scan_components (p # ps) fs =
     (case lstatIfExists p fs of
        None \<Rightarrow> Inr ()
      | Some n \<Rightarrow> (if isSymbolicLink n then Inl (LinkComponent p) else scan_components ps fs))"

definition assertNoSymlinkComponents :: "path \<Rightarrow> fs \<Rightarrow> private_error + unit" where
  "assertNoSymlinkComponents p fs = scan_components (prefixes_from [] p) fs"

definition owned :: "process_env \<Rightarrow> fnode \<Rightarrow> bool" where
  \<comment> \<open>the test \<open>uid !== undefined && stat.uid !== uid\<close>, negated\<close>
  "owned env n \<longleftrightarrow> (case pe_uid env of None \<Rightarrow> True | Some u \<Rightarrow> n_uid n = u)"

definition unrelated_entry :: "(string \<times> fnode \<Rightarrow> bool) \<Rightarrow> path \<Rightarrow> fs \<Rightarrow> (string \<times> fnode) option" where
  "unrelated_entry accepts d fs = find (\<lambda>e. isSymbolicLink (snd e) \<or> \<not> accepts e) (readdir d fs)"

definition mkdir_recursive :: "process_env \<Rightarrow> nat \<Rightarrow> path \<Rightarrow> (fs, private_error, unit) op" where
  "mkdir_recursive env m d = (\<lambda>fs.
     if list_all (\<lambda>p. case map_of fs p of None \<Rightarrow> True | Some n \<Rightarrow> isDirectory n) (prefixes_from [] d)
     then (Inr (), mkdir_missing env m (prefixes_from [] d) fs)
     else (Inl (NotADirectory d), fs))"

definition default_directory_mode :: nat where "default_directory_mode = 511"

definition claim_directory ::
  "process_env \<Rightarrow> path \<Rightarrow> (string \<times> fnode \<Rightarrow> bool) \<Rightarrow> bool \<Rightarrow> (fs, private_error, unit) op" where
  \<comment> \<open>\<open>ensurePrivateOwnedDirectory\<close> from the \<open>lstat\<close> that follows \<open>mkdir\<close>\<close>
  "claim_directory env d acceptsEntry requireDedicated = (\<lambda>fs.
     case lstatIfExists d fs of
       None \<Rightarrow> (Inl (MissingPath d), fs)
     | Some n \<Rightarrow>
         (if isSymbolicLink n \<or> \<not> isDirectory n then (Inl (MustBeRealDirectory d), fs)
          else if \<not> owned env n then (Inl (NotOwned d), fs)
          else
            (case unrelated_entry acceptsEntry d fs of
               Some e \<Rightarrow>
                 (if requireDedicated then (Inl (UnrelatedEntry (fst e) d), fs) else (Inr (), fs))
             | None \<Rightarrow> (Inr (), chmod d PRIVATE_DIRECTORY_MODE fs))))"

definition ensurePrivateOwnedDirectory ::
  "process_env \<Rightarrow> path \<Rightarrow> (string \<times> fnode \<Rightarrow> bool) \<Rightarrow> bool \<Rightarrow> (fs, private_error, unit) op" where
  "ensurePrivateOwnedDirectory env d acceptsEntry requireDedicated = (\<lambda>fs.
     if pe_win32 env then mkdir_recursive env default_directory_mode d fs
     else
       (case assertNoSymlinkComponents d fs of
          Inl e \<Rightarrow> (Inl e, fs)
        | Inr _ \<Rightarrow>
            (case lstatIfExists d fs of
               Some n \<Rightarrow>
                 (if isSymbolicLink n then (Inl (MustNotBeLink d), fs)
                  else if \<not> isDirectory n then (Inl (NotADirectory d), fs)
                  else op_bind (mkdir_recursive env PRIVATE_DIRECTORY_MODE d)
                         (\<lambda>_. claim_directory env d acceptsEntry requireDedicated) fs)
             | None \<Rightarrow> op_bind (mkdir_recursive env PRIVATE_DIRECTORY_MODE d)
                         (\<lambda>_. claim_directory env d acceptsEntry requireDedicated) fs)))"

definition assertPrivateOwnedDirectory ::
  "process_env \<Rightarrow> path \<Rightarrow> (string \<times> fnode \<Rightarrow> bool) \<Rightarrow> fs \<Rightarrow> private_error + unit" where
  "assertPrivateOwnedDirectory env d acceptsEntry fs =
     (case assertNoSymlinkComponents d fs of
        Inl e \<Rightarrow> Inl e
      | Inr _ \<Rightarrow>
          (case lstatIfExists d fs of
             None \<Rightarrow> Inl (MissingPath d)
           | Some n \<Rightarrow>
               (if isSymbolicLink n \<or> \<not> isDirectory n then Inl (MustBeRealDirectory d)
                else if \<not> owned env n then Inl (NotOwned d)
                else
                  (case unrelated_entry acceptsEntry d fs of
                     Some e \<Rightarrow> Inl (UnrelatedEntry (fst e) d)
                   | None \<Rightarrow> Inr ()))))"

definition assertPrivateOwnedFile :: "process_env \<Rightarrow> path \<Rightarrow> fs \<Rightarrow> private_error + unit" where
  "assertPrivateOwnedFile env p fs =
     (case assertNoSymlinkComponents p fs of
        Inl e \<Rightarrow> Inl e
      | Inr _ \<Rightarrow>
          (case lstatIfExists p fs of
             None \<Rightarrow> Inl (MissingPath p)
           | Some n \<Rightarrow>
               (if isSymbolicLink n \<or> \<not> isFile n then Inl (MustBeRealFile p)
                else if \<not> owned env n then Inl (NotOwned p)
                else Inr ())))"

definition tightenPrivateOwnedFile :: "process_env \<Rightarrow> path \<Rightarrow> (fs, private_error, unit) op" where
  "tightenPrivateOwnedFile env p = (\<lambda>fs.
     case assertPrivateOwnedFile env p fs of
       Inl e \<Rightarrow> (Inl e, fs)
     | Inr _ \<Rightarrow> (Inr (), if pe_win32 env then fs else chmod p PRIVATE_FILE_MODE fs))"

section \<open>What the checks guarantee\<close>

lemma scan_components_ok:
  "scan_components ps fs = Inr () \<Longrightarrow> (\<forall>p \<in> set ps. map_of fs p \<noteq> None) \<Longrightarrow> p \<in> set ps \<Longrightarrow>
   map_of fs p = Some n \<Longrightarrow> \<not> isSymbolicLink n"
  by (induction ps) (auto simp: lstatIfExists_def split: option.splits if_splits)

lemma file_content_mkdir_recursive [simp]:
  "mkdir_recursive env m d fs = (r, fs') \<Longrightarrow> file_content p fs' = file_content p fs"
  by (auto simp: mkdir_recursive_def split: if_splits)

lemma file_content_claim [simp]:
  "claim_directory env d acc ded fs = (r, fs') \<Longrightarrow> file_content p fs' = file_content p fs"
  by (auto simp: claim_directory_def split: if_splits option.splits)

text \<open>Preparing a directory changes no file.\<close>

lemma file_content_ensure:
  "ensurePrivateOwnedDirectory env d acc ded fs = (r, fs') \<Longrightarrow> file_content p fs' = file_content p fs"
  by (auto simp: ensurePrivateOwnedDirectory_def op_bind_def
      split: if_splits option.splits sum.splits prod.splits)

lemma file_content_tighten:
  "tightenPrivateOwnedFile env q fs = (r, fs') \<Longrightarrow> file_content p fs' = file_content p fs"
  by (auto simp: tightenPrivateOwnedFile_def split: sum.splits if_splits)

lemma fs_ok_mkdir_recursive: "op_keeps fs_ok (mkdir_recursive env m d)"
  by (rule op_keepsI) (auto simp: mkdir_recursive_def)

lemma fs_ok_claim: "op_keeps fs_ok (claim_directory env d acc ded)"
  by (rule op_keepsI) (auto simp: claim_directory_def split: option.split)

lemma fs_ok_ensure: "op_keeps fs_ok (ensurePrivateOwnedDirectory env d acc ded)"
proof (rule op_keepsI)
  fix fs assume ok: "fs_ok fs"
  have "op_keeps fs_ok (op_bind (mkdir_recursive env PRIVATE_DIRECTORY_MODE d)
          (\<lambda>_. claim_directory env d acc ded))"
    by (intro op_keeps_bind fs_ok_mkdir_recursive fs_ok_claim)
  with ok have "fs_ok (snd (op_bind (mkdir_recursive env PRIVATE_DIRECTORY_MODE d)
          (\<lambda>_. claim_directory env d acc ded) fs))"
    by (simp add: op_keeps_def)
  moreover have "fs_ok (snd (mkdir_recursive env default_directory_mode d fs))"
    using fs_ok_mkdir_recursive ok by (auto simp: op_keeps_def)
  ultimately show "fs_ok (snd (ensurePrivateOwnedDirectory env d acc ded fs))"
    using ok by (auto simp: ensurePrivateOwnedDirectory_def split: sum.split option.split)
qed

lemma fs_ok_tighten: "op_keeps fs_ok (tightenPrivateOwnedFile env q)"
  by (rule op_keepsI) (auto simp: tightenPrivateOwnedFile_def split: sum.split)

lemma chmod_other: "map_of (chmod p m fs) q = Some n \<Longrightarrow> q \<noteq> p \<Longrightarrow> map_of fs q = Some n"
  by (auto simp: store_simps split: option.splits)

end
