(* ===== verification/JobRepository.thy ===== *)
theory JobRepository
  imports JobValidation PrivateFs
begin

text \<open>
  The file-backed job queue, \<open>src/jobs/job-queue.repository.ts\<close>. One method is one
  operation on the repository state; \<open>withJobLock\<close> makes \<open>save\<close> and \<open>transition\<close> of one
  job exclude each other, so each is one atomic step here.

  What the process gets from outside is data of the model: the standard library's
  \<open>toISOString\<close>, \<open>Date.parse\<close>, \<open>localeCompare\<close> and \<open>randomUUID\<close> are functions of the
  configuration, the current time is a field of the state, and \<open>rs_writes\<close> says how the
  coming file writes end (an empty list means they succeed), so that a failed write is an
  execution of the model.
\<close>

datatype write_outcome = WriteOk | WriteFails | RenameFails

datatype repo_error =
    BadRequest string
  | PrivateError private_error
  | NotAFile path
  | WriteError

record repo_config =
  rc_env :: process_env
  rc_jobsDirectory :: path
  rc_tmuxSessionsDirectory :: path
  rc_toISOString :: "int \<Rightarrow> string"
  rc_parseDate :: "string \<Rightarrow> int option"
  rc_localeCompare :: "string \<Rightarrow> string \<Rightarrow> int"
  rc_uuid :: "nat \<Rightarrow> string"

record repo_state =
  rs_fs :: fs
  rs_ready :: bool
  rs_now :: int
  rs_uuids :: nat
  rs_writes :: "write_outcome list"

type_synonym 'a repo_op = "(repo_state, repo_error, 'a) op"

definition INVALID_JOBS_DIRECTORY :: string where "INVALID_JOBS_DIRECTORY = ''invalid''"
definition LOCK_FILE_NAME :: string where "LOCK_FILE_NAME = ''.omx-bridge-instance.lock''"

definition on_fs :: "(fs, private_error, 'a) op \<Rightarrow> 'a repo_op" where
  "on_fs m = (\<lambda>s. case m (rs_fs s) of
       (Inl e, f) \<Rightarrow> (Inl (PrivateError e), s\<lparr>rs_fs := f\<rparr>)
     | (Inr x, f) \<Rightarrow> (Inr x, s\<lparr>rs_fs := f\<rparr>))"

definition randomUUID :: "repo_config \<Rightarrow> string repo_op" where
  "randomUUID cfg = (\<lambda>s. (Inr (rc_uuid cfg (rs_uuids s)), s\<lparr>rs_uuids := Suc (rs_uuids s)\<rparr>))"

definition next_write :: "write_outcome repo_op" where
  "next_write = (\<lambda>s. case rs_writes s of
       [] \<Rightarrow> (Inr WriteOk, s)
     | w # ws \<Rightarrow> (Inr w, s\<lparr>rs_writes := ws\<rparr>))"

section \<open>Directory and paths\<close>

definition nestedTmuxDirectory :: "repo_config \<Rightarrow> string option" where
  "nestedTmuxDirectory cfg =
     (let t = rc_tmuxSessionsDirectory cfg in
      if butlast t = rc_jobsDirectory cfg then Some (if t = [] then [] else last t) else None)"

definition accepts_jobs_entry :: "repo_config \<Rightarrow> string \<times> fnode \<Rightarrow> bool" where
  "accepts_jobs_entry cfg e \<longleftrightarrow>
     (isFile (snd e) \<and> (fst e = LOCK_FILE_NAME \<or> JOB_STATE_FILE_PATTERN (fst e))) \<or>
     (isDirectory (snd e) \<and>
      (fst e = INVALID_JOBS_DIRECTORY \<or> Some (fst e) = nestedTmuxDirectory cfg))"

definition prepareDirectory :: "repo_config \<Rightarrow> unit repo_op" where
  "prepareDirectory cfg =
     on_fs (ensurePrivateOwnedDirectory (rc_env cfg) (rc_jobsDirectory cfg)
              (accepts_jobs_entry cfg) False)"

definition ensureReady :: "repo_config \<Rightarrow> unit repo_op" where
  "ensureReady cfg = (\<lambda>s.
     if rs_ready s then (Inr (), s)
     else (case prepareDirectory cfg s of
             (Inl e, s') \<Rightarrow> (Inl e, s')
           | (Inr _, s') \<Rightarrow> (Inr (), s'\<lparr>rs_ready := True\<rparr>)))"

definition job_file :: "repo_config \<Rightarrow> string \<Rightarrow> path" where
  "job_file cfg name = rc_jobsDirectory cfg @ [name @ ''.json'']"

definition jobPath :: "repo_config \<Rightarrow> string \<Rightarrow> path repo_op" where
  "jobPath cfg jobId =
     (if \<not> JOB_ID_PATTERN jobId then op_fail (BadRequest jobId)
      else op_return (job_file cfg jobId))"

section \<open>Quarantine and parsing\<close>

datatype quarantine_reason = InvalidJob | MalformedJob

fun reason_name :: "quarantine_reason \<Rightarrow> string" where
  "reason_name InvalidJob = ''invalid''"
| "reason_name MalformedJob = ''malformed''"

definition quarantine_stamp :: "string \<Rightarrow> string" where
  \<comment> \<open>\<open>replace(/[:.]/g, '-')\<close>\<close>
  "quarantine_stamp s = map (\<lambda>c. if c = CHR '':'' \<or> c = CHR ''.'' then CHR ''-'' else c) s"

definition quarantine_path :: "repo_config \<Rightarrow> string \<Rightarrow> quarantine_reason \<Rightarrow> int \<Rightarrow> path" where
  "quarantine_path cfg jobId reason now =
     rc_jobsDirectory cfg @ [INVALID_JOBS_DIRECTORY,
       jobId @ ''.'' @ reason_name reason @ ''.'' @ quarantine_stamp (rc_toISOString cfg now) @ ''.json'']"

definition quarantine_steps ::
  "repo_config \<Rightarrow> path \<Rightarrow> path \<Rightarrow> (fs, private_error, unit) op" where
  "quarantine_steps cfg filePath quarantinePath = (\<lambda>fs.
     case assertPrivateOwnedFile (rc_env cfg) filePath fs of
       Inl e \<Rightarrow> (Inl e, fs)
     | Inr _ \<Rightarrow>
         op_bind (ensurePrivateOwnedDirectory (rc_env cfg)
                    (rc_jobsDirectory cfg @ [INVALID_JOBS_DIRECTORY])
                    (\<lambda>e. isFile (snd e) \<and> QUARANTINE_FILE_PATTERN (fst e)) True)
           (\<lambda>_. op_bind (tightenPrivateOwnedFile (rc_env cfg) filePath)
             (\<lambda>_. op_modify (fs_rename filePath quarantinePath))) fs)"

definition quarantineInvalidJobFile ::
  "repo_config \<Rightarrow> path \<Rightarrow> string \<Rightarrow> quarantine_reason \<Rightarrow> repo_state \<Rightarrow> repo_state" where
  \<comment> \<open>every error is caught and only logged\<close>
  "quarantineInvalidJobFile cfg filePath jobId reason s =
     s\<lparr>rs_fs := snd (quarantine_steps cfg filePath
                       (quarantine_path cfg jobId reason (rs_now s)) (rs_fs s))\<rparr>"

definition parseJob ::
  "repo_config \<Rightarrow> content \<Rightarrow> string \<Rightarrow> path \<Rightarrow> repo_state \<Rightarrow> bridge_job option \<times> repo_state" where
  "parseJob cfg raw jobId filePath s =
     (case raw of
        JsonText v \<Rightarrow>
          (let parsed = normalizeLegacyJobSource v in
           if \<not> isBridgeJob parsed jobId
           then (None, quarantineInvalidJobFile cfg filePath jobId InvalidJob s)
           else (Some (job_of parsed), s))
      | RawText _ \<Rightarrow> (None, quarantineInvalidJobFile cfg filePath jobId MalformedJob s))"

section \<open>Reading and writing one job\<close>

definition getById :: "repo_config \<Rightarrow> string \<Rightarrow> bridge_job option repo_op" where
  "getById cfg jobId =
     op_bind (jobPath cfg jobId) (\<lambda>p s.
       case map_of (rs_fs s) p of
         None \<Rightarrow> (Inr None, s)
       | Some n \<Rightarrow>
           (case n_kind n of
              FileNode raw \<Rightarrow>
                (let (j, s') = parseJob cfg raw jobId p s in (Inr j, s'))
            | _ \<Rightarrow> (Inl (NotAFile p), s)))"

definition writeJob :: "repo_config \<Rightarrow> bridge_job \<Rightarrow> unit repo_op" where
  "writeJob cfg job =
     op_bind (ensureReady cfg) (\<lambda>_.
     op_bind (jobPath cfg (j_id job)) (\<lambda>targetPath.
     op_bind (randomUUID cfg) (\<lambda>u.
     op_bind next_write (\<lambda>w s.
       let tempPath = butlast targetPath @ [last targetPath @ ''.'' @ u @ ''.tmp''];
           written = write_file (rc_env cfg) tempPath (JsonText (job_json job)) PRIVATE_FILE_MODE (rs_fs s)
       in case w of
            WriteFails \<Rightarrow> (Inl WriteError, s\<lparr>rs_fs := fs_rm tempPath (rs_fs s)\<rparr>)
          | RenameFails \<Rightarrow> (Inl WriteError, s\<lparr>rs_fs := fs_rm tempPath written\<rparr>)
          | WriteOk \<Rightarrow> (Inr (), s\<lparr>rs_fs := fs_rename tempPath targetPath written\<rparr>)))))"

definition save :: "repo_config \<Rightarrow> bridge_job \<Rightarrow> bridge_job repo_op" where
  "save cfg job = op_bind (writeJob cfg job) (\<lambda>_. op_return job)"

definition transition ::
  "repo_config \<Rightarrow> string \<Rightarrow> job_status list \<Rightarrow> (bridge_job \<Rightarrow> bridge_job) \<Rightarrow>
   (bool \<times> bridge_job option) repo_op" where
  "transition cfg jobId expectedStatuses upd =
     op_bind (getById cfg jobId) (\<lambda>current.
       case current of
         None \<Rightarrow> op_return (False, None)
       | Some j \<Rightarrow>
           (if j_status j \<notin> set expectedStatuses then op_return (False, Some j)
            else op_bind (writeJob cfg (upd j)) (\<lambda>_. op_return (True, Some (upd j)))))"

section \<open>Listing\<close>

definition is_job_entry :: "string \<times> fnode \<Rightarrow> bool" where
  "is_job_entry e \<longleftrightarrow> isFile (snd e) \<and> ends_with ''.json'' (fst e)"

definition entry_id :: "string \<Rightarrow> string" where
  "entry_id name = take (length name - 5) name"

definition read_entry :: "repo_config \<Rightarrow> string \<Rightarrow> repo_state \<Rightarrow> bridge_job option \<times> repo_state" where
  \<comment> \<open>a file that cannot be read any more is skipped with a warning\<close>
  "read_entry cfg name s =
     (let p = rc_jobsDirectory cfg @ [name] in
      case file_content p (rs_fs s) of
        None \<Rightarrow> (None, s)
      | Some raw \<Rightarrow> parseJob cfg raw (entry_id name) p s)"

fun read_entries :: "repo_config \<Rightarrow> string list \<Rightarrow> repo_state \<Rightarrow> bridge_job list \<times> repo_state" where
  "read_entries cfg [] s = ([], s)"
| "read_entries cfg (name # names) s =
     (let (j, s1) = read_entry cfg name s; (js, s2) = read_entries cfg names s1
      in (case j of None \<Rightarrow> js | Some x \<Rightarrow> x # js, s2))"

definition queue_cmp :: "repo_config \<Rightarrow> bridge_job \<Rightarrow> bridge_job \<Rightarrow> int" where
  "queue_cmp cfg left right =
     (let lo = nullish (j_queueOrder left) (j_createdAt left);
          ro = nullish (j_queueOrder right) (j_createdAt right)
      in if lo \<noteq> ro then rc_localeCompare cfg lo ro
         else if j_createdAt left \<noteq> j_createdAt right
         then rc_localeCompare cfg (j_createdAt left) (j_createdAt right)
         else rc_localeCompare cfg (j_id left) (j_id right))"

definition listAll :: "repo_config \<Rightarrow> bridge_job list repo_op" where
  "listAll cfg =
     op_bind (ensureReady cfg) (\<lambda>_ s.
       let names = map fst (filter is_job_entry (readdir (rc_jobsDirectory cfg) (rs_fs s)));
           (jobs, s') = read_entries cfg names s
       in (Inr (sort_cmp (queue_cmp cfg) jobs), s'))"

definition listByStatus :: "repo_config \<Rightarrow> job_status \<Rightarrow> bridge_job list repo_op" where
  "listByStatus cfg st =
     op_bind (listAll cfg) (\<lambda>jobs. op_return (filter (\<lambda>j. j_status j = st) jobs))"

definition countActive :: "repo_config \<Rightarrow> int repo_op" where
  "countActive cfg =
     op_bind (listAll cfg) (\<lambda>jobs.
       op_return (js_length (filter (\<lambda>j. j_status j = Queued \<or> j_status j = Running) jobs)))"

definition listDurableJobIds :: "repo_config \<Rightarrow> string list repo_op" where
  "listDurableJobIds cfg =
     op_bind (ensureReady cfg) (\<lambda>_ s.
       (Inr (filter JOB_ID_PATTERN
               (map (entry_id \<circ> fst)
                  (filter is_job_entry (readdir (rc_jobsDirectory cfg) (rs_fs s))))), s))"

section \<open>Retention\<close>

record cleanup_entry =
  ce_jobId :: string
  ce_executionMode :: execution_mode
  ce_sessionName :: "string option"

record cleanup_result =
  cl_deleted :: int
  cl_retained :: int
  cl_deletedEntries :: "cleanup_entry list"

definition finished_or_created :: "bridge_job \<Rightarrow> string" where
  \<comment> \<open>\<open>job.finishedAt || job.createdAt\<close>\<close>
  "finished_or_created j =
     (case j_finishedAt j of Some t \<Rightarrow> (if t = [] then j_createdAt j else t) | None \<Rightarrow> j_createdAt j)"

definition terminalSortKey :: "bridge_job \<Rightarrow> string" where
  "terminalSortKey j =
     finished_or_created j @ '':'' @ nullish (j_queueOrder j) [] @ '':'' @ j_id j"

definition terminalTimestampMs :: "repo_config \<Rightarrow> bridge_job \<Rightarrow> int option" where
  "terminalTimestampMs cfg j = rc_parseDate cfg (finished_or_created j)"

definition terminal_cmp :: "repo_config \<Rightarrow> bridge_job \<Rightarrow> bridge_job \<Rightarrow> int" where
  "terminal_cmp cfg left right =
     rc_localeCompare cfg (terminalSortKey left) (terminalSortKey right)"

definition expired :: "repo_config \<Rightarrow> int \<Rightarrow> bridge_job \<Rightarrow> bool" where
  "expired cfg cutoffMs j \<longleftrightarrow>
     (case terminalTimestampMs cfg j of Some t \<Rightarrow> t < cutoffMs | None \<Rightarrow> False)"

definition to_delete :: "repo_config \<Rightarrow> int \<Rightarrow> int \<Rightarrow> bridge_job list \<Rightarrow> string list" where
  \<comment> \<open>the ids added to \<open>deleteIds\<close>, in the order they are added\<close>
  "to_delete cfg cutoffMs maxTerminalJobs terminalJobs =
     (let aged = remdups (map j_id (filter (expired cfg cutoffMs) terminalJobs));
          remaining = filter (\<lambda>j. j_id j \<notin> set aged) terminalJobs;
          overflow = max 0 (js_length remaining - maxTerminalJobs)
      in aged @ remdups (map j_id (js_take overflow remaining)))"

definition cleanup_entry_of :: "bridge_job \<Rightarrow> cleanup_entry" where
  "cleanup_entry_of j = \<lparr>
     ce_jobId = j_id j,
     ce_executionMode = nullish (j_executionMode j) ExecMode,
     ce_sessionName =
       (if j_executionMode j = Some TmuxMode
        then (case j_session j of
                Some t \<Rightarrow> (if ts_sessionName t \<noteq> [] then Some (ts_sessionName t) else None)
              | None \<Rightarrow> None)
        else None)\<rparr>"

definition cleanupTerminalJobs :: "repo_config \<Rightarrow> int \<Rightarrow> int \<Rightarrow> cleanup_result repo_op" where
  "cleanupTerminalJobs cfg retentionDays maxTerminalJobs = (\<lambda>s0.
     let cutoffMs = rs_now s0 - retentionDays * 24 * 60 * 60 * 1000 in
     op_bind (listAll cfg) (\<lambda>jobs.
       let terminalJobs = sort_cmp (terminal_cmp cfg) (filter (\<lambda>j. isTerminal (j_status j)) jobs);
           deleteIds = to_delete cfg cutoffMs maxTerminalJobs terminalJobs
       in op_bind (op_foreach (\<lambda>i. op_bind (jobPath cfg i)
                     (\<lambda>p. op_modify (\<lambda>s. s\<lparr>rs_fs := fs_rm p (rs_fs s)\<rparr>))) deleteIds)
            (\<lambda>_. op_return \<lparr>
               cl_deleted = js_length deleteIds,
               cl_retained = js_length terminalJobs - js_length deleteIds,
               cl_deletedEntries =
                 map cleanup_entry_of (filter (\<lambda>j. j_id j \<in> set deleteIds) terminalJobs)\<rparr>)) s0)"

end
