(* ===== verification/JobStore.thy ===== *)
theory JobStore
  imports JobRepository
begin

text \<open>
  What the job repository promises the services above it. \<open>job_at\<close> is the abstract
  content: the job a valid file of the jobs directory holds for an id. The locale
  \<open>job_store\<close> is the interface the services use (read, write, compare-and-set by status);
  its interpretation shows that the file-level operations, quarantine, temporary files and
  failing writes included, are a map from ids to jobs. The lemmas on \<open>listAll\<close> and on
  retention follow.
\<close>

section \<open>The abstract content\<close>

definition decode_job :: "string \<Rightarrow> content \<Rightarrow> bridge_job option" where
  "decode_job i c =
     (case c of
        JsonText v \<Rightarrow>
          (if isBridgeJob (normalizeLegacyJobSource v) i
           then Some (job_of (normalizeLegacyJobSource v)) else None)
      | RawText _ \<Rightarrow> None)"

definition job_at :: "repo_config \<Rightarrow> repo_state \<Rightarrow> string \<Rightarrow> bridge_job option" where
  "job_at cfg s i = Option.bind (file_content (job_file cfg i) (rs_fs s)) (decode_job i)"

lemma decode_job_id: "decode_job i c = Some j \<Longrightarrow> j_id j = i"
  by (auto simp: decode_job_def isBridgeJob_job_of_id split: content.splits if_splits)

lemma decode_job_json [simp]: "decode_job i (JsonText (job_json j)) = (if i = j_id j then Some j else None)"
  by (simp add: decode_job_def isBridgeJob_job_json)

lemma job_at_id: "job_at cfg s i = Some j \<Longrightarrow> j_id j = i"
  by (auto simp: job_at_def bind_eq_Some_conv dest: decode_job_id)

lemma job_at_cong:
  "(\<And>i. file_content (job_file cfg i) (rs_fs t) = file_content (job_file cfg i) (rs_fs s)) \<Longrightarrow>
   job_at cfg t = job_at cfg s"
  by (simp add: job_at_def fun_eq_iff)

lemma job_file_inj [simp]: "job_file cfg i = job_file cfg k \<longleftrightarrow> i = k"
  by (simp add: job_file_def)

lemma job_file_not_deeper [simp]: "job_file cfg i \<noteq> rc_jobsDirectory cfg @ [a, b]"
  by (simp add: job_file_def)

section \<open>Preparing the directory and quarantining change no job\<close>

lemma ensureReady_content:
  "ensureReady cfg s = (r, s') \<Longrightarrow> file_content p (rs_fs s') = file_content p (rs_fs s)"
  by (auto simp: ensureReady_def prepareDirectory_def on_fs_def
      split: if_splits prod.splits sum.splits dest: file_content_ensure)

lemma ensureReady_frame:
  "ensureReady cfg s = (r, s') \<Longrightarrow>
   rs_now s' = rs_now s \<and> rs_uuids s' = rs_uuids s \<and> rs_writes s' = rs_writes s"
  by (auto simp: ensureReady_def prepareDirectory_def on_fs_def
      split: if_splits prod.splits sum.splits)

lemma fs_ok_ensureReady: "ensureReady cfg s = (r, s') \<Longrightarrow> fs_ok (rs_fs s) \<Longrightarrow> fs_ok (rs_fs s')"
  by (auto simp: ensureReady_def prepareDirectory_def on_fs_def
      split: if_splits prod.splits sum.splits intro: op_keepsD [OF fs_ok_ensure])

lemma job_at_ensureReady: "ensureReady cfg s = (r, s') \<Longrightarrow> job_at cfg s' = job_at cfg s"
  by (rule job_at_cong) (rule ensureReady_content)

text \<open>Whatever its checks say, a quarantine at most moves the one file.\<close>

lemma quarantine_steps_cases:
  assumes "quarantine_steps cfg p q fs = (r, fs')"
  shows "\<exists>fs1. (\<forall>x. file_content x fs1 = file_content x fs) \<and> (fs' = fs1 \<or> fs' = fs_rename p q fs1)"
proof (cases "assertPrivateOwnedFile (rc_env cfg) p fs")
  case (Inl e)
  with assms show ?thesis by (auto simp: quarantine_steps_def)
next
  case (Inr u)
  let ?ens = "ensurePrivateOwnedDirectory (rc_env cfg)
      (rc_jobsDirectory cfg @ [INVALID_JOBS_DIRECTORY])
      (\<lambda>e. isFile (snd e) \<and> QUARANTINE_FILE_PATTERN (fst e)) True fs"
  obtain r1 f1 where e: "?ens = (r1, f1)" by (cases ?ens)
  note c1 = file_content_ensure [OF e]
  obtain r2 f2 where t: "tightenPrivateOwnedFile (rc_env cfg) p f1 = (r2, f2)"
    by (cases "tightenPrivateOwnedFile (rc_env cfg) p f1")
  note c2 = file_content_tighten [OF t]
  show ?thesis
  proof (cases r1)
    case (Inl e1)
    with assms Inr e have "fs' = f1" by (simp add: quarantine_steps_def op_bind_def)
    with c1 show ?thesis by auto
  next
    case Inr1: (Inr u1)
    with assms Inr e t have "fs' = f2 \<or> fs' = fs_rename p q f2"
      by (cases r2) (simp_all add: quarantine_steps_def op_bind_def op_modify_def)
    with c1 c2 show ?thesis by auto
  qed
qed

lemma quarantine_steps_content:
  assumes "quarantine_steps cfg p q fs = (r, fs')" and "p \<noteq> q" and "x \<noteq> p" and "x \<noteq> q"
  shows "file_content x fs' = file_content x fs"
  using quarantine_steps_cases [OF assms(1)] assms(2-4) by (auto simp: file_content_rename)

lemma quarantine_steps_source:
  assumes "quarantine_steps cfg p q fs = (r, fs')" and "p \<noteq> q"
  shows "file_content p fs' = None \<or> file_content p fs' = file_content p fs"
proof -
  obtain fs1 where fs1: "\<And>x. file_content x fs1 = file_content x fs"
    and "fs' = fs1 \<or> fs' = fs_rename p q fs1"
    using quarantine_steps_cases [OF assms(1)] by blast
  then show ?thesis
    using assms(2) by (cases "map_of fs1 p = None") (auto simp: file_content_rename fs1)
qed

lemma job_at_quarantine:
  assumes "job_at cfg s i = None"
  shows "job_at cfg (quarantineInvalidJobFile cfg (job_file cfg i) i reason s) = job_at cfg s"
proof
  fix k
  let ?q = "quarantine_path cfg i reason (rs_now s)"
  obtain r fs' where steps: "quarantine_steps cfg (job_file cfg i) ?q (rs_fs s) = (r, fs')"
    by (cases "quarantine_steps cfg (job_file cfg i) ?q (rs_fs s)")
  have q: "job_file cfg k \<noteq> ?q" "job_file cfg i \<noteq> ?q"
    by (simp_all add: quarantine_path_def)
  show "job_at cfg (quarantineInvalidJobFile cfg (job_file cfg i) i reason s) k = job_at cfg s k"
  proof (cases "k = i")
    case True
    with quarantine_steps_source [OF steps q(2)] assms steps show ?thesis
      by (auto simp: job_at_def quarantineInvalidJobFile_def)
  next
    case False
    with quarantine_steps_content [OF steps q(2), of "job_file cfg k"] q steps show ?thesis
      by (simp add: job_at_def quarantineInvalidJobFile_def)
  qed
qed

lemma parseJob_at:
  assumes "file_content (job_file cfg i) (rs_fs s) = Some raw"
    and "parseJob cfg raw i (job_file cfg i) s = (j, s')"
  shows "j = job_at cfg s i \<and> job_at cfg s' = job_at cfg s"
proof (cases "decode_job i raw")
  case None
  with assms(1) have none: "job_at cfg s i = None" by (simp add: job_at_def)
  from None assms(2) have "j = None \<and> (\<exists>r. s' = quarantineInvalidJobFile cfg (job_file cfg i) i r s)"
    by (auto simp: parseJob_def decode_job_def Let_def split: content.splits if_splits)
  with none show ?thesis by (auto simp: job_at_quarantine)
next
  case (Some x)
  with assms show ?thesis
    by (auto simp: parseJob_def decode_job_def job_at_def Let_def split: content.splits if_splits)
qed

lemma quarantine_frame [simp]:
  "rs_now (quarantineInvalidJobFile cfg p i r s) = rs_now s"
  "rs_uuids (quarantineInvalidJobFile cfg p i r s) = rs_uuids s"
  "rs_writes (quarantineInvalidJobFile cfg p i r s) = rs_writes s"
  "rs_ready (quarantineInvalidJobFile cfg p i r s) = rs_ready s"
  by (simp_all add: quarantineInvalidJobFile_def)

lemma parseJob_frame:
  "parseJob cfg raw i p s = (j, s') \<Longrightarrow>
   rs_now s' = rs_now s \<and> rs_uuids s' = rs_uuids s \<and> rs_writes s' = rs_writes s \<and> rs_ready s' = rs_ready s"
  by (auto simp: parseJob_def Let_def split: content.splits if_splits)

section \<open>Read, write\<close>

lemma getById_at:
  assumes "getById cfg i s = (Inr j, s')"
  shows "j = job_at cfg s i \<and> job_at cfg s' = job_at cfg s"
proof -
  from assms have run: "(case map_of (rs_fs s) (job_file cfg i) of
        None \<Rightarrow> (Inr None, s)
      | Some n \<Rightarrow> (case n_kind n of
            FileNode raw \<Rightarrow> (let (j, s') = parseJob cfg raw i (job_file cfg i) s in (Inr j, s'))
          | _ \<Rightarrow> (Inl (NotAFile (job_file cfg i)), s))) = (Inr j, s')"
    by (auto simp: getById_def op_bind_def jobPath_def op_fail_def op_return_def split: if_splits)
  show ?thesis
  proof (cases "map_of (rs_fs s) (job_file cfg i)")
    case None
    with run show ?thesis by (simp add: job_at_def)
  next
    case (Some n)
    with run obtain raw where n: "n_kind n = FileNode raw"
      by (auto split: node_kind.splits)
    with Some have c: "file_content (job_file cfg i) (rs_fs s) = Some raw"
      by (simp add: file_content_def)
    from run Some n have "parseJob cfg raw i (job_file cfg i) s = (j, s')"
      by (auto split: prod.splits)
    with c show ?thesis by (rule parseJob_at)
  qed
qed

lemma getById_error: "getById cfg i s = (Inl e, s') \<Longrightarrow> s' = s"
  by (auto simp: getById_def op_bind_def jobPath_def op_fail_def op_return_def
      split: if_splits option.splits node_kind.splits prod.splits)

lemma getById_total:
  assumes "JOB_ID_PATTERN i"
    and "\<And>n. map_of (rs_fs s) (job_file cfg i) = Some n \<Longrightarrow> isFile n"
  shows "\<exists>s'. getById cfg i s = (Inr (job_at cfg s i), s')"
proof -
  have "\<exists>j s'. getById cfg i s = (Inr j, s')"
    using assms by (auto simp: getById_def op_bind_def jobPath_def op_return_def isFile_def
        split: option.split node_kind.splits prod.split)
  then show ?thesis using getById_at by blast
qed

lemma tmp_not_job: "rc_jobsDirectory cfg @ [a @ ''.tmp''] \<noteq> job_file cfg i"
proof
  assume "rc_jobsDirectory cfg @ [a @ ''.tmp''] = job_file cfg i"
  then have "a @ ''.tmp'' = i @ ''.json''" by (simp add: job_file_def)
  then have "last (a @ ''.tmp'') = last (i @ ''.json'')" by simp
  then show False by simp
qed

lemma writeJob_result:
  assumes "writeJob cfg j s = (r, s')"
  shows "(r = Inr () \<and> job_at cfg s' = (job_at cfg s)(j_id j \<mapsto> j) \<and> JOB_ID_PATTERN (j_id j)) \<or>
         ((\<exists>e. r = Inl e) \<and> job_at cfg s' = job_at cfg s)"
proof -
  obtain r1 s1 where e: "ensureReady cfg s = (r1, s1)" by (cases "ensureReady cfg s")
  have at1: "job_at cfg s1 = job_at cfg s" using e by (rule job_at_ensureReady)
  show ?thesis
  proof (cases "(\<exists>x. r1 = Inl x) \<or> \<not> JOB_ID_PATTERN (j_id j)")
    case True
    with assms e at1 show ?thesis
      by (auto simp: writeJob_def op_bind_def jobPath_def op_fail_def split: sum.splits)
  next
    case False
    then have r1: "r1 = Inr ()" and pat: "JOB_ID_PATTERN (j_id j)" by (cases r1; simp)+
    define u where "u = rc_uuid cfg (rs_uuids s1)"
    define t where "t = rc_jobsDirectory cfg @ [(j_id j @ ''.json'' @ ''.'' @ u) @ ''.tmp'']"
    have tneq: "t \<noteq> job_file cfg i" "job_file cfg i \<noteq> t" for i
      using tmp_not_job [of cfg "j_id j @ ''.json'' @ ''.'' @ u" i] by (auto simp: t_def)
    obtain w s2 where w: "next_write (s1\<lparr>rs_uuids := Suc (rs_uuids s1)\<rparr>) = (Inr w, s2)"
      by (cases "rs_writes s1") (simp_all add: next_write_def)
    have fs2: "rs_fs s2 = rs_fs s1"
      using w by (auto simp: next_write_def split: list.splits)
    let ?wr = "write_file (rc_env cfg) t (JsonText (job_json j)) PRIVATE_FILE_MODE (rs_fs s1)"
    have run: "writeJob cfg j s = (case w of
            WriteFails \<Rightarrow> (Inl WriteError, s2\<lparr>rs_fs := fs_rm t (rs_fs s1)\<rparr>)
          | RenameFails \<Rightarrow> (Inl WriteError, s2\<lparr>rs_fs := fs_rm t ?wr\<rparr>)
          | WriteOk \<Rightarrow> (Inr (), s2\<lparr>rs_fs := fs_rename t (job_file cfg (j_id j)) ?wr\<rparr>))"
      using e r1 pat w fs2
      by (cases w) (simp_all add: writeJob_def op_bind_def jobPath_def op_return_def randomUUID_def
          job_file_def t_def u_def Let_def)
    obtain nt where present: "map_of ?wr t = Some nt"
      by (cases "map_of (rs_fs s1) t") (simp_all add: write_file_def store_simps)
    have "file_content (job_file cfg i) (fs_rename t (job_file cfg (j_id j)) ?wr) =
        (if i = j_id j then Some (JsonText (job_json j)) else file_content (job_file cfg i) (rs_fs s1))" for i
      using present tneq by (simp add: file_content_rename file_content_write)
    then have ok: "job_at cfg (s2\<lparr>rs_fs := fs_rename t (job_file cfg (j_id j)) ?wr\<rparr>)
        = (job_at cfg s1)(j_id j \<mapsto> j)"
      by (simp add: job_at_def fun_eq_iff)
    have bad: "job_at cfg (s2\<lparr>rs_fs := fs_rm t (rs_fs s1)\<rparr>) = job_at cfg s1"
      "job_at cfg (s2\<lparr>rs_fs := fs_rm t ?wr\<rparr>) = job_at cfg s1"
      using tneq by (simp_all add: job_at_def fun_eq_iff file_content_rm file_content_write)
    from run assms ok bad at1 pat show ?thesis by (cases w) auto
  qed
qed

section \<open>The interface of the services\<close>

locale job_store =
  fixes content_at :: "'s \<Rightarrow> string \<Rightarrow> bridge_job option"
    and get :: "string \<Rightarrow> ('s, 'e, bridge_job option) op"
    and put :: "bridge_job \<Rightarrow> ('s, 'e, unit) op"
    and cas :: "string \<Rightarrow> job_status list \<Rightarrow> (bridge_job \<Rightarrow> bridge_job) \<Rightarrow>
                ('s, 'e, bool \<times> bridge_job option) op"
  assumes get_reads: "get i s = (Inr oj, s') \<Longrightarrow> oj = content_at s i \<and> content_at s' = content_at s"
    and get_fails: "get i s = (Inl e, s') \<Longrightarrow> content_at s' = content_at s"
    and put_writes: "put j s = (Inr u, s') \<Longrightarrow> content_at s' = (content_at s)(j_id j \<mapsto> j)"
    and put_fails: "put j s = (Inl e, s') \<Longrightarrow> content_at s' = content_at s"
    and content_id: "content_at s i = Some j \<Longrightarrow> j_id j = i"
    and cas_unfold: "cas i sts upd =
       op_bind (get i) (\<lambda>current. case current of
           None \<Rightarrow> op_return (False, None)
         | Some j \<Rightarrow> (if j_status j \<notin> set sts then op_return (False, Some j)
                     else op_bind (put (upd j)) (\<lambda>_. op_return (True, Some (upd j)))))"
begin

text \<open>The four ways a conditional transition ends.\<close>

lemma cas_cases:
  assumes "cas i sts upd s = (r, s')"
  shows "(r = Inr (False, None) \<and> content_at s i = None \<and> content_at s' = content_at s) \<or>
    (\<exists>j. content_at s i = Some j \<and> j_status j \<notin> set sts \<and> r = Inr (False, Some j) \<and>
         content_at s' = content_at s) \<or>
    (\<exists>j. content_at s i = Some j \<and> j_status j \<in> set sts \<and> r = Inr (True, Some (upd j)) \<and>
         content_at s' = (content_at s)(j_id (upd j) \<mapsto> upd j)) \<or>
    (\<exists>e. r = Inl e \<and> content_at s' = content_at s)"
proof -
  obtain g s1 where g: "get i s = (g, s1)" by (cases "get i s")
  show ?thesis
  proof (cases g)
    case (Inl e)
    with g get_fails [of i s e s1] assms show ?thesis
      by (auto simp: cas_unfold op_bind_def)
  next
    case (Inr cur)
    have cur: "cur = content_at s i" and at1: "content_at s1 = content_at s"
      using get_reads [OF g [unfolded Inr]] by auto
    have run: "(case cur of
           None \<Rightarrow> op_return (False, None)
         | Some j \<Rightarrow> (if j_status j \<notin> set sts then op_return (False, Some j)
                     else op_bind (put (upd j)) (\<lambda>_. op_return (True, Some (upd j))))) s1 = (r, s')"
      using assms g Inr by (simp add: cas_unfold op_bind_def)
    show ?thesis
    proof (cases cur)
      case None
      then show ?thesis using run cur at1 by (simp add: op_return_def)
    next
      case (Some j)
      show ?thesis
      proof (cases "j_status j \<in> set sts")
        case False
        then show ?thesis using run Some cur at1 by (simp add: op_return_def)
      next
        case True
        obtain p s2 where p: "put (upd j) s1 = (p, s2)" by (cases "put (upd j) s1")
        with run True Some have "(r, s') = (case p of Inl e \<Rightarrow> (Inl e, s2) | Inr u \<Rightarrow> (Inr (True, Some (upd j)), s2))"
          by (simp add: op_bind_def op_return_def split: sum.splits)
        then show ?thesis
          using p put_writes [of "upd j" s1 _ s2] put_fails [of "upd j" s1 _ s2] True Some cur at1
          by (cases p) simp_all
      qed
    qed
  qed
qed

text \<open>A job whose status is not expected is left as it is.\<close>

lemma cas_refused:
  assumes "cas i sts upd s = (r, s')" and "content_at s i = Some j" and "j_status j \<notin> set sts"
  shows "content_at s' = content_at s \<and> (r = Inr (False, Some j) \<or> (\<exists>e. r = Inl e))"
  using cas_cases [OF assms(1)] assms(2,3) by auto

lemma cas_applied:
  assumes "cas i sts upd s = (Inr (True, x), s')"
  shows "\<exists>j. content_at s i = Some j \<and> j_status j \<in> set sts \<and> x = Some (upd j) \<and>
             content_at s' = (content_at s)(j_id (upd j) \<mapsto> upd j)"
  using cas_cases [OF assms] by auto

lemma cas_not_applied:
  assumes "cas i sts upd s = (Inr (False, x), s')"
  shows "x = content_at s i \<and> content_at s' = content_at s \<and>
         (\<forall>j. x = Some j \<longrightarrow> j_status j \<notin> set sts)"
  using cas_cases [OF assms] by auto

lemma cas_failed: "cas i sts upd s = (Inl e, s') \<Longrightarrow> content_at s' = content_at s"
  using cas_cases [of i sts upd s "Inl e" s'] by auto

text \<open>Only the job with the given id can change, when the update keeps the id.\<close>

lemma cas_frame:
  assumes "cas i sts upd s = (r, s')" and "\<And>j. j_id (upd j) = j_id j" and "k \<noteq> i"
  shows "content_at s' k = content_at s k"
  using cas_cases [OF assms(1)] assms(2,3) by (auto dest: content_id)

end

interpretation repo: job_store "job_at cfg" "getById cfg" "writeJob cfg" "transition cfg"
  for cfg :: repo_config
proof
  show "j = job_at cfg s i \<and> job_at cfg s' = job_at cfg s"
    if "getById cfg i s = (Inr j, s')" for i s j s'
    using that by (rule getById_at)
  show "job_at cfg s' = job_at cfg s" if "getById cfg i s = (Inl e, s')" for i s e s'
    using getById_error [OF that] by simp
  show "job_at cfg s' = (job_at cfg s)(j_id j \<mapsto> j)" if "writeJob cfg j s = (Inr u, s')" for j s u s'
    using writeJob_result [OF that] by auto
  show "job_at cfg s' = job_at cfg s" if "writeJob cfg j s = (Inl e, s')" for j s e s'
    using writeJob_result [OF that] by auto
  show "j_id j = i" if "job_at cfg s i = Some j" for s i j
    using that by (rule job_at_id)
qed (simp add: transition_def)

lemma save_cases:
  assumes "save cfg j s = (r, s')"
  shows "(r = Inr j \<and> job_at cfg s' = (job_at cfg s)(j_id j \<mapsto> j)) \<or>
         (\<exists>e. r = Inl e \<and> job_at cfg s' = job_at cfg s)"
  using assms writeJob_result [of cfg j s]
  by (cases "writeJob cfg j s") (auto simp: save_def op_bind_def op_return_def split: sum.splits)

section \<open>Listing\<close>

lemma read_entry_at:
  assumes "read_entry cfg (i @ ''.json'') s = (j, s')"
  shows "j = job_at cfg s i \<and> job_at cfg s' = job_at cfg s"
proof (cases "file_content (job_file cfg i) (rs_fs s)")
  case None
  with assms show ?thesis by (simp add: read_entry_def job_at_def job_file_def Let_def)
next
  case (Some raw)
  with assms have "parseJob cfg raw i (job_file cfg i) s = (j, s')"
    by (simp add: read_entry_def job_file_def entry_id_def Let_def)
  with Some show ?thesis by (rule parseJob_at)
qed

lemma read_entries_at:
  assumes "read_entries cfg (map (\<lambda>i. i @ ''.json'') is) s = (js, s')"
  shows "js = List.map_filter (job_at cfg s) is \<and> job_at cfg s' = job_at cfg s"
  using assms
proof (induction "is" arbitrary: s s' js)
  case Nil
  then show ?case by (simp add: map_filter_def)
next
  case (Cons i "is")
  obtain j s1 where one: "read_entry cfg (i @ ''.json'') s = (j, s1)" by fastforce
  obtain rest s2 where more: "read_entries cfg (map (\<lambda>i. i @ ''.json'') is) s1 = (rest, s2)" by fastforce
  have "js = (case j of None \<Rightarrow> rest | Some x \<Rightarrow> x # rest) \<and> s' = s2"
    using Cons.prems one more by simp
  then show ?case
    using read_entry_at [OF one] Cons.IH [OF more]
    by (auto simp: map_filter_simps split: option.split)
qed

text \<open>The ids of the regular \<open>.json\<close> files of the directory, in directory order.\<close>

definition stored_ids :: "repo_config \<Rightarrow> fs \<Rightarrow> string list" where
  "stored_ids cfg fs = map (entry_id \<circ> fst) (filter is_job_entry (readdir (rc_jobsDirectory cfg) fs))"

lemma job_entry_name: "is_job_entry e \<Longrightarrow> entry_id (fst e) @ ''.json'' = fst e"
  by (auto simp: is_job_entry_def ends_with_iff entry_id_def)

lemma job_names: "map fst (filter is_job_entry es) =
    map (\<lambda>i. i @ ''.json'') (map (entry_id \<circ> fst) (filter is_job_entry es))"
  by (induction es) (auto simp: job_entry_name)

lemma map_last_readdir:
  "map (\<lambda>x. d @ [fst x]) (readdir d fs) = map fst (filter (\<lambda>(p, n). p \<noteq> [] \<and> butlast p = d) fs)"
  by (auto simp: readdir_def append_butlast_last_id)

lemma distinct_readdir: "fs_ok fs \<Longrightarrow> distinct (map fst (readdir d fs))"
proof -
  assume "fs_ok fs"
  then have "distinct (map fst (filter (\<lambda>(p, n). p \<noteq> [] \<and> butlast p = d) fs))"
    by (simp add: fs_ok_def distinct_map_filter)
  then have "distinct (map (\<lambda>x. d @ [fst x]) (readdir d fs))"
    by (simp only: map_last_readdir)
  then have "distinct (map (\<lambda>n. d @ [n]) (map fst (readdir d fs)))" by (simp add: o_def)
  then show ?thesis by (metis distinct_map)
qed

lemma distinct_stored_ids: "fs_ok fs \<Longrightarrow> distinct (stored_ids cfg fs)"
proof -
  assume "fs_ok fs"
  then have "distinct (map fst (filter is_job_entry (readdir (rc_jobsDirectory cfg) fs)))"
    by (intro distinct_map_filter distinct_readdir)
  then have "distinct (map (\<lambda>i. i @ ''.json'') (stored_ids cfg fs))"
    by (simp only: stored_ids_def flip: job_names)
  then show ?thesis by (metis distinct_map)
qed

lemma stored_ids_iff:
  assumes "fs_ok fs"
  shows "i \<in> set (stored_ids cfg fs) \<longleftrightarrow> file_content (job_file cfg i) fs \<noteq> None"
proof
  assume "i \<in> set (stored_ids cfg fs)"
  then obtain name n where e: "(name, n) \<in> set (readdir (rc_jobsDirectory cfg) fs)"
    and j: "is_job_entry (name, n)" and i: "i = entry_id name"
    by (auto simp: stored_ids_def)
  from job_entry_name [OF j] i have "name = i @ ''.json''" by simp
  with e assms have "map_of fs (job_file cfg i) = Some n" by (simp add: readdir_iff job_file_def)
  with j show "file_content (job_file cfg i) fs \<noteq> None"
    by (auto simp: is_job_entry_def isFile_def file_content_def split: node_kind.splits)
next
  assume "file_content (job_file cfg i) fs \<noteq> None"
  then obtain n where n: "map_of fs (job_file cfg i) = Some n" and f: "isFile n"
    by (auto simp: file_content_def isFile_def split: option.splits node_kind.splits)
  with assms have "(i @ ''.json'', n) \<in> set (readdir (rc_jobsDirectory cfg) fs)"
    by (simp add: readdir_iff job_file_def)
  moreover have "is_job_entry (i @ ''.json'', n)" using f by (simp add: is_job_entry_def ends_with_iff)
  ultimately show "i \<in> set (stored_ids cfg fs)"
    by (force simp: stored_ids_def entry_id_def)
qed

lemma set_map_filter_eq: "set (List.map_filter f xs) = {y. \<exists>x \<in> set xs. f x = Some y}"
  by (induction xs) (auto simp: map_filter_simps split: option.splits)

lemma distinct_map_filter_key:
  assumes "distinct is" and "\<And>i j. f i = Some j \<Longrightarrow> key j = i"
  shows "distinct (map key (List.map_filter f is))"
  using assms(1)
  by (induction "is") (auto simp: map_filter_simps set_map_filter_eq assms(2) split: option.split)

lemma listAll_result:
  assumes "listAll cfg s = (Inr js, s')" and "fs_ok (rs_fs s)"
  shows "job_at cfg s' = job_at cfg s"
    and "j \<in> set js \<longleftrightarrow> job_at cfg s (j_id j) = Some j"
    and "distinct (map j_id js)"
    and "\<exists>jobs. js = sort_cmp (queue_cmp cfg) jobs"
proof -
  obtain s1 where ready: "ensureReady cfg s = (Inr (), s1)"
    using assms(1) by (auto simp: listAll_def op_bind_Inr_iff)
  have ok: "fs_ok (rs_fs s1)"
    using ready assms(2) by (auto intro: fs_ok_ensureReady)
  note at1 = job_at_ensureReady [OF ready]
  obtain jobs s2 where rd: "read_entries cfg (map (\<lambda>i. i @ ''.json'') (stored_ids cfg (rs_fs s1))) s1 = (jobs, s2)"
    by fastforce
  have "(Inr (sort_cmp (queue_cmp cfg) jobs), s2) = ((Inr js, s') :: (repo_error + bridge_job list) \<times> repo_state)"
    using assms(1) ready rd
    by (simp only: listAll_def op_bind_def Let_def stored_ids_def job_names prod.case sum.case)
  then have js: "js = sort_cmp (queue_cmp cfg) jobs" and s2: "s' = s2" by simp_all
  have jobs: "jobs = List.map_filter (job_at cfg s1) (stored_ids cfg (rs_fs s1))"
    and at2: "job_at cfg s2 = job_at cfg s1" using read_entries_at [OF rd] by simp_all
  show "job_at cfg s' = job_at cfg s" using at1 at2 s2 by simp
  have listed: "i \<in> set (stored_ids cfg (rs_fs s1))" if "job_at cfg s1 i = Some k" for i k
    using that stored_ids_iff [OF ok] by (auto simp: job_at_def bind_eq_Some_conv)
  show "j \<in> set js \<longleftrightarrow> job_at cfg s (j_id j) = Some j"
    using listed job_at_id by (auto simp: js jobs set_map_filter_eq at1 [symmetric])
  show "distinct (map j_id js)"
    using distinct_map_filter_key [OF distinct_stored_ids [OF ok], of "job_at cfg s1" j_id] job_at_id
    by (simp add: js jobs)
  show "\<exists>jobs. js = sort_cmp (queue_cmp cfg) jobs" using js by blast
qed

end
