(* ===== verification/Samples.thy ===== *)
theory Samples
  imports JobStore
begin

text \<open>
  Concrete inputs on which the properties are applied: a configuration whose parameters are
  computable functions, a queued, two finished and one running job, and a repository state
  that stores them with one malformed file.
\<close>

definition uuid1 :: string where "uuid1 = ''11111111-1111-4111-8111-111111111111''"
definition uuid2 :: string where "uuid2 = ''22222222-2222-4222-8222-222222222222''"
definition uuid3 :: string where "uuid3 = ''33333333-3333-4333-8333-333333333333''"
definition uuid4 :: string where "uuid4 = ''44444444-4444-4444-8444-444444444444''"
definition uuid5 :: string where "uuid5 = ''55555555-5555-4555-8555-555555555555''"

definition sample_env :: process_env where
  "sample_env = \<lparr>pe_win32 = False, pe_uid = Some 7\<rparr>"

text \<open>Time stamps of the samples: a number of minutes in unary, so that parsing is the length.\<close>

definition stamp :: "nat \<Rightarrow> string" where
  "stamp n = replicate n (CHR ''i'')"

definition sample_config :: repo_config where
  "sample_config = \<lparr>
     rc_env = sample_env,
     rc_jobsDirectory = [''s'', ''jobs''],
     rc_tmuxSessionsDirectory = [''s'', ''jobs'', ''tmux''],
     rc_toISOString = (\<lambda>t. stamp (nat (t div 60000))),
     rc_parseDate = (\<lambda>s. Some (int (length s) * 60000)),
     rc_localeCompare = lex_cmp,
     rc_uuid = (\<lambda>n. uuid5)\<rparr>"

definition sample_exec :: exec_meta where
  "sample_exec = \<lparr>em_command = ''omx'', em_timeoutMs = 900, em_maxOutputChars = 80,
     em_durationMs = None, em_timedOut = None, em_outputTruncated = None, em_errorType = None,
     em_recoveredFromRestart = None\<rparr>"

definition sample_job :: "string \<Rightarrow> job_status \<Rightarrow> string option \<Rightarrow> bridge_job" where
  "sample_job i st fin = \<lparr>
     j_id = i, j_prompt = ''p'', j_executionMode = Some ExecMode, j_cwd = None, j_queueOrder = None,
     j_requestId = None, j_requestFingerprint = None, j_originRoutingKey = None, j_source = None,
     j_sourceName = None, j_metadata = None, j_notifyUrl = None, j_status = st,
     j_createdAt = stamp 1, j_startedAt = None, j_finishedAt = fin, j_exitCode = Some None,
     j_stdout = [], j_stderr = [], j_execution = sample_exec, j_session = None,
     j_notifyOutcome = None, j_notifyHistory = None\<rparr>"

definition own_dir :: fnode where "own_dir = \<lparr>n_kind = DirNode, n_uid = 7, n_mode = 448\<rparr>"

definition own_file :: "content \<Rightarrow> fnode" where
  "own_file c = \<lparr>n_kind = FileNode c, n_uid = 7, n_mode = 384\<rparr>"

definition stored :: "bridge_job \<Rightarrow> path \<times> fnode" where
  "stored j = (job_file sample_config (j_id j), own_file (JsonText (job_json j)))"

definition sample_state :: repo_state where
  "sample_state = \<lparr>
     rs_fs = [([''s''], own_dir), ([''s'', ''jobs''], own_dir),
        stored (sample_job uuid1 Succeeded (Some (stamp 5))),
        stored (sample_job uuid2 Queued None),
        stored (sample_job uuid3 Failed (Some (stamp 3))),
        stored (sample_job uuid4 Cancelled (Some (stamp 4))),
        (job_file sample_config uuid5, own_file (RawText ''x''))],
     rs_ready = False, rs_now = 6 * 60000, rs_uuids = 0, rs_writes = []\<rparr>"

end
