(* ===== verification/JobRetention.thy ===== *)
theory JobRetention
  imports Samples
begin

text \<open>
  Order and retention of the stored jobs: what \<open>listAll\<close> returns is the content of the
  store in queue order, and what \<open>cleanupTerminalJobs\<close> deletes and keeps.
\<close>

section \<open>Queue order\<close>

text \<open>
  What the order needs of \<open>localeCompare\<close>: it is a comparator that separates different
  strings (true of the timestamps, queue keys and ids the code compares).
\<close>

definition collation :: "(string \<Rightarrow> string \<Rightarrow> int) \<Rightarrow> bool" where
  "collation lc \<longleftrightarrow> comparator lc \<and> (\<forall>a b. lc a b = 0 \<longrightarrow> a = b)"

lemma collation_lex_cmp: "collation lex_cmp"
  by (simp add: collation_def lex_order.comparator_axioms lex_cmp_zero)

lemma collation_zero: "collation lc \<Longrightarrow> lc a b = 0 \<longleftrightarrow> a = b"
  by (auto simp: collation_def dest: comparator.cmp_refl)

definition queue_key :: "bridge_job \<Rightarrow> string" where
  "queue_key j = nullish (j_queueOrder j) (j_createdAt j)"

lemma queue_cmp_then:
  assumes "collation (rc_localeCompare cfg)"
  shows "queue_cmp cfg =
    then_cmp (\<lambda>x y. rc_localeCompare cfg (queue_key x) (queue_key y))
      (then_cmp (\<lambda>x y. rc_localeCompare cfg (j_createdAt x) (j_createdAt y))
                (\<lambda>x y. rc_localeCompare cfg (j_id x) (j_id y)))"
  by (auto simp: fun_eq_iff queue_cmp_def then_cmp_def Let_def queue_key_def
      collation_zero [OF assms])

lemma queue_cmp_comparator:
  "collation (rc_localeCompare cfg) \<Longrightarrow> comparator (queue_cmp cfg)"
  by (simp add: queue_cmp_then collation_def then_cmp_comparator comparator_on)

lemma listAll_sorted:
  assumes "listAll cfg s = (Inr js, s')" and "fs_ok (rs_fs s)"
    and "collation (rc_localeCompare cfg)"
  shows "sorted_wrt (\<lambda>a b. queue_cmp cfg a b \<le> 0) js"
  using listAll_result(4) [OF assms(1,2)] comparator.sorted_sort_cmp [OF queue_cmp_comparator [OF assms(3)]]
  by auto

lemma ids_with:
  assumes "\<And>j. j \<in> A \<longleftrightarrow> m (j_id j) = Some j \<and> P j" and "\<And>i j. m i = Some j \<Longrightarrow> j_id j = i"
  shows "{i. \<exists>j. m i = Some j \<and> P j} = j_id ` A"
proof (rule set_eqI)
  fix i
  show "i \<in> {i. \<exists>j. m i = Some j \<and> P j} \<longleftrightarrow> i \<in> j_id ` A"
  proof
    assume "i \<in> {i. \<exists>j. m i = Some j \<and> P j}"
    then obtain j where "m i = Some j" "P j" by blast
    moreover from this(1) have "j_id j = i" by (rule assms(2))
    ultimately show "i \<in> j_id ` A" using assms(1) [of j] by (intro image_eqI [of _ _ j]) simp_all
  next
    assume "i \<in> j_id ` A"
    then obtain j where "i = j_id j" "j \<in> A" by blast
    with assms(1) [of j] show "i \<in> {i. \<exists>j. m i = Some j \<and> P j}" by blast
  qed
qed

lemma countActive_result:
  assumes "countActive cfg s = (Inr n, s')" and "fs_ok (rs_fs s)"
  shows "job_at cfg s' = job_at cfg s"
    and "n = int (card {i. \<exists>j. job_at cfg s i = Some j \<and> (j_status j = Queued \<or> j_status j = Running)})"
proof -
  obtain js where l: "listAll cfg s = (Inr js, s')"
    and n: "n = int (length (filter (\<lambda>j. j_status j = Queued \<or> j_status j = Running) js))"
    using assms(1) by (auto simp: countActive_def op_bind_Inr_iff op_return_def js_length_def)
  note r = listAll_result [OF l assms(2)]
  show "job_at cfg s' = job_at cfg s" by (rule r(1))
  let ?A = "filter (\<lambda>j. j_status j = Queued \<or> j_status j = Running) js"
  have "{i. \<exists>j. job_at cfg s i = Some j \<and> (j_status j = Queued \<or> j_status j = Running)} = set (map j_id ?A)"
    unfolding set_map by (rule ids_with) (use r(2) in \<open>auto intro: job_at_id\<close>)
  moreover have "distinct (map j_id ?A)" using r(3) by (rule distinct_map_filter)
  ultimately show "n = int (card {i. \<exists>j. job_at cfg s i = Some j \<and> (j_status j = Queued \<or> j_status j = Running)})"
    using n distinct_card [of "map j_id ?A"] by (simp only: length_map)
qed

section \<open>Retention\<close>

lemma remove_each_at:
  assumes "op_foreach (\<lambda>i. op_bind (jobPath cfg i)
      (\<lambda>p. op_modify (\<lambda>s. s\<lparr>rs_fs := fs_rm p (rs_fs s)\<rparr>))) ids s = (Inr (), s')"
  shows "job_at cfg s' = (\<lambda>i. if i \<in> set ids then None else job_at cfg s i)"
  using assms
proof (induction ids arbitrary: s)
  case Nil
  then show ?case by (simp add: op_return_def)
next
  case (Cons i ids)
  let ?s1 = "s\<lparr>rs_fs := fs_rm (job_file cfg i) (rs_fs s)\<rparr>"
  have "op_foreach (\<lambda>i. op_bind (jobPath cfg i)
      (\<lambda>p. op_modify (\<lambda>s. s\<lparr>rs_fs := fs_rm p (rs_fs s)\<rparr>))) ids ?s1 = (Inr (), s')"
    using Cons.prems by (simp add: op_bind_def jobPath_def op_fail_def op_return_def op_modify_def
        split: if_splits)
  from Cons.IH [OF this] show ?case
    by (auto simp: fun_eq_iff job_at_def file_content_rm)
qed

lemma to_delete_ids:
  "set (to_delete cfg cutoff mx ts) \<subseteq> j_id ` set ts"
  by (auto simp: to_delete_def Let_def js_take_def dest: in_set_takeD)

definition kept :: "repo_config \<Rightarrow> int \<Rightarrow> int \<Rightarrow> bridge_job list \<Rightarrow> bridge_job list" where
  "kept cfg cutoff mx ts = filter (\<lambda>j. j_id j \<notin> set (to_delete cfg cutoff mx ts)) ts"

lemma filter_drop_distinct:
  assumes "distinct (map f xs)"
  shows "filter (\<lambda>x. f x \<notin> f ` set (take n xs)) xs = drop n xs"
proof -
  have "filter (\<lambda>x. f x \<notin> f ` set (take n xs)) (take n xs @ drop n xs) = drop n xs"
  proof -
    have "filter (\<lambda>x. f x \<notin> f ` set (take n xs)) (take n xs) = []" by (auto simp: filter_empty_conv)
    moreover have "distinct (map f (take n xs @ drop n xs))" using assms by simp
    then have "f ` set (take n xs) \<inter> f ` set (drop n xs) = {}"
      by (simp only: map_append distinct_append set_map) 
    then have "filter (\<lambda>x. f x \<notin> f ` set (take n xs)) (drop n xs) = drop n xs"
      by (intro filter_True) (auto 0 3)
    ultimately show ?thesis by (simp only: filter_append append_Nil)
  qed
  then show ?thesis by (simp only: append_take_drop_id)
qed

text \<open>
  Of the terminal jobs, the expired ones go, and of the rest the last \<open>mx\<close> in key order stay.
\<close>

lemma kept_eq:
  assumes "distinct (map j_id ts)" and "0 \<le> mx"
  shows "kept cfg cutoff mx ts = last_n (nat mx) (filter (\<lambda>j. \<not> expired cfg cutoff j) ts)"
proof -
  let ?aged = "map j_id (filter (expired cfg cutoff) ts)"
  let ?rem = "filter (\<lambda>j. \<not> expired cfg cutoff j) ts"
  have aged: "j_id j \<in> set ?aged \<longleftrightarrow> expired cfg cutoff j" if "j \<in> set ts" for j
    using that assms(1) by (auto simp: distinct_map dest: inj_onD)
  then have rem: "filter (\<lambda>j. j_id j \<notin> set ?aged) ts = ?rem"
    by (intro filter_cong) auto
  let ?n = "nat (max 0 (js_length ?rem - mx))"
  have "set (to_delete cfg cutoff mx ts) = set ?aged \<union> j_id ` set (take ?n ?rem)"
    using rem by (simp add: to_delete_def Let_def js_take_def)
  then have "kept cfg cutoff mx ts = filter (\<lambda>j. j_id j \<notin> set ?aged \<and> j_id j \<notin> j_id ` set (take ?n ?rem)) ts"
    by (simp add: kept_def)
  also have "\<dots> = filter (\<lambda>j. j_id j \<notin> j_id ` set (take ?n ?rem)) (filter (\<lambda>j. j_id j \<notin> set ?aged) ts)"
    by (simp add: conj_commute)
  also have "\<dots> = filter (\<lambda>j. j_id j \<notin> j_id ` set (take ?n ?rem)) ?rem" by (simp only: rem)
  also have "\<dots> = drop ?n ?rem"
    by (rule filter_drop_distinct) (rule distinct_map_filter [OF assms(1)])
  also have "\<dots> = last_n (nat mx) ?rem"
    using assms(2) by (simp add: last_n_def js_length_def nat_diff_distrib max_def)
  finally show ?thesis .
qed

lemma cleanup_run:
  assumes "cleanupTerminalJobs cfg days mx s = (Inr r, s')" and "fs_ok (rs_fs s)"
  defines "cutoff \<equiv> rs_now s - days * 24 * 60 * 60 * 1000"
  obtains js where
    "distinct (map j_id js)"
    and "\<And>j. j \<in> set js \<longleftrightarrow> job_at cfg s (j_id j) = Some j \<and> isTerminal (j_status j)"
    and "job_at cfg s' = (\<lambda>i. if i \<in> set (to_delete cfg cutoff mx (sort_cmp (terminal_cmp cfg) js))
                          then None else job_at cfg s i)"
    and "cl_deletedEntries r = map cleanup_entry_of
           (filter (\<lambda>j. j_id j \<in> set (to_delete cfg cutoff mx (sort_cmp (terminal_cmp cfg) js)))
              (sort_cmp (terminal_cmp cfg) js))"
proof -
  obtain all s1 where l: "listAll cfg s = (Inr all, s1)"
    using assms(1) by (auto simp: cleanupTerminalJobs_def Let_def op_bind_Inr_iff)
  define js where "js = filter (\<lambda>j. isTerminal (j_status j)) all"
  define D where "D = to_delete cfg cutoff mx (sort_cmp (terminal_cmp cfg) js)"
  have "\<exists>s2. op_foreach (\<lambda>i. op_bind (jobPath cfg i)
      (\<lambda>p. op_modify (\<lambda>s. s\<lparr>rs_fs := fs_rm p (rs_fs s)\<rparr>))) D s1 = (Inr (), s2) \<and> s' = s2 \<and>
      cl_deletedEntries r = map cleanup_entry_of
           (filter (\<lambda>j. j_id j \<in> set D) (sort_cmp (terminal_cmp cfg) js))"
    using assms(1) l
    by (auto simp: cleanupTerminalJobs_def Let_def op_bind_Inr_iff op_return_def D_def js_def cutoff_def)
  then have del: "job_at cfg s' = (\<lambda>i. if i \<in> set D then None else job_at cfg s1 i)"
    and entries: "cl_deletedEntries r = map cleanup_entry_of
           (filter (\<lambda>j. j_id j \<in> set D) (sort_cmp (terminal_cmp cfg) js))"
    using remove_each_at by blast+
  note res = listAll_result [OF l assms(2)]
  show thesis
  proof (rule that)
    show "distinct (map j_id js)" using res(3) by (simp add: js_def distinct_map_filter)
    show "j \<in> set js \<longleftrightarrow> job_at cfg s (j_id j) = Some j \<and> isTerminal (j_status j)" for j
      using res(2) by (auto simp: js_def)
    show "job_at cfg s' = (\<lambda>i. if i \<in> set (to_delete cfg cutoff mx (sort_cmp (terminal_cmp cfg) js))
                          then None else job_at cfg s i)"
      by (simp only: del D_def res(1))
  qed (use entries in \<open>simp add: D_def\<close>)
qed

lemma sorted_wrt_last_n:
  assumes "sorted_wrt R xs" and "x \<in> set xs" and "x \<notin> set (last_n n xs)" and "y \<in> set (last_n n xs)"
  shows "R x y"
proof -
  let ?k = "length xs - n"
  have "x \<in> set (take ?k xs)"
    using assms(2,3) set_append [of "take ?k xs" "drop ?k xs"] by (auto simp: last_n_def)
  moreover have "sorted_wrt R (take ?k xs @ drop ?k xs)" using assms(1) by simp
  ultimately show ?thesis
    using assms(4) unfolding sorted_wrt_append last_n_def by blast
qed

text \<open>What the stored jobs are after a cleanup, in terms of the sorted terminal jobs.\<close>

lemma cleanup_contents:
  assumes "cleanupTerminalJobs cfg days mx s = (Inr r, s')" and "fs_ok (rs_fs s)"
    and "0 \<le> mx" and "collation (rc_localeCompare cfg)"
  defines "cutoff \<equiv> rs_now s - days * 24 * 60 * 60 * 1000"
  obtains ts D where
    "sorted_wrt (\<lambda>a b. terminal_cmp cfg a b \<le> 0) (filter (\<lambda>j. \<not> expired cfg cutoff j) ts)"
    and "\<And>j. j \<in> set ts \<longleftrightarrow> job_at cfg s (j_id j) = Some j \<and> isTerminal (j_status j)"
    and "\<And>i. job_at cfg s' i = (if i \<in> D then None else job_at cfg s i)"
    and "\<And>i. i \<in> D \<Longrightarrow> \<exists>j. job_at cfg s i = Some j \<and> isTerminal (j_status j)"
    and "\<And>j. j \<in> set (last_n (nat mx) (filter (\<lambda>j. \<not> expired cfg cutoff j) ts)) \<longleftrightarrow>
              job_at cfg s' (j_id j) = Some j \<and> isTerminal (j_status j)"
    and "set (map ce_jobId (cl_deletedEntries r)) = D"
proof -
  obtain js where dist: "distinct (map j_id js)"
    and mem: "\<And>j. j \<in> set js \<longleftrightarrow> job_at cfg s (j_id j) = Some j \<and> isTerminal (j_status j)"
    and at': "job_at cfg s' = (\<lambda>i. if i \<in> set (to_delete cfg cutoff mx (sort_cmp (terminal_cmp cfg) js))
                          then None else job_at cfg s i)"
    and ent: "cl_deletedEntries r = map cleanup_entry_of
           (filter (\<lambda>j. j_id j \<in> set (to_delete cfg cutoff mx (sort_cmp (terminal_cmp cfg) js)))
              (sort_cmp (terminal_cmp cfg) js))"
    by (rule cleanup_run [OF assms(1,2), folded cutoff_def]) (rule that)
  define ts where "ts = sort_cmp (terminal_cmp cfg) js"
  define D where "D = set (to_delete cfg cutoff mx ts)"
  have mts: "j \<in> set ts \<longleftrightarrow> job_at cfg s (j_id j) = Some j \<and> isTerminal (j_status j)" for j
    using mem by (simp add: ts_def)
  have DinT: "\<exists>j \<in> set ts. i = j_id j" if "i \<in> D" for i
    using that to_delete_ids [of cfg cutoff mx ts] by (auto simp: D_def)
  show thesis
  proof (rule that [of ts D])
    have "comparator (terminal_cmp cfg)"
      using assms(4) unfolding terminal_cmp_def [abs_def] collation_def by (simp add: comparator_on)
    then show "sorted_wrt (\<lambda>a b. terminal_cmp cfg a b \<le> 0) (filter (\<lambda>j. \<not> expired cfg cutoff j) ts)"
      unfolding ts_def by (intro sorted_wrt_filter comparator.sorted_sort_cmp)
    show at2: "job_at cfg s' i = (if i \<in> D then None else job_at cfg s i)" for i
      by (simp add: at' D_def ts_def)
    show "\<exists>j. job_at cfg s i = Some j \<and> isTerminal (j_status j)" if "i \<in> D" for i
      using DinT [OF that] mts by metis
    have "filter (\<lambda>j. j_id j \<notin> D) ts = last_n (nat mx) (filter (\<lambda>j. \<not> expired cfg cutoff j) ts)"
      using kept_eq [of ts mx cfg cutoff] dist assms(3) by (simp add: kept_def D_def ts_def)
    then show "j \<in> set (last_n (nat mx) (filter (\<lambda>j. \<not> expired cfg cutoff j) ts)) \<longleftrightarrow>
              job_at cfg s' (j_id j) = Some j \<and> isTerminal (j_status j)" for j
      by (auto simp: at2 mts simp flip: \<open>filter _ ts = _\<close>)
    have "ce_jobId (cleanup_entry_of j) = j_id j" for j by (simp add: cleanup_entry_of_def)
    then have "set (map ce_jobId (cl_deletedEntries r)) = j_id ` {j \<in> set ts. j_id j \<in> D}"
      by (simp add: ent image_image flip: ts_def D_def)
    also have "\<dots> = D" using DinT by blast
    finally show "set (map ce_jobId (cl_deletedEntries r)) = D" .
  qed (rule mts)
qed

text \<open>
  C22. Retention. A cleanup deletes only terminal jobs and changes no other job. Afterwards
  no terminal job is older than the retention period, at most \<open>maxTerminalJobs\<close> terminal jobs
  are left, a terminal job that had not expired was deleted only if every terminal job kept
  sorts after it, and the entries returned (whose tmux artifacts the runner removes) name
  exactly the deleted jobs.
\<close>

theorem cleanup_retention:
  assumes "cleanupTerminalJobs cfg days mx s = (Inr r, s')" and "fs_ok (rs_fs s)"
    and "0 \<le> mx" and "collation (rc_localeCompare cfg)"
  defines "cutoff \<equiv> rs_now s - days * 24 * 60 * 60 * 1000"
  shows "(\<forall>i. job_at cfg s' i = job_at cfg s i \<or>
            (job_at cfg s' i = None \<and> (\<exists>j. job_at cfg s i = Some j \<and> isTerminal (j_status j)))) \<and>
    (\<forall>i j. job_at cfg s' i = Some j \<and> isTerminal (j_status j) \<longrightarrow> \<not> expired cfg cutoff j) \<and>
    int (card {i. \<exists>j. job_at cfg s' i = Some j \<and> isTerminal (j_status j)}) \<le> mx \<and>
    (\<forall>i j k l. job_at cfg s i = Some j \<and> job_at cfg s' i = None \<and> \<not> expired cfg cutoff j \<and>
       job_at cfg s' k = Some l \<and> isTerminal (j_status l) \<longrightarrow> terminal_cmp cfg j l \<le> 0) \<and>
    set (map ce_jobId (cl_deletedEntries r)) =
      {i. job_at cfg s i \<noteq> None \<and> job_at cfg s' i = None}"
proof -
  obtain ts D where sorted: "sorted_wrt (\<lambda>a b. terminal_cmp cfg a b \<le> 0) (filter (\<lambda>j. \<not> expired cfg cutoff j) ts)"
    and mem: "\<And>j. j \<in> set ts \<longleftrightarrow> job_at cfg s (j_id j) = Some j \<and> isTerminal (j_status j)"
    and at': "\<And>i. job_at cfg s' i = (if i \<in> D then None else job_at cfg s i)"
    and D: "\<And>i. i \<in> D \<Longrightarrow> \<exists>j. job_at cfg s i = Some j \<and> isTerminal (j_status j)"
    and kept: "\<And>j. j \<in> set (last_n (nat mx) (filter (\<lambda>j. \<not> expired cfg cutoff j) ts)) \<longleftrightarrow>
              job_at cfg s' (j_id j) = Some j \<and> isTerminal (j_status j)"
    and ent: "set (map ce_jobId (cl_deletedEntries r)) = D"
    by (rule cleanup_contents [OF assms(1-4), folded cutoff_def]) (rule that)
  define live where "live = last_n (nat mx) (filter (\<lambda>j. \<not> expired cfg cutoff j) ts)"
  have kept': "j \<in> set live" if "job_at cfg s' i = Some j" "isTerminal (j_status j)" for i j
    using that kept [of j] job_at_id [OF that(1)] by (simp add: live_def)
  have 1: "job_at cfg s' i = job_at cfg s i \<or>
      (job_at cfg s' i = None \<and> (\<exists>j. job_at cfg s i = Some j \<and> isTerminal (j_status j)))" for i
    using at' [of i] D [of i] by presburger
  have 2: "\<not> expired cfg cutoff j" if "job_at cfg s' i = Some j" "isTerminal (j_status j)" for i j
    using kept' [OF that] by (auto simp: live_def last_n_def dest: in_set_dropD)
  have "{i. \<exists>j. job_at cfg s' i = Some j \<and> isTerminal (j_status j)} = j_id ` set live"
    by (rule ids_with) (auto simp: kept live_def intro: job_at_id)
  then have "card {i. \<exists>j. job_at cfg s' i = Some j \<and> isTerminal (j_status j)} \<le> length live"
    by (metis card_length length_map set_map)
  then have 3: "int (card {i. \<exists>j. job_at cfg s' i = Some j \<and> isTerminal (j_status j)}) \<le> mx"
    using assms(3) unfolding live_def length_last_n by linarith
  have 4: "terminal_cmp cfg j l \<le> 0"
    if "job_at cfg s i = Some j" "job_at cfg s' i = None" "\<not> expired cfg cutoff j"
      "job_at cfg s' k = Some l" "isTerminal (j_status l)" for i j k l
  proof (rule sorted_wrt_last_n [OF sorted])
    have ij: "j_id j = i" using that(1) by (rule job_at_id)
    have "i \<in> D" using that(1,2) at' [of i] by (simp split: if_splits)
    then have "j \<in> set ts" using D that(1) ij mem by fastforce
    then show "j \<in> set (filter (\<lambda>j. \<not> expired cfg cutoff j) ts)" using that(3) by simp
    show "j \<notin> set (last_n (nat mx) (filter (\<lambda>j. \<not> expired cfg cutoff j) ts))"
      using kept [of j] that(2) ij by simp
    show "l \<in> set (last_n (nat mx) (filter (\<lambda>j. \<not> expired cfg cutoff j) ts))"
      using kept' that(4,5) by (simp add: live_def)
  qed
  have 5: "D = {i. job_at cfg s i \<noteq> None \<and> job_at cfg s' i = None}"
    using D at' by force
  show ?thesis
    unfolding ent
    by (intro conjI allI impI 1 3 5; (elim conjE)?) (erule (1) 2, rule 4)
qed

lemma collation_sample: "collation (rc_localeCompare sample_config)"
  by (simp add: sample_config_def collation_lex_cmp)

theorem cleanup_retention_witness:
  "\<exists>r s'. cleanupTerminalJobs sample_config 7 1 sample_state = (Inr r, s') \<and>
     set (map ce_jobId (cl_deletedEntries r)) =
       {i. job_at sample_config sample_state i \<noteq> None \<and> job_at sample_config s' i = None} \<and>
     int (card {i. \<exists>j. job_at sample_config s' i = Some j \<and> isTerminal (j_status j)}) \<le> 1 \<and>
     cl_deleted r = 2"
proof -
  have "case cleanupTerminalJobs sample_config 7 1 sample_state of
      (Inr r, _) \<Rightarrow> cl_deleted r = 2 | _ \<Rightarrow> False" by code_simp
  then obtain r s' where run: "cleanupTerminalJobs sample_config 7 1 sample_state = (Inr r, s')"
    and two: "cl_deleted r = 2"
    by (auto split: prod.splits sum.splits)
  have "fs_ok (rs_fs sample_state)" by code_simp
  then show ?thesis
    using cleanup_retention [OF run _ _ collation_sample] run two by auto
qed

end
