(* ===== verification/InstanceLock.thy ===== *)
theory InstanceLock
  imports Samples
begin

text \<open>
  The lock that keeps a second bridge off a jobs directory,
  \<open>src/jobs/bridge-instance-lock.service.ts\<close>, as steps of any number of processes on one disk: one step
  per file operation, so that every interleaving is a run. Processes are known by their process
  identifiers, which the system may use again after a process has ended; a lock file is known by the
  number of its creation, because a handle goes on writing to its file when the path names another one.
\<close>

section \<open>State\<close>

datatype instance_pc =
    Stopped
  | Idle
  | OpeningLock
  | WritingLock nat
  | TighteningLock
  | InspectingLock
  | RemovingLock
  | ReopeningLock
  | Acquired nat
  | HalfAcquired nat \<comment> \<open>the payload could not be written, the handle is kept\<close>
  | ReadingOwn
  | UnlinkingOwn
  | InUse int
  | AcquireFailed

record instance_env =
  ie_repo :: repo_config
  ie_jobsDirectory :: string \<comment> \<open>the path as it is configured\<close>
  ie_uuid :: "nat \<Rightarrow> string"

record instance_state =
  il_fs :: fs
  il_file :: nat
  il_next :: nat
  il_starts :: nat
  il_alive :: "int \<Rightarrow> bool"
  il_token :: "int \<Rightarrow> string"
  il_pc :: "int \<Rightarrow> instance_pc"

definition instance_goto :: "int \<Rightarrow> instance_pc \<Rightarrow> instance_state \<Rightarrow> instance_state" where
  "instance_goto i pc s = s\<lparr>il_pc := (il_pc s)(i := pc)\<rparr>"

section \<open>The operations\<close>

definition instance_lockPath :: "instance_env \<Rightarrow> path" where
  "instance_lockPath env = rc_jobsDirectory (ie_repo env) @ [LOCK_FILE_NAME]"

definition lockPayload :: "instance_env \<Rightarrow> string \<Rightarrow> int \<Rightarrow> string \<Rightarrow> json" where
  "lockPayload env token pid now = object_of
     [(''token'', Some (JStr token)), (''pid'', Some (JNum pid)), (''acquiredAt'', Some (JStr now)),
      (''jobsDirectory'', Some (JStr (ie_jobsDirectory env)))]"

definition ensureJobsDirectory :: "instance_env \<Rightarrow> (fs, private_error, unit) op" where
  "ensureJobsDirectory env =
     ensurePrivateOwnedDirectory (rc_env (ie_repo env)) (rc_jobsDirectory (ie_repo env))
       (\<lambda>e. (isFile (snd e) \<and> (fst e = LOCK_FILE_NAME \<or> JOB_STATE_FILE_PATTERN (fst e))) \<or>
            (isDirectory (snd e) \<and>
             (fst e = INVALID_JOBS_DIRECTORY \<or> Some (fst e) = nestedTmuxDirectory (ie_repo env)))) False"

definition readExistingLock :: "instance_env \<Rightarrow> fs \<Rightarrow> json option" where
  "readExistingLock env fs =
     (case file_content (instance_lockPath env) fs of
        Some (JsonText parsed) \<Rightarrow> (case jfield parsed ''pid'' of Some (JNum _) \<Rightarrow> Some parsed | _ \<Rightarrow> None)
      | _ \<Rightarrow> None)"

definition isPidAlive :: "instance_state \<Rightarrow> int \<Rightarrow> bool" where
  \<comment> \<open>\<open>process.kill(pid, 0)\<close> fails with \<open>ESRCH\<close> only when there is no such process\<close>
  "isPidAlive s pid \<longleftrightarrow> pid > 0 \<and> il_alive s pid"

fun without_handle :: "instance_pc \<Rightarrow> bool" where
  \<comment> \<open>where \<open>acquire\<close> may be called and \<open>lockHandle\<close> is not set\<close>
  "without_handle Idle = True"
| "without_handle AcquireFailed = True"
| "without_handle (InUse p) = True"
| "without_handle _ = False"

definition instance_acquire :: "instance_env \<Rightarrow> int \<Rightarrow> instance_state \<Rightarrow> instance_state" where
  \<comment> \<open>\<open>acquire\<close> up to the first attempt; with a handle it returns at once\<close>
  "instance_acquire env i s =
     (if without_handle (il_pc s i)
      then (case ensureJobsDirectory env (il_fs s) of
              (Inl e, f) \<Rightarrow> instance_goto i AcquireFailed (s\<lparr>il_fs := f\<rparr>)
            | (Inr _, f) \<Rightarrow> instance_goto i OpeningLock (s\<lparr>il_fs := f\<rparr>))
      else s)"

definition instance_create :: "instance_env \<Rightarrow> int \<Rightarrow> instance_state \<Rightarrow> instance_state" where
  \<comment> \<open>\<open>fs.open(lockPath, 'wx')\<close> when nothing is there\<close>
  "instance_create env i s =
     (case map_of (il_fs s) (rc_jobsDirectory (ie_repo env)) of
        Some d \<Rightarrow>
          (if isDirectory d
           then instance_goto i (WritingLock (il_next s))
             (s\<lparr>il_fs := fs_put (instance_lockPath env)
                  \<lparr>n_kind = FileNode (RawText []), n_uid = uid_of (rc_env (ie_repo env)), n_mode = PRIVATE_FILE_MODE\<rparr> (il_fs s),
                il_file := il_next s, il_next := Suc (il_next s)\<rparr>)
           else instance_goto i AcquireFailed s)
      | None \<Rightarrow> instance_goto i AcquireFailed s)"

definition instance_open :: "instance_env \<Rightarrow> int \<Rightarrow> instance_state \<Rightarrow> instance_state" where
  "instance_open env i s =
     (if map_of (il_fs s) (instance_lockPath env) \<noteq> None then instance_goto i TighteningLock s
      else instance_create env i s)"

definition instance_write :: "instance_env \<Rightarrow> int \<Rightarrow> nat \<Rightarrow> bool \<Rightarrow> string \<Rightarrow> instance_state \<Rightarrow> instance_state" where
  "instance_write env i k ok now s =
     (if \<not> ok then instance_goto i (HalfAcquired k) s
      else instance_goto i (Acquired k)
        (if il_file s = k \<and> map_of (il_fs s) (instance_lockPath env) \<noteq> None
         then s\<lparr>il_fs := write_file (rc_env (ie_repo env)) (instance_lockPath env)
                  (JsonText (lockPayload env (il_token s i) i now)) PRIVATE_FILE_MODE (il_fs s)\<rparr>
         else s))"

definition instance_tighten :: "instance_env \<Rightarrow> int \<Rightarrow> instance_state \<Rightarrow> instance_state" where
  "instance_tighten env i s =
     (case tightenPrivateOwnedFile (rc_env (ie_repo env)) (instance_lockPath env) (il_fs s) of
        (Inl e, f) \<Rightarrow> instance_goto i AcquireFailed (s\<lparr>il_fs := f\<rparr>)
      | (Inr _, f) \<Rightarrow> instance_goto i InspectingLock (s\<lparr>il_fs := f\<rparr>))"

definition instance_inspect :: "instance_env \<Rightarrow> int \<Rightarrow> instance_state \<Rightarrow> instance_state" where
  "instance_inspect env i s =
     (case Option.bind (readExistingLock env (il_fs s)) (\<lambda>v. jfield v ''pid'') of
        Some (JNum pid) \<Rightarrow>
          (if isPidAlive s pid then instance_goto i (InUse pid) s else instance_goto i RemovingLock s)
      | _ \<Rightarrow> instance_goto i RemovingLock s)"

definition instance_remove :: "instance_env \<Rightarrow> int \<Rightarrow> instance_state \<Rightarrow> instance_state" where
  "instance_remove env i s = instance_goto i ReopeningLock (s\<lparr>il_fs := fs_rm (instance_lockPath env) (il_fs s)\<rparr>)"

definition instance_reopen :: "instance_env \<Rightarrow> int \<Rightarrow> instance_state \<Rightarrow> instance_state" where
  \<comment> \<open>the second attempt fails when a file is there\<close>
  "instance_reopen env i s =
     (if map_of (il_fs s) (instance_lockPath env) \<noteq> None then instance_goto i AcquireFailed s
      else instance_create env i s)"

definition instance_release :: "int \<Rightarrow> instance_state \<Rightarrow> instance_state" where
  \<comment> \<open>\<open>release\<close>: the handle is given up and closed\<close>
  "instance_release i s =
     (case il_pc s i of
        Acquired k \<Rightarrow> instance_goto i ReadingOwn s
      | HalfAcquired k \<Rightarrow> instance_goto i ReadingOwn s
      | _ \<Rightarrow> s)"

definition instance_read_own :: "instance_env \<Rightarrow> int \<Rightarrow> instance_state \<Rightarrow> instance_state" where
  "instance_read_own env i s =
     (if Option.bind (readExistingLock env (il_fs s)) (\<lambda>v. jfield v ''token'') = Some (JStr (il_token s i))
      then instance_goto i UnlinkingOwn s else instance_goto i Idle s)"

definition instance_unlink :: "instance_env \<Rightarrow> int \<Rightarrow> instance_state \<Rightarrow> instance_state" where
  "instance_unlink env i s = instance_goto i Idle (s\<lparr>il_fs := fs_rm (instance_lockPath env) (il_fs s)\<rparr>)"

section \<open>Runs\<close>

definition instance_step :: "instance_env \<Rightarrow> int \<Rightarrow> bool \<Rightarrow> string \<Rightarrow> instance_state \<Rightarrow> instance_state" where
  \<comment> \<open>the next file operation of a process; the flag: a write of the payload succeeds\<close>
  "instance_step env i ok now s =
     (case il_pc s i of
        OpeningLock \<Rightarrow> instance_open env i s
      | WritingLock k \<Rightarrow> instance_write env i k ok now s
      | TighteningLock \<Rightarrow> instance_tighten env i s
      | InspectingLock \<Rightarrow> instance_inspect env i s
      | RemovingLock \<Rightarrow> instance_remove env i s
      | ReopeningLock \<Rightarrow> instance_reopen env i s
      | ReadingOwn \<Rightarrow> instance_read_own env i s
      | UnlinkingOwn \<Rightarrow> instance_unlink env i s
      | _ \<Rightarrow> s)"

definition instance_boot :: "instance_env \<Rightarrow> int \<Rightarrow> instance_state \<Rightarrow> instance_state" where
  \<comment> \<open>a process starts, with the token of its service\<close>
  "instance_boot env i s =
     (if i > 0 \<and> \<not> il_alive s i
      then instance_goto i Idle (s\<lparr>il_alive := (il_alive s)(i := True), il_starts := Suc (il_starts s),
             il_token := (il_token s)(i := ie_uuid env (il_starts s))\<rparr>)
      else s)"

definition instance_end :: "int \<Rightarrow> instance_state \<Rightarrow> instance_state" where
  \<comment> \<open>a process ends, whatever it was doing\<close>
  "instance_end i s = instance_goto i Stopped (s\<lparr>il_alive := (il_alive s)(i := False)\<rparr>)"

datatype instance_event = Boot int | Acquire int | Step int bool string | Release int | End int

fun instance_on :: "instance_env \<Rightarrow> instance_event \<Rightarrow> instance_state \<Rightarrow> instance_state" where
  "instance_on env (Boot i) s = instance_boot env i s"
| "instance_on env (Acquire i) s = instance_acquire env i s"
| "instance_on env (Step i ok now) s = instance_step env i ok now s"
| "instance_on env (Release i) s = instance_release i s"
| "instance_on env (End i) s = instance_end i s"

definition fresh_disk :: "fs \<Rightarrow> instance_state" where
  "fresh_disk f = \<lparr>il_fs = f, il_file = 0, il_next = 0, il_starts = 0, il_alive = (\<lambda>_. False), il_token = (\<lambda>_. []),
     il_pc = (\<lambda>_. Stopped)\<rparr>"

fun acquiring :: "instance_pc \<Rightarrow> bool" where
  "acquiring OpeningLock = True"
| "acquiring (WritingLock k) = True"
| "acquiring TighteningLock = True"
| "acquiring InspectingLock = True"
| "acquiring RemovingLock = True"
| "acquiring ReopeningLock = True"
| "acquiring _ = False"

definition one_at_a_time :: "instance_state \<Rightarrow> bool" where
  \<comment> \<open>no two processes are in the middle of \<open>acquire\<close>\<close>
  "one_at_a_time s \<longleftrightarrow> (\<forall>i j. acquiring (il_pc s i) \<and> acquiring (il_pc s j) \<longrightarrow> i = j)"

inductive instance_run :: "instance_env \<Rightarrow> instance_state \<Rightarrow> bool" for env :: instance_env where
  fresh: "file_content (instance_lockPath env) f = None \<Longrightarrow> instance_run env (fresh_disk f)"
| event: "instance_run env s \<Longrightarrow> one_at_a_time (instance_on env ev s) \<Longrightarrow> instance_run env (instance_on env ev s)"

section \<open>One instance\<close>

definition names_owner :: "instance_env \<Rightarrow> instance_state \<Rightarrow> int \<Rightarrow> bool" where
  \<comment> \<open>the lock file is the one of this process\<close>
  "names_owner env s i \<longleftrightarrow>
     (\<exists>v. readExistingLock env (il_fs s) = Some v \<and> jfield v ''token'' = Some (JStr (il_token s i)) \<and>
          jfield v ''pid'' = Some (JNum i))"

fun owning :: "instance_pc \<Rightarrow> bool" where
  "owning (Acquired k) = True"
| "owning UnlinkingOwn = True"
| "owning _ = False"

definition processes_ok :: "instance_env \<Rightarrow> instance_state \<Rightarrow> bool" where
  \<comment> \<open>living processes have positive identifiers and distinct tokens\<close>
  "processes_ok env s \<longleftrightarrow>
     (\<forall>i. il_alive s i \<longleftrightarrow> il_pc s i \<noteq> Stopped) \<and> (\<forall>i. il_alive s i \<longrightarrow> 0 < i) \<and>
     (\<forall>i. il_alive s i \<longrightarrow> (\<exists>n < il_starts s. il_token s i = ie_uuid env n)) \<and>
     (\<forall>i j. il_alive s i \<and> il_alive s j \<and> il_token s i = il_token s j \<longrightarrow> i = j)"

definition payload_ok :: "instance_env \<Rightarrow> instance_state \<Rightarrow> bool" where
  \<comment> \<open>the token in the lock file is one that was given out, and with it goes the process that has it\<close>
  "payload_ok env s \<longleftrightarrow>
     (\<forall>v. readExistingLock env (il_fs s) = Some v \<longrightarrow>
        (\<exists>n < il_starts s. \<exists>p. jfield v ''token'' = Some (JStr (ie_uuid env n)) \<and> jfield v ''pid'' = Some (JNum p) \<and>
           (\<forall>j. il_alive s j \<and> il_token s j = ie_uuid env n \<longrightarrow> p = j)))"

definition place_ok :: "instance_env \<Rightarrow> instance_state \<Rightarrow> int \<Rightarrow> instance_pc \<Rightarrow> bool" where
  \<comment> \<open>what holds of the lock file when a process is at a point of its program\<close>
  "place_ok env s i pc \<longleftrightarrow>
     (owning pc \<longrightarrow> names_owner env s i) \<and>
     (\<forall>k. pc = WritingLock k \<longrightarrow> file_content (instance_lockPath env) (il_fs s) = Some (RawText []) \<and> il_file s = k) \<and>
     (pc = RemovingLock \<longrightarrow> (\<forall>j. il_alive s j \<longrightarrow> \<not> names_owner env s j))"

definition instance_inv :: "instance_env \<Rightarrow> instance_state \<Rightarrow> bool" where
  "instance_inv env s \<longleftrightarrow>
     processes_ok env s \<and> payload_ok env s \<and> (\<forall>i. place_ok env s i (il_pc s i)) \<and> one_at_a_time s"

lemma instance_invD:
  assumes "instance_inv env s"
  shows "il_alive s i \<longleftrightarrow> il_pc s i \<noteq> Stopped" and "il_alive s i \<Longrightarrow> 0 < i"
    and "owning (il_pc s i) \<Longrightarrow> names_owner env s i"
    and "il_pc s i = WritingLock k \<Longrightarrow> file_content (instance_lockPath env) (il_fs s) = Some (RawText []) \<and> il_file s = k"
    and "il_pc s i = RemovingLock \<Longrightarrow> il_alive s j \<Longrightarrow> \<not> names_owner env s j"
    and "acquiring (il_pc s i) \<Longrightarrow> acquiring (il_pc s j) \<Longrightarrow> i = j"
  using assms unfolding instance_inv_def processes_ok_def place_ok_def one_at_a_time_def by blast+

lemma owner_unique: "names_owner env s i \<Longrightarrow> names_owner env s j \<Longrightarrow> i = j"
  by (auto simp: names_owner_def)

lemma no_owner: "readExistingLock env (il_fs s) = None \<Longrightarrow> \<not> names_owner env s j"
  by (simp add: names_owner_def)

lemma same_file:
  assumes "file_content (instance_lockPath env) f = file_content (instance_lockPath env) (il_fs s)"
  shows "readExistingLock env f = readExistingLock env (il_fs s)"
  using assms by (simp add: readExistingLock_def)

lemma goto_frame [simp]:
  "il_fs (instance_goto i pc s) = il_fs s" "il_file (instance_goto i pc s) = il_file s"
  "il_alive (instance_goto i pc s) = il_alive s" "il_token (instance_goto i pc s) = il_token s"
  "il_starts (instance_goto i pc s) = il_starts s" "il_pc (instance_goto i pc s) = (il_pc s)(i := pc)"
  by (simp_all add: instance_goto_def)

lemma goto_ok [simp]:
  "payload_ok env (instance_goto i pc s) = payload_ok env s"
  "names_owner env (instance_goto i pc s) = names_owner env s"
  "place_ok env (instance_goto i pc s) = place_ok env s"
  by (rule ext | simp add: payload_ok_def names_owner_def place_ok_def)+

lemma disk_ok [simp]:
  "processes_ok env (s\<lparr>il_fs := f, il_file := a, il_next := b\<rparr>) = processes_ok env s"
  "processes_ok env (s\<lparr>il_fs := f\<rparr>) = processes_ok env s"
  "one_at_a_time (s\<lparr>il_fs := f, il_file := a, il_next := b\<rparr>) = one_at_a_time s"
  "one_at_a_time (s\<lparr>il_fs := f\<rparr>) = one_at_a_time s"
  by (simp_all add: processes_ok_def one_at_a_time_def)

lemma one_goto_disk [simp]:
  "one_at_a_time (instance_goto i pc (s\<lparr>il_fs := f\<rparr>)) = one_at_a_time (instance_goto i pc s)"
  by (simp add: one_at_a_time_def)

lemma inv_disk:
  assumes "instance_inv env s" and "file_content (instance_lockPath env) f = file_content (instance_lockPath env) (il_fs s)"
  shows "instance_inv env (s\<lparr>il_fs := f\<rparr>)"
proof -
  have n: "names_owner env (s\<lparr>il_fs := f\<rparr>) = names_owner env s"
    by (rule ext) (simp add: names_owner_def same_file [OF assms(2)])
  have "payload_ok env (s\<lparr>il_fs := f\<rparr>) = payload_ok env s" by (simp add: payload_ok_def same_file [OF assms(2)])
  moreover have "place_ok env (s\<lparr>il_fs := f\<rparr>) i pc = place_ok env s i pc" for i pc
    by (simp add: place_ok_def n assms(2))
  ultimately show ?thesis using assms(1) by (simp add: instance_inv_def)
qed

lemma processes_goto:
  "processes_ok env s \<Longrightarrow> il_pc s i \<noteq> Stopped \<Longrightarrow> pc \<noteq> Stopped \<Longrightarrow> processes_ok env (instance_goto i pc s)"
  by (simp add: processes_ok_def)

lemma inv_place:
  assumes "instance_inv env s" and "il_pc s i \<noteq> Stopped" and "pc \<noteq> Stopped" and "place_ok env s i pc"
    and "one_at_a_time (instance_goto i pc s)"
  shows "instance_inv env (instance_goto i pc s)"
  using assms processes_goto by (simp add: instance_inv_def)

lemma inv_unnamed:
  assumes "instance_inv env s" and "\<And>j. \<not> owning (il_pc s j)" and "\<And>j k. il_pc s j \<noteq> WritingLock k"
    and "readExistingLock env f = None"
  shows "instance_inv env (s\<lparr>il_fs := f, il_file := a, il_next := b\<rparr>)"
proof -
  let ?t = "s\<lparr>il_fs := f, il_file := a, il_next := b\<rparr>"
  have "payload_ok env ?t" by (simp add: payload_ok_def assms(4))
  moreover have "place_ok env ?t j (il_pc s j)" for j
    using assms(2,3) [of j] by (simp add: place_ok_def names_owner_def assms(4))
  ultimately show ?thesis using assms(1) by (simp add: instance_inv_def)
qed

lemma inv_create:
  assumes inv: "instance_inv env s" and "map_of (il_fs s) (instance_lockPath env) = None" and "acquiring (il_pc s i)"
    and "one_at_a_time (instance_create env i s)"
  shows "instance_inv env (instance_create env i s)"
proof -
  let ?f = "fs_put (instance_lockPath env)
      \<lparr>n_kind = FileNode (RawText []), n_uid = uid_of (rc_env (ie_repo env)), n_mode = PRIVATE_FILE_MODE\<rparr> (il_fs s)"
  have content: "file_content (instance_lockPath env) (il_fs s) = None" using assms(2) by simp
  then have "readExistingLock env (il_fs s) = None" by (simp add: readExistingLock_def)
  then have "\<not> owning (il_pc s j)" "il_pc s j \<noteq> WritingLock k" for j k
    using instance_invD(3,4) [OF inv] no_owner content by fastforce+
  moreover have new: "file_content (instance_lockPath env) ?f = Some (RawText [])" by (simp add: file_content_put)
  ultimately have "instance_inv env (s\<lparr>il_fs := ?f, il_file := il_next s, il_next := Suc (il_next s)\<rparr>)"
    by (intro inv_unnamed [OF inv]) (simp_all add: readExistingLock_def)
  moreover have "il_pc s i \<noteq> Stopped" using assms(3) by auto
  ultimately show ?thesis
    using assms(4) inv new unfolding instance_create_def
    by (auto intro!: inv_place simp: place_ok_def split: option.splits)
qed

lemma inv_remove:
  assumes inv: "instance_inv env s" and "il_pc s i = pc" and "pc = RemovingLock \<or> pc = UnlinkingOwn"
    and "\<not> owning pc'" and "pc' \<noteq> Stopped" and "\<And>k. pc' \<noteq> WritingLock k" and "pc' \<noteq> RemovingLock"
    and "one_at_a_time (instance_goto i pc' s)"
  shows "instance_inv env (instance_goto i pc' (s\<lparr>il_fs := fs_rm (instance_lockPath env) (il_fs s)\<rparr>))"
proof -
  let ?t = "instance_goto i pc' s"
  have pc: "il_pc s i \<noteq> Stopped" using assms(2,3) by auto
  have "instance_inv env ?t" by (rule inv_place [OF inv pc]) (use assms in \<open>simp_all add: place_ok_def\<close>)
  moreover have "\<not> owning (il_pc ?t j)" for j
  proof (cases "j = i")
    case False
    have "\<not> owning (il_pc s j)"
    proof
      assume o: "owning (il_pc s j)"
      then have "names_owner env s j" "il_alive s j" using instance_invD(1,3) [OF inv] by auto
      then show False using assms(2,3) False instance_invD(3,5) [OF inv, of i] owner_unique [of env s i j] by auto
    qed
    then show ?thesis using False by (simp add: instance_goto_def)
  qed (simp add: instance_goto_def assms(4))
  moreover have "il_pc ?t j \<noteq> WritingLock k" for j k
  proof (cases "j = i")
    case False
    have "il_pc s j \<noteq> WritingLock k"
    proof
      assume w: "il_pc s j = WritingLock k"
      then have "\<not> names_owner env s i"
        using instance_invD(4) [OF inv w] by (simp add: names_owner_def readExistingLock_def)
      then have "il_pc s i = RemovingLock" using assms(2,3) instance_invD(3) [OF inv, of i] by auto
      then show False using instance_invD(6) [OF inv, of i j] w False by simp
    qed
    then show ?thesis using False by (simp add: instance_goto_def)
  qed (simp add: instance_goto_def assms(6))
  ultimately have "instance_inv env (?t\<lparr>il_fs := fs_rm (instance_lockPath env) (il_fs s), il_file := il_file s, il_next := il_next s\<rparr>)"
    by (rule inv_unnamed) (simp add: readExistingLock_def file_content_rm)
  moreover have "?t\<lparr>il_fs := fs_rm (instance_lockPath env) (il_fs s), il_file := il_file s, il_next := il_next s\<rparr> =
      instance_goto i pc' (s\<lparr>il_fs := fs_rm (instance_lockPath env) (il_fs s)\<rparr>)"
    by (simp add: instance_goto_def)
  ultimately show ?thesis by simp
qed

lemma inv_write:
  assumes inv: "instance_inv env s" and w: "il_pc s i = WritingLock k" and "one_at_a_time (instance_write env i k ok now s)"
  shows "instance_inv env (instance_write env i k ok now s)"
proof (cases ok)
  case False
  then show ?thesis using assms by (auto intro!: inv_place simp: instance_write_def place_ok_def)
next
  case True
  let ?v = "lockPayload env (il_token s i) i now"
  let ?f = "write_file (rc_env (ie_repo env)) (instance_lockPath env) (JsonText ?v) PRIVATE_FILE_MODE (il_fs s)"
  have old: "file_content (instance_lockPath env) (il_fs s) = Some (RawText [])" "il_file s = k"
    using instance_invD(4) [OF inv w] by auto
  have there: "map_of (il_fs s) (instance_lockPath env) \<noteq> None"
  proof
    assume "map_of (il_fs s) (instance_lockPath env) = None"
    then have "file_content (instance_lockPath env) (il_fs s) = None" by (rule file_content_missing)
    with old(1) show False by simp
  qed
  have none: "\<not> names_owner env s j" for j using old(1) by (simp add: names_owner_def readExistingLock_def)
  have alone: "\<not> acquiring (il_pc s j)" if "j \<noteq> i" for j using instance_invD(6) [OF inv, of i j] w that by auto
  have v: "jfield ?v ''token'' = Some (JStr (il_token s i))" "jfield ?v ''pid'' = Some (JNum i)"
    by (simp_all add: lockPayload_def)
  have new: "readExistingLock env ?f = Some ?v" by (simp add: readExistingLock_def file_content_write v)
  have t: "instance_write env i k ok now s = instance_goto i (Acquired k) (s\<lparr>il_fs := ?f\<rparr>)"
    using True old there by (simp add: instance_write_def)
  have alive: "il_alive s i" using instance_invD(1) [OF inv, of i] w by simp
  have p: "processes_ok env s" using inv by (simp add: instance_inv_def)
  then obtain n where n: "n < il_starts s" "il_token s i = ie_uuid env n"
    using alive unfolding processes_ok_def by blast
  have uniq: "\<forall>j. il_alive s j \<and> il_token s j = ie_uuid env n \<longrightarrow> i = j"
    using p alive n(2) unfolding processes_ok_def by metis
  have "payload_ok env (s\<lparr>il_fs := ?f\<rparr>)"
    unfolding payload_ok_def by (simp add: new v) (use n uniq in metis)
  moreover have "place_ok env (s\<lparr>il_fs := ?f\<rparr>) j (if j = i then Acquired k else il_pc s j)" for j
    using none instance_invD(3) [OF inv, of j] alone [of j] v
    by (cases "il_pc s j") (auto simp: place_ok_def names_owner_def new)
  moreover have "processes_ok env (instance_goto i (Acquired k) (s\<lparr>il_fs := ?f\<rparr>))"
    using p w by (simp add: processes_goto)
  ultimately show ?thesis using assms(3) unfolding t by (simp add: instance_inv_def)
qed

lemma inv_boot:
  assumes inv: "instance_inv env s" and u: "inj (ie_uuid env)" and one: "one_at_a_time (instance_boot env i s)"
  shows "instance_inv env (instance_boot env i s)"
proof (cases "i > 0 \<and> \<not> il_alive s i")
  case True
  let ?t = "instance_boot env i s" and ?n = "il_starts s"
  have t: "?t = instance_goto i Idle (s\<lparr>il_alive := (il_alive s)(i := True), il_starts := Suc ?n,
      il_token := (il_token s)(i := ie_uuid env ?n)\<rparr>)"
    using True by (simp add: instance_boot_def)
  have p: "processes_ok env s" "payload_ok env s" using inv by (simp_all add: instance_inv_def)
  have fresh: "ie_uuid env m = ie_uuid env ?n \<longleftrightarrow> m = ?n" for m using u by (auto dest: injD)
  have others: "il_token s j \<noteq> ie_uuid env ?n" if "il_alive s j" for j
    using p(1) that fresh unfolding processes_ok_def by (metis less_irrefl)
  have "processes_ok env ?t"
    using p(1) True others unfolding t by (auto simp: processes_ok_def less_Suc_eq)
  moreover have "payload_ok env ?t"
    using p(2) fresh unfolding t payload_ok_def by (fastforce simp: less_Suc_eq)
  moreover have "place_ok env ?t j (il_pc ?t j)" for j
  proof (cases "j = i")
    case False
    have "names_owner env ?t l \<Longrightarrow> l \<noteq> i \<and> names_owner env s l" for l
      using p(2) fresh unfolding t names_owner_def payload_ok_def by (cases "l = i") fastforce+
    moreover have "names_owner env s j \<Longrightarrow> names_owner env ?t j" using False unfolding t by (simp add: names_owner_def)
    ultimately show ?thesis
      using False inv unfolding instance_inv_def place_ok_def t by fastforce
  qed (simp add: t place_ok_def)
  ultimately show ?thesis using one by (simp add: instance_inv_def)
qed (use inv in \<open>auto simp: instance_boot_def\<close>)

lemma inv_end:
  assumes inv: "instance_inv env s"
  shows "instance_inv env (instance_end i s)"
proof -
  let ?t = "instance_end i s"
  have t: "?t = instance_goto i Stopped (s\<lparr>il_alive := (il_alive s)(i := False)\<rparr>)" by (simp add: instance_end_def)
  have n: "names_owner env ?t = names_owner env s" by (rule ext) (simp add: t names_owner_def)
  have "processes_ok env ?t" using inv unfolding t by (simp add: instance_inv_def processes_ok_def)
  moreover have "payload_ok env ?t" using inv unfolding t instance_inv_def payload_ok_def by fastforce
  moreover have "place_ok env ?t j (il_pc ?t j)" for j
    using inv n unfolding instance_inv_def place_ok_def by (cases "j = i") (auto simp: t)
  moreover have "one_at_a_time ?t" using inv unfolding t by (auto simp: instance_inv_def one_at_a_time_def)
  ultimately show ?thesis by (simp add: instance_inv_def)
qed

lemma inv_acquire:
  assumes inv: "instance_inv env s" and "one_at_a_time (instance_acquire env i s)"
  shows "instance_inv env (instance_acquire env i s)"
proof (cases "without_handle (il_pc s i)")
  case True
  obtain r f where r: "ensureJobsDirectory env (il_fs s) = (r, f)" by (cases "ensureJobsDirectory env (il_fs s)")
  have d: "instance_inv env (s\<lparr>il_fs := f\<rparr>)"
    by (rule inv_disk [OF inv], rule file_content_ensure, rule r [unfolded ensureJobsDirectory_def])
  have "il_pc s i \<noteq> Stopped" using True by auto
  with True r assms(2) show ?thesis
    by (cases r) (auto simp: instance_acquire_def place_ok_def intro!: inv_place [OF d])
qed (use inv in \<open>auto simp: instance_acquire_def\<close>)

lemma inspect_cases:
  "instance_inspect env i s = instance_goto i RemovingLock s \<and>
     (\<forall>v p. readExistingLock env (il_fs s) = Some v \<longrightarrow> jfield v ''pid'' = Some (JNum p) \<longrightarrow> \<not> isPidAlive s p) \<or>
   (\<exists>p. instance_inspect env i s = instance_goto i (InUse p) s)"
  by (auto simp: instance_inspect_def split: option.split json.split)

lemma inv_inspect:
  assumes inv: "instance_inv env s" and pc: "il_pc s i = InspectingLock" and "one_at_a_time (instance_inspect env i s)"
  shows "instance_inv env (instance_inspect env i s)"
  using inspect_cases [of env i s]
proof
  assume r: "instance_inspect env i s = instance_goto i RemovingLock s \<and>
     (\<forall>v p. readExistingLock env (il_fs s) = Some v \<longrightarrow> jfield v ''pid'' = Some (JNum p) \<longrightarrow> \<not> isPidAlive s p)"
  have "\<not> names_owner env s j" if "il_alive s j" for j
    using r that instance_invD(2) [OF inv that] by (auto simp: names_owner_def isPidAlive_def)
  then show ?thesis using r assms by (auto intro!: inv_place [OF inv] simp: place_ok_def)
next
  assume "\<exists>p. instance_inspect env i s = instance_goto i (InUse p) s"
  then show ?thesis using assms by (auto intro!: inv_place [OF inv] simp: place_ok_def)
qed

lemma inv_read_own:
  assumes inv: "instance_inv env s" and pc: "il_pc s i = ReadingOwn" and "one_at_a_time (instance_read_own env i s)"
  shows "instance_inv env (instance_read_own env i s)"
proof -
  have alive: "il_alive s i" using instance_invD(1) [OF inv] pc by simp
  have "names_owner env s i"
    if t: "Option.bind (readExistingLock env (il_fs s)) (\<lambda>v. jfield v ''token'') = Some (JStr (il_token s i))"
  proof -
    obtain v where v: "readExistingLock env (il_fs s) = Some v" "jfield v ''token'' = Some (JStr (il_token s i))"
      using t by (cases "readExistingLock env (il_fs s)") auto
    with inv alive show ?thesis by (auto simp: instance_inv_def payload_ok_def names_owner_def)
  qed
  then show ?thesis using assms by (auto intro!: inv_place [OF inv] simp: place_ok_def instance_read_own_def)
qed

lemma inv_instance_step:
  assumes inv: "instance_inv env s" and one: "one_at_a_time (instance_step env i ok now s)"
  shows "instance_inv env (instance_step env i ok now s)"
proof (cases "il_pc s i")
  case OpeningLock
  then show ?thesis using one inv_create [OF inv, of i]
    by (auto simp: instance_step_def instance_open_def place_ok_def intro!: inv_place [OF inv])
next
  case (WritingLock k)
  then show ?thesis using one inv_write [OF inv WritingLock] by (simp add: instance_step_def)
next
  case TighteningLock
  obtain r f where r: "tightenPrivateOwnedFile (rc_env (ie_repo env)) (instance_lockPath env) (il_fs s) = (r, f)"
    by (cases "tightenPrivateOwnedFile (rc_env (ie_repo env)) (instance_lockPath env) (il_fs s)")
  have "instance_inv env (s\<lparr>il_fs := f\<rparr>)" by (rule inv_disk [OF inv file_content_tighten [OF r]])
  then show ?thesis using one r TighteningLock
    by (cases r) (auto simp: instance_step_def instance_tighten_def place_ok_def intro!: inv_place)
next
  case InspectingLock
  then show ?thesis using one inv_inspect [OF inv] by (simp add: instance_step_def)
next
  case RemovingLock
  then show ?thesis using one inv_remove [OF inv RemovingLock, of ReopeningLock]
    by (simp add: instance_step_def instance_remove_def)
next
  case ReopeningLock
  then show ?thesis using one inv_create [OF inv, of i]
    by (auto simp: instance_step_def instance_reopen_def place_ok_def intro!: inv_place [OF inv])
next
  case ReadingOwn
  then show ?thesis using one inv_read_own [OF inv] by (simp add: instance_step_def)
next
  case UnlinkingOwn
  then show ?thesis using one inv_remove [OF inv UnlinkingOwn, of Idle]
    by (simp add: instance_step_def instance_unlink_def)
qed (use inv in \<open>simp_all add: instance_step_def\<close>)

lemma inv_release:
  assumes inv: "instance_inv env s" and "one_at_a_time (instance_release i s)"
  shows "instance_inv env (instance_release i s)"
  using assms by (cases "il_pc s i") (auto simp: instance_release_def place_ok_def intro!: inv_place [OF inv])

lemma instance_run_inv:
  assumes "inj (ie_uuid env)"
  shows "instance_run env s \<Longrightarrow> instance_inv env s"
proof (induction rule: instance_run.induct)
  case (fresh f)
  then show ?case
    by (simp add: instance_inv_def processes_ok_def payload_ok_def place_ok_def one_at_a_time_def fresh_disk_def readExistingLock_def)
next
  case (event s ev)
  then show ?case
    using inv_boot [OF event.IH assms] inv_end inv_acquire inv_instance_step inv_release by (cases ev) simp_all
qed

text \<open>
  C17. One bridge per jobs directory. In every interleaving of starts, acquisitions, releases and ends of processes,
  crashes included, in which no two processes are in the middle of acquiring the lock at once: a process that
  holds the lock is named in the lock file, no other process holds it, and one that inspects the lock file
  finds the directory in use.
\<close>

theorem instance_exclusive:
  assumes "instance_run env s" and "inj (ie_uuid env)" and "il_pc s i = Acquired k"
  shows "names_owner env s i \<and> (\<forall>j l. il_pc s j = Acquired l \<longrightarrow> j = i) \<and>
    (\<forall>j ok now. il_pc s j = InspectingLock \<longrightarrow> instance_on env (Step j ok now) s = instance_goto j (InUse i) s)"
proof -
  note inv = instance_run_inv [OF assms(2,1)]
  have own: "names_owner env s j" if "il_pc s j = Acquired l" for j l using instance_invD(3) [OF inv, of j] that by simp
  have "isPidAlive s i" using instance_invD(1,2) [OF inv, of i] assms(3) by (simp add: isPidAlive_def)
  with own [OF assms(3)] have "instance_on env (Step j ok now) s = instance_goto j (InUse i) s"
    if "il_pc s j = InspectingLock" for j ok now
    using that by (auto simp: instance_step_def instance_inspect_def names_owner_def)
  with own assms(3) owner_unique show ?thesis by blast
qed

definition sample_instances :: instance_env where
  "sample_instances = \<lparr>ie_repo = sample_config, ie_jobsDirectory = ''/s/jobs'', ie_uuid = stamp\<rparr>"

definition sample_instance_disk :: fs where
  "sample_instance_disk = [([''s''], own_dir), ([''s'', ''jobs''], own_dir)]"

definition instance_events :: "instance_event list \<Rightarrow> instance_state" where
  "instance_events evs = foldl (\<lambda>s ev. instance_on sample_instances ev s) (fresh_disk sample_instance_disk) evs"

lemma stamp_inj: "inj (ie_uuid sample_instances)"
  by (rule injI) (metis sample_instances_def instance_env.select_convs(3) length_replicate stamp_def)

lemma sample_instance_runs:
  assumes "instance_run sample_instances s" and "\<And>j. j \<noteq> 1 \<Longrightarrow> \<not> acquiring (il_pc (instance_on sample_instances ev s) j)"
  shows "instance_run sample_instances (instance_on sample_instances ev s)"
proof (rule instance_run.event [OF assms(1)])
  have "acquiring (il_pc (instance_on sample_instances ev s) j) \<Longrightarrow> j = 1" for j using assms(2) by blast
  then show "one_at_a_time (instance_on sample_instances ev s)" unfolding one_at_a_time_def by metis
qed

lemma goto_others: "j \<noteq> i \<Longrightarrow> il_pc (instance_goto i pc s) j = il_pc s j"
  by simp

lemma create_others: "j \<noteq> i \<Longrightarrow> il_pc (instance_create env i s) j = il_pc s j"
  by (simp add: instance_create_def goto_others split: option.split)

lemma sample_run_of_one:
  "instance_run sample_instances (instance_events [Boot 1, Acquire 1, Step 1 True ''t'', Step 1 True ''t''])"
proof -
  let ?on = "instance_on sample_instances" and ?s0 = "fresh_disk sample_instance_disk"
  have idle: "il_pc ?s0 j = Stopped" for j by (simp add: fresh_disk_def)
  have boot: "il_pc (?on (Boot 1) s) j = il_pc s j" if "j \<noteq> 1" for s j
    using that by (simp add: instance_boot_def)
  have acquire: "il_pc (?on (Acquire 1) s) j = il_pc s j" if "j \<noteq> 1" for s j
    using that by (simp add: instance_acquire_def split: prod.split sum.split)
  have steps: "il_pc (?on (Step 1 True ''t'') s) j = il_pc s j" if "j \<noteq> 1" for s j
    using that by (simp add: instance_step_def instance_open_def instance_write_def instance_tighten_def instance_inspect_def
        instance_remove_def instance_reopen_def instance_read_own_def instance_unlink_def create_others
        split: instance_pc.split prod.split sum.split option.split json.split)
  have "instance_run sample_instances ?s0"
    by (rule instance_run.fresh) (simp add: file_content_def sample_instance_disk_def instance_lockPath_def
        sample_instances_def sample_config_def)
  then show ?thesis
    unfolding instance_events_def foldl.simps
    by (intro sample_instance_runs) (simp_all only: boot acquire steps idle acquiring.simps not_False_eq_True)
qed

theorem instance_exclusive_witness:
  "names_owner sample_instances (instance_events [Boot 1, Acquire 1, Step 1 True ''t'', Step 1 True ''t'']) 1"
proof -
  have "il_pc (instance_events [Boot 1, Acquire 1, Step 1 True ''t'', Step 1 True ''t'']) 1 = Acquired 0" by code_simp
  with instance_exclusive [OF sample_run_of_one stamp_inj] show ?thesis by blast
qed

text \<open>
  Without the condition the lock is no lock, even on an empty directory: the second process reads the lock file
  between its creation and the writing of its payload, takes it for a stale one, and removes it.
\<close>

lemma instance_lock_taken_twice:
  "let s = instance_events [Boot 1, Boot 2, Acquire 1, Acquire 2, Step 1 True ''t'', Step 2 True ''t'', Step 2 True ''t'',
       Step 2 True ''t'', Step 2 True ''t'', Step 1 True ''t'', Step 2 True ''t'', Step 2 True ''t'']
   in il_pc s 1 = Acquired 0 \<and> il_pc s 2 = Acquired 1"
  by code_simp

end
