(* ===== verification/PosixPath.thy ===== *)
theory PosixPath
  imports Prelude
begin

text \<open>
  Path strings and \<open>src/jobs/cwd-boundary.ts\<close>. The \<open>node:path\<close> functions the code calls
  (\<open>join\<close>, \<open>resolve\<close>, \<open>relative\<close>, \<open>isAbsolute\<close>, in their POSIX form) are computed on the
  segments of a path; \<open>fs.realpath\<close> depends on the disk and is a parameter that may fail.
\<close>

section \<open>Segments\<close>

definition slash :: char where "slash = CHR ''/''"

fun norm_segs :: "bool \<Rightarrow> string list \<Rightarrow> string list \<Rightarrow> string list" where
  \<comment> \<open>\<open>normalizeString\<close>: the accumulator holds the segments kept so far, last first\<close>
  "norm_segs up acc [] = rev acc"
| "norm_segs up acc (s # ss) =
     (if s = [] \<or> s = ''.'' then norm_segs up acc ss
      else if s = ''..'' then
        (if acc \<noteq> [] \<and> hd acc \<noteq> ''..'' then norm_segs up (tl acc) ss
         else if up then norm_segs up (s # acc) ss
         else norm_segs up acc ss)
      else norm_segs up (s # acc) ss)"

definition is_absolute :: "string \<Rightarrow> bool" where
  "is_absolute p \<longleftrightarrow> starts_with [slash] p"

definition path_segs :: "string \<Rightarrow> string list" where
  \<comment> \<open>the segments of an absolute path, normalised\<close>
  "path_segs p = norm_segs False [] (split_on slash p)"

definition path_of :: "string list \<Rightarrow> string" where
  "path_of segs = slash # join_with [slash] segs"

definition path_normalize :: "string \<Rightarrow> string" where
  "path_normalize p =
     (if p = [] then ''.''
      else
        (let absolute = is_absolute p;
             trailing = ends_with [slash] p;
             body = join_with [slash] (norm_segs (\<not> absolute) [] (split_on slash p))
         in if body = [] then (if absolute then [slash] else if trailing then ''./'' else ''.'')
            else (if absolute then [slash] else []) @ body @ (if trailing then [slash] else [])))"

definition path_join :: "string list \<Rightarrow> string" where
  "path_join parts =
     (let ne = filter (\<lambda>p. p \<noteq> []) parts in
      if ne = [] then ''.'' else path_normalize (join_with [slash] ne))"

definition path_resolve :: "string \<Rightarrow> string \<Rightarrow> string" where
  \<comment> \<open>\<open>path.resolve(cwd, p)\<close> for an absolute \<open>cwd\<close>\<close>
  "path_resolve cwd p =
     (if is_absolute p then path_of (path_segs p)
      else if p = [] then path_of (path_segs cwd)
      else path_of (path_segs (cwd @ [slash] @ p)))"

fun strip_common :: "'a list \<Rightarrow> 'a list \<Rightarrow> 'a list \<times> 'a list" where
  "strip_common (x # xs) (y # ys) = (if x = y then strip_common xs ys else (x # xs, y # ys))"
| "strip_common xs ys = (xs, ys)"

definition path_relative :: "string \<Rightarrow> string \<Rightarrow> string" where
  \<comment> \<open>\<open>path.relative\<close> for two absolute paths\<close>
  "path_relative from to =
     (let (f, t) = strip_common (path_segs from) (path_segs to)
      in join_with [slash] (map (\<lambda>_. ''..'') f @ t))"

section \<open>The working directory boundary\<close>

datatype cwd_error = CwdNotAccessible string string | CwdOutside string

definition isInsidePath :: "string \<Rightarrow> string \<Rightarrow> bool" where
  "isInsidePath parent child =
     (let relative = path_relative parent child
      in relative = [] \<or> (relative \<noteq> [] \<and> \<not> starts_with ''..'' relative \<and> \<not> is_absolute relative))"

definition realpathOrThrow :: "(string \<Rightarrow> string + string) \<Rightarrow> string \<Rightarrow> string \<Rightarrow> cwd_error + string" where
  "realpathOrThrow realpath resolvedCwd originalCwd =
     (case realpath resolvedCwd of
        Inr p \<Rightarrow> Inr p
      | Inl e \<Rightarrow> Inl (CwdNotAccessible originalCwd e))"

definition realpathIfAvailable :: "(string \<Rightarrow> string + string) \<Rightarrow> string \<Rightarrow> string" where
  "realpathIfAvailable realpath resolvedPath =
     (case realpath resolvedPath of Inr p \<Rightarrow> p | Inl _ \<Rightarrow> resolvedPath)"

definition resolveAllowedExecutionCwd ::
  "(string \<Rightarrow> string + string) \<Rightarrow> string \<Rightarrow> string option \<Rightarrow> string list \<Rightarrow> cwd_error + string option" where
  \<comment> \<open>the second argument is \<open>process.cwd()\<close>\<close>
  "resolveAllowedExecutionCwd realpath processCwd cwd allowedPrefixes =
     (if \<not> truthy_str cwd then Inr None
      else
        (let c = the cwd; resolvedCwd = path_resolve processCwd c in
         case realpathOrThrow realpath resolvedCwd c of
           Inl e \<Rightarrow> Inl e
         | Inr realCwd \<Rightarrow>
             (let realPrefixes =
                    map (\<lambda>p. realpathIfAvailable realpath (path_resolve processCwd p)) allowedPrefixes
              in if \<not> list_ex (\<lambda>p. isInsidePath p realCwd) realPrefixes
                 then Inl (CwdOutside c)
                 else Inr (Some realCwd))))"

section \<open>What the boundary guarantees\<close>

lemma strip_common_append: "\<exists>c. xs = c @ fst (strip_common xs ys) \<and> ys = c @ snd (strip_common xs ys)"
proof (induction xs ys rule: strip_common.induct)
  case (1 x xs y ys)
  then obtain c where "x = y \<Longrightarrow> xs = c @ fst (strip_common xs ys) \<and> ys = c @ snd (strip_common xs ys)"
    by blast
  then show ?case by (cases "x = y") (auto intro: exI [of _ "y # c"] exI [of _ "[]"])
qed auto

lemma strip_common_prefix: "strip_common ps (ps @ r) = ([], r)"
  by (induction ps) auto

definition seg_ok :: "string \<Rightarrow> bool" where
  "seg_ok s \<longleftrightarrow> s \<noteq> [] \<and> s \<noteq> ''.'' \<and> s \<noteq> ''..'' \<and> slash \<notin> set s"

lemma norm_segs_ok:
  "list_all seg_ok acc \<Longrightarrow> list_all (\<lambda>s. slash \<notin> set s) ss \<Longrightarrow> list_all seg_ok (norm_segs False acc ss)"
proof (induction ss arbitrary: acc)
  case Nil
  then show ?case by (simp add: list_all_iff)
next
  case (Cons s ss)
  have "list_all seg_ok (tl acc)" using Cons.prems(1) by (cases acc) simp_all
  then have "list_all seg_ok (norm_segs False (tl acc) ss)" using Cons by simp
  moreover have "s \<noteq> [] \<Longrightarrow> s \<noteq> ''.'' \<Longrightarrow> s \<noteq> ''..'' \<Longrightarrow> seg_ok s"
    using Cons.prems(2) by (simp add: seg_ok_def)
  ultimately show ?case using Cons.prems Cons.IH [of acc] Cons.IH [of "s # acc"] by auto
qed

lemma split_on_no_sep: "list_all (\<lambda>s. c \<notin> set s) (split_on c xs)"
  by (induction xs) (auto split: list.split)

lemma path_segs_ok: "list_all seg_ok (path_segs p)"
  by (simp add: path_segs_def norm_segs_ok split_on_no_sep)

lemma join_with_Cons:
  "join_with sep (x # xs) = (if xs = [] then x else x @ sep @ join_with sep xs)"
  by (cases xs) simp_all

lemma join_with_starts: "seg_ok s \<Longrightarrow> hd (join_with [slash] (s # ss)) \<noteq> slash"
  by (cases s) (auto simp: seg_ok_def join_with_Cons)

lemma join_with_Nil_iff: "list_all (\<lambda>s. s \<noteq> []) ss \<Longrightarrow> join_with sep ss = [] \<longleftrightarrow> ss = []"
  by (cases ss) (auto simp: join_with_Cons)

lemma starts_dotdot_join:
  "slash \<notin> set s \<Longrightarrow> starts_with ''..'' (join_with [slash] (s # ss)) \<longleftrightarrow> starts_with ''..'' s"
proof -
  assume "slash \<notin> set s"
  then show ?thesis
    by (cases s; cases "tl s") (auto simp: starts_with_def slash_def join_with_Cons)
qed

text \<open>
  A path is inside its parent exactly when its segments extend the parent's and the first
  extra segment does not begin with two dots.
\<close>

lemma isInsidePath_iff:
  "isInsidePath parent child \<longleftrightarrow>
     (\<exists>r. path_segs child = path_segs parent @ r \<and> (r = [] \<or> \<not> starts_with ''..'' (hd r)))"
proof -
  obtain f t where ft: "strip_common (path_segs parent) (path_segs child) = (f, t)" by fastforce
  obtain c where c: "path_segs parent = c @ f" "path_segs child = c @ t"
    using strip_common_append [of "path_segs parent" "path_segs child"] ft by auto
  have ok: "list_all seg_ok t" using path_segs_ok [of child] c by simp
  have rel: "path_relative parent child = join_with [slash] (map (\<lambda>_. ''..'') f @ t)"
    by (simp add: path_relative_def ft)
  show ?thesis
  proof (cases f)
    case (Cons x xs)
    have "starts_with ''..'' (path_relative parent child)"
      unfolding rel Cons list.map append_Cons
      by (subst starts_dotdot_join) (simp_all add: slash_def starts_with_def)
    then have "\<not> isInsidePath parent child" by (auto simp: isInsidePath_def Let_def starts_with_def)
    moreover have "\<not> (\<exists>r. path_segs child = path_segs parent @ r)"
    proof
      assume "\<exists>r. path_segs child = path_segs parent @ r"
      then have "f = []" using ft strip_common_prefix [of "path_segs parent"] by auto
      with Cons show False by simp
    qed
    ultimately show ?thesis by blast
  next
    case Nil
    show ?thesis
    proof (cases t)
      case tNil: Nil
      with Nil rel c show ?thesis by (auto simp: isInsidePath_def)
    next
      case (Cons s ss)
      with ok have s: "seg_ok s" by simp
      have "join_with [slash] (s # ss) \<noteq> []"
        using ok Cons join_with_Nil_iff [of t "[slash]"] by (auto simp: seg_ok_def list_all_iff)
      then have "\<not> is_absolute (join_with [slash] (s # ss))"
        using join_with_starts [OF s, of ss]
        by (cases "join_with [slash] (s # ss)") (auto simp: is_absolute_def starts_with_def)
      moreover have "slash \<notin> set s" using s by (simp add: seg_ok_def)
      ultimately have "isInsidePath parent child \<longleftrightarrow> \<not> starts_with ''..'' s"
        using \<open>join_with [slash] (s # ss) \<noteq> []\<close> rel Nil Cons
        by (simp add: isInsidePath_def Let_def starts_dotdot_join del: join_with.simps)
      then show ?thesis using c Nil Cons by auto
    qed
  qed
qed

text \<open>
  C23. A working directory the code accepts is the real path of the requested one, and lies,
  segment by segment, below the real path (or, if that cannot be read, the resolved path) of
  one of the allowed prefixes; a request without a directory runs without one.
\<close>

theorem accepted_cwd_inside:
  assumes "resolveAllowedExecutionCwd realpath here cwd prefixes = Inr (Some c)"
  shows "(\<exists>d. cwd = Some d \<and> d \<noteq> [] \<and> realpath (path_resolve here d) = Inr c) \<and>
    (\<exists>p \<in> set prefixes. \<exists>r. path_segs c =
        path_segs (realpathIfAvailable realpath (path_resolve here p)) @ r)"
proof -
  obtain d where d: "cwd = Some d" "d \<noteq> []"
    using assms by (cases cwd) (auto simp: resolveAllowedExecutionCwd_def split: if_splits)
  then have c: "realpath (path_resolve here d) = Inr c"
    and ex: "list_ex (\<lambda>p. isInsidePath p c)
      (map (\<lambda>p. realpathIfAvailable realpath (path_resolve here p)) prefixes)"
    using assms by (auto simp: resolveAllowedExecutionCwd_def realpathOrThrow_def Let_def
        split: if_splits sum.splits)
  from ex show ?thesis using d c by (auto simp: list_ex_iff isInsidePath_iff)
qed

theorem accepted_cwd_inside_witness:
  "(\<exists>d. Some ''w/./x'' = Some d \<and> d \<noteq> [] \<and> Inr (path_resolve ''/home'' d) = (Inr ''/home/w/x'' :: string + string)) \<and>
   (\<exists>p \<in> set [''/tmp'', ''w'']. \<exists>r. path_segs ''/home/w/x'' =
        path_segs (realpathIfAvailable Inr (path_resolve ''/home'' p)) @ r)"
proof -
  have "resolveAllowedExecutionCwd Inr ''/home'' (Some ''w/./x'') [''/tmp'', ''w''] = Inr (Some ''/home/w/x'')"
    by code_simp
  from accepted_cwd_inside [OF this] show ?thesis .
qed

text \<open>
  The other direction: a directory whose real path can be read and lies below an allowed
  prefix is accepted, unless the segment right below the prefix begins with two dots.
\<close>

theorem inside_cwd_accepted:
  assumes "d \<noteq> []" and "realpath (path_resolve here d) = Inr c" and "p \<in> set prefixes"
    and "path_segs c = path_segs (realpathIfAvailable realpath (path_resolve here p)) @ r"
    and "r = [] \<or> \<not> starts_with ''..'' (hd r)"
  shows "resolveAllowedExecutionCwd realpath here (Some d) prefixes = Inr (Some c)"
proof -
  have "isInsidePath (realpathIfAvailable realpath (path_resolve here p)) c"
    using assms(4,5) by (auto simp: isInsidePath_iff)
  with assms(1-3) show ?thesis
    by (auto simp: resolveAllowedExecutionCwd_def realpathOrThrow_def Let_def list_ex_iff)
qed

theorem inside_cwd_accepted_witness:
  "resolveAllowedExecutionCwd Inr ''/home'' (Some ''w/x'') [''/tmp'', ''w''] = Inr (Some ''/home/w/x'')"
  by (rule inside_cwd_accepted [where p = "''w''" and r = "[''x'']"]; code_simp)

end
