(* ===== verification/BridgeConfig.thy ===== *)
theory BridgeConfig
  imports JobTypes PosixPath
begin

text \<open>
  The configuration of the bridge, \<open>src/config/bridge-config.ts\<close>: the parsers of the
  environment variables and \<open>buildBridgeConfig\<close>, which either throws or returns the record
  every service reads. \<open>ConfigService.get\<close> (a library call) is the parameter \<open>env\<close>.

  The locale \<open>int_setting\<close> is what a numeric setting promises; the four parsers of the two
  programs are its interpretations.
\<close>

section \<open>The record\<close>

datatype reasoning_effort = EffortLow | EffortMedium | EffortHigh | EffortXhigh

fun effort_name :: "reasoning_effort \<Rightarrow> string" where
  "effort_name EffortLow = ''low''"
| "effort_name EffortMedium = ''medium''"
| "effort_name EffortHigh = ''high''"
| "effort_name EffortXhigh = ''xhigh''"

record telegram_config =
  tg_botToken :: string
  tg_chatId :: string

record openclaw_config =
  oc_url :: string
  oc_token :: string
  oc_sessionKey :: string

record bridge_config =
  bc_host :: string
  bc_requestBodyLimit :: "string option"
  bc_jobsDirectory :: string
  bc_omxCommand :: string
  bc_omxModel :: "string option"
  bc_omxModelReasoningEffort :: "reasoning_effort option"
  bc_tmuxCommand :: string
  bc_tmuxSessionsDirectory :: string
  bc_omxEnvAllowlist :: "string list option"
  bc_jobPollIntervalMs :: int
  bc_jobTimeoutMs :: int
  bc_maxOutputChars :: int
  bc_tmuxMaxCaptureBytesPerStream :: "int option"
  bc_sigkillGraceMs :: int
  bc_maxConcurrency :: int
  bc_maxActiveJobs :: int
  bc_jobRetentionDays :: int
  bc_maxTerminalJobs :: int
  bc_jobCleanupIntervalMs :: int
  bc_notifyRetryDelaysMs :: "int list option"
  bc_notifyTimeoutMs :: int
  bc_insecureLoopback :: bool
  bc_callbackSecret :: "string option"
  bc_apiToken :: "string option"
  bc_allowedCwdPrefixes :: "string list"
  bc_notifyMode :: notify_mode
  bc_claudeNotifyUrl :: "string option"
  bc_telegram :: "telegram_config option"
  bc_openclawHooks :: "openclaw_config option"

definition DEFAULT_TMUX_MAX_CAPTURE_BYTES_PER_STREAM :: int where
  "DEFAULT_TMUX_MAX_CAPTURE_BYTES_PER_STREAM = 1048576"
definition MIN_TMUX_MAX_CAPTURE_BYTES_PER_STREAM :: int where
  "MIN_TMUX_MAX_CAPTURE_BYTES_PER_STREAM = 4096"
definition MAX_TMUX_MAX_CAPTURE_BYTES_PER_STREAM :: int where
  "MAX_TMUX_MAX_CAPTURE_BYTES_PER_STREAM = 67108864"
definition DEFAULT_REQUEST_BODY_LIMIT :: string where "DEFAULT_REQUEST_BODY_LIMIT = ''1mb''"

definition DEFAULT_OMX_ENV_ALLOWLIST :: "string list" where
  "DEFAULT_OMX_ENV_ALLOWLIST =
     [''PATH'', ''HOME'', ''USER'', ''LOGNAME'', ''SHELL'', ''LANG'', ''LC_ALL'', ''TERM'', ''TMPDIR'',
      ''CODEX_HOME'', ''XDG_CONFIG_HOME'', ''XDG_CACHE_HOME'', ''XDG_DATA_HOME'', ''SSH_AUTH_SOCK'',
      ''OPENAI_API_KEY'', ''ANTHROPIC_API_KEY'', ''GEMINI_API_KEY'', ''GOOGLE_API_KEY'',
      ''GOOGLE_GENERATIVE_AI_API_KEY'', ''OMX_DEFAULT_FRONTIER_MODEL'', ''OMX_DEFAULT_SPARK_MODEL'',
      ''OMX_DEFAULT_STANDARD_MODEL'']"

datatype config_error =
    NotPositiveInteger string
  | NotPositiveSafeInteger string
  | NotBetween string int int
  | BadByteLimit string
  | NotSafeByteLimit string
  | BadIntegerList string
  | NotSafeIntegerList string
  | BadNotifyMode
  | BadReasoningEffort
  | HooksTokenRequired
  | InsecureLoopbackNotAllowed
  | ApiTokenRequired
  | CallbackSecretRequired
  | PackageUnreadable
  | PackageVersionMissing

section \<open>Numbers\<close>

definition MAX_SAFE_INTEGER :: int where "MAX_SAFE_INTEGER = 9007199254740991"

definition digits_value :: "string \<Rightarrow> int" where
  "digits_value s = foldl (\<lambda>a c. 10 * a + (of_char c - 48)) 0 s"

definition all_digits :: "string \<Rightarrow> bool" where
  \<comment> \<open>\<open>/^\d+$/\<close>\<close>
  "all_digits s \<longleftrightarrow> s \<noteq> [] \<and> list_all is_digit s"

definition is_safe :: "int \<Rightarrow> bool" where
  \<comment> \<open>\<open>Number.isSafeInteger\<close> of a converted digit string: conversion is exact up to the bound
     and gives at least \<open>2^53\<close> above it\<close>
  "is_safe n \<longleftrightarrow> - MAX_SAFE_INTEGER \<le> n \<and> n \<le> MAX_SAFE_INTEGER"

definition trimmed :: "string option \<Rightarrow> string" where
  \<comment> \<open>\<open>value?.trim()\<close>; the result is only used when it is truthy\<close>
  "trimmed v = (case v of None \<Rightarrow> [] | Some s \<Rightarrow> trim s)"

definition parsePositiveInt :: "string option \<Rightarrow> int \<Rightarrow> string \<Rightarrow> config_error + int" where
  "parsePositiveInt v fallback variableName =
     (let normalized = trimmed v in
      if normalized = [] then Inr fallback
      else if \<not> all_digits normalized then Inl (NotPositiveInteger variableName)
      else let parsed = digits_value normalized in
        if \<not> is_safe parsed \<or> parsed \<le> 0 then Inl (NotPositiveSafeInteger variableName)
        else Inr parsed)"

definition parseBoundedPositiveInt ::
  "string option \<Rightarrow> int \<Rightarrow> int \<Rightarrow> int \<Rightarrow> string \<Rightarrow> config_error + int" where
  "parseBoundedPositiveInt v fallback minimum maximum variableName =
     (let normalized = trimmed v in
      if normalized = [] then Inr fallback
      else if \<not> all_digits normalized then Inl (NotBetween variableName minimum maximum)
      else let parsed = digits_value normalized in
        if \<not> is_safe parsed \<or> parsed < minimum \<or> maximum < parsed
        then Inl (NotBetween variableName minimum maximum)
        else Inr parsed)"

definition parseBodyLimit :: "string option \<Rightarrow> string \<Rightarrow> string \<Rightarrow> config_error + string" where
  "parseBodyLimit v fallback variableName =
     (let trimmed_v = trimmed v in
      if trimmed_v = [] then Inr fallback
      else
        (let amount_text = takeWhile is_digit trimmed_v;
             unit = to_lower (dropWhile is_digit trimmed_v)
         in if amount_text = [] \<or> unit \<notin> set [[], ''b'', ''kb'', ''mb'']
            then Inl (BadByteLimit variableName)
            else let amount = digits_value amount_text in
              if \<not> is_safe amount \<or> amount \<le> 0 then Inl (NotSafeByteLimit variableName)
              else Inr trimmed_v))"

definition parsePositiveIntList :: "string option \<Rightarrow> int list \<Rightarrow> string \<Rightarrow> config_error + int list" where
  "parsePositiveIntList v fallback variableName =
     (let normalized = trimmed v in
      if normalized = [] then Inr fallback
      else
        (let parts = map trim (split_on CHR '','' normalized) in
         if list_ex (\<lambda>p. \<not> all_digits p) parts then Inl (BadIntegerList variableName)
         else let parsed = map digits_value parts in
           if list_ex (\<lambda>n. \<not> is_safe n \<or> n \<le> 0) parsed then Inl (NotSafeIntegerList variableName)
           else Inr parsed))"

section \<open>Words and lists\<close>

definition parseNotifyMode :: "string option \<Rightarrow> config_error + notify_mode" where
  "parseNotifyMode v =
     (let normalized = trimmed v in
      if normalized = [] then Inr NotifyOpenClaw
      else if normalized = ''openclaw'' then Inr NotifyOpenClaw
      else if normalized = ''claude'' then Inr NotifyClaude
      else Inl BadNotifyMode)"

definition js_unique :: "'a list \<Rightarrow> 'a list" where
  \<comment> \<open>\<open>[...new Set(xs)]\<close> keeps the first of equal elements\<close>
  "js_unique xs = rev (remdups (rev xs))"

definition comma_parts :: "string \<Rightarrow> string list" where
  "comma_parts s = filter (\<lambda>p. p \<noteq> []) (map trim (split_on CHR '','' s))"

definition parseAllowedCwdPrefixes :: "string option \<Rightarrow> string \<Rightarrow> string \<Rightarrow> string list" where
  "parseAllowedCwdPrefixes v cwd homeDir =
     (let rawParts = (if truthy_str v then comma_parts (the v) else [homeDir]);
          expand = (\<lambda>part. if part = ''~'' then homeDir
                           else if starts_with ''~/'' part then path_join [homeDir, drop 2 part]
                           else part)
      in js_unique (map (\<lambda>part. path_resolve cwd (expand part)) rawParts))"

definition parseStringList :: "string option \<Rightarrow> string list \<Rightarrow> string list" where
  "parseStringList v fallback =
     (if \<not> truthy_str v then fallback
      else let parsed = comma_parts (the v) in
        if parsed \<noteq> [] then js_unique parsed else fallback)"

definition parseBoolean :: "string option \<Rightarrow> bool" where
  "parseBoolean v \<longleftrightarrow>
     v = Some ''1'' \<or> map_option to_lower v = Some ''true'' \<or> map_option to_lower v = Some ''yes''"

definition parseModelReasoningEffort :: "string option \<Rightarrow> config_error + reasoning_effort option" where
  "parseModelReasoningEffort v =
     (let normalized = to_lower (trimmed v) in
      if normalized = [] then Inr None
      else if normalized = ''low'' then Inr (Some EffortLow)
      else if normalized = ''medium'' then Inr (Some EffortMedium)
      else if normalized = ''high'' then Inr (Some EffortHigh)
      else if normalized = ''xhigh'' then Inr (Some EffortXhigh)
      else Inl BadReasoningEffort)"

definition isLoopbackHost :: "string \<Rightarrow> bool" where
  "isLoopbackHost host \<longleftrightarrow>
     to_lower host \<in> set [''127.0.0.1'', ''localhost'', ''::1'', ''[::1]'']"

section \<open>Building the record\<close>

definition or_undefined :: "string option \<Rightarrow> string option" where
  \<comment> \<open>\<open>value || undefined\<close>\<close>
  "or_undefined v = (if truthy_str v then v else None)"

definition try_bind :: "'e + 'a \<Rightarrow> ('a \<Rightarrow> 'e + 'b) \<Rightarrow> 'e + 'b" where
  "try_bind m f = (case m of Inl e \<Rightarrow> Inl e | Inr x \<Rightarrow> f x)"

lemma try_bind_Inr [simp]: "try_bind m f = Inr y \<longleftrightarrow> (\<exists>x. m = Inr x \<and> f x = Inr y)"
  by (cases m) (simp_all add: try_bind_def)

lemma try_bind_run [simp]: "try_bind (Inr x) f = f x" "try_bind (Inl e) f = Inl e"
  by (simp_all add: try_bind_def)

lemma or_undefined_truthy: "or_undefined v = Some x \<Longrightarrow> x \<noteq> []"
  by (auto simp: or_undefined_def split: if_splits)

definition config_guards ::
  "string \<Rightarrow> string option \<Rightarrow> string option \<Rightarrow> string option \<Rightarrow> string option \<Rightarrow> bool \<Rightarrow> config_error + unit"
where
  \<comment> \<open>the checks of \<open>buildBridgeConfig\<close> before the record is built\<close>
  "config_guards host hooksUrl hooksToken callbackSecret apiToken insecureLoopback =
     (if hooksUrl \<noteq> None \<and> hooksToken = None then Inl HooksTokenRequired
      else if insecureLoopback \<and> \<not> isLoopbackHost host then Inl InsecureLoopbackNotAllowed
      else if \<not> insecureLoopback \<and> apiToken = None then Inl ApiTokenRequired
      else if \<not> insecureLoopback \<and> callbackSecret = None then Inl CallbackSecretRequired
      else Inr ())"

definition buildBridgeConfig ::
  "(string \<Rightarrow> string option) \<Rightarrow> string \<Rightarrow> string \<Rightarrow> config_error + bridge_config" where
  "buildBridgeConfig env cwd homeDir =
    (let host = nullish (env ''BRIDGE_HOST'') ''127.0.0.1'';
         openclawHooksUrl = or_undefined (env ''OPENCLAW_HOOKS_URL'');
         openclawHooksToken = or_undefined (env ''OPENCLAW_HOOKS_TOKEN'');
         callbackSecret = or_undefined (env ''BRIDGE_CALLBACK_SECRET'');
         apiToken = or_undefined (env ''BRIDGE_API_TOKEN'');
         insecureLoopback = parseBoolean (env ''BRIDGE_INSECURE_LOOPBACK'');
         positive = (\<lambda>name fallback. parsePositiveInt (env name) fallback name)
     in
     try_bind (parseNotifyMode (env ''NOTIFY_MODE'')) (\<lambda>notifyMode.
     try_bind (config_guards host openclawHooksUrl openclawHooksToken callbackSecret apiToken
                 insecureLoopback) (\<lambda>_.
     try_bind (parseBodyLimit (env ''BRIDGE_REQUEST_BODY_LIMIT'') DEFAULT_REQUEST_BODY_LIMIT
                 ''BRIDGE_REQUEST_BODY_LIMIT'') (\<lambda>requestBodyLimit.
     try_bind (parseModelReasoningEffort (env ''BRIDGE_OMX_MODEL_REASONING_EFFORT'')) (\<lambda>effort.
     try_bind (positive ''BRIDGE_JOB_POLL_INTERVAL_MS'' 500) (\<lambda>jobPollIntervalMs.
     try_bind (positive ''BRIDGE_JOB_TIMEOUT_MS'' (15 * 60 * 1000)) (\<lambda>jobTimeoutMs.
     try_bind (positive ''BRIDGE_MAX_OUTPUT_CHARS'' 32000) (\<lambda>maxOutputChars.
     try_bind (parseBoundedPositiveInt (env ''BRIDGE_TMUX_MAX_CAPTURE_BYTES_PER_STREAM'')
                 DEFAULT_TMUX_MAX_CAPTURE_BYTES_PER_STREAM MIN_TMUX_MAX_CAPTURE_BYTES_PER_STREAM
                 MAX_TMUX_MAX_CAPTURE_BYTES_PER_STREAM ''BRIDGE_TMUX_MAX_CAPTURE_BYTES_PER_STREAM'')
       (\<lambda>tmuxMaxCaptureBytesPerStream.
     try_bind (positive ''BRIDGE_SIGKILL_GRACE_MS'' 5000) (\<lambda>sigkillGraceMs.
     try_bind (positive ''BRIDGE_MAX_CONCURRENCY'' 2) (\<lambda>maxConcurrency.
     try_bind (positive ''BRIDGE_MAX_ACTIVE_JOBS'' 50) (\<lambda>maxActiveJobs.
     try_bind (positive ''BRIDGE_JOB_RETENTION_DAYS'' 7) (\<lambda>jobRetentionDays.
     try_bind (positive ''BRIDGE_MAX_TERMINAL_JOBS'' 1000) (\<lambda>maxTerminalJobs.
     try_bind (positive ''BRIDGE_JOB_CLEANUP_INTERVAL_MS'' (60 * 60 * 1000)) (\<lambda>jobCleanupIntervalMs.
     try_bind (parsePositiveIntList (env ''BRIDGE_NOTIFY_RETRY_DELAYS_MS'') [500, 1000, 2000]
                 ''BRIDGE_NOTIFY_RETRY_DELAYS_MS'') (\<lambda>notifyRetryDelaysMs.
     try_bind (positive ''BRIDGE_NOTIFY_TIMEOUT_MS'' 5000) (\<lambda>notifyTimeoutMs.
       Inr \<lparr>
         bc_host = host,
         bc_requestBodyLimit = Some requestBodyLimit,
         bc_jobsDirectory = nullish (env ''BRIDGE_JOBS_DIR'')
           (path_join [cwd, ''.omx'', ''state'', ''bridge-jobs'']),
         bc_omxCommand = nullish (env ''OMX_COMMAND'') ''omx'',
         bc_omxModel = or_undefined (map_option trim (env ''BRIDGE_OMX_MODEL'')),
         bc_omxModelReasoningEffort = effort,
         bc_tmuxCommand = nullish (env ''TMUX_COMMAND'') ''tmux'',
         bc_tmuxSessionsDirectory = nullish (env ''BRIDGE_TMUX_SESSIONS_DIR'')
           (path_join [cwd, ''.omx'', ''state'', ''bridge-sessions'']),
         bc_omxEnvAllowlist = Some (parseStringList (env ''BRIDGE_OMX_ENV_ALLOWLIST'')
           DEFAULT_OMX_ENV_ALLOWLIST),
         bc_jobPollIntervalMs = jobPollIntervalMs,
         bc_jobTimeoutMs = jobTimeoutMs,
         bc_maxOutputChars = maxOutputChars,
         bc_tmuxMaxCaptureBytesPerStream = Some tmuxMaxCaptureBytesPerStream,
         bc_sigkillGraceMs = sigkillGraceMs,
         bc_maxConcurrency = maxConcurrency,
         bc_maxActiveJobs = maxActiveJobs,
         bc_jobRetentionDays = jobRetentionDays,
         bc_maxTerminalJobs = maxTerminalJobs,
         bc_jobCleanupIntervalMs = jobCleanupIntervalMs,
         bc_notifyRetryDelaysMs = Some notifyRetryDelaysMs,
         bc_notifyTimeoutMs = notifyTimeoutMs,
         bc_insecureLoopback = insecureLoopback,
         bc_callbackSecret = callbackSecret,
         bc_apiToken = apiToken,
         bc_allowedCwdPrefixes =
           parseAllowedCwdPrefixes (env ''BRIDGE_ALLOWED_CWD_PREFIXES'') cwd homeDir,
         bc_notifyMode = notifyMode,
         bc_claudeNotifyUrl = or_undefined (env ''CLAUDE_NOTIFY_URL''),
         bc_telegram =
           (if truthy_str (env ''TELEGRAM_BOT_TOKEN'') \<and> truthy_str (env ''TELEGRAM_NOTIFY_CHAT_ID'')
            then Some \<lparr>tg_botToken = the (env ''TELEGRAM_BOT_TOKEN''),
                       tg_chatId = the (env ''TELEGRAM_NOTIFY_CHAT_ID'')\<rparr>
            else None),
         bc_openclawHooks =
           (case openclawHooksUrl of
              None \<Rightarrow> None
            | Some url \<Rightarrow> Some \<lparr>
                oc_url = url,
                oc_token = the openclawHooksToken,
                oc_sessionKey = nullish (or_undefined (env ''OPENCLAW_HOOKS_SESSION_KEY''))
                  ''agent:main:telegram:direct''\<rparr>)\<rparr>)))))))))))))))))"

section \<open>Numeric settings\<close>

lemma digit_char_code: "n < 10 \<Longrightarrow> (of_char (digit_char n) :: nat) = 48 + n"
  by (simp add: digit_char_def of_char_of take_bit_eq_mod)

lemma is_digit_digit_char: "n < 10 \<Longrightarrow> is_digit (digit_char n)"
  by (simp add: is_digit_def digit_char_code)

lemma all_digits_dec_nat: "list_all is_digit (dec_nat n)"
proof (induction n rule: dec_nat.induct)
  case (1 n)
  then show ?case
    by (cases "n < 10") (simp_all add: dec_nat_small dec_nat_big is_digit_digit_char)
qed

lemma digits_value_snoc: "digits_value (s @ [c]) = 10 * digits_value s + (of_char c - 48)"
  by (simp add: digits_value_def)

lemma digit_char_int: "n < 10 \<Longrightarrow> (of_char (digit_char n) :: int) = 48 + int n"
  using digit_char_code [of n] by (metis of_nat_add of_nat_numeral of_nat_of_char)

lemma digits_value_dec_nat: "digits_value (dec_nat n) = int n"
proof (induction n rule: dec_nat.induct)
  case (1 n)
  show ?case
  proof (cases "n < 10")
    case True
    then show ?thesis by (simp add: dec_nat_small digits_value_def digit_char_int)
  next
    case False
    then have "digits_value (dec_nat (n div 10)) = int (n div 10)" by (rule 1)
    with False show ?thesis
      by (simp add: dec_nat_big digits_value_snoc digit_char_int zmod_int zdiv_int)
  qed
qed

lemma digit_not_ws: "is_digit c \<Longrightarrow> \<not> is_ws c"
  by (auto simp: is_digit_def is_ws_def)

lemma trim_digits: "list_all is_digit s \<Longrightarrow> trim s = s"
proof -
  assume "list_all is_digit s"
  then have ws: "\<forall>c \<in> set s. \<not> is_ws c" by (auto simp: list_all_iff digit_not_ws)
  then have "dropWhile is_ws s = s" by (simp add: dropWhile_eq_self_iff)
  moreover have "dropWhile is_ws (rev s) = rev s" using ws by (metis dropWhile_eq_self_iff hd_in_set set_rev)
  ultimately show ?thesis by (simp add: trim_def)
qed

locale int_setting =
  fixes parse :: "string option \<Rightarrow> config_error + int" and fallback lo hi :: int
  assumes nonneg: "0 \<le> lo"
    and absent: "trimmed v = [] \<Longrightarrow> parse v = Inr fallback"
    and present: "trimmed v \<noteq> [] \<Longrightarrow> parse v = Inr n \<longleftrightarrow>
           all_digits (trimmed v) \<and> digits_value (trimmed v) = n \<and> lo \<le> n \<and> n \<le> hi"
begin

lemma setting_bounds: "parse v = Inr n \<Longrightarrow> lo \<le> fallback \<Longrightarrow> fallback \<le> hi \<Longrightarrow> lo \<le> n \<and> n \<le> hi"
  using absent [of v] present [of v n] by (cases "trimmed v = []") auto

lemma setting_dec: "lo \<le> int n \<Longrightarrow> int n \<le> hi \<Longrightarrow> parse (Some (dec_nat n)) = Inr (int n)"
  using present [of "Some (dec_nat n)" "int n"]
  by (simp add: trimmed_def trim_digits all_digits_dec_nat digits_value_dec_nat all_digits_def)

lemma setting_out_of_range: "int n < lo \<or> hi < int n \<Longrightarrow> \<exists>e. parse (Some (dec_nat n)) = Inl e"
proof (cases "parse (Some (dec_nat n))")
  case (Inr m)
  assume "int n < lo \<or> hi < int n"
  with Inr present [of "Some (dec_nat n)" m] show ?thesis
    by (simp add: trimmed_def trim_digits all_digits_dec_nat digits_value_dec_nat)
qed auto

lemma setting_not_digits: "trimmed v \<noteq> [] \<Longrightarrow> \<not> all_digits (trimmed v) \<Longrightarrow> \<exists>e. parse v = Inl e"
  using present [of v] by (cases "parse v") auto

end

interpretation positive_int: int_setting "\<lambda>v. parsePositiveInt v fallback name" fallback 1 MAX_SAFE_INTEGER
  for fallback name
  by unfold_locales
     (auto simp: parsePositiveInt_def Let_def is_safe_def MAX_SAFE_INTEGER_def split: if_splits)

lemma digits_value_nonneg: "list_all is_digit s \<Longrightarrow> 0 \<le> digits_value s"
proof (induction s rule: rev_induct)
  case Nil
  then show ?case by (simp add: digits_value_def)
next
  case (snoc c s)
  have "(48 :: nat) \<le> of_char c" using snoc.prems by (simp add: is_digit_def)
  then have "(48 :: int) \<le> of_char c" by (metis of_nat_le_iff of_nat_numeral of_nat_of_char)
  with snoc show ?case by (simp add: digits_value_snoc)
qed

text \<open>What a successful build says about each step.\<close>

lemma config_guards_hold:
  assumes "buildBridgeConfig env cwd homeDir = Inr c"
  shows "config_guards (bc_host c) (or_undefined (env ''OPENCLAW_HOOKS_URL''))
      (or_undefined (env ''OPENCLAW_HOOKS_TOKEN'')) (bc_callbackSecret c) (bc_apiToken c)
      (bc_insecureLoopback c) = Inr ()"
    and "bc_callbackSecret c = or_undefined (env ''BRIDGE_CALLBACK_SECRET'')"
    and "bc_apiToken c = or_undefined (env ''BRIDGE_API_TOKEN'')"
    and "map_option oc_url (bc_openclawHooks c) = or_undefined (env ''OPENCLAW_HOOKS_URL'')"
    and "bc_openclawHooks c = None \<or>
      map_option oc_token (bc_openclawHooks c) = Some (the (or_undefined (env ''OPENCLAW_HOOKS_TOKEN'')))"
  using assms unfolding buildBridgeConfig_def Let_def try_bind_Inr sum.inject
  by (elim exE conjE; hypsubst; simp only: bridge_config.select_convs; simp split: option.split)+

lemma config_numbers_hold:
  assumes "buildBridgeConfig env cwd homeDir = Inr c"
  shows "parsePositiveInt (env ''BRIDGE_JOB_POLL_INTERVAL_MS'') 500 ''BRIDGE_JOB_POLL_INTERVAL_MS'' = Inr (bc_jobPollIntervalMs c)"
    and "parsePositiveInt (env ''BRIDGE_JOB_TIMEOUT_MS'') (15 * 60 * 1000) ''BRIDGE_JOB_TIMEOUT_MS'' = Inr (bc_jobTimeoutMs c)"
    and "parsePositiveInt (env ''BRIDGE_MAX_OUTPUT_CHARS'') 32000 ''BRIDGE_MAX_OUTPUT_CHARS'' = Inr (bc_maxOutputChars c)"
    and "parsePositiveInt (env ''BRIDGE_SIGKILL_GRACE_MS'') 5000 ''BRIDGE_SIGKILL_GRACE_MS'' = Inr (bc_sigkillGraceMs c)"
    and "parsePositiveInt (env ''BRIDGE_MAX_CONCURRENCY'') 2 ''BRIDGE_MAX_CONCURRENCY'' = Inr (bc_maxConcurrency c)"
    and "parsePositiveInt (env ''BRIDGE_MAX_ACTIVE_JOBS'') 50 ''BRIDGE_MAX_ACTIVE_JOBS'' = Inr (bc_maxActiveJobs c)"
    and "parsePositiveInt (env ''BRIDGE_JOB_RETENTION_DAYS'') 7 ''BRIDGE_JOB_RETENTION_DAYS'' = Inr (bc_jobRetentionDays c)"
    and "parsePositiveInt (env ''BRIDGE_MAX_TERMINAL_JOBS'') 1000 ''BRIDGE_MAX_TERMINAL_JOBS'' = Inr (bc_maxTerminalJobs c)"
    and "parsePositiveInt (env ''BRIDGE_JOB_CLEANUP_INTERVAL_MS'') (60 * 60 * 1000) ''BRIDGE_JOB_CLEANUP_INTERVAL_MS'' = Inr (bc_jobCleanupIntervalMs c)"
    and "parsePositiveInt (env ''BRIDGE_NOTIFY_TIMEOUT_MS'') 5000 ''BRIDGE_NOTIFY_TIMEOUT_MS'' = Inr (bc_notifyTimeoutMs c)"
    and "parsePositiveIntList (env ''BRIDGE_NOTIFY_RETRY_DELAYS_MS'') [500, 1000, 2000] ''BRIDGE_NOTIFY_RETRY_DELAYS_MS''
      = Inr (nullish (bc_notifyRetryDelaysMs c) [])"
    and "\<exists>b. bc_tmuxMaxCaptureBytesPerStream c = Some b \<and>
      parseBoundedPositiveInt (env ''BRIDGE_TMUX_MAX_CAPTURE_BYTES_PER_STREAM'')
        DEFAULT_TMUX_MAX_CAPTURE_BYTES_PER_STREAM MIN_TMUX_MAX_CAPTURE_BYTES_PER_STREAM
        MAX_TMUX_MAX_CAPTURE_BYTES_PER_STREAM ''BRIDGE_TMUX_MAX_CAPTURE_BYTES_PER_STREAM'' = Inr b"
  using assms unfolding buildBridgeConfig_def Let_def try_bind_Inr sum.inject
  by (elim exE conjE; hypsubst;
      simp (no_asm) only: bridge_config.select_convs nullish_simps option.inject simp_thms ex_simps;
      assumption)+

text \<open>
  C24. A configuration that is built carries its secrets: without the explicit loopback
  exemption both the API token and the callback secret are there and not empty, the exemption
  is only granted to a loopback host, and hooks come with a token.
\<close>

theorem config_requires_secrets:
  assumes "buildBridgeConfig env cwd homeDir = Inr c"
  shows "(bc_insecureLoopback c \<or> (truthy_str (bc_apiToken c) \<and> truthy_str (bc_callbackSecret c))) \<and>
    (\<not> bc_insecureLoopback c \<or> isLoopbackHost (bc_host c)) \<and>
    (case bc_openclawHooks c of None \<Rightarrow> True | Some h \<Rightarrow> oc_url h \<noteq> [] \<and> oc_token h \<noteq> [])"
proof -
  note g = config_guards_hold [OF assms]
  have "\<not> bc_insecureLoopback c \<Longrightarrow> bc_apiToken c \<noteq> None \<and> bc_callbackSecret c \<noteq> None"
    and loop: "bc_insecureLoopback c \<Longrightarrow> isLoopbackHost (bc_host c)"
    using g(1) by (auto simp: config_guards_def split: if_splits)
  then have "\<not> bc_insecureLoopback c \<Longrightarrow> truthy_str (bc_apiToken c) \<and> truthy_str (bc_callbackSecret c)"
    using g(2,3) by (auto dest: or_undefined_truthy)
  moreover have "oc_url h \<noteq> [] \<and> oc_token h \<noteq> []" if h: "bc_openclawHooks c = Some h" for h
  proof -
    have url: "or_undefined (env ''OPENCLAW_HOOKS_URL'') = Some (oc_url h)" using g(4) h by simp
    then have "or_undefined (env ''OPENCLAW_HOOKS_TOKEN'') \<noteq> None"
      using g(1) by (auto simp: config_guards_def split: if_splits)
    then have "or_undefined (env ''OPENCLAW_HOOKS_TOKEN'') = Some (oc_token h)" using g(5) h by auto
    with url show ?thesis by (auto dest: or_undefined_truthy)
  qed
  ultimately show ?thesis using loop by (auto split: option.split)
qed

definition sample_env_vars :: "string \<Rightarrow> string option" where
  "sample_env_vars = map_of
     [(''BRIDGE_API_TOKEN'', ''t''), (''BRIDGE_CALLBACK_SECRET'', ''s''), (''BRIDGE_HOST'', ''0.0.0.0''),
      (''BRIDGE_MAX_CONCURRENCY'', '' 4 ''), (''OPENCLAW_HOOKS_URL'', ''u''),
      (''OPENCLAW_HOOKS_TOKEN'', ''k'')]"

lemma sample_config_built:
  "case buildBridgeConfig sample_env_vars ''/w'' ''/h'' of
     Inl _ \<Rightarrow> False | Inr c \<Rightarrow> \<not> bc_insecureLoopback c \<and> bc_maxConcurrency c = 4"
  by code_simp

theorem config_requires_secrets_witness:
  "\<exists>c. buildBridgeConfig sample_env_vars ''/w'' ''/h'' = Inr c \<and> truthy_str (bc_apiToken c) \<and>
       truthy_str (bc_callbackSecret c)"
  using sample_config_built config_requires_secrets [of sample_env_vars "''/w''" "''/h''"]
  by (auto split: sum.splits)

definition config_numbers :: "bridge_config \<Rightarrow> int list" where
  "config_numbers c =
     [bc_jobPollIntervalMs c, bc_jobTimeoutMs c, bc_maxOutputChars c, bc_sigkillGraceMs c,
      bc_maxConcurrency c, bc_maxActiveJobs c, bc_jobRetentionDays c, bc_maxTerminalJobs c,
      bc_jobCleanupIntervalMs c, bc_notifyTimeoutMs c] @ nullish (bc_notifyRetryDelaysMs c) []"

lemma positive_setting:
  "parsePositiveInt v fallback name = Inr n \<Longrightarrow> 0 < fallback \<Longrightarrow> fallback \<le> MAX_SAFE_INTEGER \<Longrightarrow>
   0 < n \<and> n \<le> MAX_SAFE_INTEGER"
  using positive_int.setting_bounds [of v fallback name n] by simp

lemma positive_list_setting:
  "parsePositiveIntList v fallback name = Inr ns \<Longrightarrow>
   list_all (\<lambda>n. 0 < n \<and> n \<le> MAX_SAFE_INTEGER) fallback \<Longrightarrow> fallback \<noteq> [] \<Longrightarrow>
   list_all (\<lambda>n. 0 < n \<and> n \<le> MAX_SAFE_INTEGER) ns \<and> ns \<noteq> []"
  by (auto simp: parsePositiveIntList_def Let_def list_all_iff list_ex_iff is_safe_def not_le not_less split: if_splits)

interpretation capture_bytes: int_setting
  "\<lambda>v. parseBoundedPositiveInt v fallback (max 0 minimum) maximum name" fallback "max 0 minimum"
  "min maximum MAX_SAFE_INTEGER" for fallback minimum maximum name
  by unfold_locales
     (auto simp: parseBoundedPositiveInt_def Let_def is_safe_def MAX_SAFE_INTEGER_def split: if_splits)

text \<open>
  Every number of a configuration that is built is a positive safe integer, the retry
  list is not empty, and the tmux capture limit lies between its bounds.
\<close>

theorem config_numbers_bounded:
  assumes "buildBridgeConfig env cwd homeDir = Inr c"
  shows "list_all (\<lambda>n. 0 < n \<and> n \<le> MAX_SAFE_INTEGER) (config_numbers c) \<and>
    nullish (bc_notifyRetryDelaysMs c) [] \<noteq> [] \<and>
    (\<exists>b. bc_tmuxMaxCaptureBytesPerStream c = Some b \<and>
         MIN_TMUX_MAX_CAPTURE_BYTES_PER_STREAM \<le> b \<and> b \<le> MAX_TMUX_MAX_CAPTURE_BYTES_PER_STREAM)"
proof -
  note parts = config_numbers_hold [OF assms]
  obtain b where b: "bc_tmuxMaxCaptureBytesPerStream c = Some b"
    and pb: "parseBoundedPositiveInt (env ''BRIDGE_TMUX_MAX_CAPTURE_BYTES_PER_STREAM'')
        1048576 (max 0 4096) 67108864 ''BRIDGE_TMUX_MAX_CAPTURE_BYTES_PER_STREAM'' = Inr b"
    using parts(12)
    by (auto simp: DEFAULT_TMUX_MAX_CAPTURE_BYTES_PER_STREAM_def
        MIN_TMUX_MAX_CAPTURE_BYTES_PER_STREAM_def MAX_TMUX_MAX_CAPTURE_BYTES_PER_STREAM_def)
  have "4096 \<le> b \<and> b \<le> 67108864"
    using capture_bytes.setting_bounds [OF pb] by (simp add: MAX_SAFE_INTEGER_def)
  moreover have "list_all (\<lambda>n. 0 < n \<and> n \<le> MAX_SAFE_INTEGER) (nullish (bc_notifyRetryDelaysMs c) []) \<and>
      nullish (bc_notifyRetryDelaysMs c) [] \<noteq> []"
    by (rule positive_list_setting [OF parts(11)]) (simp_all add: MAX_SAFE_INTEGER_def)
  moreover have "list_all (\<lambda>n. 0 < n \<and> n \<le> MAX_SAFE_INTEGER)
     [bc_jobPollIntervalMs c, bc_jobTimeoutMs c, bc_maxOutputChars c, bc_sigkillGraceMs c,
      bc_maxConcurrency c, bc_maxActiveJobs c, bc_jobRetentionDays c, bc_maxTerminalJobs c,
      bc_jobCleanupIntervalMs c, bc_notifyTimeoutMs c]"
    using parts(1-10) [THEN positive_setting] by (simp add: MAX_SAFE_INTEGER_def)
  ultimately show ?thesis
    using b by (simp add: config_numbers_def MIN_TMUX_MAX_CAPTURE_BYTES_PER_STREAM_def
        MAX_TMUX_MAX_CAPTURE_BYTES_PER_STREAM_def)
qed

theorem config_numbers_bounded_witness:
  "\<exists>c. buildBridgeConfig sample_env_vars ''/w'' ''/h'' = Inr c \<and>
       list_all (\<lambda>n. 0 < n \<and> n \<le> MAX_SAFE_INTEGER) (config_numbers c)"
  using sample_config_built config_numbers_bounded [of sample_env_vars "''/w''" "''/h''"]
  by (auto split: sum.splits)

end
