(* ===== verification/DispatchConfig.thy ===== *)
theory DispatchConfig
  imports BridgeConfig PrivateFs
begin

text \<open>
  The configuration of the dispatch server, \<open>src/omx-dispatch/runtime-config.ts\<close>. The
  environment is a function; \<open>new URL(..).hostname\<close> is the parameter \<open>hostname\<close> (\<open>None\<close> when the
  constructor throws); the content of the package file is an argument. Its number parser is a
  second copy of the bridge's and meets the same contract.
\<close>

record dispatch_config =
  dc_serverVersion :: string
  dc_bridgeUrl :: string
  dc_bridgeCallbackSecret :: string
  dc_bridgeApiToken :: string
  dc_insecureLoopback :: bool
  dc_bridgeRequestTimeoutMs :: int
  dc_webhookPort :: int
  dc_webhookPortMin :: int
  dc_webhookPortMax :: int
  dc_webhookBodyLimitBytes :: int
  dc_enableClaudeChannel :: bool
  dc_maxNotificationQueueSize :: int
  dc_notificationStorePath :: string
  dc_notificationLockStaleMs :: int
  dc_notificationLockTimeoutMs :: int
  dc_notificationPreviewMax :: int
  dc_notificationPreviewTextMax :: int
  dc_defaultWaitTimeoutMs :: int
  dc_defaultWaitPollIntervalMs :: int
  dc_maxWaitTimeoutMs :: int
  dc_minWaitPollIntervalMs :: int
  dc_maxWaitPollIntervalMs :: int
  dc_terminalNotificationGraceMs :: int

definition loadDispatchPackageVersion :: "content option \<Rightarrow> config_error + string" where
  \<comment> \<open>\<open>None\<close>: the file cannot be read; a text that is not JSON makes \<open>JSON.parse\<close> throw\<close>
  "loadDispatchPackageVersion file =
     (case file of
        Some (JsonText parsed) \<Rightarrow>
          (if \<not> isRecord parsed then Inl PackageVersionMissing
           else (case jfield parsed ''version'' of
                   Some (JStr v) \<Rightarrow> (if trim v = [] then Inl PackageVersionMissing else Inr v)
                 | _ \<Rightarrow> Inl PackageVersionMissing))
      | _ \<Rightarrow> Inl PackageUnreadable)"

definition isLoopbackBridgeUrl :: "(string \<Rightarrow> string option) \<Rightarrow> string \<Rightarrow> bool" where
  "isLoopbackBridgeUrl hostname value =
     (case hostname value of
        None \<Rightarrow> False
      | Some h \<Rightarrow> to_lower h \<in> set [''127.0.0.1'', ''localhost'', ''::1''])"

definition dispatch_parsePositiveInt :: "string option \<Rightarrow> int \<Rightarrow> string \<Rightarrow> config_error + int" where
  "dispatch_parsePositiveInt v fallback variableName =
     (let normalized = trimmed v in
      if normalized = [] then Inr fallback
      else if \<not> all_digits normalized then Inl (NotPositiveInteger variableName)
      else let parsed = digits_value normalized in
        if \<not> is_safe parsed \<or> parsed \<le> 0 then Inl (NotPositiveSafeInteger variableName)
        else Inr parsed)"

definition parseWebhookPort :: "string option \<Rightarrow> config_error + int" where
  "parseWebhookPort v =
     (let normalized = trimmed v in
      if normalized = [] then Inr 0
      else if \<not> all_digits normalized then Inl (NotBetween ''WEBHOOK_PORT'' 0 65535)
      else let parsed = digits_value normalized in
        if \<not> is_safe parsed \<or> parsed < 0 \<or> 65535 < parsed then Inl (NotBetween ''WEBHOOK_PORT'' 0 65535)
        else Inr parsed)"

definition dispatch_parseBoolean :: "string option \<Rightarrow> bool" where
  "dispatch_parseBoolean v \<longleftrightarrow>
     v = Some ''1'' \<or> map_option to_lower v = Some ''true'' \<or> map_option to_lower v = Some ''yes''"

definition dispatch_guards ::
  "(string \<Rightarrow> string option) \<Rightarrow> string \<Rightarrow> bool \<Rightarrow> string \<Rightarrow> string \<Rightarrow> config_error + unit" where
  "dispatch_guards hostname bridgeUrl insecureLoopback apiToken callbackSecret =
     (if insecureLoopback \<and> \<not> isLoopbackBridgeUrl hostname bridgeUrl
      then Inl InsecureLoopbackNotAllowed
      else if \<not> insecureLoopback \<and> apiToken = [] then Inl ApiTokenRequired
      else if \<not> insecureLoopback \<and> callbackSecret = [] then Inl CallbackSecretRequired
      else Inr ())"

definition loadRuntimeConfig ::
  "(string \<Rightarrow> string option) \<Rightarrow> string \<Rightarrow> (string \<Rightarrow> string option) \<Rightarrow> string \<Rightarrow>
   config_error + dispatch_config" where
  "loadRuntimeConfig hostname serverVersion env cwd =
    (let bridgeUrl = nullish (env ''BRIDGE_URL'') ''http://localhost:3992'';
         insecureLoopback = dispatch_parseBoolean
           (case env ''OMX_DISPATCH_INSECURE_LOOPBACK'' of
              Some v \<Rightarrow> Some v | None \<Rightarrow> env ''BRIDGE_INSECURE_LOOPBACK'');
         callbackSecret = nullish (env ''BRIDGE_CALLBACK_SECRET'') [];
         apiToken = nullish (env ''BRIDGE_API_TOKEN'') [];
         positive = (\<lambda>name fallback. dispatch_parsePositiveInt (env name) fallback name)
     in
     try_bind (dispatch_guards hostname bridgeUrl insecureLoopback apiToken callbackSecret) (\<lambda>_.
     try_bind (positive ''BRIDGE_REQUEST_TIMEOUT_MS'' 10000) (\<lambda>bridgeRequestTimeoutMs.
     try_bind (parseWebhookPort (env ''WEBHOOK_PORT'')) (\<lambda>webhookPort.
     try_bind (positive ''OMX_DISPATCH_WEBHOOK_BODY_LIMIT_BYTES'' 1000000) (\<lambda>webhookBodyLimitBytes.
     try_bind (positive ''MAX_NOTIFICATION_QUEUE_SIZE'' 200) (\<lambda>maxNotificationQueueSize.
     try_bind (positive ''OMX_DISPATCH_WAIT_TIMEOUT_MS'' 300000) (\<lambda>defaultWaitTimeoutMs.
     try_bind (positive ''OMX_DISPATCH_WAIT_POLL_INTERVAL_MS'' 1000) (\<lambda>defaultWaitPollIntervalMs.
       Inr \<lparr>
         dc_serverVersion = serverVersion,
         dc_bridgeUrl = bridgeUrl,
         dc_bridgeCallbackSecret = callbackSecret,
         dc_bridgeApiToken = apiToken,
         dc_insecureLoopback = insecureLoopback,
         dc_bridgeRequestTimeoutMs = bridgeRequestTimeoutMs,
         dc_webhookPort = webhookPort,
         dc_webhookPortMin = 12000,
         dc_webhookPortMax = 12999,
         dc_webhookBodyLimitBytes = webhookBodyLimitBytes,
         dc_enableClaudeChannel = dispatch_parseBoolean (env ''ENABLE_CLAUDE_CHANNEL''),
         dc_maxNotificationQueueSize = maxNotificationQueueSize,
         dc_notificationStorePath = nullish (env ''OMX_DISPATCH_NOTIFICATION_STORE_PATH'')
           (path_join [cwd, ''.omx'', ''state'', ''omx-dispatch-notifications.jsonl'']),
         dc_notificationLockStaleMs = 30000,
         dc_notificationLockTimeoutMs = 5000,
         dc_notificationPreviewMax = 20,
         dc_notificationPreviewTextMax = 200,
         dc_defaultWaitTimeoutMs = defaultWaitTimeoutMs,
         dc_defaultWaitPollIntervalMs = defaultWaitPollIntervalMs,
         dc_maxWaitTimeoutMs = 3600000,
         dc_minWaitPollIntervalMs = 250,
         dc_maxWaitPollIntervalMs = 10000,
         dc_terminalNotificationGraceMs = 2000\<rparr>))))))))"

section \<open>The settings meet the contract\<close>

interpretation dispatch_int: int_setting
  "\<lambda>v. dispatch_parsePositiveInt v fallback name" fallback 1 MAX_SAFE_INTEGER for fallback name
  by unfold_locales
     (auto simp: dispatch_parsePositiveInt_def Let_def is_safe_def MAX_SAFE_INTEGER_def split: if_splits)

interpretation webhook_port: int_setting parseWebhookPort 0 0 65535
  by unfold_locales
     (auto simp: parseWebhookPort_def Let_def is_safe_def MAX_SAFE_INTEGER_def split: if_splits)

lemma dispatch_positive:
  "dispatch_parsePositiveInt v fallback name = Inr n \<Longrightarrow> 0 < fallback \<Longrightarrow> fallback \<le> MAX_SAFE_INTEGER \<Longrightarrow>
   0 < n \<and> n \<le> MAX_SAFE_INTEGER"
  using dispatch_int.setting_bounds [of v fallback name n] by simp

lemma runtime_parts:
  assumes "loadRuntimeConfig hostname ver env cwd = Inr c"
  shows "dispatch_guards hostname (dc_bridgeUrl c) (dc_insecureLoopback c) (dc_bridgeApiToken c)
      (dc_bridgeCallbackSecret c) = Inr ()"
    and "parseWebhookPort (env ''WEBHOOK_PORT'') = Inr (dc_webhookPort c)"
    and "dispatch_parsePositiveInt (env ''BRIDGE_REQUEST_TIMEOUT_MS'') 10000 ''BRIDGE_REQUEST_TIMEOUT_MS'' = Inr (dc_bridgeRequestTimeoutMs c)"
    and "dispatch_parsePositiveInt (env ''OMX_DISPATCH_WEBHOOK_BODY_LIMIT_BYTES'') 1000000 ''OMX_DISPATCH_WEBHOOK_BODY_LIMIT_BYTES'' = Inr (dc_webhookBodyLimitBytes c)"
    and "dispatch_parsePositiveInt (env ''MAX_NOTIFICATION_QUEUE_SIZE'') 200 ''MAX_NOTIFICATION_QUEUE_SIZE'' = Inr (dc_maxNotificationQueueSize c)"
    and "dispatch_parsePositiveInt (env ''OMX_DISPATCH_WAIT_TIMEOUT_MS'') 300000 ''OMX_DISPATCH_WAIT_TIMEOUT_MS'' = Inr (dc_defaultWaitTimeoutMs c)"
    and "dispatch_parsePositiveInt (env ''OMX_DISPATCH_WAIT_POLL_INTERVAL_MS'') 1000 ''OMX_DISPATCH_WAIT_POLL_INTERVAL_MS'' = Inr (dc_defaultWaitPollIntervalMs c)"
  using assms unfolding loadRuntimeConfig_def Let_def try_bind_Inr sum.inject
  by (elim exE conjE; hypsubst; simp (no_asm) only: dispatch_config.select_convs; (assumption | simp))+

text \<open>
  A dispatch configuration that is loaded has its two secrets unless it is exempt, is
  exempt only for a loopback bridge URL, listens on a port a TCP socket has (0 asks for a free
  one), and keeps the numeric settings positive.
\<close>

theorem dispatch_config_valid:
  assumes "loadRuntimeConfig hostname ver env cwd = Inr c"
  shows "(dc_insecureLoopback c \<or> (dc_bridgeApiToken c \<noteq> [] \<and> dc_bridgeCallbackSecret c \<noteq> [])) \<and>
    (\<not> dc_insecureLoopback c \<or> isLoopbackBridgeUrl hostname (dc_bridgeUrl c)) \<and>
    0 \<le> dc_webhookPort c \<and> dc_webhookPort c \<le> 65535 \<and>
    list_all (\<lambda>n. 0 < n \<and> n \<le> MAX_SAFE_INTEGER)
      [dc_bridgeRequestTimeoutMs c, dc_webhookBodyLimitBytes c, dc_maxNotificationQueueSize c,
       dc_defaultWaitTimeoutMs c, dc_defaultWaitPollIntervalMs c]"
proof -
  note parts = runtime_parts [OF assms]
  have "0 \<le> dc_webhookPort c \<and> dc_webhookPort c \<le> 65535"
    using webhook_port.setting_bounds [OF parts(2)] by simp
  moreover have "list_all (\<lambda>n. 0 < n \<and> n \<le> MAX_SAFE_INTEGER)
      [dc_bridgeRequestTimeoutMs c, dc_webhookBodyLimitBytes c, dc_maxNotificationQueueSize c,
       dc_defaultWaitTimeoutMs c, dc_defaultWaitPollIntervalMs c]"
    using parts(3-7) [THEN dispatch_positive] by (simp add: MAX_SAFE_INTEGER_def)
  ultimately show ?thesis
    using parts(1) by (auto simp: dispatch_guards_def split: if_splits)
qed

theorem dispatch_config_valid_witness:
  "\<exists>c. loadRuntimeConfig (\<lambda>_. Some ''localhost'') ''1.0.0'' sample_env_vars ''/w'' = Inr c \<and>
       dc_bridgeApiToken c \<noteq> [] \<and> dc_webhookPort c \<le> 65535"
proof -
  have "case loadRuntimeConfig (\<lambda>_. Some ''localhost'') ''1.0.0'' sample_env_vars ''/w'' of
     Inl _ \<Rightarrow> False | Inr c \<Rightarrow> \<not> dc_insecureLoopback c" by code_simp
  then obtain c where "loadRuntimeConfig (\<lambda>_. Some ''localhost'') ''1.0.0'' sample_env_vars ''/w'' = Inr c"
    and "\<not> dc_insecureLoopback c" by (auto split: sum.splits)
  with dispatch_config_valid [OF this(1)] show ?thesis by auto
qed

text \<open>
  The two programs disagree on the IPv6 loopback address. A URL gives the host name in
  brackets; the bridge accepts that host as loopback, the dispatch server does not, so with the
  exemption set it refuses to start whatever the rest of the environment says.
\<close>

theorem ipv6_loopback_disagreement:
  assumes "hostname url = Some ''[::1]''" and "env ''BRIDGE_URL'' = Some url"
    and "env ''OMX_DISPATCH_INSECURE_LOOPBACK'' = Some ''1''"
  shows "isLoopbackHost ''[::1]'' \<and>
    loadRuntimeConfig hostname ver env cwd = Inl InsecureLoopbackNotAllowed"
proof
  show "isLoopbackHost ''[::1]''" by code_simp
  have "to_lower ''[::1]'' \<notin> set [''127.0.0.1'', ''localhost'', ''::1'']" by code_simp
  with assms show "loadRuntimeConfig hostname ver env cwd = Inl InsecureLoopbackNotAllowed"
    by (simp add: loadRuntimeConfig_def dispatch_guards_def isLoopbackBridgeUrl_def
        dispatch_parseBoolean_def Let_def)
qed

theorem ipv6_loopback_disagreement_witness:
  "isLoopbackHost ''[::1]'' \<and>
   loadRuntimeConfig (\<lambda>_. Some ''[::1]'') ''1.0.0''
     (map_of [(''BRIDGE_URL'', ''http://[::1]:3992''), (''OMX_DISPATCH_INSECURE_LOOPBACK'', ''1'')]) ''/w''
   = Inl InsecureLoopbackNotAllowed"
  by (rule ipv6_loopback_disagreement [where url = "''http://[::1]:3992''"]; code_simp)

end
