(* ===== verification/OutputCapture.thy ===== *)
theory OutputCapture
  imports BridgeConfig
begin

text \<open>
  The bounded capture of a child's output in \<open>src/jobs/omx-exec.service.ts\<close>
  (\<open>emptyOutputCapture\<close>, \<open>appendCapturedOutput\<close>, \<open>appendTail\<close>, \<open>renderCapturedOutput\<close>,
  \<open>buildTruncationMarker\<close>). Output arrives in chunks; the rendered result keeps the head and the
  tail around a marker that counts the characters left out.

  The interface \<open>chunked_capture\<close> says what a capture promises whatever the chunking; the
  tmux wrapper's byte capture is its second instance.
\<close>

section \<open>The interface\<close>

locale chunked_capture =
  fixes start :: 's and append :: "'s \<Rightarrow> 'a list \<Rightarrow> 's" and result :: "'s \<Rightarrow> 'r"
    and ok :: "'a list \<Rightarrow> bool" and spec :: "'a list \<Rightarrow> 'r"
  assumes capture_spec: "ok (concat chunks) \<Longrightarrow> result (foldl append start chunks) = spec (concat chunks)"
begin

lemma chunking_irrelevant:
  "concat chunks = concat chunks' \<Longrightarrow> ok (concat chunks) \<Longrightarrow>
   result (foldl append start chunks) = result (foldl append start chunks')"
  using capture_spec [of chunks] capture_spec [of chunks'] by simp

lemma empty_chunks_irrelevant:
  "ok (concat chunks) \<Longrightarrow>
   result (foldl append start chunks) = result (foldl append start (filter (\<lambda>c. c \<noteq> []) chunks))"
proof (rule chunking_irrelevant)
  show "concat chunks = concat (filter (\<lambda>c. c \<noteq> []) chunks)" by (induction chunks) auto
qed

end

section \<open>The truncation marker\<close>

definition marker_text :: "nat \<Rightarrow> string" where
  "marker_text omitted =
     [CHR 0x0A] @ ''...[truncated '' @ dec_nat omitted @ '' chars]...'' @ [CHR 0x0A]"

definition markerAwareOmitted :: "int \<Rightarrow> int \<Rightarrow> nat \<Rightarrow> nat" where
  "markerAwareOmitted totalLength limit omitted =
     nat (max 0 (totalLength - (limit - js_length (marker_text omitted))))"

lemma length_marker_text: "length (marker_text n) = 26 + length (dec_nat n)"
  by (simp add: marker_text_def)

lemma markerAware_mono:
  assumes "n \<le> n'" and "m \<le> m'"
  shows "markerAwareOmitted n limit m \<le> markerAwareOmitted n' limit m'"
proof -
  have "js_length (marker_text m) \<le> js_length (marker_text m')"
    using length_dec_nat_mono [OF assms(2)] by (simp add: js_length_def length_marker_text)
  with assms(1) show ?thesis
    unfolding markerAwareOmitted_def by (intro nat_mono max.mono order_refl) linarith
qed

definition marker_bound :: "int \<Rightarrow> int \<Rightarrow> nat" where
  "marker_bound totalLength limit = 2 * nat (max 0 (totalLength - limit)) + 60"

lemma markerAware_below:
  assumes "marker_bound n limit \<le> m"
  shows "markerAwareOmitted n limit m \<le> m"
proof -
  have "2 * int (length (dec_nat m)) \<le> int m + 2"
    using length_dec_nat_le [of m] by linarith
  moreover have "2 * (n - limit) + 60 \<le> int m" using assms by (simp add: marker_bound_def max_def split: if_splits)
  ultimately have "n - (limit - js_length (marker_text m)) \<le> int m"
    by (simp add: js_length_def length_marker_text)
  then show ?thesis by (simp add: markerAwareOmitted_def)
qed

function marker_loop :: "int \<Rightarrow> int \<Rightarrow> nat \<Rightarrow> string" where
  "marker_loop totalLength limit omitted =
     (let marker = marker_text omitted;
          aware = markerAwareOmitted totalLength limit omitted
      in if aware = omitted then marker else marker_loop totalLength limit aware)"
  by pat_completeness auto

text \<open>
  The loop ends: the corrections keep one direction, upwards below a bound or downwards above 0.
\<close>

termination marker_loop
proof (relation "measures
    [\<lambda>(n, limit, m). if markerAwareOmitted n limit m = m then 0 else 1,
     \<lambda>(n, limit, m). if m < markerAwareOmitted n limit m then marker_bound n limit - m else m]")
  fix n limit :: int and m marker :: nat and x
  assume x: "x = markerAwareOmitted n limit m" and ne: "x \<noteq> m"
  let ?f = "markerAwareOmitted n limit"
  have "((n, limit, ?f m), n, limit, m) \<in> measures
    [\<lambda>(n, limit, m). if markerAwareOmitted n limit m = m then 0 else 1,
     \<lambda>(n, limit, m). if m < markerAwareOmitted n limit m then marker_bound n limit - m else m]"
  proof (cases "m < ?f m")
    case True
    then have "m < marker_bound n limit" using markerAware_below [of n limit m] by linarith
    moreover have "?f m \<le> ?f (?f m)" using markerAware_mono [of n n m "?f m"] True by simp
    ultimately show ?thesis using True by auto
  next
    case False
    then have "?f m < m" using ne x by simp
    moreover have "?f (?f m) \<le> ?f m" using markerAware_mono [of n n "?f m" m] False by simp
    ultimately show ?thesis by auto
  qed
  then show "((n, limit, x), n, limit, m) \<in> measures
    [\<lambda>(n, limit, m). if markerAwareOmitted n limit m = m then 0 else 1,
     \<lambda>(n, limit, m). if m < markerAwareOmitted n limit m then marker_bound n limit - m else m]"
    by (simp only: x)
qed simp

declare marker_loop.simps [simp del]

definition buildTruncationMarker :: "int \<Rightarrow> int \<Rightarrow> string" where
  "buildTruncationMarker totalLength limit =
     marker_loop totalLength limit (nat (max 0 (totalLength - limit)))"

lemma marker_loop_fixpoint:
  "\<exists>r. marker_loop n limit m = marker_text r \<and> markerAwareOmitted n limit r = r"
proof (induction n limit m rule: marker_loop.induct)
  case (1 n limit m)
  then show ?case
    by (cases "markerAwareOmitted n limit m = m"; subst marker_loop.simps) (auto simp: Let_def)
qed

text \<open>From below, the loop finds the least count that accounts for its own marker.\<close>

lemma marker_loop_least:
  assumes "m \<le> markerAwareOmitted n limit m"
  shows "\<exists>r. marker_loop n limit m = marker_text r \<and> markerAwareOmitted n limit r = r \<and> m \<le> r \<and>
    (\<forall>p. m \<le> p \<and> markerAwareOmitted n limit p \<le> p \<longrightarrow> r \<le> p)"
  using assms
proof (induction n limit m rule: marker_loop.induct)
  case (1 n limit m)
  let ?f = "markerAwareOmitted n limit"
  show ?case
  proof (cases "?f m = m")
    case True
    then show ?thesis by (subst marker_loop.simps) (auto simp: Let_def)
  next
    case False
    have up: "?f m \<le> ?f (?f m)" using markerAware_mono [of n n m "?f m"] 1(2) by simp
    obtain r where r: "marker_loop n limit (?f m) = marker_text r" "?f r = r" "?f m \<le> r"
      "\<forall>p. ?f m \<le> p \<and> ?f p \<le> p \<longrightarrow> r \<le> p"
      using 1(1) [OF refl refl False up] by blast
    have "r \<le> p" if "m \<le> p" "?f p \<le> p" for p
      using r(4) that markerAware_mono [of n n m p limit] by (meson le_trans order_refl)
    with r 1(2) False show ?thesis
      by (subst marker_loop.simps) (auto simp: Let_def intro!: exI [of _ r] le_trans [OF 1(2)])
  qed
qed

lemma marker_count:
  "\<exists>r. buildTruncationMarker n limit = marker_text r \<and> markerAwareOmitted n limit r = r \<and>
     nat (max 0 (n - limit)) \<le> r \<and>
     (\<forall>p. nat (max 0 (n - limit)) \<le> p \<and> markerAwareOmitted n limit p \<le> p \<longrightarrow> r \<le> p)"
proof -
  have "nat (max 0 (n - limit)) \<le> markerAwareOmitted n limit (nat (max 0 (n - limit)))"
    unfolding markerAwareOmitted_def
    by (intro nat_mono max.mono order_refl) (simp add: js_length_def)
  from marker_loop_least [OF this] show ?thesis unfolding buildTruncationMarker_def .
qed

lemma marker_length_mono:
  assumes "n \<le> n'"
  shows "length (buildTruncationMarker n limit) \<le> length (buildTruncationMarker n' limit)"
proof -
  obtain r where r: "buildTruncationMarker n limit = marker_text r"
    "\<forall>p. nat (max 0 (n - limit)) \<le> p \<and> markerAwareOmitted n limit p \<le> p \<longrightarrow> r \<le> p"
    using marker_count by blast
  obtain r' where r': "buildTruncationMarker n' limit = marker_text r'" "markerAwareOmitted n' limit r' = r'"
    "nat (max 0 (n' - limit)) \<le> r'"
    using marker_count by blast
  have "nat (max 0 (n - limit)) \<le> r'" using r'(3) assms by linarith
  moreover have "markerAwareOmitted n limit r' \<le> r'" using markerAware_mono [OF assms order_refl, of limit r'] r'(2) by simp
  ultimately have "r \<le> r'" using r(2) by blast
  then show ?thesis by (simp add: r(1) r'(1) length_marker_text length_dec_nat_mono)
qed

section \<open>The capture\<close>

record output_capture =
  cap_head :: string
  cap_tail :: string
  cap_length :: int
  cap_truncated :: bool

definition emptyOutputCapture :: output_capture where
  "emptyOutputCapture = \<lparr>cap_head = [], cap_tail = [], cap_length = 0, cap_truncated = False\<rparr>"

definition appendTail :: "output_capture \<Rightarrow> string \<Rightarrow> int \<Rightarrow> string" where
  "appendTail current chunk tailLength =
     (if tailLength \<le> 0 then []
      else
        (let source = (if cap_truncated current then cap_tail current @ chunk
                       else cap_head current @ chunk)
         in js_slice_from (- tailLength) source))"

definition appendCapturedOutput :: "int \<Rightarrow> output_capture \<Rightarrow> string \<Rightarrow> output_capture" where
  "appendCapturedOutput limit current chunk =
     (if js_length chunk = 0 then current
      else
        (let nextLength = cap_length current + js_length chunk in
         if limit \<le> 0
         then \<lparr>cap_head = [], cap_tail = [], cap_length = nextLength, cap_truncated = True\<rparr>
         else if \<not> cap_truncated current \<and> nextLength \<le> limit
         then \<lparr>cap_head = cap_head current @ chunk, cap_tail = [], cap_length = nextLength,
               cap_truncated = False\<rparr>
         else
           (let marker = buildTruncationMarker nextLength limit in
            if js_length marker \<ge> limit
            then \<lparr>cap_head = [], cap_tail = appendTail current chunk limit, cap_length = nextLength,
                  cap_truncated = True\<rparr>
            else
              (let remaining = limit - js_length marker;
                   headLength = (remaining + 1) div 2;
                   tailLength = remaining div 2;
                   sourceForHead = (if cap_truncated current then cap_head current
                                    else cap_head current @ chunk)
               in \<lparr>cap_head = js_take headLength sourceForHead,
                   cap_tail = appendTail current chunk tailLength,
                   cap_length = nextLength, cap_truncated = True\<rparr>))))"

definition renderCapturedOutput :: "int \<Rightarrow> output_capture \<Rightarrow> string" where
  "renderCapturedOutput limit capture =
     (if \<not> cap_truncated capture then cap_head capture
      else if limit \<le> 0 then []
      else
        (let marker = buildTruncationMarker (cap_length capture) limit in
         if js_length marker \<ge> limit then js_slice_from (- limit) (cap_tail capture)
         else cap_head capture @ marker @ cap_tail capture))"

definition capture_all :: "int \<Rightarrow> string list \<Rightarrow> output_capture" where
  "capture_all limit chunks = foldl (appendCapturedOutput limit) emptyOutputCapture chunks"

section \<open>What is rendered\<close>

definition head_room :: "int \<Rightarrow> nat \<Rightarrow> nat" where
  "head_room limit n = nat ((limit - js_length (buildTruncationMarker (int n) limit) + 1) div 2)"

definition tail_room :: "int \<Rightarrow> nat \<Rightarrow> nat" where
  "tail_room limit n = nat ((limit - js_length (buildTruncationMarker (int n) limit)) div 2)"

definition marker_fits :: "int \<Rightarrow> nat \<Rightarrow> bool" where
  "marker_fits limit n \<longleftrightarrow> js_length (buildTruncationMarker (int n) limit) < limit"

definition render_spec :: "int \<Rightarrow> string \<Rightarrow> string" where
  "render_spec limit s =
     (if int (length s) \<le> limit then s
      else take (head_room limit (length s)) s @ buildTruncationMarker (int (length s)) limit @
           last_n (tail_room limit (length s)) s)"

lemma rooms_antimono:
  assumes "n \<le> n'"
  shows "head_room limit n' \<le> head_room limit n" and "tail_room limit n' \<le> tail_room limit n"
proof -
  have "js_length (buildTruncationMarker (int n) limit) \<le> js_length (buildTruncationMarker (int n') limit)"
    using marker_length_mono [of "int n" "int n'" limit] assms by (simp add: js_length_def)
  then show "head_room limit n' \<le> head_room limit n" "tail_room limit n' \<le> tail_room limit n"
    by (auto simp: head_room_def tail_room_def intro!: nat_mono zdiv_mono1)
qed

lemma marker_fits_antimono: "n \<le> n' \<Longrightarrow> marker_fits limit n' \<Longrightarrow> marker_fits limit n"
  using marker_length_mono [of "int n" "int n'" limit] by (simp add: marker_fits_def js_length_def)

definition capture_inv :: "int \<Rightarrow> string \<Rightarrow> output_capture \<Rightarrow> bool" where
  "capture_inv limit s c \<longleftrightarrow> cap_length c = int (length s) \<and>
     (if int (length s) \<le> limit then \<not> cap_truncated c \<and> cap_head c = s
      else cap_truncated c \<and> cap_head c = take (head_room limit (length s)) s \<and>
           cap_tail c = last_n (tail_room limit (length s)) s)"

lemma appendTail_eq:
  "appendTail c chunk k =
     last_n (nat k) ((if cap_truncated c then cap_tail c else cap_head c) @ chunk)"
  by (cases "k \<le> 0") (simp_all add: appendTail_def js_slice_from_neg Let_def)

lemma capture_inv_append:
  assumes inv: "capture_inv limit s c" and pos: "0 < limit"
    and fits: "marker_fits limit (length (s @ chunk))"
  shows "capture_inv limit (s @ chunk) (appendCapturedOutput limit c chunk)"
proof (cases "chunk = [] \<or> int (length (s @ chunk)) \<le> limit")
  case True
  with inv pos show ?thesis
    by (auto simp: capture_inv_def appendCapturedOutput_def Let_def js_length_def)
next
  case False
  let ?n = "length (s @ chunk)"
  have c: "chunk \<noteq> []" "\<not> int ?n \<le> limit" using False by auto
  have room: "head_room limit ?n \<le> head_room limit (length s)"
    "tail_room limit ?n \<le> tail_room limit (length s) + length chunk"
    using rooms_antimono [of "length s" ?n limit] by simp_all
  have step: "appendCapturedOutput limit c chunk = \<lparr>
      cap_head = take (head_room limit ?n) (if cap_truncated c then cap_head c else cap_head c @ chunk),
      cap_tail = last_n (tail_room limit ?n) ((if cap_truncated c then cap_tail c else cap_head c) @ chunk),
      cap_length = int ?n, cap_truncated = True\<rparr>"
    using c fits inv pos
    by (auto simp: appendCapturedOutput_def capture_inv_def marker_fits_def js_length_def Let_def
        appendTail_eq head_room_def tail_room_def js_take_nonneg)
  show ?thesis
  proof (cases "int (length s) \<le> limit")
    case True
    with step inv c show ?thesis by (simp add: capture_inv_def)
  next
    case long: False
    have "head_room limit ?n \<le> length s"
      using long pos by (simp add: head_room_def js_length_def) 
    with step inv c room long show ?thesis
      by (simp add: capture_inv_def min_absorb1 last_n_append_last_n)
  qed
qed

lemma capture_all_inv:
  "0 < limit \<Longrightarrow> marker_fits limit (length (concat chunks)) \<Longrightarrow>
   capture_inv limit (concat chunks) (capture_all limit chunks)"
proof (induction chunks rule: rev_induct)
  case Nil
  then show ?case by (simp add: capture_all_def emptyOutputCapture_def capture_inv_def)
next
  case (snoc c cs)
  then have "marker_fits limit (length (concat cs))"
    using marker_fits_antimono [of "length (concat cs)" "length (concat (cs @ [c]))"] by simp
  with snoc have "capture_inv limit (concat cs) (capture_all limit cs)" by simp
  from capture_inv_append [OF this snoc.prems(1), of c] snoc.prems(2) show ?case
    by (simp add: capture_all_def)
qed

lemma render_inv:
  assumes "capture_inv limit s c" and "0 < limit" and "marker_fits limit (length s)"
  shows "renderCapturedOutput limit c = render_spec limit s"
  using assms by (auto simp: capture_inv_def renderCapturedOutput_def render_spec_def marker_fits_def Let_def
      split: if_splits)

interpretation output_chunks: chunked_capture emptyOutputCapture "appendCapturedOutput limit"
  "renderCapturedOutput limit" "\<lambda>s. 0 < limit \<and> marker_fits limit (length s)" "render_spec limit"
  for limit
proof
  fix chunks :: "string list"
  assume ok: "0 < limit \<and> marker_fits limit (length (concat chunks))"
  show "renderCapturedOutput limit (foldl (appendCapturedOutput limit) emptyOutputCapture chunks) =
      render_spec limit (concat chunks)"
    using render_inv [OF capture_all_inv] ok by (simp add: capture_all_def)
qed

section \<open>The contract of the captured output\<close>

lemma render_spec_exact:
  assumes "0 < limit" and "marker_fits limit (length s)" and "limit < int (length s)"
  obtains k where "render_spec limit s =
      take (head_room limit (length s)) s @ marker_text k @ last_n (tail_room limit (length s)) s"
    and "length s = head_room limit (length s) + k + tail_room limit (length s)"
    and "js_length (render_spec limit s) = limit"
proof -
  let ?n = "length s"
  obtain k where k: "buildTruncationMarker (int ?n) limit = marker_text k"
    "markerAwareOmitted (int ?n) limit k = k"
    using marker_count by blast
  have fits: "js_length (marker_text k) < limit" using assms(2) by (simp add: marker_fits_def k)
  then have rooms: "int (head_room limit ?n) + int (tail_room limit ?n) = limit - js_length (marker_text k)"
    by (simp add: head_room_def tail_room_def k)
  moreover have "int k = int ?n - (limit - js_length (marker_text k))"
  proof -
    have "0 \<le> int ?n - (limit - js_length (marker_text k))"
      using assms(3) js_length_simps(4) [of "marker_text k"] by linarith
    then have "int (markerAwareOmitted (int ?n) limit k) = int ?n - (limit - js_length (marker_text k))"
      by (simp add: markerAwareOmitted_def)
    then show ?thesis by (simp only: k(2))
  qed
  ultimately have sum: "?n = head_room limit ?n + k + tail_room limit ?n" by linarith
  have len: "int (length (take (head_room limit ?n) s)) = int (head_room limit ?n)"
    "int (length (last_n (tail_room limit ?n) s)) = int (tail_room limit ?n)"
    using sum by simp_all
  have "js_length (render_spec limit s) = limit"
    using rooms len assms(3) by (simp add: render_spec_def k js_length_def)
  with sum assms(3) k that show thesis by (simp add: render_spec_def)
qed

text \<open>
  C27. Captured output. When the limit leaves room for the marker, the stored output depends
  only on what the child wrote, not on how it arrived: output within the limit is kept whole;
  longer output becomes a head, a marker and a tail of exactly the limit's length, and the
  number in the marker is the number of characters between head and tail that are missing.
\<close>

theorem captured_output:
  assumes "0 < limit" and "marker_fits limit (length (concat chunks))"
  shows "renderCapturedOutput limit (capture_all limit chunks) = render_spec limit (concat chunks) \<and>
    (int (length (concat chunks)) \<le> limit \<or>
     (\<exists>h k t. render_spec limit (concat chunks) = h @ marker_text k @ t \<and>
        h = take (length h) (concat chunks) \<and> t = last_n (length t) (concat chunks) \<and>
        length (concat chunks) = length h + k + length t \<and>
        length t \<le> length h \<and> length h \<le> length t + 1 \<and>
        js_length (render_spec limit (concat chunks)) = limit))"
proof -
  let ?s = "concat chunks"
  have "renderCapturedOutput limit (capture_all limit chunks) = render_spec limit ?s"
    using output_chunks.capture_spec [of limit chunks] assms by (simp add: capture_all_def)
  moreover have "\<exists>h k t. render_spec limit ?s = h @ marker_text k @ t \<and>
        h = take (length h) ?s \<and> t = last_n (length t) ?s \<and> length ?s = length h + k + length t \<and>
        length t \<le> length h \<and> length h \<le> length t + 1 \<and> js_length (render_spec limit ?s) = limit"
    if long: "\<not> int (length ?s) \<le> limit"
  proof -
    obtain k where k: "render_spec limit ?s =
        take (head_room limit (length ?s)) ?s @ marker_text k @ last_n (tail_room limit (length ?s)) ?s"
      "length ?s = head_room limit (length ?s) + k + tail_room limit (length ?s)"
      "js_length (render_spec limit ?s) = limit"
      using render_spec_exact [OF assms] long by (auto simp: not_le)
    have "tail_room limit (length ?s) \<le> head_room limit (length ?s)"
      "head_room limit (length ?s) \<le> tail_room limit (length ?s) + 1"
      using assms(2) by (auto simp: head_room_def tail_room_def marker_fits_def)
    with k show ?thesis
      by (intro exI [of _ "take (head_room limit (length ?s)) ?s"] exI [of _ k]
          exI [of _ "last_n (tail_room limit (length ?s)) ?s"]) simp
  qed
  ultimately show ?thesis by blast
qed

theorem captured_output_witness:
  "renderCapturedOutput 40 (capture_all 40 [replicate 30 CHR ''a'', replicate 31 CHR ''b'']) =
   render_spec 40 (concat [replicate 30 CHR ''a'', replicate 31 CHR ''b''])"
proof -
  have "marker_fits 40 (length (concat [replicate 30 CHR ''a'', replicate 31 CHR ''b'']))" by code_simp
  from captured_output [OF _ this] show ?thesis by simp
qed

definition bounded_inv :: "int \<Rightarrow> output_capture \<Rightarrow> bool" where
  "bounded_inv limit c \<longleftrightarrow> 0 \<le> cap_length c \<and>
     (if cap_truncated c
      then js_length (buildTruncationMarker (cap_length c) limit) < limit \<longrightarrow>
        js_length (cap_head c) + js_length (cap_tail c) \<le>
          limit - js_length (buildTruncationMarker (cap_length c) limit)
      else js_length (cap_head c) \<le> max 0 limit)"

lemma appendTail_length: "js_length (appendTail c chunk k) \<le> max 0 k"
  by (simp add: appendTail_eq js_length_def)

lemma bounded_append:
  assumes "bounded_inv limit c" and "cap_truncated c \<or> js_length (cap_head c) = cap_length c"
  shows "bounded_inv limit (appendCapturedOutput limit c chunk)"
proof (cases "js_length chunk = 0 \<or> limit \<le> 0 \<or> (\<not> cap_truncated c \<and> cap_length c + js_length chunk \<le> limit)")
  case True
  then consider "js_length chunk = 0" | "js_length chunk \<noteq> 0" "limit \<le> 0"
    | "js_length chunk \<noteq> 0" "0 < limit" "\<not> cap_truncated c" "cap_length c + js_length chunk \<le> limit"
    by linarith
  then show ?thesis
  proof cases
    case 1
    with assms(1) show ?thesis by (simp add: appendCapturedOutput_def)
  next
    case 2
    with assms(1) show ?thesis by (simp add: appendCapturedOutput_def bounded_inv_def Let_def)
  next
    case 3
    with assms show ?thesis by (simp add: appendCapturedOutput_def bounded_inv_def Let_def)
  qed
next
  case False
  let ?m = "js_length (buildTruncationMarker (cap_length c + js_length chunk) limit)"
  let ?src = "if cap_truncated c then cap_head c else cap_head c @ chunk"
  have n: "0 \<le> cap_length c + js_length chunk" using assms(1) by (simp add: bounded_inv_def)
  show ?thesis
  proof (cases "limit \<le> ?m")
    case True
    with False n show ?thesis by (auto simp: bounded_inv_def appendCapturedOutput_def Let_def)
  next
    case small: False
    have "js_length (js_take ((limit - ?m + 1) div 2) ?src) \<le> (limit - ?m + 1) div 2"
      using small by (intro length_js_take_le) simp
    moreover have "js_length (appendTail c chunk ((limit - ?m) div 2)) \<le> (limit - ?m) div 2"
      using appendTail_length [of c chunk "(limit - ?m) div 2"] small by simp
    ultimately have "js_length (js_take ((limit - ?m + 1) div 2) ?src) +
        js_length (appendTail c chunk ((limit - ?m) div 2)) \<le> limit - ?m" by linarith
    with False small n show ?thesis
      by (auto simp: bounded_inv_def appendCapturedOutput_def Let_def split: if_splits)
  qed
qed

lemma untruncated_length:
  "cap_truncated c \<or> js_length (cap_head c) = cap_length c \<Longrightarrow>
   cap_truncated (appendCapturedOutput limit c chunk) \<or>
   js_length (cap_head (appendCapturedOutput limit c chunk)) = cap_length (appendCapturedOutput limit c chunk)"
  by (auto simp: appendCapturedOutput_def Let_def)

lemma capture_all_bounded:
  "bounded_inv limit (capture_all limit chunks) \<and>
   (cap_truncated (capture_all limit chunks) \<or>
    js_length (cap_head (capture_all limit chunks)) = cap_length (capture_all limit chunks))"
proof (induction chunks rule: rev_induct)
  case Nil
  then show ?case by (simp add: capture_all_def emptyOutputCapture_def bounded_inv_def)
next
  case (snoc c cs)
  then show ?case
    using bounded_append [of limit "capture_all limit cs" c]
      untruncated_length [of "capture_all limit cs" limit c]
    by (simp add: capture_all_def)
qed

text \<open>
  Whatever the limit and the chunks, the stored output is never longer than the limit,
  and nothing is stored for a limit that is not positive.
\<close>

theorem captured_output_bounded:
  "js_length (renderCapturedOutput limit (capture_all limit chunks)) \<le> max 0 limit"
proof -
  let ?c = "capture_all limit chunks"
  have inv: "bounded_inv limit ?c" using capture_all_bounded by blast
  show ?thesis
  proof (cases "cap_truncated ?c \<and> 0 < limit")
    case False
    with inv show ?thesis by (auto simp: renderCapturedOutput_def bounded_inv_def)
  next
    case True
    show ?thesis
    proof (cases "limit \<le> js_length (buildTruncationMarker (cap_length ?c) limit)")
      case big: True
      have "js_length (js_slice_from (- limit) (cap_tail ?c)) \<le> limit"
        using True unfolding js_length_def by (simp add: js_slice_from_neg) linarith
      with True big show ?thesis by (simp add: renderCapturedOutput_def Let_def)
    next
      case False
      with True inv show ?thesis by (simp add: renderCapturedOutput_def bounded_inv_def Let_def)
    qed
  qed
qed

text \<open>
  Below the size of the marker the chunking does show: with a limit of 29 the tail kept for a
  short marker is too short once the count needs three digits.
\<close>

lemma tiny_limit_depends_on_chunks:
  "renderCapturedOutput 29 (capture_all 29 [replicate 90 CHR ''a'', replicate 15 CHR ''a'']) \<noteq>
   renderCapturedOutput 29 (capture_all 29 [replicate 105 CHR ''a''])"
  by code_simp

end
