(* ===== verification/StreamCapture.thy ===== *)
theory StreamCapture
  imports OutputCapture
begin

text \<open>
  The byte capture of the tmux wrapper, class \<open>StreamCapture\<close> of the script in
  \<open>src/jobs/tmux-capture-wrapper.ts\<close>, and the bridge's reading of a live tail
  (\<open>readCaptureTail\<close> in \<open>src/jobs/tmux-session-runner.service.ts\<close>). A byte is a character
  below 256. The capture writes the stream to a file until the cap; from then on the file keeps
  the head and a ring buffer, mirrored in a second file, keeps the last bytes.

  The operations here are those whose file writes succeed; theory \<open>CaptureWrapper\<close> says what a failing
  one does to the wrapper.
\<close>

section \<open>Files and buffers\<close>

definition write_at :: "nat \<Rightarrow> string \<Rightarrow> string \<Rightarrow> string" where
  \<comment> \<open>\<open>writeFullyAt\<close>: bytes at a position; a gap before it reads as zeros\<close>
  "write_at pos data file =
     take pos (file @ replicate (pos - length file) (char_of (0::nat))) @ data @ drop (pos + length data) file"

definition ftruncate :: "nat \<Rightarrow> string \<Rightarrow> string" where
  "ftruncate n file = take n (file @ replicate (n - length file) (char_of (0::nat)))"

definition live_marker :: string where
  "live_marker = [CHR 0x0A] @ ''...[live output truncated]...'' @ [CHR 0x0A]"

record stream_capture =
  sc_file :: string
  sc_tailFile :: "string option"
  sc_tail :: string
  sc_tailLength :: nat
  sc_tailStart :: nat
  sc_stored :: nat
  sc_bytesSeen :: nat
  sc_truncated :: bool
  sc_closed :: bool
  sc_finalized :: bool

text \<open>The two capacities the constructor computes from the cap (larger than the marker).\<close>

definition headCap :: "nat \<Rightarrow> nat" where
  "headCap cap = (cap - length live_marker + 1) div 2"

definition tailCap :: "nat \<Rightarrow> nat" where
  "tailCap cap = (cap - length live_marker) div 2"

definition new_StreamCapture :: "nat \<Rightarrow> stream_capture" where
  "new_StreamCapture cap = \<lparr>sc_file = [], sc_tailFile = Some [],
     sc_tail = replicate (tailCap cap) (char_of (0::nat)), sc_tailLength = 0, sc_tailStart = 0,
     sc_stored = 0, sc_bytesSeen = 0, sc_truncated = False, sc_closed = False, sc_finalized = False\<rparr>"

definition write_tail_file :: "nat \<Rightarrow> string \<Rightarrow> stream_capture \<Rightarrow> stream_capture" where
  "write_tail_file pos data c = c\<lparr>sc_tailFile := map_option (write_at pos data) (sc_tailFile c)\<rparr>"

section \<open>The ring buffer\<close>

definition ring_amount :: "nat \<Rightarrow> stream_capture \<Rightarrow> string \<Rightarrow> nat" where
  \<comment> \<open>the \<open>amount\<close> of one round of the loop of \<open>appendTail\<close>\<close>
  "ring_amount cap c buffer =
     (let writeAt = (sc_tailStart c + sc_tailLength c) mod tailCap cap;
          free = tailCap cap - sc_tailLength c
      in min (length buffer) (min (tailCap cap - writeAt) (if free = 0 then tailCap cap else free)))"

definition ring_store :: "nat \<Rightarrow> stream_capture \<Rightarrow> string \<Rightarrow> stream_capture" where
  \<comment> \<open>the copy, the write to the tail file and the update of the ring's ends\<close>
  "ring_store cap c data =
     (let writeAt = (sc_tailStart c + sc_tailLength c) mod tailCap cap;
          c1 = write_tail_file writeAt data (c\<lparr>sc_tail := write_at writeAt data (sc_tail c)\<rparr>)
      in if sc_tailLength c < tailCap cap
         then c1\<lparr>sc_tailLength := sc_tailLength c + length data\<rparr>
         else c1\<lparr>sc_tailStart := (sc_tailStart c + length data) mod tailCap cap\<rparr>)"

lemma ring_amount_pos: "buffer \<noteq> [] \<Longrightarrow> 0 < tailCap cap \<Longrightarrow> 0 < ring_amount cap c buffer"
  by (simp add: ring_amount_def Let_def)

function ring_loop :: "nat \<Rightarrow> stream_capture \<Rightarrow> string \<Rightarrow> stream_capture" where
  \<comment> \<open>the \<open>while\<close> loop of \<open>appendTail\<close>; the argument is what is left from \<open>offset\<close> on. The loop is
     entered with \<open>tailCap > 0\<close>, which is repeated here so that the recursion is total\<close>
  "ring_loop cap c buffer =
     (if buffer = [] \<or> tailCap cap = 0 then c
      else
        (let amount = ring_amount cap c buffer
         in ring_loop cap (ring_store cap c (take amount buffer)) (drop amount buffer)))"
  by pat_completeness auto

termination ring_loop
  by (relation "measure (\<lambda>(cap, c, buffer). length buffer)") (auto simp: ring_amount_pos)

declare ring_loop.simps [simp del]

definition appendTail_bytes :: "nat \<Rightarrow> stream_capture \<Rightarrow> string \<Rightarrow> stream_capture" where
  "appendTail_bytes cap c buffer =
     (if tailCap cap = 0 \<or> buffer = [] then c
      else if length buffer \<ge> tailCap cap
      then
        (let data = last_n (tailCap cap) buffer in
         c\<lparr>sc_tail := write_at 0 data (sc_tail c),
           sc_tailFile := map_option (\<lambda>f. ftruncate (tailCap cap) (write_at 0 data f)) (sc_tailFile c),
           sc_tailLength := tailCap cap, sc_tailStart := 0\<rparr>)
      else ring_loop cap c buffer)"

definition setTail :: "nat \<Rightarrow> stream_capture \<Rightarrow> string \<Rightarrow> stream_capture" where
  "setTail cap c buffer =
     (let retained = drop (length buffer - tailCap cap) buffer in
      c\<lparr>sc_tail := write_at 0 retained (replicate (tailCap cap) (char_of (0::nat))),
        sc_tailFile := map_option (\<lambda>f. write_at 0 retained (ftruncate 0 f)) (sc_tailFile c),
        sc_tailLength := length retained, sc_tailStart := 0\<rparr>)"

definition tailBuffer :: "nat \<Rightarrow> stream_capture \<Rightarrow> string" where
  "tailBuffer cap c =
     (if sc_tailLength c = 0 then []
      else if sc_tailStart c = 0 then take (sc_tailLength c) (sc_tail c)
      else take (sc_tailLength c) (drop (sc_tailStart c) (sc_tail c)) @
           take (sc_tailStart c + sc_tailLength c - tailCap cap) (sc_tail c))"

section \<open>The stream\<close>

definition beginTruncation :: "nat \<Rightarrow> stream_capture \<Rightarrow> stream_capture" where
  "beginTruncation cap c =
     (if sc_truncated c then c
      else
        (let tailBytes = min (tailCap cap) (sc_stored c);
             originalTail = take tailBytes (drop (sc_stored c - tailBytes) (sc_file c));
             c1 = c\<lparr>sc_file := ftruncate (headCap cap) (sc_file c), sc_stored := headCap cap,
                    sc_truncated := True\<rparr>
         in if originalTail \<noteq> [] then setTail cap c1 originalTail else c1))"

definition append_chunk :: "nat \<Rightarrow> stream_capture \<Rightarrow> string \<Rightarrow> stream_capture" where
  "append_chunk cap c0 buffer =
     (let c = c0\<lparr>sc_bytesSeen := sc_bytesSeen c0 + length buffer\<rparr> in
      if \<not> sc_truncated c
      then
        (let direct = min (cap - sc_stored c) (length buffer);
             c1 = (if 0 < direct
                   then c\<lparr>sc_file := sc_file c @ take direct buffer, sc_stored := sc_stored c + direct\<rparr>
                   else c)
         in if direct = length buffer then c1
            else appendTail_bytes cap (beginTruncation cap c1) (drop direct buffer))
      else appendTail_bytes cap c buffer)"

definition materialize :: "nat \<Rightarrow> stream_capture \<Rightarrow> stream_capture" where
  "materialize cap c =
     (let total = headCap cap + length live_marker + sc_tailLength c;
          f1 = ftruncate (headCap cap) (sc_file c);
          f2 = write_at (headCap cap) live_marker f1;
          f3 = write_at (headCap cap + length live_marker) (tailBuffer cap c) f2
      in c\<lparr>sc_file := ftruncate total f3, sc_stored := total\<rparr>)"

definition finish_capture :: "nat \<Rightarrow> stream_capture \<Rightarrow> stream_capture" where
  "finish_capture cap c =
     (if sc_closed c then c
      else
        (let c1 = c\<lparr>sc_tailFile := None\<rparr>;
             c2 = (if sc_truncated c1 then materialize cap c1 else c1)
         in c2\<lparr>sc_finalized := True, sc_closed := True\<rparr>))"

record stream_metadata =
  sm_bytesSeen :: int
  sm_truncated :: bool
  sm_tailStart :: int
  sm_tailLength :: int
  sm_finalized :: bool

definition metadata :: "stream_capture \<Rightarrow> stream_metadata" where
  "metadata c = \<lparr>sm_bytesSeen = int (sc_bytesSeen c), sm_truncated = sc_truncated c,
     sm_tailStart = int (sc_tailStart c), sm_tailLength = int (sc_tailLength c),
     sm_finalized = sc_finalized c\<rparr>"

text \<open>The bridge reads the tail file by the metadata; decoding to text is left out here.\<close>

definition readCaptureTail :: "string option \<Rightarrow> stream_metadata \<Rightarrow> string" where
  "readCaptureTail tailFile capture =
     (if sm_tailLength capture = 0 then []
      else
        (case tailFile of
           None \<Rightarrow> []
         | Some raw \<Rightarrow>
             (if sm_tailStart capture < 0 \<or> sm_tailLength capture < 0 \<or>
                 sm_tailStart capture \<ge> js_length raw \<or> sm_tailLength capture > js_length raw
              then []
              else
                (let start = nat (sm_tailStart capture); len = nat (sm_tailLength capture);
                     end' = start + len
                 in if end' \<le> length raw then take len (drop start raw)
                    else drop start raw @ take (end' - length raw) raw))))"

section \<open>The ring buffer refines the last bytes\<close>

definition ring_ok :: "nat \<Rightarrow> stream_capture \<Rightarrow> bool" where
  "ring_ok cap c \<longleftrightarrow> length (sc_tail c) = tailCap cap \<and> sc_tailLength c \<le> tailCap cap \<and>
     (sc_tailStart c = 0 \<or> (sc_tailStart c < tailCap cap \<and> sc_tailLength c = tailCap cap)) \<and>
     sc_tailFile c = Some (take (sc_tailLength c) (sc_tail c))"

definition ring_content :: "stream_capture \<Rightarrow> string" where
  "ring_content c =
     drop (sc_tailStart c) (take (sc_tailLength c) (sc_tail c)) @ take (sc_tailStart c) (sc_tail c)"

lemma tailBuffer_content: "ring_ok cap c \<Longrightarrow> tailBuffer cap c = ring_content c"
  by (auto simp: tailBuffer_def ring_content_def ring_ok_def)

lemma length_ring_content: "ring_ok cap c \<Longrightarrow> length (ring_content c) = sc_tailLength c"
  by (auto simp: ring_content_def ring_ok_def)

lemma readCaptureTail_content:
  assumes "ring_ok cap c"
  shows "readCaptureTail (sc_tailFile c) (metadata c) = ring_content c"
proof -
  from assms have tf: "sc_tailFile c = Some (take (sc_tailLength c) (sc_tail c))"
    and len: "length (sc_tail c) = tailCap cap" "sc_tailLength c \<le> tailCap cap"
    and st: "sc_tailStart c = 0 \<or> (sc_tailStart c < tailCap cap \<and> sc_tailLength c = tailCap cap)"
    by (auto simp: ring_ok_def)
  from st show ?thesis
  proof
    assume "sc_tailStart c = 0"
    with tf len show ?thesis
      by (simp add: readCaptureTail_def metadata_def ring_content_def js_length_def)
  next
    assume full: "sc_tailStart c < tailCap cap \<and> sc_tailLength c = tailCap cap"
    with tf len show ?thesis
      by (auto simp: readCaptureTail_def metadata_def ring_content_def js_length_def Let_def)
  qed
qed

lemma write_at_inside:
  "pos \<le> length file \<Longrightarrow> write_at pos data file = take pos file @ data @ drop (pos + length data) file"
  by (simp add: write_at_def)

lemma length_write_at: "pos + length data \<le> length file \<Longrightarrow> length (write_at pos data file) = length file"
  by (simp add: write_at_inside)

text \<open>One round of the loop moves a prefix of the data into the ring.\<close>

lemma ring_store_content:
  assumes "ring_ok cap c" and "data \<noteq> []"
    and w: "w = (sc_tailStart c + sc_tailLength c) mod tailCap cap"
    and a: "length data \<le> tailCap cap - w"
      "sc_tailLength c < tailCap cap \<Longrightarrow> length data \<le> tailCap cap - sc_tailLength c"
  shows "ring_ok cap (ring_store cap c data) \<and>
    ring_content (ring_store cap c data) = last_n (tailCap cap) (ring_content c @ data)"
proof -
  let ?T = "tailCap cap" and ?t = "sc_tail c" and ?s = "sc_tailStart c" and ?a = "length data"
  define c1 where "c1 = write_tail_file w data (c\<lparr>sc_tail := write_at w data (sc_tail c)\<rparr>)"
  from assms(1) have len: "length ?t = ?T" "sc_tailLength c \<le> ?T"
    and st: "?s = 0 \<or> (?s < ?T \<and> sc_tailLength c = ?T)"
    and tf: "sc_tailFile c = Some (take (sc_tailLength c) ?t)" by (auto simp: ring_ok_def)
  have aT: "w + ?a \<le> ?T" using a(1) assms(2) by (cases data) auto
  have wrote: "sc_tail c1 = take w ?t @ data @ drop (w + ?a) ?t"
    using aT len by (simp add: c1_def write_tail_file_def write_at_inside)
  have store: "ring_store cap c data = (if sc_tailLength c < ?T
         then c1\<lparr>sc_tailLength := sc_tailLength c + ?a\<rparr>
         else c1\<lparr>sc_tailStart := (?s + ?a) mod ?T\<rparr>)"
    by (simp add: ring_store_def Let_def c1_def w)
  have frame: "sc_tailLength c1 = sc_tailLength c" "sc_tailStart c1 = ?s"
    by (simp_all add: c1_def write_tail_file_def)
  show ?thesis
  proof (cases "sc_tailLength c < ?T")
    case True
    with st have s0: "?s = 0" by auto
    with w True have w: "w = sc_tailLength c" by simp
    have "sc_tailFile c1 = Some (take w ?t @ data)"
      using tf w len by (simp add: c1_def write_tail_file_def write_at_inside)
    with True s0 w wrote aT len store frame show ?thesis
      by (simp add: ring_ok_def ring_content_def)
  next
    case False
    with len have full: "sc_tailLength c = ?T" by simp
    have ws: "w = ?s" using w full st by (cases "?T = 0") auto
    have f1: "sc_tailFile c1 = Some (sc_tail c1)"
      using tf full len aT by (simp add: c1_def write_tail_file_def)
    have content: "ring_content c = drop ?s ?t @ take ?s ?t" using full len by (simp add: ring_content_def)
    have target: "last_n ?T (ring_content c @ data) = drop (?s + ?a) ?t @ take ?s ?t @ data"
      using aT ws len content by (simp add: last_n_def add.commute)
    have lw: "length (sc_tail c1) = ?T" using wrote ws aT len by simp
    show ?thesis
    proof (cases "?s + ?a = ?T")
      case True
      with False store frame f1 wrote ws lw target len full show ?thesis
        by (simp add: ring_ok_def ring_content_def)
    next
      case neq: False
      with aT ws have "?s + ?a < ?T" by simp
      with False store frame f1 wrote ws lw target len full show ?thesis
        by (simp add: ring_ok_def ring_content_def)
    qed
  qed
qed

lemma ring_loop_content:
  assumes "ring_ok cap c" and "0 < tailCap cap"
  shows "ring_ok cap (ring_loop cap c buffer) \<and>
    ring_content (ring_loop cap c buffer) = last_n (tailCap cap) (ring_content c @ buffer)"
  using assms
proof (induction cap c buffer rule: ring_loop.induct)
  case (1 cap c buffer)
  show ?case
  proof (cases "buffer = []")
    case True
    have "length (ring_content c) \<le> tailCap cap"
      using 1(2) length_ring_content [OF 1(2)] by (simp add: ring_ok_def)
    with 1(2) True show ?thesis by (simp add: ring_loop.simps [of cap c "[]"])
  next
    case False
    let ?a = "ring_amount cap c buffer"
    let ?c = "ring_store cap c (take ?a buffer)"
    have a: "0 < ?a" "?a \<le> length buffer"
      "?a \<le> tailCap cap - (sc_tailStart c + sc_tailLength c) mod tailCap cap"
      "sc_tailLength c < tailCap cap \<Longrightarrow> ?a \<le> tailCap cap - sc_tailLength c"
      using False 1(3) ring_amount_pos [OF False 1(3), of c] by (auto simp: ring_amount_def Let_def)
    have round: "ring_ok cap ?c \<and> ring_content ?c = last_n (tailCap cap) (ring_content c @ take ?a buffer)"
      by (rule ring_store_content [OF 1(2) _ refl]) (use a in auto)
    have "ring_ok cap (ring_loop cap ?c (drop ?a buffer)) \<and>
        ring_content (ring_loop cap ?c (drop ?a buffer)) = last_n (tailCap cap) (ring_content ?c @ drop ?a buffer)"
      using 1(1) False 1(3) round by simp
    moreover have "ring_loop cap c buffer = ring_loop cap ?c (drop ?a buffer)"
      using False 1(3) by (simp add: ring_loop.simps [of cap c buffer] Let_def)
    ultimately show ?thesis using round by (simp add: last_n_append_last_n)
  qed
qed

lemma appendTail_bytes_content:
  assumes "ring_ok cap c"
  shows "ring_ok cap (appendTail_bytes cap c buffer) \<and>
    ring_content (appendTail_bytes cap c buffer) = last_n (tailCap cap) (ring_content c @ buffer)"
proof (cases "tailCap cap = 0 \<or> buffer = []")
  case True
  with assms length_ring_content [OF assms] show ?thesis
    by (auto simp: appendTail_bytes_def ring_ok_def)
next
  case False
  show ?thesis
  proof (cases "length buffer \<ge> tailCap cap")
    case True
    with False assms show ?thesis
      by (auto simp: appendTail_bytes_def Let_def ring_ok_def ring_content_def write_at_inside
          ftruncate_def last_n_append_left)
  next
    case short: False
    with False ring_loop_content [OF assms, of buffer] show ?thesis by (simp add: appendTail_bytes_def)
  qed
qed

section \<open>The stream invariant\<close>

definition stream_inv :: "nat \<Rightarrow> string \<Rightarrow> stream_capture \<Rightarrow> bool" where
  "stream_inv cap s c \<longleftrightarrow> ring_ok cap c \<and> \<not> sc_closed c \<and> \<not> sc_finalized c \<and> sc_bytesSeen c = length s \<and>
     (if length s \<le> cap
      then \<not> sc_truncated c \<and> sc_file c = s \<and> sc_stored c = length s \<and> sc_tailLength c = 0 \<and> sc_tailStart c = 0
      else sc_truncated c \<and> sc_file c = take (headCap cap) s \<and> ring_content c = last_n (tailCap cap) s)"

lemma caps: "length live_marker < cap \<Longrightarrow> headCap cap + length live_marker + tailCap cap = cap"
  unfolding headCap_def tailCap_def by presburger

lemma setTail_content:
  assumes "ring_ok cap c"
  shows "ring_ok cap (setTail cap c b) \<and> ring_content (setTail cap c b) = last_n (tailCap cap) b"
  using assms by (auto simp: setTail_def Let_def ring_ok_def ring_content_def write_at_inside
      ftruncate_def last_n_def)

lemma setTail_frame [simp]:
  "sc_file (setTail cap c b) = sc_file c" "sc_stored (setTail cap c b) = sc_stored c"
  "sc_bytesSeen (setTail cap c b) = sc_bytesSeen c" "sc_truncated (setTail cap c b) = sc_truncated c"
  "sc_closed (setTail cap c b) = sc_closed c" "sc_finalized (setTail cap c b) = sc_finalized c"
  by (simp_all add: setTail_def Let_def)

lemma ring_store_frame:
  "sc_file (ring_store cap c d) = sc_file c \<and> sc_stored (ring_store cap c d) = sc_stored c \<and>
   sc_bytesSeen (ring_store cap c d) = sc_bytesSeen c \<and> sc_truncated (ring_store cap c d) = sc_truncated c \<and>
   sc_closed (ring_store cap c d) = sc_closed c \<and> sc_finalized (ring_store cap c d) = sc_finalized c"
  by (simp add: ring_store_def Let_def write_tail_file_def)

lemma ring_loop_frame:
  "sc_file (ring_loop cap c b) = sc_file c \<and> sc_stored (ring_loop cap c b) = sc_stored c \<and>
   sc_bytesSeen (ring_loop cap c b) = sc_bytesSeen c \<and> sc_truncated (ring_loop cap c b) = sc_truncated c \<and>
   sc_closed (ring_loop cap c b) = sc_closed c \<and> sc_finalized (ring_loop cap c b) = sc_finalized c"
proof (induction cap c b rule: ring_loop.induct)
  case (1 cap c b)
  then show ?case
    by (cases "b = [] \<or> tailCap cap = 0")
       (auto simp: ring_loop.simps [of cap c b] Let_def ring_store_frame)
qed

lemma appendTail_frame [simp]:
  "sc_file (appendTail_bytes cap c b) = sc_file c" "sc_stored (appendTail_bytes cap c b) = sc_stored c"
  "sc_bytesSeen (appendTail_bytes cap c b) = sc_bytesSeen c"
  "sc_truncated (appendTail_bytes cap c b) = sc_truncated c"
  "sc_closed (appendTail_bytes cap c b) = sc_closed c"
  "sc_finalized (appendTail_bytes cap c b) = sc_finalized c"
  using ring_loop_frame [of cap c b] by (simp_all add: appendTail_bytes_def Let_def)

lemma beginTruncation_content:
  assumes "ring_ok cap c" and "\<not> sc_truncated c" and "length (sc_file c) = cap" and "sc_stored c = cap"
    and "sc_tailLength c = 0" "sc_tailStart c = 0" and "length live_marker < cap"
  defines "c' \<equiv> beginTruncation cap c"
  shows "ring_ok cap c' \<and> ring_content c' = last_n (tailCap cap) (sc_file c) \<and> sc_truncated c' \<and>
    sc_file c' = take (headCap cap) (sc_file c) \<and> sc_bytesSeen c' = sc_bytesSeen c \<and>
    sc_closed c' = sc_closed c \<and> sc_finalized c' = sc_finalized c"
proof -
  let ?c1 = "c\<lparr>sc_file := ftruncate (headCap cap) (sc_file c), sc_stored := headCap cap, sc_truncated := True\<rparr>"
  have le: "tailCap cap \<le> cap" "headCap cap \<le> cap" using caps [OF assms(7)] by linarith+
  then have orig: "take (min (tailCap cap) (sc_stored c)) (drop (sc_stored c - min (tailCap cap) (sc_stored c)) (sc_file c))
      = last_n (tailCap cap) (sc_file c)"
    using assms(3,4) by (simp add: last_n_def)
  have ok1: "ring_ok cap ?c1" using assms(1) by (simp add: ring_ok_def)
  have hf: "ftruncate (headCap cap) (sc_file c) = take (headCap cap) (sc_file c)"
    using le assms(3) by (simp add: ftruncate_def)
  have c': "c' = (if last_n (tailCap cap) (sc_file c) \<noteq> []
      then setTail cap ?c1 (last_n (tailCap cap) (sc_file c)) else ?c1)"
    using assms(2) unfolding c'_def beginTruncation_def Let_def orig by simp
  show ?thesis
  proof (cases "last_n (tailCap cap) (sc_file c) = []")
    case True
    with c' ok1 hf assms(5,6) show ?thesis by (simp add: ring_content_def)
  next
    case False
    with c' setTail_content [OF ok1, of "last_n (tailCap cap) (sc_file c)"] hf show ?thesis by simp
  qed
qed

lemma append_chunk_inv:
  assumes inv: "stream_inv cap s c" and big: "length live_marker < cap"
  shows "stream_inv cap (s @ b) (append_chunk cap c b)"
proof -
  let ?c0 = "c\<lparr>sc_bytesSeen := sc_bytesSeen c + length b\<rparr>"
  have ok0: "ring_ok cap ?c0" using inv by (simp add: stream_inv_def ring_ok_def)
  have cont0: "ring_content ?c0 = ring_content c" by (simp add: ring_content_def)
  consider "\<not> length s \<le> cap" | "length s \<le> cap" "length (s @ b) \<le> cap" | "length s \<le> cap" "cap < length (s @ b)"
    by linarith
  then show ?thesis
  proof cases
    case 1
    have "append_chunk cap c b = appendTail_bytes cap ?c0 b"
      using 1 inv by (simp add: append_chunk_def stream_inv_def)
    moreover have "headCap cap \<le> length s" using caps [OF big] 1 by linarith
    ultimately show ?thesis
      using 1 inv appendTail_bytes_content [OF ok0, of b] cont0
      by (simp add: stream_inv_def last_n_append_last_n)
  next
    case 2
    then have "append_chunk cap c b = (if b = [] then ?c0
        else ?c0\<lparr>sc_file := sc_file c @ b, sc_stored := sc_stored c + length b\<rparr>)"
      using inv by (auto simp: append_chunk_def stream_inv_def Let_def min_def)
    with 2 inv show ?thesis by (auto simp: stream_inv_def ring_ok_def)
  next
    case 3
    let ?d = "cap - length s"
    let ?c1 = "?c0\<lparr>sc_file := s @ take ?d b, sc_stored := cap\<rparr>"
    have step: "append_chunk cap c b = appendTail_bytes cap (beginTruncation cap ?c1) (drop ?d b)"
      using 3 inv by (cases c) (auto simp: append_chunk_def stream_inv_def Let_def min_def)
    have "ring_ok cap ?c1" using ok0 by (simp add: ring_ok_def)
    have tr: "ring_ok cap (beginTruncation cap ?c1) \<and>
        ring_content (beginTruncation cap ?c1) = last_n (tailCap cap) (s @ take ?d b) \<and>
        sc_truncated (beginTruncation cap ?c1) \<and>
        sc_file (beginTruncation cap ?c1) = take (headCap cap) (s @ take ?d b) \<and>
        sc_bytesSeen (beginTruncation cap ?c1) = length (s @ b) \<and>
        \<not> sc_closed (beginTruncation cap ?c1) \<and> \<not> sc_finalized (beginTruncation cap ?c1)"
      using beginTruncation_content [OF \<open>ring_ok cap ?c1\<close> _ _ _ _ _ big] 3 inv
      by (auto simp: stream_inv_def)
    have "headCap cap \<le> cap" using caps [OF big] by linarith
    then have head: "take (headCap cap) (s @ take ?d b) = take (headCap cap) (s @ b)"
      using 3 by (simp add: min_def)
    have "ring_content (append_chunk cap c b) = last_n (tailCap cap) ((s @ take ?d b) @ drop ?d b)"
      using appendTail_bytes_content [of cap "beginTruncation cap ?c1" "drop ?d b"] tr step
      by (simp add: last_n_append_last_n)
    then have "ring_content (append_chunk cap c b) = last_n (tailCap cap) (s @ b)" by simp
    with tr head step appendTail_bytes_content [of cap "beginTruncation cap ?c1" "drop ?d b"] 3 show ?thesis
      by (simp add: stream_inv_def)
  qed
qed

definition stream_all :: "nat \<Rightarrow> string list \<Rightarrow> stream_capture" where
  "stream_all cap chunks = foldl (append_chunk cap) (new_StreamCapture cap) chunks"

lemma stream_all_inv:
  "length live_marker < cap \<Longrightarrow> stream_inv cap (concat chunks) (stream_all cap chunks)"
proof (induction chunks rule: rev_induct)
  case Nil
  then show ?case by (simp add: stream_all_def new_StreamCapture_def stream_inv_def ring_ok_def)
next
  case (snoc b chunks)
  then show ?case using append_chunk_inv [of cap "concat chunks" "stream_all cap chunks" b]
    by (simp add: stream_all_def)
qed

definition file_spec :: "nat \<Rightarrow> string \<Rightarrow> string" where
  "file_spec cap s =
     (if length s \<le> cap then s
      else take (headCap cap) s @ live_marker @ last_n (tailCap cap) s)"

lemma materialize_file:
  assumes "stream_inv cap s c" and "cap < length s" and "length live_marker < cap"
  shows "sc_file (materialize cap c) = file_spec cap s"
proof -
  let ?h = "headCap cap" and ?t = "last_n (tailCap cap) s"
  have le: "?h \<le> cap" "tailCap cap \<le> cap" using caps [OF assms(3)] by linarith+
  have tail: "tailBuffer cap c = ?t" and len: "sc_tailLength c = length ?t"
    and hf: "sc_file c = take ?h s"
    using assms(1,2) tailBuffer_content [of cap c] length_ring_content [of cap c]
    by (auto simp: stream_inv_def)
  have f1: "ftruncate ?h (sc_file c) = take ?h s" using hf le assms(2) by (simp add: ftruncate_def)
  have lenh: "length (take ?h s) = ?h" using le assms(2) by simp
  have "sc_file (materialize cap c) = take ?h s @ live_marker @ ?t"
    unfolding materialize_def Let_def f1 tail len
    using lenh by (simp add: write_at_def ftruncate_def)
  with assms(2) show ?thesis by (simp add: file_spec_def)
qed

lemma finish_file:
  assumes "stream_inv cap s c" and "length live_marker < cap"
  shows "sc_file (finish_capture cap c) = file_spec cap s"
proof (cases "length s \<le> cap")
  case True
  with assms(1) show ?thesis by (simp add: finish_capture_def stream_inv_def file_spec_def Let_def)
next
  case False
  have "sc_file (materialize cap (c\<lparr>sc_tailFile := None\<rparr>)) = sc_file (materialize cap c)"
    by (simp add: materialize_def Let_def tailBuffer_def)
  with False assms show ?thesis
    using materialize_file [OF assms(1) _ assms(2)]
    by (simp add: finish_capture_def stream_inv_def Let_def)
qed

interpretation tmux_chunks: chunked_capture "new_StreamCapture cap" "append_chunk cap"
  "\<lambda>c. sc_file (finish_capture cap c)" "\<lambda>_. length live_marker < cap" "file_spec cap" for cap
proof
  fix chunks :: "string list"
  assume "length live_marker < cap"
  then show "sc_file (finish_capture cap (foldl (append_chunk cap) (new_StreamCapture cap) chunks)) =
      file_spec cap (concat chunks)"
    using finish_file [OF stream_all_inv [of cap chunks]] by (simp add: stream_all_def)
qed

text \<open>
  The wrapper's capture. However the stream is chunked, the finished file is the whole
  stream, or, when it is longer than the cap, exactly cap bytes: its head, the marker and its
  tail. While it runs the metadata count the bytes seen and tell whether the cap was passed, and
  what the bridge reads from the tail file by them is the end of the stream so far.
\<close>

theorem stream_capture_contract:
  assumes "length live_marker < cap"
  shows "sc_file (finish_capture cap (stream_all cap chunks)) = file_spec cap (concat chunks) \<and>
    length (file_spec cap (concat chunks)) \<le> cap \<and>
    sm_bytesSeen (metadata (stream_all cap chunks)) = int (length (concat chunks)) \<and>
    sm_truncated (metadata (stream_all cap chunks)) = (cap < length (concat chunks)) \<and>
    readCaptureTail (sc_tailFile (stream_all cap chunks)) (metadata (stream_all cap chunks)) =
      (if length (concat chunks) \<le> cap then [] else last_n (tailCap cap) (concat chunks))"
proof -
  let ?c = "stream_all cap chunks" and ?s = "concat chunks"
  have inv: "stream_inv cap ?s ?c" using assms by (rule stream_all_inv)
  have "sc_file (finish_capture cap ?c) = file_spec cap ?s"
    using tmux_chunks.capture_spec [of cap chunks] assms by (simp add: stream_all_def)
  moreover have "length (file_spec cap ?s) \<le> cap"
    using caps [OF assms] by (simp add: file_spec_def)
  moreover have "readCaptureTail (sc_tailFile ?c) (metadata ?c) = ring_content ?c"
    using inv readCaptureTail_content [of cap ?c] by (simp add: stream_inv_def)
  moreover have "ring_content ?c = (if length ?s \<le> cap then [] else last_n (tailCap cap) ?s)"
    using inv by (cases "length ?s \<le> cap") (simp add: stream_inv_def ring_content_def, simp add: stream_inv_def)
  moreover have "sm_bytesSeen (metadata ?c) = int (length ?s)" "sm_truncated (metadata ?c) = (cap < length ?s)"
    using inv by (auto simp: stream_inv_def metadata_def split: if_splits)
  ultimately show ?thesis by simp
qed

theorem stream_capture_contract_witness:
  "sc_file (finish_capture 36 (stream_all 36 [replicate 20 CHR ''a'', replicate 30 CHR ''b''])) =
   file_spec 36 (concat [replicate 20 CHR ''a'', replicate 30 CHR ''b''])"
proof -
  have "length live_marker < 36" by code_simp
  from stream_capture_contract [OF this] show ?thesis by blast
qed

text \<open>
  The ring buffer: appending data leaves exactly the last bytes, in order, both in memory
  and in the file the bridge reads.
\<close>

theorem ring_keeps_last_bytes:
  assumes "ring_ok cap c"
  shows "tailBuffer cap (appendTail_bytes cap c data) = last_n (tailCap cap) (tailBuffer cap c @ data) \<and>
    readCaptureTail (sc_tailFile (appendTail_bytes cap c data)) (metadata (appendTail_bytes cap c data)) =
      last_n (tailCap cap) (tailBuffer cap c @ data) \<and>
    ring_ok cap (appendTail_bytes cap c data)"
proof -
  note r = appendTail_bytes_content [OF assms, of data]
  show ?thesis
    using r tailBuffer_content [OF assms] tailBuffer_content [OF conjunct1 [OF r]]
      readCaptureTail_content [OF conjunct1 [OF r]]
    by simp
qed

theorem ring_keeps_last_bytes_witness:
  "tailBuffer 37 (appendTail_bytes 37 (new_StreamCapture 37) ''abcd'') =
     last_n (tailCap 37) (tailBuffer 37 (new_StreamCapture 37) @ ''abcd'')"
proof -
  have "ring_ok 37 (new_StreamCapture 37)" by (simp add: ring_ok_def new_StreamCapture_def)
  from ring_keeps_last_bytes [OF this] show ?thesis by blast
qed

end
