(* ===== verification/CallbackAuth.thy ===== *)
theory CallbackAuth
  imports BridgeConfig PrivateFs
begin

text \<open>
  Authentication: the callback signature protocol in its three copies
  (\<open>src/jobs/callback-signature.ts\<close>, \<open>omx-dispatch/webhook-codec.ts\<close>,
  \<open>omx-bridge-plugin/index.ts\<close>) and the request guards of the bridge. HMAC-SHA256 is the
  parameter \<open>hmac\<close>, from a secret and a message to the digest bytes; hexadecimal coding and the
  UTF-8 bytes of a token are computed.
\<close>

section \<open>Bytes and hexadecimal text\<close>

definition digest_digit :: "nat \<Rightarrow> char" where
  "digest_digit n = (if n < 10 then char_of (48 + n) else char_of (87 + n))"

definition hex_value :: "char \<Rightarrow> nat" where
  "hex_value c = (let n = (of_char c :: nat) in
     if n \<le> 57 then n - 48 else if n \<le> 70 then n - 55 else n - 87)"

fun to_hex :: "string \<Rightarrow> string" where
  \<comment> \<open>\<open>digest('hex')\<close>\<close>
  "to_hex [] = []"
| "to_hex (b # bs) =
     digest_digit ((of_char b :: nat) div 16) # digest_digit ((of_char b :: nat) mod 16) # to_hex bs"

fun from_hex :: "string \<Rightarrow> string" where
  \<comment> \<open>\<open>Buffer.from(s, 'hex')\<close>: decoding stops at the first pair that is not hexadecimal\<close>
  "from_hex (a # b # r) =
     (if is_hex a \<and> is_hex b then char_of (16 * hex_value a + hex_value b) # from_hex r else [])"
| "from_hex _ = []"

lemma digest_digit_code: "n < 16 \<Longrightarrow> (of_char (digest_digit n) :: nat) = (if n < 10 then 48 + n else 87 + n)"
  by (simp add: digest_digit_def)

lemma digest_digit_props:
  assumes "n < 16"
  shows "is_hex (digest_digit n)" and "hex_value (digest_digit n) = n"
  using assms by (auto simp: is_hex_def is_digit_def hex_value_def Let_def digest_digit_code)

lemma of_char_less: "(of_char c :: nat) < 256"
  by (metis nat_of_char_less_256)

lemma from_to_hex: "from_hex (to_hex bs @ rest) = bs @ from_hex rest"
proof (induction bs)
  case (Cons b bs)
  have "(of_char b :: nat) div 16 < 16" using of_char_less [of b] by linarith
  then show ?case
    using Cons by (simp add: digest_digit_props mult.commute)
qed simp

lemma from_to_hex_all [simp]: "from_hex (to_hex bs) = bs"
  using from_to_hex [of bs "[]"] by simp

section \<open>The signature\<close>

definition computeCallbackSignature ::
  "(string \<Rightarrow> string \<Rightarrow> string) \<Rightarrow> string \<Rightarrow> string \<Rightarrow> string \<Rightarrow> string" where
  \<comment> \<open>two \<open>update\<close> calls hash the concatenation\<close>
  "computeCallbackSignature hmac jobId body secret =
     ''sha256='' @ to_hex (hmac secret ((jobId @ '':'') @ body))"

definition timingSafeEqual :: "string \<Rightarrow> string \<Rightarrow> bool option" where
  \<comment> \<open>\<open>None\<close>: it throws because the lengths differ\<close>
  "timingSafeEqual a b = (if length a \<noteq> length b then None else Some (a = b))"

definition verifyCallbackSignature ::
  "(string \<Rightarrow> string \<Rightarrow> string) \<Rightarrow> string \<Rightarrow> string \<Rightarrow> string \<Rightarrow> string \<Rightarrow> bool" where
  "verifyCallbackSignature hmac jobId rawBody secret provided =
     (if \<not> starts_with ''sha256='' provided then False
      else
        (let expected = computeCallbackSignature hmac jobId rawBody secret in
         case timingSafeEqual (from_hex (drop 7 expected)) (from_hex (drop 7 provided)) of
           Some r \<Rightarrow> r
         | None \<Rightarrow> False))"

text \<open>The copies in the dispatch server and in the plugin.\<close>

definition dispatch_buildCallbackSignatureHeader ::
  "(string \<Rightarrow> string \<Rightarrow> string) \<Rightarrow> string \<Rightarrow> string \<Rightarrow> string \<Rightarrow> string" where
  "dispatch_buildCallbackSignatureHeader hmac jobId body secret =
     (let message = jobId @ '':'' @ body; hex = to_hex (hmac secret message) in ''sha256='' @ hex)"

definition verifyWebhookSignature ::
  "(string \<Rightarrow> string \<Rightarrow> string) \<Rightarrow> string \<Rightarrow> string \<Rightarrow> string \<Rightarrow> string \<Rightarrow> bool" where
  "verifyWebhookSignature hmac jobId rawBody signature secret =
     (if secret = [] then True
      else if \<not> starts_with ''sha256='' signature then False
      else
        (let expected = dispatch_buildCallbackSignatureHeader hmac jobId rawBody secret in
         case timingSafeEqual (from_hex (drop 7 expected)) (from_hex (drop 7 signature)) of
           Some r \<Rightarrow> r
         | None \<Rightarrow> False))"

definition plugin_buildCallbackSignatureHeader ::
  "(string \<Rightarrow> string \<Rightarrow> string) \<Rightarrow> string \<Rightarrow> string \<Rightarrow> string \<Rightarrow> string" where
  "plugin_buildCallbackSignatureHeader hmac secret jobId body =
     (let message = jobId @ '':'' @ body; hex = to_hex (hmac secret message) in ''sha256='' @ hex)"

lemma copies_agree:
  "dispatch_buildCallbackSignatureHeader hmac jobId body secret = computeCallbackSignature hmac jobId body secret"
  "plugin_buildCallbackSignatureHeader hmac secret jobId body = computeCallbackSignature hmac jobId body secret"
  by (simp_all add: dispatch_buildCallbackSignatureHeader_def plugin_buildCallbackSignatureHeader_def
      computeCallbackSignature_def Let_def)

text \<open>
  What a signature scheme of the protocol promises to the guards and servers that use it: a
  signature verifies exactly when the bytes it spells are the digest of the id and the body.
\<close>

locale callback_verifier =
  fixes hmac :: "string \<Rightarrow> string \<Rightarrow> string"
    and sign :: "string \<Rightarrow> string \<Rightarrow> string \<Rightarrow> string"
    and verify :: "string \<Rightarrow> string \<Rightarrow> string \<Rightarrow> string \<Rightarrow> bool"
  assumes sign_text: "sign jobId body secret = ''sha256='' @ to_hex (hmac secret (jobId @ '':'' @ body))"
    and verify_iff: "secret \<noteq> [] \<Longrightarrow> verify jobId body secret sig \<longleftrightarrow>
           starts_with ''sha256='' sig \<and> from_hex (drop 7 sig) = hmac secret (jobId @ '':'' @ body)"
begin

lemma signed_verifies: "secret \<noteq> [] \<Longrightarrow> verify jobId body secret (sign jobId body secret)"
  by (simp add: verify_iff sign_text starts_with_iff)

lemma job_id_no_colon: "JOB_ID_PATTERN i \<Longrightarrow> CHR '':'' \<notin> set i"
proof -
  have no: "\<not> is_hex CHR '':''" by code_simp
  have "list_all (list_all is_hex) (split_on CHR ''-'' i) \<Longrightarrow> CHR '':'' \<notin> set i"
  proof (induction i)
    case (Cons c cs)
    have ne: "split_on CHR ''-'' cs \<noteq> []" by simp
    show ?case
    proof (cases "c = CHR ''-''")
      case True
      with Cons show ?thesis by simp
    next
      case False
      obtain w ws where "split_on CHR ''-'' cs = w # ws" using ne by (cases "split_on CHR ''-'' cs") auto
      with Cons False no show ?thesis by auto
    qed
  qed simp
  then show "JOB_ID_PATTERN i \<Longrightarrow> CHR '':'' \<notin> set i" by (simp add: JOB_ID_PATTERN_def)
qed

lemma message_split:
  assumes "JOB_ID_PATTERN i" and "JOB_ID_PATTERN k" and "i @ '':'' @ b = k @ '':'' @ c"
  shows "i = k \<and> b = c"
proof -
  have "takeWhile (\<lambda>x. x \<noteq> CHR '':'') (i @ '':'' @ b) = i" "takeWhile (\<lambda>x. x \<noteq> CHR '':'') (k @ '':'' @ c) = k"
    using assms(1,2) [THEN job_id_no_colon] by (auto simp: takeWhile_append)
  with assms(3) have "i = k" by metis
  with assms(3) show ?thesis by simp
qed

lemma signature_binds:
  assumes "secret \<noteq> []" and "JOB_ID_PATTERN i" and "JOB_ID_PATTERN k"
    and "verify i b secret sig" and "verify k c secret sig"
    and "hmac secret (i @ '':'' @ b) = hmac secret (k @ '':'' @ c) \<Longrightarrow> i @ '':'' @ b = k @ '':'' @ c"
  shows "i = k \<and> b = c"
proof (rule message_split [OF assms(2,3)], rule assms(6))
  have "from_hex (drop 7 sig) = hmac secret (i @ '':'' @ b)"
    using assms(4) verify_iff [OF assms(1)] by blast
  moreover have "from_hex (drop 7 sig) = hmac secret (k @ '':'' @ c)"
    using assms(5) verify_iff [OF assms(1)] by blast
  ultimately show "hmac secret (i @ '':'' @ b) = hmac secret (k @ '':'' @ c)" by (rule subst)
qed

end

lemma verifyCallbackSignature_iff:
  "verifyCallbackSignature hmac jobId body secret sig \<longleftrightarrow>
     starts_with ''sha256='' sig \<and> from_hex (drop 7 sig) = hmac secret (jobId @ '':'' @ body)"
  by (auto simp: verifyCallbackSignature_def timingSafeEqual_def computeCallbackSignature_def Let_def)

interpretation bridge_signature: callback_verifier hmac "computeCallbackSignature hmac"
  "verifyCallbackSignature hmac" for hmac
  by unfold_locales (simp_all add: verifyCallbackSignature_iff computeCallbackSignature_def)

interpretation dispatch_signature: callback_verifier hmac "dispatch_buildCallbackSignatureHeader hmac"
  "\<lambda>jobId body secret sig. verifyWebhookSignature hmac jobId body sig secret" for hmac
  by unfold_locales
     (auto simp: verifyWebhookSignature_def timingSafeEqual_def Let_def copies_agree
        computeCallbackSignature_def)

lemma from_hex_spells:
  assumes "from_hex s = bs"
  shows "\<exists>h junk. s = h @ junk \<and> length h = 2 * length bs \<and> list_all is_hex h \<and> from_hex h = bs \<and>
    from_hex junk = []"
  using assms
proof (induction s arbitrary: bs rule: from_hex.induct)
  case (1 a b r)
  show ?case
  proof (cases "is_hex a \<and> is_hex b")
    case True
    obtain h junk where "r = h @ junk \<and> length h = 2 * length (from_hex r) \<and> list_all is_hex h \<and>
        from_hex h = from_hex r \<and> from_hex junk = []" using 1(1) [OF True refl] by blast
    with True 1(2) show ?thesis by (intro exI [of _ "a # b # h"] exI [of _ junk]) auto
  next
    case False
    with 1(2) show ?thesis by (intro exI [of _ "[]"] exI [of _ "a # b # r"]) auto
  qed
qed auto

text \<open>
  C25. The protocol: the three senders produce the same header, both receivers accept it, and
  a header that verifies is, up to case, the right digest followed at most by text that is not
  read (decoding stops at the first non-hexadecimal pair, so such a tail is not refused).
\<close>

theorem signature_protocol:
  assumes "secret \<noteq> []"
  shows "computeCallbackSignature hmac jobId body secret = dispatch_buildCallbackSignatureHeader hmac jobId body secret \<and>
    computeCallbackSignature hmac jobId body secret = plugin_buildCallbackSignatureHeader hmac secret jobId body \<and>
    verifyCallbackSignature hmac jobId body secret (plugin_buildCallbackSignatureHeader hmac secret jobId body) \<and>
    verifyWebhookSignature hmac jobId body (computeCallbackSignature hmac jobId body secret) secret \<and>
    (\<forall>sig. verifyCallbackSignature hmac jobId body secret sig = verifyWebhookSignature hmac jobId body sig secret) \<and>
    (\<forall>sig. verifyCallbackSignature hmac jobId body secret sig \<longrightarrow>
       (\<exists>h junk. sig = ''sha256='' @ h @ junk \<and> length h = 2 * length (hmac secret (jobId @ '':'' @ body)) \<and>
          from_hex h = hmac secret (jobId @ '':'' @ body) \<and> from_hex junk = []))"
proof -
  have tail: "\<exists>h junk. sig = ''sha256='' @ h @ junk \<and>
      length h = 2 * length (hmac secret (jobId @ '':'' @ body)) \<and>
      from_hex h = hmac secret (jobId @ '':'' @ body) \<and> from_hex junk = []"
    if "verifyCallbackSignature hmac jobId body secret sig" for sig
  proof -
    from that obtain r where r: "sig = ''sha256='' @ r" "from_hex r = hmac secret (jobId @ '':'' @ body)"
      by (auto simp: verifyCallbackSignature_iff starts_with_iff)
    from from_hex_spells [OF r(2)] r(1) show ?thesis by blast
  qed
  show ?thesis
    using assms tail bridge_signature.signed_verifies [of secret hmac jobId body]
      dispatch_signature.signed_verifies [of secret hmac jobId body]
    by (simp add: copies_agree bridge_signature.verify_iff dispatch_signature.verify_iff)
qed

theorem signature_protocol_witness:
  "verifyCallbackSignature (\<lambda>s m. s @ m) ''a'' ''b'' ''k'' (plugin_buildCallbackSignatureHeader (\<lambda>s m. s @ m) ''k'' ''a'' ''b'') \<and>
   verifyWebhookSignature (\<lambda>s m. s @ m) ''a'' ''b'' (computeCallbackSignature (\<lambda>s m. s @ m) ''a'' ''b'' ''k'') ''k''"
proof -
  have "''k'' \<noteq> []" by simp
  from signature_protocol [OF this, of "\<lambda>s m. s @ m" "''a''" "''b''"] show ?thesis by blast
qed

text \<open>
  A signature binds: if the digests of the two messages are equal only when the messages
  are, no header verifies for two different jobs, or for one job with two bodies.
\<close>

theorem signature_binds_job_and_body:
  assumes "secret \<noteq> []" and "JOB_ID_PATTERN i" and "JOB_ID_PATTERN k"
    and "hmac secret (i @ '':'' @ b) = hmac secret (k @ '':'' @ c) \<Longrightarrow> i @ '':'' @ b = k @ '':'' @ c"
    and "verifyCallbackSignature hmac i b secret sig" and "verifyWebhookSignature hmac k c sig secret"
  shows "i = k \<and> b = c"
proof (rule bridge_signature.signature_binds)
  show "verifyCallbackSignature hmac k c secret sig"
    using assms(1,6) by (simp add: dispatch_signature.verify_iff bridge_signature.verify_iff)
qed (fact assms)+

theorem signature_binds_job_and_body_witness:
  "''11111111-1111-4111-8111-111111111111'' = ''11111111-1111-4111-8111-111111111111'' \<and> ''b'' = ''b''"
proof (rule signature_binds_job_and_body)
  let ?i = "''11111111-1111-4111-8111-111111111111''" and ?h = "\<lambda>s m. s @ m"
  let ?sig = "computeCallbackSignature ?h ?i ''b'' ''k''"
  show "''k'' \<noteq> []" by simp
  show "JOB_ID_PATTERN ?i" by code_simp
  then show "JOB_ID_PATTERN ?i" .
  show "verifyCallbackSignature ?h ?i ''b'' ''k'' ?sig"
    by (rule bridge_signature.signed_verifies) simp
  have "verifyWebhookSignature ?h ?i ''b'' (dispatch_buildCallbackSignatureHeader ?h ?i ''b'' ''k'') ''k''"
    by (rule dispatch_signature.signed_verifies) simp
  then show "verifyWebhookSignature ?h ?i ''b'' ?sig ''k''" by (simp only: copies_agree)
qed (rule refl)

section \<open>The request guards\<close>

datatype guard_error =
    SecretNotConfigured
  | BadSignatureHeader
  | MissingRawBody
  | InvalidSignature
  | TokenNotConfigured
  | BadAuthorizationHeader
  | InvalidToken
  | UnsupportedMediaType

text \<open>A header is \<open>None\<close> when it is absent or repeated, that is, not a string.\<close>

record http_request =
  rq_idParam :: "string option"
  rq_signature :: "string option"
  rq_authorization :: "string option"
  rq_contentType :: "string option"
  rq_rawBody :: "string option"

definition CallbackAuthGuard ::
  "(string \<Rightarrow> string \<Rightarrow> string) \<Rightarrow> bridge_config \<Rightarrow> http_request \<Rightarrow> guard_error + unit" where
  "CallbackAuthGuard hmac cfg req =
     (if \<not> truthy_str (bc_callbackSecret cfg) \<and> bc_insecureLoopback cfg then Inr ()
      else if \<not> truthy_str (bc_callbackSecret cfg) then Inl SecretNotConfigured
      else
        (let jobId = nullish (rq_idParam req) [] in
         case rq_signature req of
           None \<Rightarrow> Inl BadSignatureHeader
         | Some signature \<Rightarrow>
             (if \<not> starts_with ''sha256='' signature then Inl BadSignatureHeader
              else (case rq_rawBody req of
                      None \<Rightarrow> Inl MissingRawBody
                    | Some rawBody \<Rightarrow>
                        (if \<not> verifyCallbackSignature hmac jobId rawBody
                                (the (bc_callbackSecret cfg)) signature
                         then Inl InvalidSignature else Inr ())))))"

fun utf8_bytes :: "string \<Rightarrow> string" where
  \<comment> \<open>\<open>Buffer.from(s, 'utf8')\<close> for code units below 256\<close>
  "utf8_bytes [] = []"
| "utf8_bytes (c # cs) =
     (let n = (of_char c :: nat) in
      if n < 128 then c # utf8_bytes cs
      else char_of (192 + n div 64) # char_of (128 + n mod 64) # utf8_bytes cs)"

definition ApiTokenGuard :: "bridge_config \<Rightarrow> http_request \<Rightarrow> guard_error + unit" where
  "ApiTokenGuard cfg req =
     (if \<not> truthy_str (bc_apiToken cfg) \<and> bc_insecureLoopback cfg then Inr ()
      else if \<not> truthy_str (bc_apiToken cfg) then Inl TokenNotConfigured
      else
        (case rq_authorization req of
           None \<Rightarrow> Inl BadAuthorizationHeader
         | Some header \<Rightarrow>
             (if \<not> starts_with ''Bearer '' header then Inl BadAuthorizationHeader
              else
                (let provided = utf8_bytes (drop 7 header);
                     expected = utf8_bytes (the (bc_apiToken cfg))
                 in if length provided \<noteq> length expected then Inl InvalidToken
                    else if timingSafeEqual provided expected \<noteq> Some True then Inl InvalidToken
                    else Inr ()))))"

definition JsonContentTypeGuard :: "http_request \<Rightarrow> guard_error + unit" where
  "JsonContentTypeGuard req =
     (let mediaType = (case rq_contentType req of
             None \<Rightarrow> []
           | Some contentType \<Rightarrow> to_lower (trim (hd (split_on CHR '';'' contentType))))
      in if mediaType = ''application/json'' \<or> ends_with ''+json'' mediaType then Inr ()
         else Inl UnsupportedMediaType)"

lemma utf8_bytes_inj: "utf8_bytes s = utf8_bytes t \<longleftrightarrow> s = t"
proof
  show "utf8_bytes s = utf8_bytes t \<Longrightarrow> s = t"
  proof (induction s arbitrary: t)
    case Nil
    then show ?case by (cases t) (auto simp: Let_def split: if_splits)
  next
    case (Cons c cs)
    show ?case
    proof (cases t)
      case Nil
      with Cons.prems show ?thesis by (auto simp: Let_def split: if_splits)
    next
      case t: (Cons d ds)
      let ?m = "(of_char c :: nat)" and ?n = "(of_char d :: nat)"
      have less: "?m < 256" "?n < 256" by (rule of_char_less)+
      have lead: "char_of (192 + k div 64) \<noteq> x" if "(of_char x :: nat) < 128" "k < 256" for k :: nat and x
        using that of_char_of [of "192 + k div 64"] by (auto simp: of_char_of)
      have two: "c = d" if "(192 + ?m div 64) mod 256 = (192 + ?n div 64) mod 256" "?m mod 64 = ?n mod 64"
      proof -
        have "192 + ?m div 64 < 256" "192 + ?n div 64 < 256" using less by linarith+
        with that(1) have "?m div 64 = ?n div 64" by simp
        with that(2) have "?m = ?n" by (metis div_mult_mod_eq)
        then show ?thesis by simp
      qed
      have "c = d \<and> utf8_bytes cs = utf8_bytes ds"
        using Cons.prems t less lead [of c ?n] lead [of d ?m] two
        by (auto simp: Let_def split: if_splits)
      with Cons.IH t show ?thesis by blast
    qed
  qed
qed simp

lemma ApiTokenGuard_iff:
  "ApiTokenGuard cfg req = Inr () \<longleftrightarrow>
     (\<not> truthy_str (bc_apiToken cfg) \<and> bc_insecureLoopback cfg) \<or>
     (\<exists>t. bc_apiToken cfg = Some t \<and> t \<noteq> [] \<and> rq_authorization req = Some (''Bearer '' @ t))"
proof (cases "truthy_str (bc_apiToken cfg)")
  case False
  then show ?thesis by (auto simp: ApiTokenGuard_def)
next
  case True
  then obtain t where t: "bc_apiToken cfg = Some t" "t \<noteq> []" by (cases "bc_apiToken cfg") auto
  show ?thesis
    using t by (auto simp: ApiTokenGuard_def timingSafeEqual_def utf8_bytes_inj starts_with_iff Let_def
        split: option.split)
qed

text \<open>
  C26. With a configuration the bridge was started with and no loopback exemption, a guarded
  API route runs only for a request that carries the configured bearer token, and a callback
  only for one whose raw body is signed for the job in its path with the configured secret.
\<close>

theorem guarded_requests_authenticated:
  assumes "buildBridgeConfig env cwd homeDir = Inr cfg" and "\<not> bc_insecureLoopback cfg"
  shows "(ApiTokenGuard cfg req = Inr () \<longleftrightarrow>
      (\<exists>t. env ''BRIDGE_API_TOKEN'' = Some t \<and> rq_authorization req = Some (''Bearer '' @ t))) \<and>
    (CallbackAuthGuard hmac cfg req = Inr () \<longleftrightarrow>
      (\<exists>secret body sig. env ''BRIDGE_CALLBACK_SECRET'' = Some secret \<and> rq_rawBody req = Some body \<and>
         rq_signature req = Some sig \<and> starts_with ''sha256='' sig \<and>
         from_hex (drop 7 sig) = hmac secret (nullish (rq_idParam req) [] @ '':'' @ body)))"
proof -
  have req: "truthy_str (bc_apiToken cfg)" "truthy_str (bc_callbackSecret cfg)"
    using config_guards_hold(1) [OF assms(1)] config_guards_hold(2,3) [OF assms(1)] assms(2)
    by (auto simp: config_guards_def or_undefined_def split: if_splits)
  then obtain t s where t: "env ''BRIDGE_API_TOKEN'' = Some t" "bc_apiToken cfg = Some t" "t \<noteq> []"
    and s: "env ''BRIDGE_CALLBACK_SECRET'' = Some s" "bc_callbackSecret cfg = Some s" "s \<noteq> []"
    using config_guards_hold(2,3) [OF assms(1)]
    by (auto simp: or_undefined_def truthy_str_def split: if_splits option.splits)
  have "CallbackAuthGuard hmac cfg req = Inr () \<longleftrightarrow>
      (\<exists>body sig. rq_rawBody req = Some body \<and> rq_signature req = Some sig \<and> starts_with ''sha256='' sig \<and>
         from_hex (drop 7 sig) = hmac s (nullish (rq_idParam req) [] @ '':'' @ body))"
    using s by (auto simp: CallbackAuthGuard_def verifyCallbackSignature_iff Let_def split: option.splits)
  then show ?thesis using t s by (auto simp: ApiTokenGuard_iff)
qed

theorem guarded_requests_authenticated_witness:
  "\<exists>cfg. buildBridgeConfig sample_env_vars ''/w'' ''/h'' = Inr cfg \<and>
     ApiTokenGuard cfg \<lparr>rq_idParam = None, rq_signature = None, rq_authorization = Some ''Bearer t'',
       rq_contentType = None, rq_rawBody = None\<rparr> = Inr ()"
proof -
  obtain cfg where cfg: "buildBridgeConfig sample_env_vars ''/w'' ''/h'' = Inr cfg" "\<not> bc_insecureLoopback cfg"
    using sample_config_built by (auto split: sum.splits)
  have "sample_env_vars ''BRIDGE_API_TOKEN'' = Some ''t''" by code_simp
  with guarded_requests_authenticated [OF cfg] cfg(1) show ?thesis by simp
qed

end
