(* ===== verification/JsonText.thy ===== *)
theory JsonText
  imports JsonValue
begin

text \<open>
  \<open>JSON.stringify\<close> without indentation, and the stable rendering of
  \<open>stableStringify\<close> in \<open>src/jobs/jobs.service.ts\<close>: an object's entries are sorted by key, so
  that equal payloads have equal fingerprints whatever the order of their properties.
\<close>

fun json_text :: "json \<Rightarrow> string" where
  "json_text JNull = ''null''"
| "json_text (JBool b) = (if b then ''true'' else ''false'')"
| "json_text (JNum i) = dec_int i"
| "json_text (JStr s) = json_quote s"
| "json_text (JArr xs) = ''['' @ join_with '','' (map json_text xs) @ '']''"
| "json_text (JObj kvs) =
     CHR 0x7B # join_with '','' (map (\<lambda>kv. json_quote (fst kv) @ '':'' @ json_text (snd kv)) kvs) @ [CHR 0x7D]"

definition key_cmp :: "string \<times> string \<Rightarrow> string \<times> string \<Rightarrow> int" where
  \<comment> \<open>the default order of \<open>sort\<close> on the keys\<close>
  "key_cmp a b = lex_cmp (fst a) (fst b)"

fun stableStringify :: "json \<Rightarrow> string" where
  "stableStringify (JArr xs) = ''['' @ join_with '','' (map stableStringify xs) @ '']''"
| "stableStringify (JObj kvs) =
     CHR 0x7B #
     join_with '','' (map (\<lambda>e. json_quote (fst e) @ '':'' @ snd e)
       (sort_cmp key_cmp (map (\<lambda>kv. (fst kv, stableStringify (snd kv))) kvs))) @ [CHR 0x7D]"
| "stableStringify v = json_text v"

interpretation key_order: comparator key_cmp
  unfolding key_cmp_def by (rule comparator_on) (rule lex_order.comparator_axioms)

text \<open>Two listings of the same entries, with distinct keys, sort to the same list.\<close>

lemma sorted_keys_unique:
  assumes "sorted_wrt (\<lambda>a b. key_cmp a b \<le> 0) xs" and "sorted_wrt (\<lambda>a b. key_cmp a b \<le> 0) ys"
    and "set xs = set ys" and "distinct (map fst xs)" and "distinct (map fst ys)"
  shows "xs = ys"
  using assms
proof (induction xs arbitrary: ys)
  case Nil
  then show ?case by simp
next
  case (Cons x xs)
  then obtain y ys' where ys: "ys = y # ys'" by (cases ys) auto
  have "x = y"
  proof (rule ccontr)
    assume ne: "x \<noteq> y"
    with Cons.prems ys have "y \<in> set xs" "x \<in> set ys'" by auto
    with Cons.prems ys have "key_cmp x y \<le> 0" "key_cmp y x \<le> 0" by auto
    then have "key_cmp x y = 0" using key_order.flip [of x y] key_order.flip [of y x] by linarith
    then have "fst x = fst y" by (simp add: key_cmp_def lex_cmp_zero)
    with \<open>y \<in> set xs\<close> Cons.prems(4) show False by (metis distinct.simps(2) image_eqI list.set_map list.simps(9))
  qed
  moreover have "xs = ys'"
  proof (rule Cons.IH)
    have "x \<notin> set xs" "x \<notin> set ys'" using Cons.prems(4,5) ys \<open>x = y\<close> by auto
    then show "set xs = set ys'" using Cons.prems(3) ys \<open>x = y\<close> by auto
  qed (use Cons.prems ys in auto)
  ultimately show ?case using ys by simp
qed

lemma stable_key_order:
  assumes "set kvs = set kvs'" and "distinct (map fst kvs)" and "distinct (map fst kvs')"
  shows "stableStringify (JObj kvs) = stableStringify (JObj kvs')"
proof -
  let ?m = "map (\<lambda>kv. (fst kv, stableStringify (snd kv)))"
  have "sort_cmp key_cmp (?m kvs) = sort_cmp key_cmp (?m kvs')"
    by (rule sorted_keys_unique) (use assms in \<open>simp_all add: key_order.sorted_sort_cmp comp_def\<close>)
  then show ?thesis by simp
qed

end
