(* ===== verification/BridgeState.thy ===== *)
theory BridgeState
  imports JobStore StreamCapture CallbackAuth JsonText
begin

text \<open>
  The process state the services of the bridge share, and what they get from outside.

  \<open>bridge_env\<close> holds the configuration and the library and operating system functions the code
  calls; \<open>bridge_state\<close> holds the repository, the runner's fields and the script of the outside
  world: the results of the coming \<open>tmux\<close> commands, command executions and HTTP requests, and
  what other operations and processes do while this operation waits.
\<close>

text \<open>
  Decoded text is coded in the 256 units of a HOL string; the codec says how UTF-8 decodes, which
  unit stands for U+FFFD and which are halves of a surrogate pair.
\<close>

record text_codec =
  tc_decode :: "string \<Rightarrow> string"
  tc_replacement :: char
  tc_lowSurrogate :: "char \<Rightarrow> bool"
  tc_highSurrogate :: "char \<Rightarrow> bool"

record tmux_result =
  tr_code :: "int option"
  tr_stderr :: string

text \<open>How a request of the notifier ends: a status, an abort by its timeout, another error.\<close>

datatype fetch_result = Response int | FetchAborted | FetchFailed

record sent_request =
  sr_url :: string
  sr_headers :: "(string \<times> string) list"
  sr_body :: string

datatype bridge_error =
    RepoError repo_error
  | TmuxFailure string
  | ExecFailure string
  | CwdFailure cwd_error
  | NotFoundException string
  | ConflictException string
  | TooManyRequests int
  | BadCwd cwd_error

text \<open>
  The tmux runner is an optional dependency of the job runner; the text of an error is the
  \<open>message\<close> of the exception, which for file errors the operating system makes up.
\<close>

record bridge_env =
  be_repo :: repo_config
  be_cfg :: bridge_config
  be_realpath :: "string \<Rightarrow> string + string"
  be_cwd :: string
  be_processEnv :: "string \<Rightarrow> string option"
  be_execPath :: string
  be_wrapperScript :: string
  be_pathText :: "path \<Rightarrow> string"
  be_jsonText :: "json \<Rightarrow> string"
  be_codec :: text_codec
  be_mtime :: "path \<Rightarrow> fs \<Rightarrow> int option"
  be_inode :: "path \<Rightarrow> fs \<Rightarrow> nat"
  be_sha256 :: "string \<Rightarrow> string"
  be_hmac :: "string \<Rightarrow> string \<Rightarrow> string"
  be_tmuxRunner :: bool
  be_errorText :: "bridge_error \<Rightarrow> string"

text \<open>
  What happens while an operation awaits: other operations of this process and other processes
  change the disk, other runs finish, and the service may be told to shut down.
\<close>

record world_event =
  we_fs :: "fs \<Rightarrow> fs"
  we_finished :: "string list"
  we_shutdown :: bool

record bridge_state =
  bs_repo :: repo_state
  bs_tmuxReady :: bool
  bs_tmuxResults :: "tmux_result list"
  bs_tmuxCommands :: "string list list"
  bs_world :: "world_event list"
  bs_inFlight :: "string list"
  bs_controllers :: "(string \<times> bool) list"
  bs_shuttingDown :: bool
  bs_claims :: nat
  bs_tracked :: "bridge_job list"
  bs_queueSequence :: nat
  bs_execResults :: "(string + execution_result) list"
  bs_fetches :: "fetch_result list"
  bs_requests :: "sent_request list"

type_synonym 'a bridge_op = "(bridge_state, bridge_error, 'a) op"

definition on_repo :: "'a repo_op \<Rightarrow> 'a bridge_op" where
  "on_repo m = (\<lambda>s. case m (bs_repo s) of
       (Inl e, r) \<Rightarrow> (Inl (RepoError e), s\<lparr>bs_repo := r\<rparr>)
     | (Inr x, r) \<Rightarrow> (Inr x, s\<lparr>bs_repo := r\<rparr>))"

definition modify_fs :: "(fs \<Rightarrow> fs) \<Rightarrow> unit bridge_op" where
  "modify_fs f = op_modify (\<lambda>s. s\<lparr>bs_repo := (bs_repo s)\<lparr>rs_fs := f (rs_fs (bs_repo s))\<rparr>\<rparr>)"

definition the_fs :: "bridge_state \<Rightarrow> fs" where
  "the_fs s = rs_fs (bs_repo s)"

definition now_ms :: "bridge_state \<Rightarrow> int" where
  "now_ms s = rs_now (bs_repo s)"

definition now_iso :: "bridge_env \<Rightarrow> bridge_state \<Rightarrow> string" where
  \<comment> \<open>\<open>new Date().toISOString()\<close>\<close>
  "now_iso env s = rc_toISOString (be_repo env) (now_ms s)"

definition world_step :: "bridge_state \<Rightarrow> bridge_state" where
  "world_step s =
     (case bs_world s of
        [] \<Rightarrow> s
      | w # ws \<Rightarrow> s\<lparr>bs_world := ws, bs_repo := (bs_repo s)\<lparr>rs_fs := we_fs w (rs_fs (bs_repo s))\<rparr>,
                     bs_inFlight := filter (\<lambda>i. i \<notin> set (we_finished w)) (bs_inFlight s),
                     bs_shuttingDown := bs_shuttingDown s \<or> we_shutdown w\<rparr>)"

definition awaiting :: "unit bridge_op" where
  "awaiting = op_modify world_step"

definition await_repo :: "'a repo_op \<Rightarrow> 'a bridge_op" where
  \<comment> \<open>\<open>await\<close> of a call of the repository: one atomic step of the store, and before the code
     behind the \<open>await\<close> runs, others may have run\<close>
  "await_repo m = (\<lambda>s. case on_repo m s of (r, s') \<Rightarrow> (r, world_step s'))"

definition sleep_ms :: "int \<Rightarrow> unit bridge_op" where
  "sleep_ms ms = op_modify (\<lambda>s. world_step (s\<lparr>bs_repo := (bs_repo s)\<lparr>rs_now := now_ms s + ms\<rparr>\<rparr>))"

definition content_text :: "bridge_env \<Rightarrow> content \<Rightarrow> string" where
  "content_text env c = (case c of RawText t \<Rightarrow> t | JsonText v \<Rightarrow> be_jsonText env v)"

definition bridge_job_at :: "bridge_env \<Rightarrow> bridge_state \<Rightarrow> string \<Rightarrow> bridge_job option" where
  "bridge_job_at env s = job_at (be_repo env) (bs_repo s)"

end
