(* ===== verification/TmuxRunner.thy ===== *)
theory TmuxRunner
  imports BridgeState
begin

text \<open>
  Long running sessions, \<open>src/jobs/tmux-session-runner.service.ts\<close> and
  \<open>src/jobs/omx-exec-args.ts\<close>: starting a session, collecting its result from the files of its
  pane, cancelling it and removing its artifacts.
\<close>

section \<open>Names and command lines\<close>

definition buildSessionName :: "string \<Rightarrow> string" where
  "buildSessionName jobId = ''omx-bridge-'' @ take 24 (filter (\<lambda>c. c \<noteq> CHR ''-'') jobId)"

definition single_quote :: char where "single_quote = CHR 0x27"
definition backslash :: char where "backslash = CHR 0x5C"

definition quote_char :: "char \<Rightarrow> string" where
  "quote_char c = (if c = single_quote then [single_quote, backslash, single_quote, single_quote] else [c])"

definition shellQuote :: "string \<Rightarrow> string" where
  "shellQuote v = single_quote # concat (map quote_char v) @ [single_quote]"

definition buildOmxExecArgs :: "bridge_config \<Rightarrow> string list" where
  "buildOmxExecArgs cfg =
     [''exec'', ''--skip-git-repo-check'', ''-c'',
      ''approval_policy='' @ [CHR 0x22] @ ''never'' @ [CHR 0x22], ''-s'', ''danger-full-access''] @
     (if truthy_str (bc_omxModel cfg) then [''--model'', the (bc_omxModel cfg)] else []) @
     (case bc_omxModelReasoningEffort cfg of
        None \<Rightarrow> []
      | Some e \<Rightarrow> [''-c'', ''model_reasoning_effort='' @ [CHR 0x22] @ effort_name e @ [CHR 0x22]]) @
     [''-'']"

definition buildChildEnv :: "bridge_env \<Rightarrow> (string \<times> string) list" where
  \<comment> \<open>\<open>env[key] = value\<close> for the allowed names that are set\<close>
  "buildChildEnv env =
     List.map_filter (\<lambda>key. map_option (Pair key) (be_processEnv env key))
       (nullish (bc_omxEnvAllowlist (be_cfg env)) DEFAULT_OMX_ENV_ALLOWLIST)"

definition PROMPT_FILE :: string where "PROMPT_FILE = ''prompt.txt''"
definition STDOUT_FILE :: string where "STDOUT_FILE = ''stdout.log''"
definition STDERR_FILE :: string where "STDERR_FILE = ''stderr.log''"
definition EXIT_CODE_FILE :: string where "EXIT_CODE_FILE = ''exit-code''"
definition RUNNER_FILE :: string where "RUNNER_FILE = ''run.sh''"
definition SESSION_FILE :: string where "SESSION_FILE = ''session.json''"
definition WRAPPER_FILE :: string where "WRAPPER_FILE = ''capture-wrapper.js''"
definition METADATA_FILE :: string where "METADATA_FILE = ''capture.json''"
definition STDOUT_TAIL_FILE :: string where "STDOUT_TAIL_FILE = ''stdout.tail''"
definition STDERR_TAIL_FILE :: string where "STDERR_TAIL_FILE = ''stderr.tail''"

definition SESSION_FILES :: "string list" where
  "SESSION_FILES = [PROMPT_FILE, STDOUT_FILE, STDERR_FILE, EXIT_CODE_FILE, RUNNER_FILE, SESSION_FILE,
     WRAPPER_FILE, METADATA_FILE, STDOUT_TAIL_FILE, STDERR_TAIL_FILE]"

definition sessionDirectory :: "bridge_env \<Rightarrow> string \<Rightarrow> path" where
  "sessionDirectory env jobId = rc_tmuxSessionsDirectory (be_repo env) @ [jobId]"

definition session_path :: "bridge_env \<Rightarrow> string \<Rightarrow> string \<Rightarrow> path" where
  \<comment> \<open>\<open>promptFile\<close>, \<open>stdoutFile\<close>, ... : the file of a session with the given name\<close>
  "session_path env jobId name = sessionDirectory env jobId @ [name]"

definition quoted_file :: "bridge_env \<Rightarrow> string \<Rightarrow> string \<Rightarrow> string" where
  "quoted_file env jobId name = shellQuote (be_pathText env (session_path env jobId name))"

definition buildRunnerScript :: "bridge_env \<Rightarrow> string \<Rightarrow> string" where
  "buildRunnerScript env jobId =
     (let cfg = be_cfg env;
          omxCommand = join_with '' ''
            (shellQuote (bc_omxCommand cfg) # map shellQuote (buildOmxExecArgs cfg));
          captureCommand = join_with '' ''
            [shellQuote (be_execPath env), quoted_file env jobId WRAPPER_FILE,
             ''--cap'', dec_int (nullish (bc_tmuxMaxCaptureBytesPerStream cfg)
                                  DEFAULT_TMUX_MAX_CAPTURE_BYTES_PER_STREAM),
             ''--sigkill-grace-ms'', dec_int (bc_sigkillGraceMs cfg),
             ''--stdout'', quoted_file env jobId STDOUT_FILE,
             ''--stderr'', quoted_file env jobId STDERR_FILE,
             ''--stdout-tail'', quoted_file env jobId STDOUT_TAIL_FILE,
             ''--stderr-tail'', quoted_file env jobId STDERR_TAIL_FILE,
             ''--metadata'', quoted_file env jobId METADATA_FILE,
             ''--exit-code'', quoted_file env jobId EXIT_CODE_FILE,
             ''--'', omxCommand]
      in join_with [CHR 0x0A]
           [''#!/usr/bin/env bash'',
            ''original_umask='' @ [CHR 0x22] @ ''$(umask)'' @ [CHR 0x22],
            ''umask 077'',
            ''umask '' @ [CHR 0x22] @ ''$original_umask'' @ [CHR 0x22],
            ''exec '' @ captureCommand @ '' < '' @ quoted_file env jobId PROMPT_FILE,
            []])"

section \<open>Commands and directories\<close>

definition runTmux :: "string list \<Rightarrow> tmux_result bridge_op" where
  \<comment> \<open>a command that cannot be spawned has no code; an empty script means success\<close>
  "runTmux args = (\<lambda>s.
     let s1 = world_step (s\<lparr>bs_tmuxCommands := bs_tmuxCommands s @ [args]\<rparr>) in
     case bs_tmuxResults s1 of
       [] \<Rightarrow> (Inr \<lparr>tr_code = Some 0, tr_stderr = []\<rparr>, s1)
     | r # rs \<Rightarrow> (Inr r, s1\<lparr>bs_tmuxResults := rs\<rparr>))"

definition private_op :: "(fs, private_error, 'a) op \<Rightarrow> 'a bridge_op" where
  "private_op m = on_repo (on_fs m)"

definition session_entry :: "string \<times> fnode \<Rightarrow> bool" where
  "session_entry e \<longleftrightarrow> isFile (snd e) \<and> fst e \<in> set SESSION_FILES"

definition ensureSessionDirectory :: "bridge_env \<Rightarrow> path \<Rightarrow> unit bridge_op" where
  "ensureSessionDirectory env d =
     private_op (ensurePrivateOwnedDirectory (rc_env (be_repo env)) d session_entry False)"

definition job_directory_entry :: "string \<times> fnode \<Rightarrow> bool" where
  "job_directory_entry e \<longleftrightarrow> isDirectory (snd e) \<and> JOB_ID_PATTERN (fst e)"

definition prepareDirectories :: "bridge_env \<Rightarrow> unit bridge_op" where
  "prepareDirectories env =
     (let root = rc_tmuxSessionsDirectory (be_repo env) in
      op_bind (private_op (ensurePrivateOwnedDirectory (rc_env (be_repo env)) root
                 job_directory_entry False)) (\<lambda>_ s.
        op_foreach (\<lambda>e. ensureSessionDirectory env (root @ [fst e]))
          (filter job_directory_entry (readdir root (the_fs s))) s))"

definition tmux_ensureReady :: "bridge_env \<Rightarrow> unit bridge_op" where
  "tmux_ensureReady env = (\<lambda>s.
     if bs_tmuxReady s then (Inr (), s)
     else (case prepareDirectories env s of
             (Inl e, s') \<Rightarrow> (Inl e, s')
           | (Inr _, s') \<Rightarrow> (Inr (), s'\<lparr>bs_tmuxReady := True\<rparr>)))"

definition write_session_file :: "bridge_env \<Rightarrow> string \<Rightarrow> string \<Rightarrow> content \<Rightarrow> nat \<Rightarrow> unit bridge_op" where
  "write_session_file env jobId name c mode =
     op_bind (on_repo next_write) (\<lambda>w.
       if w = WriteOk
       then modify_fs (write_file (rc_env (be_repo env)) (session_path env jobId name) c mode)
       else op_fail (RepoError WriteError))"

definition writeSessionState :: "bridge_env \<Rightarrow> string \<Rightarrow> tmux_session \<Rightarrow> unit bridge_op" where
  "writeSessionState env jobId session =
     op_bind (tmux_ensureReady env) (\<lambda>_.
     op_bind (ensureSessionDirectory env (sessionDirectory env jobId)) (\<lambda>_.
       write_session_file env jobId SESSION_FILE (JsonText (tmux_session_json session)) PRIVATE_FILE_MODE))"

section \<open>Starting a session\<close>

definition resolveExecutionCwd :: "bridge_env \<Rightarrow> string option \<Rightarrow> string option bridge_op" where
  "resolveExecutionCwd env cwd =
     (case resolveAllowedExecutionCwd (be_realpath env) (be_cwd env) cwd
             (bc_allowedCwdPrefixes (be_cfg env)) of
        Inl e \<Rightarrow> op_fail (CwdFailure e)
      | Inr c \<Rightarrow> op_return c)"

definition stale_files :: "string list" where
  "stale_files = [STDOUT_FILE, STDERR_FILE, EXIT_CODE_FILE, WRAPPER_FILE, METADATA_FILE,
     STDOUT_TAIL_FILE, STDERR_TAIL_FILE]"

definition starting_session :: "bridge_env \<Rightarrow> bridge_job \<Rightarrow> string \<Rightarrow> string option \<Rightarrow> tmux_session" where
  "starting_session env job now executionCwd = \<lparr>
     ts_sessionName = buildSessionName (j_id job),
     ts_status = TStarting,
     ts_createdAt = nullish (j_startedAt job) now,
     ts_updatedAt = now,
     ts_attachCommand = bc_tmuxCommand (be_cfg env) @ '' attach -t '' @ buildSessionName (j_id job),
     ts_cwd = or_undefined executionCwd,
     ts_lastExitCode = None\<rparr>"

definition null_text :: "int option \<Rightarrow> string" where
  \<comment> \<open>\<open>code ?? 'null'\<close> in a template\<close>
  "null_text c = (case c of None \<Rightarrow> ''null'' | Some n \<Rightarrow> dec_int n)"

definition tmux_start :: "bridge_env \<Rightarrow> bridge_job \<Rightarrow> tmux_session bridge_op" where
  "tmux_start env job = (\<lambda>s0.
     let now = now_iso env s0; i = j_id job in
     op_bind (tmux_ensureReady env) (\<lambda>_.
     op_bind (ensureSessionDirectory env (sessionDirectory env i)) (\<lambda>_.
     op_bind (op_foreach (\<lambda>f. modify_fs (fs_rm (session_path env i f))) stale_files) (\<lambda>_.
     op_bind (resolveExecutionCwd env (j_cwd job)) (\<lambda>executionCwd.
     (let session = starting_session env job now executionCwd in
     op_bind (write_session_file env i SESSION_FILE (JsonText (tmux_session_json session)) PRIVATE_FILE_MODE) (\<lambda>_.
     op_bind (write_session_file env i PROMPT_FILE (RawText (j_prompt job)) PRIVATE_FILE_MODE) (\<lambda>_.
     op_bind (write_session_file env i RUNNER_FILE (RawText (buildRunnerScript env i)) 448) (\<lambda>_.
     op_bind (write_session_file env i WRAPPER_FILE (RawText (be_wrapperScript env)) 448) (\<lambda>_.
     op_bind (runTmux ([''new-session'', ''-d'', ''-s'', ts_sessionName session] @
                (if truthy_str executionCwd then [''-c'', the executionCwd] else []) @
                [quoted_file env i RUNNER_FILE])) (\<lambda>started s.
       if tr_code started \<noteq> Some 0
       then (Inl (TmuxFailure (if tr_stderr started \<noteq> [] then tr_stderr started
               else ''tmux new-session exited with code '' @ null_text (tr_code started))), s)
       else
         (let runningSession = session\<lparr>ts_status := TRunning, ts_updatedAt := now_iso env s\<rparr> in
          op_bind (writeSessionState env i runningSession) (\<lambda>_. op_return runningSession) s))))))))))) s0)"

section \<open>Reading what the pane wrote\<close>

definition read_text :: "bridge_env \<Rightarrow> path \<Rightarrow> fs \<Rightarrow> string option" where
  "read_text env p fs = map_option (content_text env) (file_content p fs)"

definition parse_int :: "string \<Rightarrow> int option" where
  \<comment> \<open>\<open>Number.parseInt(s, 10)\<close> of a trimmed string; \<open>None\<close> is NaN\<close>
  "parse_int s =
     (let negative = starts_with ''-'' s;
          rest = (if starts_with ''-'' s \<or> starts_with ''+'' s then drop 1 s else s);
          ds = takeWhile is_digit rest
      in if ds = [] then None else Some (if negative then - digits_value ds else digits_value ds))"

definition readExitCode :: "bridge_env \<Rightarrow> string \<Rightarrow> fs \<Rightarrow> int option" where
  "readExitCode env jobId fs =
     (case read_text env (session_path env jobId EXIT_CODE_FILE) fs of
        None \<Rightarrow> None
      | Some raw \<Rightarrow> parse_int (trim raw))"

definition EXIT_CODE_GRACE_MS :: int where "EXIT_CODE_GRACE_MS = 100"
definition EXIT_CODE_GRACE_INTERVAL_MS :: int where "EXIT_CODE_GRACE_INTERVAL_MS = 10"

lemma world_step_now [simp]: "now_ms (world_step s) = now_ms s"
  by (simp add: world_step_def now_ms_def split: list.split)

function wait_loop :: "bridge_env \<Rightarrow> string \<Rightarrow> int \<Rightarrow> bridge_state \<Rightarrow> int option \<times> bridge_state" where
  "wait_loop env jobId deadline s =
     (if now_ms s \<le> deadline
      then
        (case readExitCode env jobId (the_fs s) of
           Some c \<Rightarrow> (Some c, s)
         | None \<Rightarrow>
             (let remainingMs = deadline - now_ms s in
              if remainingMs \<le> 0 then (None, s)
              else wait_loop env jobId deadline
                     (snd (sleep_ms (min EXIT_CODE_GRACE_INTERVAL_MS remainingMs) s))))
      else (None, s))"
  by pat_completeness auto

termination wait_loop
  by (relation "measure (\<lambda>(env, i, d, s). nat (d - now_ms s))")
     (auto simp: sleep_ms_def op_modify_def EXIT_CODE_GRACE_INTERVAL_MS_def now_ms_def [of "_\<lparr>bs_repo := _\<rparr>"])

declare wait_loop.simps [simp del]

definition waitForExitCode :: "bridge_env \<Rightarrow> string \<Rightarrow> int option bridge_op" where
  "waitForExitCode env jobId = (\<lambda>s.
     let (c, s') = wait_loop env jobId (now_ms s + EXIT_CODE_GRACE_MS) s in (Inr c, s'))"

record captured_file =
  cf_text :: string
  cf_truncated :: bool
  cf_length :: int

definition strip_replacement :: "text_codec \<Rightarrow> string \<Rightarrow> string" where
  "strip_replacement tc s =
     rev (dropWhile (\<lambda>c. c = tc_replacement tc) (rev (dropWhile (\<lambda>c. c = tc_replacement tc) s)))"

function drop_before_marker :: "char \<Rightarrow> string \<Rightarrow> string" where
  \<comment> \<open>\<open>replace(/\uFFFD+(?=marker)/g, '')\<close>\<close>
  "drop_before_marker r s =
     (if s = [] then []
      else
        (let run = takeWhile (\<lambda>c. c = r) s; rest = dropWhile (\<lambda>c. c = r) s in
         if run \<noteq> [] \<and> starts_with live_marker rest then drop_before_marker r rest
         else hd s # drop_before_marker r (tl s)))"
  by pat_completeness auto

termination drop_before_marker
proof (relation "measure (\<lambda>(r, s). length s)")
  fix r s run rest
  assume "s \<noteq> []" and "run = takeWhile (\<lambda>c. c = r) s" and "rest = dropWhile (\<lambda>c. c = r) s"
    and "run \<noteq> [] \<and> starts_with live_marker rest"
  moreover have "length (takeWhile (\<lambda>c. c = r) s) + length (dropWhile (\<lambda>c. c = r) s) = length s"
    by (metis length_append takeWhile_dropWhile_id)
  ultimately show "((r, rest), r, s) \<in> measure (\<lambda>(r, s). length s)"
    using length_greater_0_conv [of run] by (simp del: length_greater_0_conv)
qed auto

function drop_after_marker :: "char \<Rightarrow> string \<Rightarrow> string" where
  \<comment> \<open>\<open>replace(/(marker)\uFFFD+/g, '$1')\<close>\<close>
  "drop_after_marker r s =
     (if s = [] then []
      else if starts_with live_marker s
      then live_marker @ drop_after_marker r (dropWhile (\<lambda>c. c = r) (drop (length live_marker) s))
      else hd s # drop_after_marker r (tl s))"
  by pat_completeness auto

termination drop_after_marker
  by (relation "measure (\<lambda>(r, s). length s)")
     (auto simp: live_marker_def intro!: le_less_trans [OF length_dropWhile_le])

definition decodeCapturedBuffer :: "text_codec \<Rightarrow> string \<Rightarrow> string" where
  "decodeCapturedBuffer tc buffer =
     (let r = tc_replacement tc;
          t1 = dropWhile (\<lambda>c. c = r) (tc_decode tc buffer);
          t2 = drop_before_marker r t1;
          t3 = drop_after_marker r t2
      in rev (dropWhile (\<lambda>c. c = r) (rev t3)))"

definition readUtf8Slice :: "text_codec \<Rightarrow> string \<Rightarrow> int \<Rightarrow> int \<Rightarrow> int \<Rightarrow> bool \<Rightarrow> string" where
  "readUtf8Slice tc bytes position bytesToRead maxChars takeTail =
     (if bytesToRead \<le> 0 \<or> maxChars \<le> 0 then []
      else
        (let decoded = strip_replacement tc
               (tc_decode tc (take (nat bytesToRead) (drop (nat position) bytes)));
             sliced = (if takeTail then js_slice_from (- maxChars) decoded else js_take maxChars decoded);
             sliced1 = (if takeTail \<and> sliced \<noteq> [] \<and> tc_lowSurrogate tc (hd sliced) then tl sliced else sliced)
         in if \<not> takeTail \<and> sliced1 \<noteq> [] \<and> tc_highSurrogate tc (last sliced1) then butlast sliced1
            else sliced1))"

definition output_marker :: string where
  "output_marker = [CHR 0x0A] @ ''...[output truncated]...'' @ [CHR 0x0A]"

definition readCapturedFile :: "bridge_env \<Rightarrow> path \<Rightarrow> fs \<Rightarrow> captured_file" where
  "readCapturedFile env p fs =
     (case read_text env p fs of
        None \<Rightarrow> \<lparr>cf_text = [], cf_truncated = False, cf_length = 0\<rparr>
      | Some bytes \<Rightarrow>
          (let size = js_length bytes; limit = bc_maxOutputChars (be_cfg env); tc = be_codec env in
           if limit \<le> 0 then \<lparr>cf_text = [], cf_truncated = (size > 0), cf_length = size\<rparr>
           else if size \<le> limit
           then \<lparr>cf_text = decodeCapturedBuffer tc bytes, cf_truncated = False, cf_length = size\<rparr>
           else
             (let budget = max 0 (limit - js_length output_marker);
                  headLength = (budget + 1) div 2;
                  tailLength = budget div 2;
                  headText = readUtf8Slice tc bytes 0 (headLength + 4) headLength False;
                  tailText = readUtf8Slice tc bytes (max 0 (size - tailLength - 4)) (tailLength + 4)
                               tailLength True
              in \<lparr>cf_text = js_take limit (headText @ output_marker @ tailText), cf_truncated = True,
                  cf_length = size\<rparr>)))"

definition limitCapturedText :: "int \<Rightarrow> string \<Rightarrow> string" where
  \<comment> \<open>\<open>value.slice(-0)\<close> is the whole value, then cut by the last slice\<close>
  "limitCapturedText limit v =
     (if js_length v \<le> limit then v
      else
        (let budget = max 0 (limit - js_length output_marker)
         in js_take limit (js_take ((budget + 1) div 2) v @ output_marker @ js_slice_from (- (budget div 2)) v)))"

record capture_metadata =
  cm_stdout :: stream_metadata
  cm_stderr :: stream_metadata
  cm_captureFailure :: "string option"
  cm_exitCode :: "int option"

definition validStream :: "json \<Rightarrow> bool" where
  "validStream v \<longleftrightarrow>
     (case v of
        JObj _ \<Rightarrow>
          (case jfield v ''bytesSeen'' of Some (JNum n) \<Rightarrow> is_safe n \<and> n \<ge> 0 | _ \<Rightarrow> False) \<and>
          (case jfield v ''truncated'' of Some (JBool _) \<Rightarrow> True | _ \<Rightarrow> False) \<and>
          (case jfield v ''tailStart'' of Some (JNum n) \<Rightarrow> is_safe n \<and> n \<ge> 0 | _ \<Rightarrow> False) \<and>
          (case jfield v ''tailLength'' of Some (JNum n) \<Rightarrow> is_safe n \<and> n \<ge> 0 | _ \<Rightarrow> False) \<and>
          (case jfield v ''finalized'' of Some (JBool _) \<Rightarrow> True | _ \<Rightarrow> False)
      | _ \<Rightarrow> False)"

definition isCaptureMetadata :: "json \<Rightarrow> bool" where
  "isCaptureMetadata v \<longleftrightarrow>
     (case v of JObj _ \<Rightarrow> True | _ \<Rightarrow> False) \<and>
     jfield v ''version'' = Some (JNum 1) \<and>
     (case jfield v ''stdout'' of Some x \<Rightarrow> validStream x | None \<Rightarrow> False) \<and>
     (case jfield v ''stderr'' of Some x \<Rightarrow> validStream x | None \<Rightarrow> False) \<and>
     (case jfield v ''captureFailure'' of Some JNull \<Rightarrow> True | Some (JStr _) \<Rightarrow> True | _ \<Rightarrow> False) \<and>
     (case jfield v ''exitCode'' of Some JNull \<Rightarrow> True | Some (JNum n) \<Rightarrow> is_safe n \<and> n \<ge> 0 | _ \<Rightarrow> False)"

definition stream_metadata_of :: "json \<Rightarrow> stream_metadata" where
  "stream_metadata_of v = \<lparr>
     sm_bytesSeen = (case jfield v ''bytesSeen'' of Some (JNum n) \<Rightarrow> n | _ \<Rightarrow> 0),
     sm_truncated = (jfield v ''truncated'' = Some (JBool True)),
     sm_tailStart = (case jfield v ''tailStart'' of Some (JNum n) \<Rightarrow> n | _ \<Rightarrow> 0),
     sm_tailLength = (case jfield v ''tailLength'' of Some (JNum n) \<Rightarrow> n | _ \<Rightarrow> 0),
     sm_finalized = (jfield v ''finalized'' = Some (JBool True))\<rparr>"

definition capture_metadata_of :: "json \<Rightarrow> capture_metadata" where
  "capture_metadata_of v = \<lparr>
     cm_stdout = stream_metadata_of (the (jfield v ''stdout'')),
     cm_stderr = stream_metadata_of (the (jfield v ''stderr'')),
     cm_captureFailure = (case jfield v ''captureFailure'' of Some (JStr t) \<Rightarrow> Some t | _ \<Rightarrow> None),
     cm_exitCode = (case jfield v ''exitCode'' of Some (JNum n) \<Rightarrow> Some n | _ \<Rightarrow> None)\<rparr>"

definition readCaptureMetadata :: "bridge_env \<Rightarrow> string \<Rightarrow> fs \<Rightarrow> capture_metadata option" where
  "readCaptureMetadata env jobId fs =
     (case file_content (session_path env jobId METADATA_FILE) fs of
        Some (JsonText v) \<Rightarrow> (if \<not> isCaptureMetadata v then None else Some (capture_metadata_of v))
      | _ \<Rightarrow> None)"

definition readCaptureOutput ::
  "bridge_env \<Rightarrow> path \<Rightarrow> path \<Rightarrow> stream_metadata option \<Rightarrow> fs \<Rightarrow> captured_file" where
  "readCaptureOutput env filePath tailPath capture fs =
     (let head = readCapturedFile env filePath fs in
      case capture of
        None \<Rightarrow> head
      | Some m \<Rightarrow>
          (if \<not> sm_truncated m \<or> sm_finalized m then head
           else
             (let raw = readCaptureTail (read_text env tailPath fs) m;
                  tail = (if raw = [] then [] else decodeCapturedBuffer (be_codec env) raw)
              in \<lparr>cf_text = limitCapturedText (bc_maxOutputChars (be_cfg env)) (cf_text head @ live_marker @ tail),
                  cf_truncated = True,
                  cf_length = cf_length head + sm_tailLength m\<rparr>)))"

definition captureWasTruncated :: "capture_metadata option \<Rightarrow> bool" where
  "captureWasTruncated capture \<longleftrightarrow>
     (case capture of None \<Rightarrow> True | Some m \<Rightarrow> sm_truncated (cm_stdout m) \<or> sm_truncated (cm_stderr m))"

section \<open>Collecting and cancelling\<close>

definition durationMs :: "bridge_env \<Rightarrow> bridge_job \<Rightarrow> bridge_state \<Rightarrow> int" where
  "durationMs env job s =
     (case rc_parseDate (be_repo env) (nullish (j_startedAt job) (j_createdAt job)) of
        Some startedAtMs \<Rightarrow> now_ms s - startedAtMs
      | None \<Rightarrow> 0)"

definition isTimedOut :: "bridge_env \<Rightarrow> bridge_job \<Rightarrow> bridge_state \<Rightarrow> bool" where
  "isTimedOut env job s \<longleftrightarrow> durationMs env job s \<ge> bc_jobTimeoutMs (be_cfg env)"

definition hasSession :: "string \<Rightarrow> bool bridge_op" where
  "hasSession name =
     op_bind (runTmux [''has-session'', ''-t'', name]) (\<lambda>r. op_return (tr_code r = Some 0))"

definition tmux_execution :: "bridge_env \<Rightarrow> int \<Rightarrow> bool option \<Rightarrow> bool \<Rightarrow> error_type option \<Rightarrow> exec_meta" where
  "tmux_execution env duration timedOut outputTruncated errorType = \<lparr>
     em_command = bc_tmuxCommand (be_cfg env),
     em_timeoutMs = bc_jobTimeoutMs (be_cfg env),
     em_maxOutputChars = bc_maxOutputChars (be_cfg env),
     em_durationMs = Some duration,
     em_timedOut = timedOut,
     em_outputTruncated = Some outputTruncated,
     em_errorType = errorType,
     em_recoveredFromRestart = None\<rparr>"

type_synonym collect_result = "execution_result \<times> tmux_session"

definition stdout_of :: "bridge_env \<Rightarrow> bridge_job \<Rightarrow> bridge_state \<Rightarrow> captured_file" where
  "stdout_of env job s =
     readCaptureOutput env (session_path env (j_id job) STDOUT_FILE)
       (session_path env (j_id job) STDOUT_TAIL_FILE)
       (map_option cm_stdout (readCaptureMetadata env (j_id job) (the_fs s))) (the_fs s)"

definition stderr_of :: "bridge_env \<Rightarrow> bridge_job \<Rightarrow> bridge_state \<Rightarrow> captured_file" where
  "stderr_of env job s =
     readCaptureOutput env (session_path env (j_id job) STDERR_FILE)
       (session_path env (j_id job) STDERR_TAIL_FILE)
       (map_option cm_stderr (readCaptureMetadata env (j_id job) (the_fs s))) (the_fs s)"

definition output_was_truncated :: "bridge_env \<Rightarrow> bridge_job \<Rightarrow> bridge_state \<Rightarrow> bool" where
  "output_was_truncated env job s \<longleftrightarrow>
     cf_truncated (stdout_of env job s) \<or> cf_truncated (stderr_of env job s) \<or>
     captureWasTruncated (readCaptureMetadata env (j_id job) (the_fs s))"

definition collect_exited :: "bridge_env \<Rightarrow> bridge_job \<Rightarrow> tmux_session \<Rightarrow> int \<Rightarrow> collect_result bridge_op" where
  \<comment> \<open>the branch of \<open>collect\<close> for an exit code that was read\<close>
  "collect_exited env job session0 exitCode = (\<lambda>s.
     let capture = readCaptureMetadata env (j_id job) (the_fs s);
         captureFailed = (case capture of
             None \<Rightarrow> False
           | Some m \<Rightarrow> truthy_str (cm_captureFailure m) \<or>
                        (cm_exitCode m \<noteq> None \<and> cm_exitCode m \<noteq> Some exitCode));
         good = (exitCode = 0 \<and> \<not> captureFailed);
         session = session0\<lparr>ts_status := (if good then TExited else TFailed),
                            ts_updatedAt := now_iso env s, ts_lastExitCode := Some (Some exitCode)\<rparr>;
         result = \<lparr>er_status = (if good then Succeeded else Failed),
                   er_stdout = cf_text (stdout_of env job s),
                   er_stderr = cf_text (stderr_of env job s),
                   er_exitCode = Some exitCode,
                   er_execution = tmux_execution env (durationMs env job s) None
                     (output_was_truncated env job s)
                     (if captureFailed then Some ExecutionError
                      else if exitCode = 0 then None else Some NonZeroExit)\<rparr>
     in op_bind (writeSessionState env (j_id job) session) (\<lambda>_. op_return (result, session)) s)"

definition collect_failed ::
  "bridge_env \<Rightarrow> bridge_job \<Rightarrow> tmux_session \<Rightarrow> string \<Rightarrow> bool option \<Rightarrow> error_type \<Rightarrow> collect_result bridge_op"
where
  \<comment> \<open>the two branches without an exit code: timed out, and gone\<close>
  "collect_failed env job session0 message timedOut errorType = (\<lambda>s.
     let session = session0\<lparr>ts_status := TFailed, ts_updatedAt := now_iso env s,
                            ts_lastExitCode := Some None\<rparr>;
         err = cf_text (stderr_of env job s);
         result = \<lparr>er_status = Failed,
                   er_stdout = cf_text (stdout_of env job s),
                   er_stderr = (if err \<noteq> [] then err @ [CHR 0x0A] @ message else message),
                   er_exitCode = None,
                   er_execution = tmux_execution env (durationMs env job s) timedOut
                     (output_was_truncated env job s) (Some errorType)\<rparr>
     in op_bind (writeSessionState env (j_id job) session) (\<lambda>_. op_return (result, session)) s)"

definition timeout_message :: "bridge_config \<Rightarrow> string" where
  "timeout_message cfg = ''Command timed out after '' @ dec_int (bc_jobTimeoutMs cfg) @ ''ms''"

definition tmux_collect :: "bridge_env \<Rightarrow> bridge_job \<Rightarrow> collect_result option bridge_op" where
  \<comment> \<open>the recursive call after a late exit code reads the code again and takes the first branch\<close>
  "tmux_collect env job =
     (case j_session job of
        None \<Rightarrow> op_return None
      | Some session \<Rightarrow> (\<lambda>s.
          case readExitCode env (j_id job) (the_fs s) of
            Some exitCode \<Rightarrow> op_bind (collect_exited env job session exitCode) (\<lambda>r. op_return (Some r)) s
          | None \<Rightarrow>
              (if isTimedOut env job s
               then op_bind (runTmux [''kill-session'', ''-t'', ts_sessionName session]) (\<lambda>_.
                      op_bind (collect_failed env job session (timeout_message (be_cfg env)) (Some True)
                                 TimeoutError) (\<lambda>r. op_return (Some r))) s
               else
                 op_bind (hasSession (ts_sessionName session)) (\<lambda>alive.
                   if alive then op_return None
                   else op_bind (waitForExitCode env (j_id job)) (\<lambda>late.
                     case late of
                       Some exitCode \<Rightarrow> op_bind (collect_exited env job session exitCode) (\<lambda>r. op_return (Some r))
                     | None \<Rightarrow>
                         op_bind (collect_failed env job session
                                    ''tmux session exited before writing an exit code'' None ExecutionError)
                           (\<lambda>r. op_return (Some r)))) s)))"

definition tmux_cancel :: "bridge_env \<Rightarrow> bridge_job \<Rightarrow> tmux_session option bridge_op" where
  "tmux_cancel env job =
     (case j_session job of
        None \<Rightarrow> op_return None
      | Some session0 \<Rightarrow>
          op_bind (runTmux [''kill-session'', ''-t'', ts_sessionName session0]) (\<lambda>killed s.
            if tr_code killed \<noteq> Some 0 then (Inr None, s)
            else
              (let session = session0\<lparr>ts_status := TCancelled, ts_updatedAt := now_iso env s\<rparr>
               in op_bind (writeSessionState env (j_id job) session) (\<lambda>_. op_return (Some session)) s)))"

section \<open>Removing artifacts\<close>

datatype cleanup_status = Removed | NotFound | RetainedLive | LivenessUnknown | CleanupFailed

record artifact_result =
  ar_jobId :: string
  ar_status :: cleanup_status

definition readPersistedSessionName :: "bridge_env \<Rightarrow> string \<Rightarrow> fs \<Rightarrow> string option" where
  "readPersistedSessionName env jobId fs =
     (case file_content (session_path env jobId SESSION_FILE) fs of
        Some (JsonText v) \<Rightarrow>
          (case v of
             JObj _ \<Rightarrow> (case jfield v ''sessionName'' of Some (JStr n) \<Rightarrow> Some n | _ \<Rightarrow> None)
           | _ \<Rightarrow> None)
      | _ \<Rightarrow> None)"

definition contains_text :: "string \<Rightarrow> string \<Rightarrow> bool" where
  "contains_text p s \<longleftrightarrow> list_ex (\<lambda>k. starts_with p (drop k s)) [0..<Suc (length s)]"

definition isConfirmedMissingSession :: "tmux_result \<Rightarrow> bool" where
  "isConfirmedMissingSession r \<longleftrightarrow> tr_code r = Some 1 \<and>
     (let t = to_lower (tr_stderr r) in
      list_ex (\<lambda>p. contains_text p t)
        [''can'' @ [single_quote] @ ''t find session'', ''no such session'', ''no such fake session'',
         ''no server running''])"

definition fs_rm_tree :: "path \<Rightarrow> fs \<Rightarrow> fs" where
  \<comment> \<open>\<open>rm\<close> with \<open>recursive\<close>\<close>
  "fs_rm_tree d fs = filter (\<lambda>(p, n). take (length d) p \<noteq> d) fs"

definition removeArtifacts :: "bridge_env \<Rightarrow> string \<Rightarrow> string \<Rightarrow> artifact_result bridge_op" where
  "removeArtifacts env jobId expectedSessionName =
     (let canonical = buildSessionName jobId; d = sessionDirectory env jobId;
          done = (\<lambda>st. op_return \<lparr>ar_jobId = jobId, ar_status = st\<rparr>);
          check = (\<lambda>fs. assertPrivateOwnedDirectory (rc_env (be_repo env)) d session_entry fs)
      in
      if \<not> JOB_ID_PATTERN jobId then done CleanupFailed
      else if expectedSessionName \<noteq> canonical then done LivenessUnknown
      else (\<lambda>s.
        case lstatIfExists d (the_fs s) of
          None \<Rightarrow> done NotFound s
        | Some stat \<Rightarrow>
            (if isSymbolicLink stat \<or> \<not> isDirectory stat then done CleanupFailed s
             else
               (case check (the_fs s) of
                  Inl _ \<Rightarrow> done CleanupFailed s
                | Inr _ \<Rightarrow>
                    (if readPersistedSessionName env jobId (the_fs s) \<noteq> Some canonical
                     then done LivenessUnknown s
                     else
                       op_bind (runTmux [''has-session'', ''-t'', expectedSessionName]) (\<lambda>liveness s1.
                         if tr_code liveness = Some 0 then done RetainedLive s1
                         else if \<not> isConfirmedMissingSession liveness then done LivenessUnknown s1
                         else
                           (case check (the_fs s1) of
                              Inl _ \<Rightarrow> done CleanupFailed s1
                            | Inr _ \<Rightarrow>
                                (if be_inode env d (the_fs s1) \<noteq> be_inode env d (the_fs s)
                                 then done CleanupFailed s1
                                 else op_bind (modify_fs (fs_rm_tree d)) (\<lambda>_. done Removed) s1))) s)))))"

definition newestArtifactTimestamp :: "bridge_env \<Rightarrow> path \<Rightarrow> fs \<Rightarrow> int option" where
  \<comment> \<open>\<open>None\<close>: a \<open>stat\<close> or the \<open>readdir\<close> throws\<close>
  "newestArtifactTimestamp env d fs =
     foldl (\<lambda>acc e. case acc of None \<Rightarrow> None
              | Some newest \<Rightarrow>
                  (if \<not> isFile (snd e) then Some newest
                   else map_option (max newest) (be_mtime env (d @ [fst e]) fs)))
       (be_mtime env d fs) (readdir d fs)"

definition cleanup_orphan ::
  "bridge_env \<Rightarrow> string list \<Rightarrow> int \<Rightarrow> string \<times> fnode \<Rightarrow> artifact_result option bridge_op" where
  \<comment> \<open>the body of the loop of \<open>cleanupStaleOrphans\<close>\<close>
  "cleanup_orphan env knownIds cutoff e =
     (if \<not> isDirectory (snd e) \<or> isSymbolicLink (snd e) \<or> \<not> JOB_ID_PATTERN (fst e) then op_return None
      else if fst e \<in> set knownIds then op_return None
      else (\<lambda>s.
        case newestArtifactTimestamp env (sessionDirectory env (fst e)) (the_fs s) of
          None \<Rightarrow> (Inr (Some \<lparr>ar_jobId = fst e, ar_status = CleanupFailed\<rparr>), s)
        | Some newest \<Rightarrow>
            (if newest \<ge> cutoff then (Inr None, s)
             else if readPersistedSessionName env (fst e) (the_fs s) \<noteq> Some (buildSessionName (fst e))
             then (Inr (Some \<lparr>ar_jobId = fst e, ar_status = LivenessUnknown\<rparr>), s)
             else op_bind (removeArtifacts env (fst e) (buildSessionName (fst e)))
                    (\<lambda>r. op_return (Some r)) s)))"

definition cleanupStaleOrphans ::
  "bridge_env \<Rightarrow> bridge_job list \<Rightarrow> int \<Rightarrow> string list \<Rightarrow> artifact_result list bridge_op" where
  "cleanupStaleOrphans env jobs retentionDays durableJobIds =
     op_bind (tmux_ensureReady env) (\<lambda>_ s.
       let knownIds = map j_id jobs @ durableJobIds;
           cutoff = now_ms s - retentionDays * 24 * 60 * 60 * 1000
       in op_bind (op_map (cleanup_orphan env knownIds cutoff)
                     (readdir (rc_tmuxSessionsDirectory (be_repo env)) (the_fs s)))
            (\<lambda>rs. op_return (List.map_filter id rs)) s)"

end
