(* ===== verification/BridgeSamples.thy ===== *)
theory BridgeSamples
  imports TmuxRunner Samples
begin

text \<open>
  A concrete bridge on which the properties of the services are applied: a configuration, an
  environment whose library functions are computable, and a process state with one finished
  session on disk.
\<close>

definition sample_bridge_config :: bridge_config where
  "sample_bridge_config = \<lparr>
     bc_host = ''127.0.0.1'', bc_requestBodyLimit = None, bc_jobsDirectory = ''/s/jobs'',
     bc_omxCommand = ''omx'', bc_omxModel = None, bc_omxModelReasoningEffort = None,
     bc_tmuxCommand = ''tmux'', bc_tmuxSessionsDirectory = ''/s/tmux'', bc_omxEnvAllowlist = None,
     bc_jobPollIntervalMs = 1000, bc_jobTimeoutMs = 900000, bc_maxOutputChars = 100,
     bc_tmuxMaxCaptureBytesPerStream = None, bc_sigkillGraceMs = 5000, bc_maxConcurrency = 1,
     bc_maxActiveJobs = 3, bc_jobRetentionDays = 7, bc_maxTerminalJobs = 10,
     bc_jobCleanupIntervalMs = 60000, bc_notifyRetryDelaysMs = Some [10], bc_notifyTimeoutMs = 50,
     bc_insecureLoopback = False, bc_callbackSecret = Some ''k'', bc_apiToken = Some ''t'',
     bc_allowedCwdPrefixes = [], bc_notifyMode = NotifyClaude, bc_claudeNotifyUrl = None,
     bc_telegram = None, bc_openclawHooks = None\<rparr>"

definition sample_codec :: text_codec where
  "sample_codec = \<lparr>tc_decode = id, tc_replacement = CHR 0xFF, tc_lowSurrogate = (\<lambda>c. False),
     tc_highSurrogate = (\<lambda>c. False)\<rparr>"

definition sample_repo :: repo_config where
  "sample_repo = sample_config\<lparr>rc_tmuxSessionsDirectory := [''s'', ''tmux'']\<rparr>"

definition sample_bridge :: bridge_env where
  "sample_bridge = \<lparr>
     be_repo = sample_repo, be_cfg = sample_bridge_config, be_realpath = Inr, be_cwd = ''/s'',
     be_processEnv = (\<lambda>_. None), be_execPath = ''node'', be_wrapperScript = ''w'',
     be_pathText = (\<lambda>p. concat (map (Cons CHR ''/'') p)), be_jsonText = (\<lambda>v. ''{}''),
     be_codec = sample_codec, be_mtime = (\<lambda>p fs. Some 0), be_inode = (\<lambda>p fs. length p),
     be_sha256 = id, be_hmac = (@),
     be_tmuxRunner = True, be_errorText = (\<lambda>e. ''error'')\<rparr>"

definition sample_session :: "string \<Rightarrow> tmux_session" where
  "sample_session i = \<lparr>ts_sessionName = buildSessionName i, ts_status = TRunning,
     ts_createdAt = stamp 1, ts_updatedAt = stamp 1, ts_attachCommand = ''a'', ts_cwd = None,
     ts_lastExitCode = None\<rparr>"

definition sample_tmux_job :: "string \<Rightarrow> job_status \<Rightarrow> bridge_job" where
  "sample_tmux_job i st = (sample_job i st None)\<lparr>j_executionMode := Some TmuxMode,
     j_startedAt := Some (stamp 1), j_session := Some (sample_session i)\<rparr>"

definition session_file :: "string \<Rightarrow> string \<Rightarrow> content \<Rightarrow> path \<times> fnode" where
  "session_file i name c = (session_path sample_bridge i name, own_file c)"

definition sample_disk :: fs where
  "sample_disk =
     [([''s''], own_dir), ([''s'', ''jobs''], own_dir), ([''s'', ''tmux''], own_dir),
      (sessionDirectory sample_bridge uuid1, own_dir),
      session_file uuid1 SESSION_FILE (JsonText (tmux_session_json (sample_session uuid1))),
      session_file uuid1 EXIT_CODE_FILE (RawText ''0''),
      session_file uuid1 STDOUT_FILE (RawText ''hello''),
      stored (sample_tmux_job uuid1 Running),
      stored (sample_job uuid2 Queued None),
      stored (sample_job uuid3 Succeeded (Some (stamp 3)))]"

definition sample_bridge_state :: bridge_state where
  "sample_bridge_state = \<lparr>
     bs_repo = \<lparr>rs_fs = sample_disk, rs_ready = True, rs_now = 6 * 60000, rs_uuids = 0, rs_writes = []\<rparr>,
     bs_tmuxReady = True,
     bs_tmuxResults = [\<lparr>tr_code = Some 1, tr_stderr = ''no server running''\<rparr>],
     bs_tmuxCommands = [], bs_world = [], bs_inFlight = [], bs_controllers = [],
     bs_shuttingDown = False, bs_claims = 0, bs_tracked = [], bs_queueSequence = 0,
     bs_execResults = [], bs_fetches = [], bs_requests = []\<rparr>"

end
