(* ===== verification/JobCourse.thy ===== *)
theory JobCourse
  imports BridgeState
begin

text \<open>
  How the stored jobs may change. The services interleave: while an operation awaits, others
  run. The locale \<open>job_relation\<close> is the rely and guarantee reasoning for that: for a preorder \<open>R\<close>
  on what is stored under an id, \<open>guar R\<close> says that an operation changes every job along \<open>R\<close>
  provided that what happens while it awaits does too. It is used with equality (the operations
  that change no job), with the course of a job (\<open>job_move\<close>: a terminal job keeps its
  result, the identity of a job never changes) and with \<open>never_starts\<close> (no job begins to run).
\<close>

section \<open>Store operations keep the disk well formed\<close>

abbreviation repo_ok :: "repo_state \<Rightarrow> bool" where
  "repo_ok s \<equiv> fs_ok (rs_fs s)"

lemma keeps_ensureReady: "op_keeps repo_ok (ensureReady cfg)"
proof (rule op_keepsI)
  fix s assume "repo_ok s"
  with fs_ok_ensureReady [OF surjective_pairing] show "repo_ok (snd (ensureReady cfg s))" .
qed

lemma keeps_quarantine: "repo_ok s \<Longrightarrow> repo_ok (quarantineInvalidJobFile cfg p i reason s)"
proof -
  assume ok: "repo_ok s"
  have "op_keeps fs_ok (quarantine_steps cfg p q)" for q
  proof (rule op_keepsI)
    fix fs assume "fs_ok fs"
    moreover have "op_keeps fs_ok (op_bind (ensurePrivateOwnedDirectory (rc_env cfg)
        (rc_jobsDirectory cfg @ [INVALID_JOBS_DIRECTORY])
        (\<lambda>e. isFile (snd e) \<and> QUARANTINE_FILE_PATTERN (fst e)) True)
        (\<lambda>_. op_bind (tightenPrivateOwnedFile (rc_env cfg) p) (\<lambda>_. op_modify (fs_rename p q))))"
      by (intro op_keeps_bind fs_ok_ensure fs_ok_tighten op_keepsI) (simp add: op_modify_def)
    ultimately show "fs_ok (snd (quarantine_steps cfg p q fs))"
      by (auto simp: quarantine_steps_def op_keeps_def split: sum.split)
  qed
  with ok show ?thesis by (simp add: quarantineInvalidJobFile_def op_keeps_def)
qed

lemma keeps_parseJob: "parseJob cfg raw i p s = (j, s') \<Longrightarrow> repo_ok s \<Longrightarrow> repo_ok s'"
  by (auto simp: parseJob_def Let_def keeps_quarantine split: content.splits if_splits)

lemma keeps_jobPath: "op_keeps repo_ok (jobPath cfg i)"
  by (simp add: jobPath_def)

lemma keeps_getById: "op_keeps repo_ok (getById cfg i)"
  unfolding getById_def
proof (rule op_keeps_bind [OF keeps_jobPath], rule op_keepsI)
  fix p s
  assume "repo_ok s"
  then show "repo_ok (snd (case map_of (rs_fs s) p of
         None \<Rightarrow> (Inr None, s)
       | Some n \<Rightarrow> (case n_kind n of
              FileNode raw \<Rightarrow> (let (j, s') = parseJob cfg raw i p s in (Inr j, s'))
            | _ \<Rightarrow> (Inl (NotAFile p), s))))"
    by (auto split: option.split node_kind.split prod.split dest: keeps_parseJob)
qed

lemma keeps_next_write: "op_keeps repo_ok next_write"
  by (rule op_keepsI) (simp add: next_write_def split: list.split)

lemma keeps_writeJob: "op_keeps repo_ok (writeJob cfg j)"
  unfolding writeJob_def
proof (intro op_keeps_bind keeps_ensureReady keeps_jobPath keeps_next_write)
  show "op_keeps repo_ok (randomUUID cfg)" by (rule op_keepsI) (simp add: randomUUID_def)
qed (rule op_keepsI, simp add: Let_def split: write_outcome.split)

lemma keeps_save: "op_keeps repo_ok (save cfg j)"
  unfolding save_def by (intro op_keeps_bind keeps_writeJob op_keeps_basic)

lemma keeps_transition: "op_keeps repo_ok (transition cfg i sts upd)"
  unfolding transition_def
proof (rule op_keeps_bind [OF keeps_getById])
  fix c
  show "op_keeps repo_ok (case c of None \<Rightarrow> op_return (False, None)
     | Some j \<Rightarrow> (if j_status j \<notin> set sts then op_return (False, Some j)
                 else op_bind (writeJob cfg (upd j)) (\<lambda>_. op_return (True, Some (upd j)))))"
    by (auto split: option.split intro: op_keeps_bind keeps_writeJob)
qed

lemma keeps_read_entries: "read_entries cfg names s = (js, s') \<Longrightarrow> repo_ok s \<Longrightarrow> repo_ok s'"
  by (induction names arbitrary: s js)
     (auto simp: read_entry_def Let_def split: prod.splits option.splits dest: keeps_parseJob)

lemma keeps_listAll: "op_keeps repo_ok (listAll cfg)"
  unfolding listAll_def
  by (intro op_keeps_bind keeps_ensureReady op_keepsI) (auto simp: Let_def split: prod.split dest: keeps_read_entries)

lemma keeps_listByStatus: "op_keeps repo_ok (listByStatus cfg st)"
  unfolding listByStatus_def by (intro op_keeps_bind keeps_listAll op_keeps_basic)

lemma keeps_countActive: "op_keeps repo_ok (countActive cfg)"
  unfolding countActive_def by (intro op_keeps_bind keeps_listAll op_keeps_basic)

lemma keeps_listDurableJobIds: "op_keeps repo_ok (listDurableJobIds cfg)"
  unfolding listDurableJobIds_def by (intro op_keeps_bind keeps_ensureReady op_keepsI) simp

lemma keeps_cleanupTerminalJobs: "op_keeps repo_ok (cleanupTerminalJobs cfg days mx)"
proof (rule op_keepsI)
  fix s assume ok: "repo_ok s"
  have "op_keeps repo_ok (op_bind (listAll cfg) (\<lambda>jobs.
       let terminalJobs = sort_cmp (terminal_cmp cfg) (filter (\<lambda>j. isTerminal (j_status j)) jobs);
           deleteIds = to_delete cfg (rs_now s - days * 24 * 60 * 60 * 1000) mx terminalJobs
       in op_bind (op_foreach (\<lambda>i. op_bind (jobPath cfg i)
                     (\<lambda>p. op_modify (\<lambda>s. s\<lparr>rs_fs := fs_rm p (rs_fs s)\<rparr>))) deleteIds)
            (\<lambda>_. op_return \<lparr>
               cl_deleted = js_length deleteIds,
               cl_retained = js_length terminalJobs - js_length deleteIds,
               cl_deletedEntries =
                 map cleanup_entry_of (filter (\<lambda>j. j_id j \<in> set deleteIds) terminalJobs)\<rparr>)))"
    unfolding Let_def
  proof (intro op_keeps_bind keeps_listAll op_keeps_foreach keeps_jobPath op_keeps_basic)
    show "op_keeps repo_ok (op_modify (\<lambda>s. s\<lparr>rs_fs := fs_rm p (rs_fs s)\<rparr>))" for p
      by (rule op_keepsI) (simp add: op_modify_def)
  qed
  with ok show "repo_ok (snd (cleanupTerminalJobs cfg days mx s))"
    unfolding cleanupTerminalJobs_def Let_def op_keeps_def by blast
qed

lemmas repo_keeps = keeps_getById keeps_writeJob keeps_save keeps_transition keeps_listAll
  keeps_listByStatus keeps_countActive keeps_listDurableJobIds keeps_cleanupTerminalJobs
  keeps_ensureReady keeps_next_write

section \<open>Rely and guarantee\<close>

definition job_in :: "bridge_env \<Rightarrow> fs \<Rightarrow> string \<Rightarrow> bridge_job option" where
  "job_in env fs i = Option.bind (file_content (job_file (be_repo env) i) fs) (decode_job i)"

lemma job_at_in: "job_at (be_repo env) r i = job_in env (rs_fs r) i"
  by (simp add: job_at_def job_in_def)

lemma bridge_job_at_in: "bridge_job_at env s i = job_in env (the_fs s) i"
  by (simp add: bridge_job_at_def job_at_in the_fs_def)

lemma job_in_cong: "(\<And>i. file_content (job_file (be_repo env) i) g = file_content (job_file (be_repo env) i) fs) \<Longrightarrow>
   job_in env g = job_in env fs"
  by (simp add: job_in_def fun_eq_iff)

type_synonym job_rel = "string \<Rightarrow> bridge_job option \<Rightarrow> bridge_job option \<Rightarrow> bool"

definition disk_moves :: "job_rel \<Rightarrow> bridge_env \<Rightarrow> fs \<Rightarrow> fs \<Rightarrow> bool" where
  "disk_moves R env fs g \<longleftrightarrow> (fs_ok fs \<longrightarrow> fs_ok g) \<and> (\<forall>i. R i (job_in env fs i) (job_in env g i))"

definition world_ok :: "job_rel \<Rightarrow> bridge_env \<Rightarrow> bridge_state \<Rightarrow> bool" where
  \<comment> \<open>the rely condition: the others change the jobs along \<open>R\<close>\<close>
  "world_ok R env s \<longleftrightarrow>
     (\<forall>w \<in> set (bs_world s). \<forall>fs. fs_ok fs \<longrightarrow> disk_moves R env fs (we_fs w fs))"

definition sane :: "job_rel \<Rightarrow> bridge_env \<Rightarrow> bridge_state \<Rightarrow> bool" where
  "sane R env s \<longleftrightarrow> world_ok R env s \<and> fs_ok (the_fs s)"

definition moves :: "job_rel \<Rightarrow> bridge_env \<Rightarrow> bridge_state \<Rightarrow> bridge_state \<Rightarrow> bool" where
  "moves R env s s' \<longleftrightarrow> (\<forall>i. R i (bridge_job_at env s i) (bridge_job_at env s' i)) \<and> (sane R env s \<longrightarrow> sane R env s')"

definition guar :: "job_rel \<Rightarrow> bridge_env \<Rightarrow> 'a bridge_op \<Rightarrow> bool" where
  "guar R env m \<longleftrightarrow> (\<forall>s r s'. sane R env s \<longrightarrow> m s = (r, s') \<longrightarrow> moves R env s s')"

lemma guarI: "(\<And>s r s'. sane R env s \<Longrightarrow> m s = (r, s') \<Longrightarrow> moves R env s s') \<Longrightarrow> guar R env m"
  by (simp add: guar_def)

lemma guarD: "guar R env m \<Longrightarrow> sane R env s \<Longrightarrow> m s = (r, s') \<Longrightarrow> moves R env s s'"
  by (simp add: guar_def)

lemma movesD: "moves R env s s' \<Longrightarrow> R i (bridge_job_at env s i) (bridge_job_at env s' i)"
  by (simp add: moves_def)

lemma moves_sane: "moves R env s s' \<Longrightarrow> sane R env s \<Longrightarrow> sane R env s'"
  by (simp add: moves_def)

lemma guar_at: "(\<And>s. \<exists>n. guar R env n \<and> m s = n s) \<Longrightarrow> guar R env m"
  unfolding guar_def by metis

lemma await_repo_Inr:
  "await_repo m s = (Inr x, s') \<Longrightarrow> \<exists>t. m (bs_repo s) = (Inr x, t) \<and> s' = world_step (s\<lparr>bs_repo := t\<rparr>)"
  by (cases "m (bs_repo s)") (auto simp: await_repo_def on_repo_def split: sum.splits)

lemma await_repo_Inl:
  "await_repo m s = (Inl e, s') \<Longrightarrow>
   \<exists>e' t. e = RepoError e' \<and> m (bs_repo s) = (Inl e', t) \<and> s' = world_step (s\<lparr>bs_repo := t\<rparr>)"
  by (cases "m (bs_repo s)") (auto simp: await_repo_def on_repo_def split: sum.splits)

text \<open>A change of the bookkeeping fields, which no job depends on.\<close>

lemma moves_frame:
  assumes "\<And>i x. R i x x" and "bs_repo s' = bs_repo s" and "bs_world s' = bs_world s"
  shows "moves R env s s'"
  using assms by (simp add: moves_def sane_def world_ok_def bridge_job_at_def the_fs_def)

locale job_relation =
  fixes R :: job_rel
  assumes rel_refl: "R i x x"
    and rel_trans: "R i x y \<Longrightarrow> R i y z \<Longrightarrow> R i x z"
begin

lemma same_moves: "moves R env s s"
  by (simp add: moves_def rel_refl)

lemma trans_moves: "moves R env s t \<Longrightarrow> moves R env t u \<Longrightarrow> moves R env s u"
  unfolding moves_def by (blast intro: rel_trans)

lemma bind_guar:
  assumes "guar R env m" and "\<And>x. guar R env (f x)"
  shows "guar R env (op_bind m f)"
proof (rule guarI)
  fix s r s'
  assume ok: "sane R env s" and run: "op_bind m f s = (r, s')"
  obtain q t where m: "m s = (q, t)" by (cases "m s")
  have st: "moves R env s t" by (rule guarD [OF assms(1) ok m])
  show "moves R env s s'"
  proof (cases q)
    case (Inl e)
    with run m st show ?thesis by (simp add: op_bind_def)
  next
    case (Inr x)
    with run m have "f x t = (r, s')" by (simp add: op_bind_def)
    with guarD [OF assms(2) moves_sane [OF st ok]] have "moves R env t s'" by blast
    with st show ?thesis by (rule trans_moves)
  qed
qed

lemma return_guar: "guar R env (op_return x)"
  by (rule guarI) (simp add: op_return_def same_moves)

lemma fail_guar: "guar R env (op_fail e)"
  by (rule guarI) (simp add: op_fail_def same_moves)

lemma constant_guar: "guar R env (\<lambda>s. (r, s))"
  by (rule guarI) (simp add: same_moves)

lemma frame_guar:
  assumes "\<And>s. bs_repo (snd (m s)) = bs_repo s" and "\<And>s. bs_world (snd (m s)) = bs_world s"
  shows "guar R env m"
  by (rule guarI) (metis assms moves_frame rel_refl snd_conv)

text \<open>Branching on the state.\<close>

lemma if_guar: "guar R env m \<Longrightarrow> guar R env n \<Longrightarrow> guar R env (\<lambda>s. if P s then m s else n s)"
  unfolding guar_def by simp

lemma option_guar:
  "guar R env m \<Longrightarrow> (\<And>x. guar R env (n x)) \<Longrightarrow>
   guar R env (\<lambda>s. case v s of None \<Rightarrow> m s | Some x \<Rightarrow> n x s)"
  unfolding guar_def by (simp split: option.split)

lemma prepared_guar:
  assumes "guar R env m" and "\<And>s. bs_repo (f s) = bs_repo s" and "\<And>s. bs_world (f s) = bs_world s"
  shows "guar R env (\<lambda>s. m (f s))"
proof (rule guarI)
  fix s r s'
  assume ok: "sane R env s" and run: "m (f s) = (r, s')"
  have sf: "moves R env s (f s)" by (rule moves_frame) (simp_all add: rel_refl assms)
  from guarD [OF assms(1) moves_sane [OF sf ok] run] sf show "moves R env s s'" by (metis trans_moves)
qed

lemma foreach_guar: "(\<And>x. x \<in> set xs \<Longrightarrow> guar R env (f x)) \<Longrightarrow> guar R env (op_foreach f xs)"
  by (induction xs) (auto intro: bind_guar return_guar)

lemma map_guar: "(\<And>x. x \<in> set xs \<Longrightarrow> guar R env (f x)) \<Longrightarrow> guar R env (op_map f xs)"
  by (induction xs) (auto intro!: bind_guar return_guar)

lemma world_step_moves: "sane R env s \<Longrightarrow> moves R env s (world_step s)"
  by (auto simp: world_step_def moves_def sane_def bridge_job_at_in world_ok_def disk_moves_def the_fs_def
      rel_refl split: list.split)

lemma awaiting_guar: "guar R env awaiting"
  by (rule guarI) (auto simp: awaiting_def op_modify_def world_step_moves)

lemma modify_fs_guar:
  assumes "\<And>fs. fs_ok fs \<Longrightarrow> disk_moves R env fs (f fs)"
  shows "guar R env (modify_fs f)"
  using assms [unfolded disk_moves_def]
  by (intro guarI) (auto simp: modify_fs_def op_modify_def moves_def sane_def world_ok_def bridge_job_at_in the_fs_def)

lemma on_repo_guar:
  assumes "op_keeps repo_ok m"
    and "\<And>s r s' i. m s = (r, s') \<Longrightarrow> repo_ok s \<Longrightarrow> R i (job_at (be_repo env) s i) (job_at (be_repo env) s' i)"
  shows "guar R env (on_repo m)"
proof (rule guarI)
  fix s r s'
  assume ok: "sane R env s" and run: "on_repo m s = (r, s')"
  obtain q t where m: "m (bs_repo s) = (q, t)" by (cases "m (bs_repo s)")
  have "repo_ok (bs_repo s)" using ok by (simp add: sane_def the_fs_def)
  then have "repo_ok t" "\<And>i. R i (job_at (be_repo env) (bs_repo s) i) (job_at (be_repo env) t i)"
    using op_keepsD [OF assms(1) _ m] assms(2) [OF m] by blast+
  moreover have "s' = s\<lparr>bs_repo := t\<rparr>" using run m by (cases q) (auto simp: on_repo_def)
  ultimately show "moves R env s s'"
    by (simp add: moves_def sane_def world_ok_def bridge_job_at_def the_fs_def)
qed

lemma await_repo_guar:
  assumes "op_keeps repo_ok m"
    and "\<And>s r s' i. m s = (r, s') \<Longrightarrow> repo_ok s \<Longrightarrow> R i (job_at (be_repo env) s i) (job_at (be_repo env) s' i)"
  shows "guar R env (await_repo m)"
proof (rule guarI)
  fix s r s'
  assume ok: "sane R env s" and run: "await_repo m s = (r, s')"
  obtain q t where m: "on_repo m s = (q, t)" by (cases "on_repo m s")
  have "moves R env s t" using on_repo_guar [OF assms] ok m by (rule guarD)
  moreover from this have "moves R env t (world_step t)" using ok by (intro world_step_moves) (rule moves_sane)
  moreover have "s' = world_step t" using run m by (simp add: await_repo_def)
  ultimately show "moves R env s s'" using trans_moves by blast
qed

text \<open>Reading the store.\<close>

lemma read_guar:
  assumes "op_keeps repo_ok m" and "\<And>s r s'. m s = (r, s') \<Longrightarrow> job_at (be_repo env) s' = job_at (be_repo env) s"
  shows "guar R env (await_repo m)" and "guar R env (on_repo m)"
  using assms by (auto intro!: await_repo_guar on_repo_guar simp: rel_refl)

text \<open>A conditional transition moves the job it applies to.\<close>

lemma transition_guar:
  assumes "\<And>j. j_status j \<in> set sts \<Longrightarrow> R (j_id j) (Some j) (Some (upd j))" and "\<And>j. j_id (upd j) = j_id j"
  shows "guar R env (await_repo (transition (be_repo env) i sts upd))"
proof (rule await_repo_guar [OF keeps_transition])
  fix s r s' k
  assume run: "transition (be_repo env) i sts upd s = (r, s')"
  show "R k (job_at (be_repo env) s k) (job_at (be_repo env) s' k)"
  proof -
    have applied: "R k (job_at (be_repo env) s k) (((job_at (be_repo env) s)(j_id (upd j) \<mapsto> upd j)) k)"
      if "job_at (be_repo env) s i = Some j" "j_status j \<in> set sts" for j
      using that assms job_at_id [OF that(1)] by (auto simp: rel_refl)
    from repo.cas_cases [OF run] show ?thesis by (auto simp only: rel_refl applied)
  qed
qed

text \<open>Preparing directories, running commands and sleeping change no job themselves.\<close>

lemma private_guar:
  assumes "op_keeps fs_ok m" and "\<And>fs r fs' p. m fs = (r, fs') \<Longrightarrow> file_content p fs' = file_content p fs"
  shows "guar R env (on_repo (on_fs m))"
proof (rule read_guar(2))
  show "op_keeps repo_ok (on_fs m)"
  proof (rule op_keepsI)
    fix s assume "repo_ok s"
    then have "fs_ok (snd (m (rs_fs s)))" using assms(1) by (simp add: op_keeps_def)
    then show "repo_ok (snd (on_fs m s))" by (auto simp: on_fs_def split: prod.split sum.split)
  qed
next
  fix s r s'
  assume run: "on_fs m s = (r, s')"
  obtain q t where m: "m (rs_fs s) = (q, t)" by (cases "m (rs_fs s)")
  with run have "s' = s\<lparr>rs_fs := t\<rparr>" by (cases q) (auto simp: on_fs_def)
  with assms(2) [OF m] show "job_at (be_repo env) s' = job_at (be_repo env) s"
    by (intro job_at_cong) simp
qed

lemma sleep_guar: "guar R env (sleep_ms ms)"
proof (rule guarI)
  fix s r s'
  assume ok: "sane R env s" and run: "sleep_ms ms s = (r, s')"
  let ?s0 = "s\<lparr>bs_repo := (bs_repo s)\<lparr>rs_now := now_ms s + ms\<rparr>\<rparr>"
  have "moves R env s ?s0"
    by (simp add: moves_def sane_def world_ok_def bridge_job_at_in the_fs_def rel_refl)
  moreover have "moves R env ?s0 (world_step ?s0)"
    using moves_sane [OF \<open>moves R env s ?s0\<close> ok] by (rule world_step_moves)
  ultimately show "moves R env s s'"
    using run by (auto simp: sleep_ms_def op_modify_def intro: trans_moves)
qed

end

text \<open>Operations that change no job.\<close>

interpretation unchanged: job_relation "\<lambda>i. (=)"
  by unfold_locales auto

section \<open>The course of a job\<close>

definition job_core :: "bridge_job \<Rightarrow> bridge_job" where
  \<comment> \<open>a job without the record of its notifications\<close>
  "job_core j = j\<lparr>j_notifyOutcome := None, j_notifyHistory := None\<rparr>"

definition same_request :: "bridge_job \<Rightarrow> bridge_job \<Rightarrow> bool" where
  \<comment> \<open>what was asked for never changes\<close>
  "same_request j k \<longleftrightarrow> j_id k = j_id j \<and> j_prompt k = j_prompt j \<and> j_executionMode k = j_executionMode j \<and>
     j_cwd k = j_cwd j \<and> j_queueOrder k = j_queueOrder j \<and> j_requestId k = j_requestId j \<and>
     j_requestFingerprint k = j_requestFingerprint j \<and> j_originRoutingKey k = j_originRoutingKey j \<and>
     j_source k = j_source j \<and> j_sourceName k = j_sourceName j \<and> j_metadata k = j_metadata j \<and>
     j_notifyUrl k = j_notifyUrl j \<and> j_createdAt k = j_createdAt j"

definition job_move :: "bridge_job option \<Rightarrow> bridge_job option \<Rightarrow> bool" where
  \<comment> \<open>one step: a job that is not terminal may change its state, a terminal one only the record
     of its notifications, and only a terminal one may be removed\<close>
  "job_move x y \<longleftrightarrow>
     (case x of
        None \<Rightarrow> y = None
      | Some j \<Rightarrow>
          (case y of
             None \<Rightarrow> isTerminal (j_status j)
           | Some k \<Rightarrow> same_request j k \<and> (isTerminal (j_status j) \<longrightarrow> job_core k = job_core j)))"

definition job_course :: "string \<Rightarrow> job_rel" where
  \<comment> \<open>the job with the id \<open>k\<close> moves by such steps; nothing is said of other ids\<close>
  "job_course k i x y \<longleftrightarrow> (i = k \<longrightarrow> job_move\<^sup>*\<^sup>* x y)"

definition is_running :: "bridge_job option \<Rightarrow> bool" where
  "is_running x \<longleftrightarrow> (case x of None \<Rightarrow> False | Some j \<Rightarrow> j_status j = Running)"

definition never_starts :: job_rel where
  "never_starts i x y \<longleftrightarrow> (is_running y \<longrightarrow> is_running x)"

interpretation course: job_relation "job_course k" for k
  by unfold_locales (auto simp: job_course_def)

interpretation starts: job_relation never_starts
  by unfold_locales (auto simp: never_starts_def)

lemma same_request_refl [simp]: "same_request j j"
  by (simp add: same_request_def)

lemma same_request_trans: "same_request j k \<Longrightarrow> same_request k l \<Longrightarrow> same_request j l"
  by (simp add: same_request_def)

lemma job_core_status: "job_core k = job_core j \<Longrightarrow> j_status k = j_status j"
  by (metis bridge_job.select_convs(13) bridge_job.surjective bridge_job.update_convs(22) bridge_job.update_convs(23) job_core_def)

lemma course_step: "job_move x y \<Longrightarrow> job_course k i x y"
  by (auto simp: job_course_def)

text \<open>What a course guarantees, however long.\<close>

lemma course_absent: "job_move\<^sup>*\<^sup>* None y \<Longrightarrow> y = None"
  by (induction rule: rtranclp_induct) (auto simp: job_move_def)

lemma course_request:
  "job_move\<^sup>*\<^sup>* x y \<Longrightarrow> x = Some j \<Longrightarrow> y = Some k \<Longrightarrow> same_request j k"
proof (induction arbitrary: k rule: rtranclp_induct)
  case base
  then show ?case by simp
next
  case (step y z)
  then show ?case by (auto simp: job_move_def split: option.splits intro: same_request_trans)
qed

lemma course_terminal:
  "job_move\<^sup>*\<^sup>* x y \<Longrightarrow> x = Some j \<Longrightarrow> isTerminal (j_status j) \<Longrightarrow>
   y = None \<or> (\<exists>k. y = Some k \<and> job_core k = job_core j)"
proof (induction rule: rtranclp_induct)
  case base
  then show ?case by simp
next
  case (step y z)
  then show ?case by (auto simp: job_move_def dest: job_core_status split: option.splits)
qed

lemma course_removed:
  "job_move\<^sup>*\<^sup>* x y \<Longrightarrow> x = Some j \<Longrightarrow> y = None \<Longrightarrow>
   \<exists>k. same_request j k \<and> isTerminal (j_status k) \<and> job_move\<^sup>*\<^sup>* (Some j) (Some k)"
proof (induction rule: rtranclp_induct)
  case base
  then show ?case by simp
next
  case (step y z)
  show ?case
  proof (cases y)
    case None
    with step show ?thesis by simp
  next
    case (Some k)
    with step have "isTerminal (j_status k)" by (simp add: job_move_def)
    moreover have "job_move\<^sup>*\<^sup>* (Some j) (Some k)" using step.hyps(1) step.prems(1) Some by simp
    moreover from this have "same_request j k" by (rule course_request) simp_all
    ultimately show ?thesis by blast
  qed
qed

end
