(* ===== verification/JobNotify.thy ===== *)
theory JobNotify
  imports BridgeSamples JobCourse JsonText
begin

text \<open>
  Completion notifications, \<open>src/jobs/job-notify.service.ts\<close>: the webhook with its retries, the
  two direct channels, the choice between them and the record kept of every attempt.

  \<open>bs_fetches\<close> says how the coming requests end (an empty list: with status 200), and
  \<open>bs_requests\<close> logs the requests sent. \<open>withPersistLock\<close> serialises the records of one job.
  The icons are written as the bytes they are sent as.
\<close>

section \<open>Requests\<close>

definition fetchWithTimeout :: "sent_request \<Rightarrow> fetch_result bridge_op" where
  "fetchWithTimeout req = (\<lambda>s.
     let s1 = world_step (s\<lparr>bs_requests := bs_requests s @ [req]\<rparr>) in
     case bs_fetches s1 of
       [] \<Rightarrow> (Inr (Response 200), s1)
     | r # rs \<Rightarrow> (Inr r, s1\<lparr>bs_fetches := rs\<rparr>))"

definition response_ok :: "int \<Rightarrow> bool" where
  "response_ok st \<longleftrightarrow> 200 \<le> st \<and> st \<le> 299"

definition skipped :: "string \<Rightarrow> channel_result" where
  "skipped reason = \<lparr>cr_status = ChSkipped, cr_error = None, cr_httpStatus = None, cr_attempts = None,
     cr_skippedReason = Some reason\<rparr>"

definition channel_outcome :: "fetch_result \<Rightarrow> int option \<Rightarrow> channel_result" where
  \<comment> \<open>the result of one request; the direct channels record no number of attempts\<close>
  "channel_outcome r attempts =
     (let failed = (\<lambda>e st. \<lparr>cr_status = ChFailed, cr_error = Some e, cr_httpStatus = st, cr_attempts = attempts,
                            cr_skippedReason = None\<rparr>)
      in case r of
           Response st \<Rightarrow>
             (if \<not> response_ok st then failed (''http_'' @ dec_int st) (Some st)
              else \<lparr>cr_status = ChOk, cr_error = None, cr_httpStatus = None, cr_attempts = attempts,
                    cr_skippedReason = None\<rparr>)
         | FetchAborted \<Rightarrow> failed ''timeout'' None
         | FetchFailed \<Rightarrow> failed ''fetch_error'' None)"

section \<open>The webhook\<close>

definition DEFAULT_NOTIFY_RETRY_DELAYS_MS :: "int list" where
  "DEFAULT_NOTIFY_RETRY_DELAYS_MS = [500, 1000, 2000]"

definition webhook_payload :: "bridge_job \<Rightarrow> bridge_job" where
  "webhook_payload job = job\<lparr>j_stdout := take 2000 (j_stdout job), j_stderr := take 500 (j_stderr job)\<rparr>"

definition webhook_request :: "bridge_env \<Rightarrow> bridge_job \<Rightarrow> string \<Rightarrow> sent_request" where
  "webhook_request env job notifyUrl =
     (let body = json_text (job_json (webhook_payload job)) in
      \<lparr>sr_url = notifyUrl,
       sr_headers = (''Content-Type'', ''application/json'') #
         (case bc_callbackSecret (be_cfg env) of
            Some secret \<Rightarrow>
              (if secret \<noteq> []
               then [(''X-Callback-Signature'', computeCallbackSignature (be_hmac env) (j_id job) body secret)]
               else [])
          | None \<Rightarrow> []),
       sr_body = body\<rparr>)"

fun webhook_attempts :: "sent_request \<Rightarrow> int \<Rightarrow> int list \<Rightarrow> channel_result bridge_op" where
  \<comment> \<open>the loop over the attempts; the list holds the delays that are left\<close>
  "webhook_attempts req attempt [] =
     op_bind (fetchWithTimeout req) (\<lambda>r. op_return (channel_outcome r (Some attempt)))"
| "webhook_attempts req attempt (nextDelay # delays) =
     op_bind (fetchWithTimeout req) (\<lambda>r.
       if cr_status (channel_outcome r (Some attempt)) = ChOk
       then op_return (channel_outcome r (Some attempt))
       else op_bind (sleep_ms nextDelay) (\<lambda>_. webhook_attempts req (attempt + 1) delays))"

definition notifyClaudeWebhook :: "bridge_env \<Rightarrow> bridge_job \<Rightarrow> channel_result bridge_op" where
  "notifyClaudeWebhook env job =
     (let notifyUrl = (case j_notifyUrl job of Some u \<Rightarrow> Some u | None \<Rightarrow> bc_claudeNotifyUrl (be_cfg env)) in
      if \<not> truthy_str notifyUrl then op_return (skipped ''no_notify_url'')
      else webhook_attempts (webhook_request env job (the notifyUrl)) 1
             (nullish (bc_notifyRetryDelaysMs (be_cfg env)) DEFAULT_NOTIFY_RETRY_DELAYS_MS))"

section \<open>The direct channels\<close>

definition status_icon :: "job_status \<Rightarrow> string" where
  "status_icon st = (if st = Succeeded then [CHR 0xE2, CHR 0x9C, CHR 0x85] else [CHR 0xE2, CHR 0x9D, CHR 0x8C])"

definition non_empty :: "string list \<Rightarrow> string list" where
  "non_empty xs = filter (\<lambda>x. x \<noteq> []) xs"

definition cwd_line :: "bridge_job \<Rightarrow> string" where
  "cwd_line job = (if truthy_str (j_cwd job) then ''Dir: '' @ the (j_cwd job) else [])"

definition openclaw_message :: "bridge_job \<Rightarrow> string" where
  "openclaw_message job =
     (let detail = (if j_status job = Failed
                    then (if j_stderr job \<noteq> [] then take 300 (j_stderr job) else take 300 (j_stdout job))
                    else take 300 (j_stdout job))
      in join_with [CHR 0x0A] (non_empty
           [status_icon (j_status job) @ '' omx job '' @ status_name (j_status job) @ '' ('' @ take 8 (j_id job) @ '')'',
            cwd_line job, detail]))"

definition notifyOpenClawHooks :: "bridge_env \<Rightarrow> bridge_job \<Rightarrow> channel_result bridge_op" where
  "notifyOpenClawHooks env job =
     (case bc_openclawHooks (be_cfg env) of
        None \<Rightarrow> op_return (skipped ''not_configured'')
      | Some hooks \<Rightarrow>
          op_bind (fetchWithTimeout \<lparr>
              sr_url = oc_url hooks,
              sr_headers = [(''Authorization'', ''Bearer '' @ oc_token hooks), (''Content-Type'', ''application/json'')],
              sr_body = json_text (object_of
                [(''message'', Some (JStr (openclaw_message job))), (''agentId'', Some (JStr ''main'')),
                 (''sessionKey'', Some (JStr (oc_sessionKey hooks))), (''deliver'', Some (JBool True))])\<rparr>)
            (\<lambda>r. op_return (channel_outcome r None)))"

definition telegram_text :: "bridge_job \<Rightarrow> string" where
  "telegram_text job =
     (let out = take 400 (j_stdout job) in
      join_with [CHR 0x0A] (non_empty
        [status_icon (j_status job) @ '' omx job '' @ status_name (j_status job),
         ''ID: '' @ take 8 (j_id job) @ ''...'', cwd_line job,
         (if out \<noteq> [] then CHR 0x0A # out else [])]))"

definition telegram_url :: "telegram_config \<Rightarrow> string" where
  "telegram_url t = ''https://api.telegram.org/bot'' @ tg_botToken t @ ''/sendMessage''"

definition sendTelegram :: "bridge_env \<Rightarrow> bridge_job \<Rightarrow> channel_result bridge_op" where
  "sendTelegram env job =
     (case bc_telegram (be_cfg env) of
        None \<Rightarrow> op_return (skipped ''not_configured'')
      | Some t \<Rightarrow>
          op_bind (fetchWithTimeout \<lparr>
              sr_url = telegram_url t,
              sr_headers = [(''Content-Type'', ''application/json'')],
              sr_body = json_text (object_of
                [(''chat_id'', Some (JStr (tg_chatId t))), (''text'', Some (JStr (telegram_text job)))])\<rparr>)
            (\<lambda>r. op_return (channel_outcome r None)))"

definition isBrokerOwnedRouting :: "bridge_job \<Rightarrow> bool" where
  "isBrokerOwnedRouting job \<longleftrightarrow>
     j_source job = Some Channel \<or> (j_source job = None \<and> truthy_str (j_originRoutingKey job))"

definition maybeSendTelegramFallback ::
  "bridge_env \<Rightarrow> bridge_job \<Rightarrow> channel_result \<Rightarrow> channel_result bridge_op" where
  "maybeSendTelegramFallback env job webhookResult =
     (if cr_status webhookResult = ChOk then op_return (skipped ''webhook_ok'')
      else if truthy_str (j_notifyUrl job) then op_return (skipped ''per_job_webhook_failed'')
      else if isBrokerOwnedRouting job then op_return (skipped ''broker_fallback'')
      else sendTelegram env job)"

section \<open>One notification\<close>

definition recorded :: "bridge_job \<Rightarrow> notify_outcome \<Rightarrow> notify_outcome" where
  "recorded latest outcome = outcome\<lparr>no_attemptIndex := Some (js_length (nullish (j_notifyHistory latest) []))\<rparr>"

definition with_outcome :: "bridge_job \<Rightarrow> notify_outcome \<Rightarrow> bridge_job" where
  "with_outcome latest outcome = latest\<lparr>
     j_notifyOutcome := Some (recorded latest outcome),
     j_notifyHistory := Some (js_slice_from (- 10) (nullish (j_notifyHistory latest) [] @ [recorded latest outcome]))\<rparr>"

definition persistOutcome :: "bridge_env \<Rightarrow> string \<Rightarrow> notify_outcome \<Rightarrow> notify_outcome bridge_op" where
  \<comment> \<open>a failed write is only logged\<close>
  "persistOutcome env jobId outcome =
     op_bind (await_repo (getById (be_repo env) jobId)) (\<lambda>found.
       case found of
         None \<Rightarrow> op_return outcome
       | Some latest \<Rightarrow> (\<lambda>s.
           (Inr (recorded latest outcome),
            snd (await_repo (save (be_repo env) (with_outcome latest outcome)) s))))"

definition notifyJobComplete :: "bridge_env \<Rightarrow> bridge_job \<Rightarrow> notify_trigger option \<Rightarrow> notify_outcome bridge_op" where
  "notifyJobComplete env job trigger = (\<lambda>s0.
     let outcome = \<lparr>no_attemptedAt = now_iso env s0, no_mode = bc_notifyMode (be_cfg env),
           no_trigger = Some (nullish trigger AutoTrigger), no_attemptIndex = None, no_claudeWebhook = None,
           no_openclaw = None, no_telegram = None\<rparr>
     in op_bind
          (if bc_notifyMode (be_cfg env) = NotifyClaude
           then op_bind (notifyClaudeWebhook env job) (\<lambda>w.
                op_bind (maybeSendTelegramFallback env job w) (\<lambda>t.
                  op_return (outcome\<lparr>no_claudeWebhook := Some w, no_telegram := Some t\<rparr>)))
           else op_bind (notifyOpenClawHooks env job) (\<lambda>o1.
                op_bind (sendTelegram env job) (\<lambda>t.
                  op_return (outcome\<lparr>no_openclaw := Some o1, no_telegram := Some t\<rparr>))))
          (persistOutcome env (j_id job)) s0)"

section \<open>The retries\<close>

definition nth_fetch :: "bridge_state \<Rightarrow> nat \<Rightarrow> fetch_result" where
  \<comment> \<open>how the request after \<open>k\<close> others ends\<close>
  "nth_fetch s k = (if k < length (bs_fetches s) then bs_fetches s ! k else Response 200)"

lemma world_step_frame [simp]:
  "bs_fetches (world_step s) = bs_fetches s" "bs_requests (world_step s) = bs_requests s"
  "bs_tracked (world_step s) = bs_tracked s" "bs_controllers (world_step s) = bs_controllers s"
  by (simp_all add: world_step_def split: list.split)

lemma fetch_result:
  "\<exists>t. fetchWithTimeout req s = (Inr (nth_fetch s 0), t) \<and> bs_fetches t = drop 1 (bs_fetches s) \<and>
     bs_requests t = bs_requests s @ [req] \<and> now_ms t = now_ms s"
proof -
  have now: "now_ms (s\<lparr>bs_requests := q\<rparr>) = now_ms s" "now_ms (t\<lparr>bs_fetches := f\<rparr>) = now_ms t" for q f t
    by (simp_all add: now_ms_def)
  show ?thesis
    by (cases "bs_fetches s") (simp_all add: fetchWithTimeout_def Let_def nth_fetch_def now)
qed

lemma sleep_result:
  "\<exists>t. sleep_ms d s = (Inr (), t) \<and> bs_fetches t = bs_fetches s \<and> bs_requests t = bs_requests s \<and>
     now_ms t = now_ms s + d"
  by (simp add: sleep_ms_def op_modify_def now_ms_def [of "_\<lparr>bs_repo := _\<rparr>"])

lemma nth_fetch_later: "bs_fetches t = drop 1 (bs_fetches s) \<Longrightarrow> nth_fetch t k = nth_fetch s (Suc k)"
  by (auto simp: nth_fetch_def)

lemma webhook_attempts_result:
  "\<exists>k t. webhook_attempts req n delays s = (Inr (channel_outcome (nth_fetch s k) (Some (n + int k))), t) \<and>
     k \<le> length delays \<and> bs_requests t = bs_requests s @ replicate (Suc k) req \<and>
     (\<forall>i < k. cr_status (channel_outcome (nth_fetch s i) (Some (n + int i))) \<noteq> ChOk) \<and>
     (k < length delays \<longrightarrow> cr_status (channel_outcome (nth_fetch s k) (Some (n + int k))) = ChOk) \<and>
     now_ms t = now_ms s + sum_list (take k delays)"
proof (induction delays arbitrary: n s)
  case Nil
  obtain t where "fetchWithTimeout req s = (Inr (nth_fetch s 0), t)" "bs_requests t = bs_requests s @ [req]"
    "now_ms t = now_ms s" using fetch_result by blast
  then show ?case by (intro exI [of _ 0] exI [of _ t]) (simp add: op_bind_def op_return_def)
next
  case (Cons d delays)
  obtain t where f: "fetchWithTimeout req s = (Inr (nth_fetch s 0), t)" "bs_requests t = bs_requests s @ [req]"
    "bs_fetches t = drop 1 (bs_fetches s)" "now_ms t = now_ms s" using fetch_result by blast
  show ?case
  proof (cases "cr_status (channel_outcome (nth_fetch s 0) (Some n)) = ChOk")
    case True
    with f show ?thesis by (intro exI [of _ 0] exI [of _ t]) (simp add: op_bind_def op_return_def)
  next
    case False
    obtain u where u: "sleep_ms d t = (Inr (), u)" "bs_fetches u = bs_fetches t" "bs_requests u = bs_requests t"
      "now_ms u = now_ms t + d" using sleep_result by blast
    obtain k v where r: "webhook_attempts req (n + 1) delays u =
        (Inr (channel_outcome (nth_fetch u k) (Some (n + 1 + int k))), v)"
      "k \<le> length delays" "bs_requests v = bs_requests u @ replicate (Suc k) req"
      "\<forall>i < k. cr_status (channel_outcome (nth_fetch u i) (Some (n + 1 + int i))) \<noteq> ChOk"
      "k < length delays \<longrightarrow> cr_status (channel_outcome (nth_fetch u k) (Some (n + 1 + int k))) = ChOk"
      "now_ms v = now_ms u + sum_list (take k delays)"
      using Cons.IH [of "n + 1" u] by blast
    have later: "nth_fetch u i = nth_fetch s (Suc i)" for i
      using u(2) f(3) by (intro nth_fetch_later) simp
    have "\<forall>i < Suc k. cr_status (channel_outcome (nth_fetch s i) (Some (n + int i))) \<noteq> ChOk"
    proof (intro allI impI)
      fix i assume "i < Suc k"
      with False r(4) show "cr_status (channel_outcome (nth_fetch s i) (Some (n + int i))) \<noteq> ChOk"
        by (cases i) (simp_all add: later add.assoc)
    qed
    with f u r False show ?thesis
      by (intro exI [of _ "Suc k"] exI [of _ v]) (simp add: op_bind_def later add.assoc)
  qed
qed

lemma channel_ok_iff: "cr_status (channel_outcome r a) = ChOk \<longleftrightarrow> (\<exists>st. r = Response st \<and> response_ok st)"
  by (cases r) (auto simp: channel_outcome_def Let_def)

lemma webhook_signed:
  assumes "bc_callbackSecret (be_cfg env) = Some secret" and "secret \<noteq> []"
  shows "\<exists>sig. (''X-Callback-Signature'', sig) \<in> set (sr_headers (webhook_request env job url)) \<and>
    verifyWebhookSignature (be_hmac env) (j_id job) (sr_body (webhook_request env job url)) sig secret"
  using assms dispatch_signature.signed_verifies [of secret "be_hmac env" "j_id job"]
  by (auto simp: webhook_request_def Let_def copies_agree)

text \<open>
  C30. Retries. The webhook of a job with a target is tried until the first answer with a 2xx
  status, at most once more than there are delays, with the same signed request each time and
  the configured delays in between; the result says how the last attempt ended and how many
  there were, and the receiver's check accepts its signature.
\<close>

theorem webhook_retries:
  assumes "j_notifyUrl job = Some url \<or> (j_notifyUrl job = None \<and> bc_claudeNotifyUrl (be_cfg env) = Some url)"
    and "url \<noteq> []" and "bc_callbackSecret (be_cfg env) = Some secret" and "secret \<noteq> []"
    and "bc_notifyRetryDelaysMs (be_cfg env) = Some delays"
  shows "\<exists>k t req. notifyClaudeWebhook env job s = (Inr (channel_outcome (nth_fetch s k) (Some (int k + 1))), t) \<and>
    k \<le> length delays \<and> bs_requests t = bs_requests s @ replicate (Suc k) req \<and> sr_url req = url \<and>
    (\<exists>sig. (''X-Callback-Signature'', sig) \<in> set (sr_headers req) \<and>
       verifyWebhookSignature (be_hmac env) (j_id job) (sr_body req) sig secret) \<and>
    (\<forall>i < k. \<not> (\<exists>st. nth_fetch s i = Response st \<and> response_ok st)) \<and>
    (k < length delays \<longrightarrow> (\<exists>st. nth_fetch s k = Response st \<and> response_ok st)) \<and>
    now_ms t = now_ms s + sum_list (take k delays)"
proof -
  let ?req = "webhook_request env job url"
  have "notifyClaudeWebhook env job = webhook_attempts ?req 1 delays"
    using assms(1,2,5) by (auto simp: notifyClaudeWebhook_def)
  moreover have "sr_url ?req = url" by (simp add: webhook_request_def Let_def)
  ultimately show ?thesis
    using webhook_attempts_result [of ?req 1 delays s] webhook_signed [OF assms(3,4), of job url]
    unfolding channel_ok_iff add.commute [of 1] by metis
qed

definition sample_notify_state :: bridge_state where
  \<comment> \<open>two failing answers, then success\<close>
  "sample_notify_state = sample_bridge_state\<lparr>bs_fetches := [FetchAborted, Response 503, Response 204]\<rparr>"

definition sample_done :: bridge_job where
  "sample_done = (sample_job uuid3 Succeeded (Some (stamp 3)))\<lparr>j_notifyUrl := Some ''u''\<rparr>"

theorem webhook_retries_witness:
  "\<exists>k t. notifyClaudeWebhook sample_bridge sample_done sample_notify_state =
      (Inr (channel_outcome (nth_fetch sample_notify_state k) (Some (int k + 1))), t) \<and> k \<le> 1 \<and>
      length (bs_requests t) = Suc k"
proof -
  have pre: "j_notifyUrl sample_done = Some ''u'' \<or>
      (j_notifyUrl sample_done = None \<and> bc_claudeNotifyUrl (be_cfg sample_bridge) = Some ''u'')"
    "''u'' \<noteq> []" "bc_callbackSecret (be_cfg sample_bridge) = Some ''k''" "''k'' \<noteq> []"
    "bc_notifyRetryDelaysMs (be_cfg sample_bridge) = Some [10]"
    by (simp_all add: sample_done_def sample_bridge_def sample_bridge_config_def)
  have "bs_requests sample_notify_state = []" by (simp add: sample_notify_state_def sample_bridge_state_def)
  then show ?thesis
    using webhook_retries [OF pre, of sample_notify_state] by fastforce
qed

section \<open>Which channels are used\<close>

definition telegram_requests :: "bridge_env \<Rightarrow> bridge_job \<Rightarrow> sent_request list" where
  "telegram_requests env job =
     (case bc_telegram (be_cfg env) of None \<Rightarrow> []
      | Some t \<Rightarrow> [\<lparr>sr_url = telegram_url t, sr_headers = [(''Content-Type'', ''application/json'')],
          sr_body = json_text (object_of
            [(''chat_id'', Some (JStr (tg_chatId t))), (''text'', Some (JStr (telegram_text job)))])\<rparr>])"

lemma sendTelegram_result:
  "\<exists>r t. sendTelegram env job s = (Inr r, t) \<and> bs_requests t = bs_requests s @ telegram_requests env job \<and>
     (bc_telegram (be_cfg env) = None \<longrightarrow> r = skipped ''not_configured'')"
proof (cases "bc_telegram (be_cfg env)")
  case None
  then show ?thesis by (simp add: sendTelegram_def telegram_requests_def op_return_def)
next
  case (Some c)
  let ?req = "hd (telegram_requests env job)"
  obtain t where "fetchWithTimeout ?req s = (Inr (nth_fetch s 0), t)" "bs_requests t = bs_requests s @ [?req]"
    using fetch_result by blast
  with Some show ?thesis by (simp add: sendTelegram_def telegram_requests_def op_bind_def op_return_def)
qed

lemma openclaw_result:
  "\<exists>r t qs. notifyOpenClawHooks env job s = (Inr r, t) \<and> bs_requests t = bs_requests s @ qs \<and>
     (case bc_openclawHooks (be_cfg env) of None \<Rightarrow> qs = [] \<and> r = skipped ''not_configured''
      | Some h \<Rightarrow> \<exists>q. qs = [q] \<and> sr_url q = oc_url h)"
proof (cases "bc_openclawHooks (be_cfg env)")
  case None
  then show ?thesis by (simp add: notifyOpenClawHooks_def op_return_def)
next
  case (Some h)
  define req where "req = \<lparr>
              sr_url = oc_url h,
              sr_headers = [(''Authorization'', ''Bearer '' @ oc_token h), (''Content-Type'', ''application/json'')],
              sr_body = json_text (object_of
                [(''message'', Some (JStr (openclaw_message job))), (''agentId'', Some (JStr ''main'')),
                 (''sessionKey'', Some (JStr (oc_sessionKey h))), (''deliver'', Some (JBool True))])\<rparr>"
  obtain t where "fetchWithTimeout req s = (Inr (nth_fetch s 0), t)" "bs_requests t = bs_requests s @ [req]"
    using fetch_result by blast
  with Some show ?thesis
    by (intro exI [of _ "channel_outcome (nth_fetch s 0) None"] exI [of _ t] exI [of _ "[req]"])
       (simp add: notifyOpenClawHooks_def op_bind_def op_return_def flip: req_def, simp add: req_def)
qed

lemma webhook_result:
  "\<exists>r t k url. notifyClaudeWebhook env job s = (Inr r, t) \<and>
     bs_requests t = bs_requests s @ replicate k (webhook_request env job url)"
proof (cases "truthy_str (case j_notifyUrl job of Some u \<Rightarrow> Some u | None \<Rightarrow> bc_claudeNotifyUrl (be_cfg env))")
  case False
  then have "notifyClaudeWebhook env job s = (Inr (skipped ''no_notify_url''), s)"
    by (simp add: notifyClaudeWebhook_def Let_def op_return_def)
  moreover have "bs_requests s = bs_requests s @ replicate 0 (webhook_request env job [])" by simp
  ultimately show ?thesis by blast
next
  case True
  then have "notifyClaudeWebhook env job = webhook_attempts (webhook_request env job
      (the (case j_notifyUrl job of Some u \<Rightarrow> Some u | None \<Rightarrow> bc_claudeNotifyUrl (be_cfg env)))) 1
      (nullish (bc_notifyRetryDelaysMs (be_cfg env)) DEFAULT_NOTIFY_RETRY_DELAYS_MS)"
    by (simp add: notifyClaudeWebhook_def Let_def)
  then show ?thesis using webhook_attempts_result by metis
qed

lemma fallback_result:
  "\<exists>r t. maybeSendTelegramFallback env job w s = (Inr r, t) \<and>
     bs_requests t = bs_requests s @
       (if cr_status w = ChOk \<or> truthy_str (j_notifyUrl job) \<or> isBrokerOwnedRouting job then []
        else telegram_requests env job)"
  using sendTelegram_result [of env job s] by (auto simp: maybeSendTelegramFallback_def op_return_def)

text \<open>
  Channels. Under \<open>claude\<close> mode the webhook is tried and Telegram is used exactly when the
  webhook failed, the job has no target of its own and its routing belongs to no broker; under
  \<open>openclaw\<close> mode both direct channels are used, each if it is configured. Whatever was sent,
  the outcome of every channel is then recorded.
\<close>

theorem channel_choice:
  "\<exists>out t. notifyJobComplete env job trigger s = persistOutcome env (j_id job) out t \<and>
     no_mode out = bc_notifyMode (be_cfg env) \<and> no_attemptedAt out = now_iso env s \<and>
     (if bc_notifyMode (be_cfg env) = NotifyClaude
      then \<exists>w tg k url. no_claudeWebhook out = Some w \<and> no_telegram out = Some tg \<and> no_openclaw out = None \<and>
        bs_requests t = bs_requests s @ replicate k (webhook_request env job url) @
          (if cr_status w = ChOk \<or> truthy_str (j_notifyUrl job) \<or> isBrokerOwnedRouting job then []
           else telegram_requests env job)
      else \<exists>oc tg qs. no_claudeWebhook out = None \<and> no_telegram out = Some tg \<and> no_openclaw out = Some oc \<and>
        bs_requests t = bs_requests s @ qs @ telegram_requests env job \<and>
        (case bc_openclawHooks (be_cfg env) of None \<Rightarrow> qs = [] \<and> oc = skipped ''not_configured''
         | Some h \<Rightarrow> \<exists>q. qs = [q] \<and> sr_url q = oc_url h))"
proof -
  define out where "out = \<lparr>no_attemptedAt = now_iso env s, no_mode = bc_notifyMode (be_cfg env),
           no_trigger = Some (nullish trigger AutoTrigger), no_attemptIndex = None, no_claudeWebhook = None,
           no_openclaw = None, no_telegram = None\<rparr>"
  have fields: "no_mode out = bc_notifyMode (be_cfg env)" "no_attemptedAt out = now_iso env s"
    "no_claudeWebhook out = None" "no_openclaw out = None" by (simp_all add: out_def)
  show ?thesis
  proof (cases "bc_notifyMode (be_cfg env) = NotifyClaude")
    case True
    obtain w t k url where w: "notifyClaudeWebhook env job s = (Inr w, t)"
      "bs_requests t = bs_requests s @ replicate k (webhook_request env job url)"
      using webhook_result by blast
    obtain tg u where u: "maybeSendTelegramFallback env job w t = (Inr tg, u)"
      "bs_requests u = bs_requests t @ (if cr_status w = ChOk \<or> truthy_str (j_notifyUrl job) \<or>
         isBrokerOwnedRouting job then [] else telegram_requests env job)"
      using fallback_result by blast
    have "notifyJobComplete env job trigger s = persistOutcome env (j_id job)
        (out\<lparr>no_claudeWebhook := Some w, no_telegram := Some tg\<rparr>) u"
      using True w u unfolding notifyJobComplete_def Let_def out_def [symmetric]
      by (simp add: op_bind_def op_return_def)
    with True w(2) u(2) fields show ?thesis
      by (intro exI [of _ "out\<lparr>no_claudeWebhook := Some w, no_telegram := Some tg\<rparr>"] exI [of _ u])
         (simp only: if_True, auto)
  next
    case False
    obtain oc t qs where oc: "notifyOpenClawHooks env job s = (Inr oc, t)" "bs_requests t = bs_requests s @ qs"
      "case bc_openclawHooks (be_cfg env) of None \<Rightarrow> qs = [] \<and> oc = skipped ''not_configured''
       | Some h \<Rightarrow> \<exists>q. qs = [q] \<and> sr_url q = oc_url h"
      using openclaw_result by blast
    obtain tg u where u: "sendTelegram env job t = (Inr tg, u)" "bs_requests u = bs_requests t @ telegram_requests env job"
      using sendTelegram_result by blast
    have "notifyJobComplete env job trigger s = persistOutcome env (j_id job)
        (out\<lparr>no_openclaw := Some oc, no_telegram := Some tg\<rparr>) u"
      using False oc u unfolding notifyJobComplete_def Let_def out_def [symmetric]
      by (simp add: op_bind_def op_return_def)
    with False oc(2,3) u(2) fields show ?thesis
      by (intro exI [of _ "out\<lparr>no_openclaw := Some oc, no_telegram := Some tg\<rparr>"] exI [of _ u]) auto
  qed
qed

section \<open>The record of the attempts\<close>

lemma job_core_with_outcome [simp]: "job_core (with_outcome j out) = job_core j"
  "j_id (with_outcome j out) = j_id j"
  by (simp_all add: job_core_def with_outcome_def)

context job_relation
begin

lemma fetch_guar: "guar R env (fetchWithTimeout req)"
proof (rule guarI)
  fix s :: bridge_state and r s'
  let ?s0 = "s\<lparr>bs_requests := bs_requests s @ [req]\<rparr>"
  assume ok: "sane R env s" and run: "fetchWithTimeout req s = (r, s')"
  have a: "moves R env s ?s0" by (rule moves_frame) (simp_all add: rel_refl)
  have b: "moves R env ?s0 (world_step ?s0)"
    using moves_sane [OF a ok] by (rule world_step_moves)
  have "moves R env (world_step ?s0) s'"
    by (rule moves_frame) (use run in \<open>auto simp: rel_refl fetchWithTimeout_def Let_def split: list.splits\<close>)
  with a b show "moves R env s s'" using trans_moves by blast
qed

lemma webhook_attempts_guar: "guar R env (webhook_attempts req n delays)"
  by (induction delays arbitrary: n)
     (auto intro!: bind_guar fetch_guar return_guar sleep_guar)

lemma channels_guar:
  "guar R env (notifyClaudeWebhook env job)"
  "guar R env (notifyOpenClawHooks env job)"
  "guar R env (sendTelegram env job)"
  "guar R env (maybeSendTelegramFallback env job w)"
proof -
  show t: "guar R env (sendTelegram env job)"
    by (auto simp: sendTelegram_def intro!: bind_guar fetch_guar return_guar split: option.split)
  show "guar R env (notifyClaudeWebhook env job)"
    by (auto simp: notifyClaudeWebhook_def Let_def intro!: webhook_attempts_guar return_guar)
  show "guar R env (notifyOpenClawHooks env job)"
    by (auto simp: notifyOpenClawHooks_def intro!: bind_guar fetch_guar return_guar split: option.split)
  show "guar R env (maybeSendTelegramFallback env job w)"
    by (auto simp: maybeSendTelegramFallback_def intro!: t return_guar)
qed

end

definition retained :: "string \<Rightarrow> job_rel" where
  \<comment> \<open>the job with the id \<open>k\<close>, once terminal, stays on disk with its result\<close>
  "retained k i x y \<longleftrightarrow>
     (i = k \<longrightarrow> (\<forall>j. x = Some j \<longrightarrow> isTerminal (j_status j) \<longrightarrow> (\<exists>j'. y = Some j' \<and> job_core j' = job_core j)))"

interpretation retained: job_relation "retained k" for k
proof
  show "retained k i x x" for i x by (simp add: retained_def)
  show "retained k i x z" if "retained k i x y" "retained k i y z" for i x y z
    using that unfolding retained_def by (metis job_core_status)
qed

lemma persist_guar: "guar (retained k) env (persistOutcome env jobId out)"
proof (rule guarI)
  fix s r s'
  assume ok: "sane (retained k) env s" and run: "persistOutcome env jobId out s = (r, s')"
  obtain g s1 where g: "await_repo (getById (be_repo env) jobId) s = (g, s1)"
    by (cases "await_repo (getById (be_repo env) jobId) s")
  have "guar (retained k) env (await_repo (getById (be_repo env) jobId))"
    by (rule retained.read_guar [OF keeps_getById]) (metis repo.get_fails repo.get_reads sum.exhaust)
  then have m1: "moves (retained k) env s s1" using ok g by (rule guarD)
  show "moves (retained k) env s s'"
  proof (cases "\<exists>latest. g = Inr (Some latest)")
    case False
    with run g have "s' = s1"
      by (cases g) (auto simp: persistOutcome_def op_bind_def op_return_def split: option.splits)
    with m1 show ?thesis by simp
  next
    case True
    then obtain latest where latest: "g = Inr (Some latest)" by blast
    with run g have s': "s' = snd (await_repo (save (be_repo env) (with_outcome latest out)) s1)"
      by (simp add: persistOutcome_def op_bind_def)
    obtain q t where q: "getById (be_repo env) jobId (bs_repo s) = (Inr (Some latest), t)"
      using await_repo_Inr [OF g [unfolded latest]] by blast
    from repo.get_reads [OF q] have at: "bridge_job_at env s jobId = Some latest"
      by (simp add: bridge_job_at_def)
    then have lid: "j_id latest = jobId" by (simp add: bridge_job_at_def job_at_id)
    obtain v u where v: "save (be_repo env) (with_outcome latest out) (bs_repo s1) = (v, u)"
      by (cases "save (be_repo env) (with_outcome latest out) (bs_repo s1)")
    let ?s2 = "s1\<lparr>bs_repo := u\<rparr>"
    have "s' = world_step ?s2" using s' v by (cases v) (simp_all add: await_repo_def on_repo_def)
    moreover have m2: "moves (retained k) env s ?s2"
    proof -
      have "repo_ok (bs_repo s1)" using moves_sane [OF m1 ok] by (simp add: sane_def the_fs_def)
      then have "repo_ok u" using op_keepsD [OF keeps_save _ v] by blast
      then have "sane (retained k) env ?s2"
        using moves_sane [OF m1 ok] by (simp add: sane_def world_ok_def the_fs_def)
      moreover have "retained k i (bridge_job_at env s i) (bridge_job_at env ?s2 i)" for i
        using save_cases [OF v] movesD [OF m1, of i] at lid
        by (auto simp: bridge_job_at_def retained_def)
      ultimately show ?thesis by (simp add: moves_def)
    qed
    moreover have "moves (retained k) env ?s2 (world_step ?s2)"
      by (rule retained.world_step_moves [OF moves_sane [OF m2 ok]])
    ultimately show ?thesis using retained.trans_moves by blast
  qed
qed

lemma notify_guar: "guar (retained k) env (notifyJobComplete env job trigger)"
proof (rule guar_at)
  fix s
  show "\<exists>n. guar (retained k) env n \<and> notifyJobComplete env job trigger s = n s"
    unfolding notifyJobComplete_def Let_def
    by (rule exI, rule conjI [OF _ refl], intro retained.bind_guar persist_guar)
       (auto intro!: retained.bind_guar retained.channels_guar retained.return_guar)
qed

text \<open>
  A notification changes no result. However it interleaves with others that keep finished jobs
  on disk, notifying about any job leaves every terminal job with its status, its output and its
  request: at most the record of its notifications differs.
\<close>

theorem notification_keeps_results:
  assumes "notifyJobComplete env job trigger s = (r, s')" and "sane (retained k) env s"
    and "bridge_job_at env s k = Some j" and "isTerminal (j_status j)"
  shows "\<exists>j'. bridge_job_at env s' k = Some j' \<and> job_core j' = job_core j"
  using movesD [OF guarD [OF notify_guar assms(2,1)], of k] assms(3,4)
  unfolding retained_def by blast

text \<open>
  The record. When nothing interferes and the write succeeds, the outcome is stored with its
  number, it is the last entry of the history, and the history holds at most ten entries.
\<close>

theorem notification_recorded:
  assumes "bridge_job_at env s i = Some j" and "JOB_ID_PATTERN i" and "bs_world s = []"
    and "rs_writes (bs_repo s) = []" and "rs_ready (bs_repo s)"
  shows "\<exists>s' h. persistOutcome env i out s = (Inr (recorded j out), s') \<and>
    bridge_job_at env s' = (bridge_job_at env s)(i \<mapsto> with_outcome j out) \<and>
    j_notifyOutcome (with_outcome j out) = Some (recorded j out) \<and>
    j_notifyHistory (with_outcome j out) = Some h \<and> length h \<le> 10 \<and> last h = recorded j out \<and>
    h = last_n 10 (nullish (j_notifyHistory j) [] @ [recorded j out]) \<and>
    job_core (with_outcome j out) = job_core j"
proof -
  have regular: "isFile n" if "map_of (rs_fs (bs_repo s)) (job_file (be_repo env) i) = Some n" for n
    using assms(1) that by (auto simp: bridge_job_at_def job_at_def file_content_def isFile_def bind_eq_Some_conv
        split: node_kind.splits)
  have "\<exists>t. getById (be_repo env) i (bs_repo s) = (Inr (job_at (be_repo env) (bs_repo s) i), t)"
    by (rule getById_total [OF assms(2) regular])
  then obtain t where get: "getById (be_repo env) i (bs_repo s) = (Inr (Some j), t)"
    using assms(1) by (auto simp: bridge_job_at_def)
  note at_t = repo.get_reads [OF get]
  have t: "rs_writes t = []" "rs_ready t"
    using get assms(2,4,5)
    by (auto simp: getById_def op_bind_def jobPath_def op_return_def
        split: option.splits node_kind.splits prod.splits dest!: parseJob_frame)
  have jid: "j_id (with_outcome j out) = i" using assms(1) by (simp add: bridge_job_at_def job_at_id)
  obtain v where save: "save (be_repo env) (with_outcome j out) t = (Inr (with_outcome j out), v)"
    and v: "job_at (be_repo env) v = (job_at (be_repo env) t)(i \<mapsto> with_outcome j out)"
  proof -
    obtain q u where w: "writeJob (be_repo env) (with_outcome j out) t = (q, u)"
      by (cases "writeJob (be_repo env) (with_outcome j out) t")
    have "q = Inr ()"
      using w t assms(2) jid
      by (simp add: writeJob_def op_bind_def ensureReady_def jobPath_def op_return_def randomUUID_def
          next_write_def Let_def)
    with w have "save (be_repo env) (with_outcome j out) t = (Inr (with_outcome j out), u)"
      by (simp add: save_def op_bind_def op_return_def)
    moreover have "job_at (be_repo env) u = (job_at (be_repo env) t)(i \<mapsto> with_outcome j out)"
      using writeJob_result [OF w] \<open>q = Inr ()\<close> jid by simp
    ultimately show ?thesis by (rule that)
  qed
  have w0: "world_step x = x" if "bs_world x = []" for x using that by (simp add: world_step_def)
  have "persistOutcome env i out s = (Inr (recorded j out), s\<lparr>bs_repo := v\<rparr>)"
    using get save assms(3) by (simp add: persistOutcome_def op_bind_def await_repo_def on_repo_def w0)
  moreover have "bridge_job_at env (s\<lparr>bs_repo := v\<rparr>) = (bridge_job_at env s)(i \<mapsto> with_outcome j out)"
    using v at_t by (simp add: bridge_job_at_def)
  moreover have "j_notifyHistory (with_outcome j out) = Some (last_n 10 (nullish (j_notifyHistory j) [] @ [recorded j out]))"
    by (simp add: with_outcome_def js_slice_from_neg)
  moreover have "last (last_n 10 (nullish (j_notifyHistory j) [] @ [recorded j out])) = recorded j out"
    by (simp add: last_n_def)
  moreover have "j_notifyOutcome (with_outcome j out) = Some (recorded j out)"
    by (simp add: with_outcome_def)
  ultimately show ?thesis by simp
qed

lemma sample_job3:
  "case bridge_job_at sample_bridge sample_notify_state uuid3 of Some j \<Rightarrow> isTerminal (j_status j) | None \<Rightarrow> False"
  by code_simp

lemma sample_notify_sane: "sane R sample_bridge sample_notify_state"
proof -
  have "fs_ok (the_fs sample_notify_state)" by code_simp
  then show ?thesis by (simp add: sane_def world_ok_def sample_notify_state_def sample_bridge_state_def)
qed

theorem notification_keeps_results_witness:
  "\<exists>r s' j j'. notifyJobComplete sample_bridge sample_done None sample_notify_state = (r, s') \<and>
     bridge_job_at sample_bridge sample_notify_state uuid3 = Some j \<and>
     bridge_job_at sample_bridge s' uuid3 = Some j' \<and> job_core j' = job_core j"
proof -
  obtain j where j: "bridge_job_at sample_bridge sample_notify_state uuid3 = Some j" "isTerminal (j_status j)"
    using sample_job3 by (cases "bridge_job_at sample_bridge sample_notify_state uuid3") (auto simp del: isTerminal.simps)
  obtain r s' where run: "notifyJobComplete sample_bridge sample_done None sample_notify_state = (r, s')"
    by fastforce
  from notification_keeps_results [OF run sample_notify_sane j] run j show ?thesis by blast
qed

definition sample_outcome :: notify_outcome where
  "sample_outcome = \<lparr>no_attemptedAt = stamp 5, no_mode = NotifyClaude, no_trigger = Some AutoTrigger,
     no_attemptIndex = None, no_claudeWebhook = None, no_openclaw = None, no_telegram = None\<rparr>"

theorem notification_recorded_witness:
  "\<exists>s' j h. persistOutcome sample_bridge uuid3 sample_outcome sample_notify_state = (Inr (recorded j sample_outcome), s') \<and>
     j_notifyHistory (with_outcome j sample_outcome) = Some h \<and> length h \<le> 10 \<and> last h = recorded j sample_outcome"
proof -
  obtain j where j: "bridge_job_at sample_bridge sample_notify_state uuid3 = Some j"
    using sample_job3 by (cases "bridge_job_at sample_bridge sample_notify_state uuid3") auto
  have "JOB_ID_PATTERN uuid3" by code_simp
  moreover have "bs_world sample_notify_state = []" "rs_writes (bs_repo sample_notify_state) = []"
    "rs_ready (bs_repo sample_notify_state)"
    by (simp_all add: sample_notify_state_def sample_bridge_state_def)
  ultimately show ?thesis using notification_recorded [OF j, of sample_outcome] by blast
qed

text \<open>
  Without \<open>retained\<close>: when the retention pass deletes the job between the read and the write of the
  record, the write puts the deleted job back.
\<close>

lemma deleted_job_reappears:
  assumes "getById (be_repo env) i (bs_repo s) = (Inr (Some j), t)" and "bs_world s = [w]"
    and "job_in env (we_fs w (rs_fs t)) i = None"
    and "writeJob (be_repo env) (with_outcome j out) (t\<lparr>rs_fs := we_fs w (rs_fs t)\<rparr>) = (Inr (), u)"
  shows "bridge_job_at env (snd (persistOutcome env i out s)) i = Some (with_outcome j out)"
proof -
  have "j_id j = i"
    using repo.get_reads [OF assms(1)] job_at_id [of "be_repo env" "bs_repo s" i j] by simp
  moreover have "job_at (be_repo env) u =
      (job_at (be_repo env) (t\<lparr>rs_fs := we_fs w (rs_fs t)\<rparr>))(j_id (with_outcome j out) \<mapsto> with_outcome j out)"
    using repo.put_writes [OF assms(4)] .
  ultimately show ?thesis
    using assms(1,2,4)
    by (simp add: persistOutcome_def op_bind_def await_repo_def on_repo_def world_step_def save_def op_return_def
        bridge_job_at_def)
qed

end
