(* ===== verification/JobRunner.thy ===== *)
theory JobRunner
  imports BridgeSamples JobNotify
begin

text \<open>
  The job runner, \<open>src/jobs/job-runner.service.ts\<close>: claiming a queued job, executing it, starting
  and collecting sessions, cancelling, recovery after a restart and the retention pass.

  \<open>claimNext\<close> is serialised by \<open>claimMutex\<close>: the definition is the part behind the mutex, and
  while it awaits the repository everything but another claim may happen. A completion
  notification is only started here (\<open>bs_tracked\<close>); it runs as an operation of its own.
  The results of the command executions are a script of the state (\<open>bs_execResults\<close>, an \<open>Inl\<close>
  is a thrown error).
\<close>

definition RESTART_INTERRUPTED_MESSAGE :: string where
  "RESTART_INTERRUPTED_MESSAGE = ''Process was interrupted by service restart before completion.''"

definition TMUX_RUNNER_UNAVAILABLE_MESSAGE :: string where
  "TMUX_RUNNER_UNAVAILABLE_MESSAGE = ''executionMode=tmux requires tmux session runner support.''"

section \<open>Building blocks\<close>

definition transition_now ::
  "bridge_env \<Rightarrow> string \<Rightarrow> job_status list \<Rightarrow> (string \<Rightarrow> bridge_job \<Rightarrow> bridge_job) \<Rightarrow>
   (bool \<times> bridge_job option) bridge_op" where
  \<comment> \<open>the update calls \<open>new Date().toISOString()\<close>\<close>
  "transition_now env jobId expected upd =
     (\<lambda>s. await_repo (transition (be_repo env) jobId expected (upd (now_iso env s))) s)"

definition trackCompletionNotification :: "bridge_job \<Rightarrow> unit bridge_op" where
  "trackCompletionNotification job = op_modify (\<lambda>s. s\<lparr>bs_tracked := bs_tracked s @ [job]\<rparr>)"

definition track_transition :: "bool \<times> bridge_job option \<Rightarrow> bool bridge_op" where
  \<comment> \<open>notify when the transition was applied\<close>
  "track_transition t =
     (case t of
        (True, Some job) \<Rightarrow> op_bind (trackCompletionNotification job) (\<lambda>_. op_return True)
      | _ \<Rightarrow> op_return False)"

section \<open>The updates\<close>

definition claim_update :: "string \<Rightarrow> bridge_job \<Rightarrow> bridge_job" where
  "claim_update now j = j\<lparr>j_status := Running, j_startedAt := Some now, j_finishedAt := None,
     j_stdout := [], j_stderr := []\<rparr>"

definition requeue_update :: "bridge_job \<Rightarrow> bridge_job" where
  "requeue_update j = j\<lparr>j_status := Queued, j_startedAt := None, j_finishedAt := None\<rparr>"

definition result_update :: "execution_result \<Rightarrow> string \<Rightarrow> bridge_job \<Rightarrow> bridge_job" where
  "result_update res now j = j\<lparr>j_status := er_status res, j_finishedAt := Some now,
     j_stdout := er_stdout res, j_stderr := er_stderr res, j_exitCode := Some (er_exitCode res),
     j_execution := er_execution res\<rparr>"

definition session_update :: "tmux_session \<Rightarrow> bridge_job \<Rightarrow> bridge_job" where
  "session_update session j = j\<lparr>j_session := Some session\<rparr>"

definition interrupted_update :: "string \<Rightarrow> bridge_job \<Rightarrow> bridge_job" where
  "interrupted_update now j = j\<lparr>j_status := Failed, j_finishedAt := Some now, j_exitCode := Some None,
     j_stdout := [],
     j_stderr := (if j_stderr j \<noteq> [] then j_stderr j @ [CHR 0x0A] @ RESTART_INTERRUPTED_MESSAGE
                  else RESTART_INTERRUPTED_MESSAGE),
     j_execution := (j_execution j)\<lparr>em_errorType := Some ExecutionError, em_recoveredFromRestart := Some True\<rparr>\<rparr>"

definition failed_update :: "string \<Rightarrow> string \<Rightarrow> bridge_job \<Rightarrow> bridge_job" where
  "failed_update message now j = j\<lparr>j_status := Failed, j_finishedAt := Some now,
     j_exitCode := Some (nullish (j_exitCode j) None),
     j_stderr := (if j_stderr j \<noteq> [] then j_stderr j else ''Unexpected OMX execution error: '' @ message),
     j_execution := (j_execution j)\<lparr>em_errorType := Some ExecutionError\<rparr>\<rparr>"

section \<open>Claiming\<close>

definition requeueClaimedJob :: "bridge_env \<Rightarrow> string \<Rightarrow> unit bridge_op" where
  "requeueClaimedJob env jobId =
     op_bind (transition_now env jobId [Running] (\<lambda>_. requeue_update)) (\<lambda>_. op_return ())"

definition claim_candidate :: "bridge_config \<Rightarrow> string list \<Rightarrow> bridge_job list \<Rightarrow> bridge_job option" where
  \<comment> \<open>the decision between the listing and the transition\<close>
  "claim_candidate cfg inFlight jobs =
     (let queuedJobs = filter (\<lambda>j. j_status j = Queued) jobs;
          runningJobs = filter (\<lambda>j. j_status j = Running) jobs;
          externallyRunningCount = js_length (filter (\<lambda>j. j_id j \<notin> set inFlight) runningJobs)
      in if js_length inFlight + externallyRunningCount \<ge> bc_maxConcurrency cfg then None
         else find (\<lambda>j. j_id j \<notin> set inFlight) queuedJobs)"

definition set_add :: "string \<Rightarrow> string list \<Rightarrow> string list" where
  "set_add x xs = (if x \<in> set xs then xs else xs @ [x])"

definition claimNext :: "bridge_env \<Rightarrow> bridge_job option bridge_op" where
  "claimNext env = (\<lambda>s.
     if bs_shuttingDown s then (Inr None, s)
     else if js_length (bs_inFlight s) \<ge> bc_maxConcurrency (be_cfg env) then (Inr None, s)
     else op_bind (await_repo (listAll (be_repo env))) (\<lambda>jobs s1.
       if bs_shuttingDown s1 then (Inr None, s1)
       else
         (case claim_candidate (be_cfg env) (bs_inFlight s1) jobs of
            None \<Rightarrow> (Inr None, s1)
          | Some candidate \<Rightarrow>
              op_bind (transition_now env (j_id candidate) [Queued] claim_update) (\<lambda>(transitioned, job) s2.
                if \<not> transitioned \<or> job = None then (Inr None, s2)
                else if bs_shuttingDown s2
                then op_bind (requeueClaimedJob env (j_id (the job))) (\<lambda>_. op_return None) s2
                else (Inr job, s2\<lparr>bs_inFlight := set_add (j_id candidate) (bs_inFlight s2)\<rparr>)) s1)) s)"

definition tick_slots :: "bridge_env \<Rightarrow> bridge_state \<Rightarrow> int" where
  \<comment> \<open>how many runs \<open>tick\<close> starts\<close>
  "tick_slots env s =
     (if bs_shuttingDown s then 0 else max 0 (bc_maxConcurrency (be_cfg env) - js_length (bs_inFlight s)))"

section \<open>Executing\<close>

definition markRunningJobFailed :: "bridge_env \<Rightarrow> string \<Rightarrow> bridge_error \<Rightarrow> unit bridge_op" where
  "markRunningJobFailed env jobId e =
     op_bind (transition_now env jobId [Running] (failed_update (be_errorText env e))) (\<lambda>t.
     op_bind (track_transition t) (\<lambda>_. op_return ()))"

definition startTmuxJob :: "bridge_env \<Rightarrow> bridge_job \<Rightarrow> unit bridge_op" where
  "startTmuxJob env job =
     (if \<not> be_tmuxRunner env
      then markRunningJobFailed env (j_id job) (ExecFailure TMUX_RUNNER_UNAVAILABLE_MESSAGE)
      else op_catch
        (op_bind (tmux_start env job) (\<lambda>session.
         op_bind (transition_now env (j_id job) [Running] (\<lambda>_. session_update session)) (\<lambda>_. op_return ())))
        (markRunningJobFailed env (j_id job)))"

definition omx_execute :: "execution_result bridge_op" where
  "omx_execute = (\<lambda>s.
     let s1 = world_step s in
     case bs_execResults s1 of
       [] \<Rightarrow> (Inl (ExecFailure []), s1)
     | Inl e # rs \<Rightarrow> (Inl (ExecFailure e), s1\<lparr>bs_execResults := rs\<rparr>)
     | Inr res # rs \<Rightarrow> (Inr res, s1\<lparr>bs_execResults := rs\<rparr>))"

definition executeJob :: "bridge_env \<Rightarrow> bridge_job \<Rightarrow> unit bridge_op" where
  "executeJob env job =
     op_bind (await_repo (getById (be_repo env) (j_id job))) (\<lambda>found s.
       case found of
         None \<Rightarrow> (Inr (), s)
       | Some currentJob \<Rightarrow>
           (if j_status currentJob \<noteq> Running then (Inr (), s)
            else if bs_shuttingDown s then requeueClaimedJob env (j_id currentJob) s
            else if j_executionMode currentJob = Some TmuxMode then startTmuxJob env currentJob s
            else
              op_finally
                (op_catch
                  (op_bind omx_execute (\<lambda>result.
                   op_bind (transition_now env (j_id job) [Running] (result_update result)) (\<lambda>t.
                   op_bind (track_transition t) (\<lambda>_. op_return ()))))
                  (markRunningJobFailed env (j_id job)))
                (\<lambda>t. t\<lparr>bs_controllers := AList.delete (j_id job) (bs_controllers t)\<rparr>)
                (s\<lparr>bs_controllers := AList.update (j_id job) False (bs_controllers s)\<rparr>)))"

section \<open>Sessions\<close>

definition collect_update :: "execution_result \<times> tmux_session \<Rightarrow> string \<Rightarrow> bridge_job \<Rightarrow> bridge_job" where
  "collect_update c now j = session_update (snd c) (result_update (fst c) now j)"

definition collectTmuxJob :: "bridge_env \<Rightarrow> bridge_job \<Rightarrow> bool bridge_op" where
  "collectTmuxJob env job =
     (if \<not> be_tmuxRunner env then op_return False
      else op_bind (tmux_collect env job) (\<lambda>collected.
        case collected of
          None \<Rightarrow> op_return False
        | Some c \<Rightarrow>
            op_bind (transition_now env (j_id job) [Running] (collect_update c)) track_transition))"

definition performRunningTmuxReconciliation :: "bridge_env \<Rightarrow> int bridge_op" where
  "performRunningTmuxReconciliation env =
     op_bind (await_repo (listByStatus (be_repo env) Running)) (\<lambda>runningJobs.
     op_bind (op_map (collectTmuxJob env) (filter (\<lambda>j. j_executionMode j = Some TmuxMode) runningJobs))
       (\<lambda>done. op_return (js_length (filter id done))))"

definition reconcileRunningTmuxJobs :: "bridge_env \<Rightarrow> bool \<Rightarrow> int bridge_op" where
  \<comment> \<open>the flag: another reconciliation is in progress and is only waited for\<close>
  "reconcileRunningTmuxJobs env inProgress =
     (if inProgress then op_bind awaiting (\<lambda>_. op_return 0) else performRunningTmuxReconciliation env)"

definition runOnce :: "bridge_env \<Rightarrow> bool \<Rightarrow> bool bridge_op" where
  \<comment> \<open>the \<open>tick\<close> at the end only starts further runs\<close>
  "runOnce env inProgress = (\<lambda>s.
     case reconcileRunningTmuxJobs env inProgress s of
       (Inl e, s1) \<Rightarrow> (if bs_shuttingDown s1 then (Inr False, s1) else (Inl e, s1))
     | (Inr reconciled, s1) \<Rightarrow>
         (if bs_shuttingDown s1 then (Inr (reconciled > 0), s1)
          else op_bind (claimNext env) (\<lambda>claimed.
            case claimed of
              None \<Rightarrow> op_return (reconciled > 0)
            | Some job \<Rightarrow>
                op_finally (op_bind (executeJob env job) (\<lambda>_. op_return True))
                  (\<lambda>t. t\<lparr>bs_inFlight := filter (\<lambda>i. i \<noteq> j_id job) (bs_inFlight t)\<rparr>)) s1))"

definition runner_cancel :: "bridge_env \<Rightarrow> string \<Rightarrow> bool bridge_op" where
  "runner_cancel env jobId =
     op_bind (await_repo (getById (be_repo env) jobId)) (\<lambda>found s.
       case found of
         Some job \<Rightarrow>
           (if j_executionMode job = Some TmuxMode \<and> j_session job \<noteq> None
            then op_bind (if be_tmuxRunner env then tmux_cancel env job else op_return None) (\<lambda>session.
                   case session of
                     None \<Rightarrow> op_return False
                   | Some t \<Rightarrow>
                       op_bind (transition_now env jobId [Running] (\<lambda>_. session_update t)) (\<lambda>_. op_return True)) s
            else
              (case map_of (bs_controllers s) jobId of
                 None \<Rightarrow> (Inr False, s)
               | Some _ \<Rightarrow> (Inr True, s\<lparr>bs_controllers := AList.update jobId True (bs_controllers s)\<rparr>)))
       | None \<Rightarrow>
           (case map_of (bs_controllers s) jobId of
              None \<Rightarrow> (Inr False, s)
            | Some _ \<Rightarrow> (Inr True, s\<lparr>bs_controllers := AList.update jobId True (bs_controllers s)\<rparr>)))"

section \<open>Recovery and retention\<close>

definition recover_job :: "bridge_env \<Rightarrow> bridge_job \<Rightarrow> unit bridge_op" where
  \<comment> \<open>the body of the loop of \<open>recoverInterruptedJobs\<close>\<close>
  "recover_job env job =
     (let fail = op_bind (transition_now env (j_id job) [Running] interrupted_update) (\<lambda>_. op_return ()) in
      if j_executionMode job = Some TmuxMode
      then op_bind (collectTmuxJob env job) (\<lambda>collected.
             if collected then op_return ()
             else if map_option ts_status (j_session job) = Some TRunning then op_return ()
             else fail)
      else fail)"

definition recoverInterruptedJobs :: "bridge_env \<Rightarrow> unit bridge_op" where
  "recoverInterruptedJobs env =
     op_bind (await_repo (listByStatus (be_repo env) Running)) (op_foreach (recover_job env))"

definition remove_deleted_artifacts :: "bridge_env \<Rightarrow> cleanup_entry \<Rightarrow> unit bridge_op" where
  "remove_deleted_artifacts env e =
     (if ce_executionMode e \<noteq> TmuxMode \<or> \<not> truthy_str (ce_sessionName e) \<or> \<not> be_tmuxRunner env then op_return ()
      else op_catch (op_bind (removeArtifacts env (ce_jobId e) (the (ce_sessionName e))) (\<lambda>_. op_return ()))
             (\<lambda>_. op_return ()))"

definition performTerminalCleanup :: "bridge_env \<Rightarrow> unit bridge_op" where
  "performTerminalCleanup env =
     op_bind (await_repo (cleanupTerminalJobs (be_repo env) (bc_jobRetentionDays (be_cfg env))
                (bc_maxTerminalJobs (be_cfg env)))) (\<lambda>result.
     op_bind (op_foreach (remove_deleted_artifacts env) (cl_deletedEntries result)) (\<lambda>_.
       if \<not> be_tmuxRunner env then op_return ()
       else op_catch
         (op_bind (await_repo (listAll (be_repo env))) (\<lambda>remainingJobs.
          op_bind (await_repo (listDurableJobIds (be_repo env))) (\<lambda>durableJobIds.
          op_bind (cleanupStaleOrphans env remainingJobs (bc_jobRetentionDays (be_cfg env)) durableJobIds)
            (\<lambda>_. op_return ()))))
         (\<lambda>_. op_return ())))"

fun reconcile_notifications :: "bridge_env \<Rightarrow> bridge_job list \<Rightarrow> int \<Rightarrow> int bridge_op" where
  "reconcile_notifications env [] attempted = op_return attempted"
| "reconcile_notifications env (job # jobs) attempted = (\<lambda>s.
     if bs_shuttingDown s then (Inr attempted, s)
     else (case notifyJobComplete env job None s of
             (Inl _, s1) \<Rightarrow> reconcile_notifications env jobs attempted s1
           | (Inr _, s1) \<Rightarrow> reconcile_notifications env jobs (attempted + 1) s1))"

definition reconcileTerminalNotifications :: "bridge_env \<Rightarrow> int bridge_op" where
  "reconcileTerminalNotifications env =
     op_bind (await_repo (listAll (be_repo env))) (\<lambda>jobs.
       reconcile_notifications env
         (filter (\<lambda>j. isTerminal (j_status j) \<and> j_notifyOutcome j = None) jobs) 0)"

section \<open>Start and shutdown\<close>

definition runner_onModuleInit :: "bridge_env \<Rightarrow> unit bridge_op" where
  \<comment> \<open>behind the acquired instance lock and before the timers are set\<close>
  "runner_onModuleInit env =
     op_bind (op_modify (\<lambda>s. s\<lparr>bs_shuttingDown := False\<rparr>)) (\<lambda>_.
     op_bind (await_repo (ensureReady (be_repo env))) (\<lambda>_.
     op_bind (if be_tmuxRunner env then tmux_ensureReady env else op_return ()) (\<lambda>_.
     op_bind (recoverInterruptedJobs env) (\<lambda>_. performTerminalCleanup env))))"

definition pending_labels :: "bool \<Rightarrow> bool \<Rightarrow> bool \<Rightarrow> bool \<Rightarrow> string list" where
  "pending_labels claimSettled inFlightSettled reconciliationSettled cleanupSettled =
     (if \<not> claimSettled then [''claim''] else []) @
     (if \<not> inFlightSettled then [''in-flight runs''] else []) @
     (if \<not> reconciliationSettled then [''tmux reconciliation''] else []) @
     (if \<not> cleanupSettled then [''cleanup''] else [])"

definition abort_controllers :: "bridge_state \<Rightarrow> bridge_state" where
  "abort_controllers s = s\<lparr>bs_controllers := map (\<lambda>(i, _). (i, True)) (bs_controllers s)\<rparr>"

definition runner_onModuleDestroy ::
  "bool \<Rightarrow> bool \<Rightarrow> bool \<Rightarrow> bool \<Rightarrow> (bool \<times> string list) bridge_op" where
  \<comment> \<open>the flags say which of the captured work settles within the time limit; the result says
     whether the instance lock is released at once, and names the work it is kept for\<close>
  "runner_onModuleDestroy claimSettled inFlightSettled reconciliationSettled cleanupSettled =
     op_bind (op_modify (\<lambda>s. abort_controllers (s\<lparr>bs_shuttingDown := True\<rparr>))) (\<lambda>_.
     op_bind awaiting (\<lambda>_.
     op_bind (op_modify (\<lambda>s. (abort_controllers s)\<lparr>bs_controllers := []\<rparr>)) (\<lambda>_.
     op_bind awaiting (\<lambda>_.
       if claimSettled \<and> inFlightSettled \<and> reconciliationSettled \<and> cleanupSettled
       then op_return (True, [])
       else op_return (False, pending_labels claimSettled inFlightSettled reconciliationSettled cleanupSettled)))))"

end
