(* ===== verification/JobsService.thy ===== *)
theory JobsService
  imports JobRunner
begin

text \<open>
  The job API, \<open>src/jobs/jobs.service.ts\<close>: creating a job (idempotent by request id, bounded by
  the number of active jobs), completing it from a callback, cancelling it, repeating its
  notification and reading it.

  \<open>createJob\<close> is serialised by \<open>createMutex\<close>: the definition is the part behind the mutex.
  \<open>trigger()\<close> only starts runs of the job runner, which are operations of their own.
\<close>

section \<open>Inputs\<close>

text \<open>
  The source of a request may be the legacy name \<open>'synapse'\<close>, which the code casts in.
\<close>

datatype create_source = Source job_source | Synapse

record create_dto =
  cd_prompt :: string
  cd_executionMode :: "execution_mode option"
  cd_cwd :: "string option"
  cd_requestId :: "string option"
  cd_originRoutingKey :: "string option"
  cd_source :: "create_source option"
  cd_sourceName :: "string option"
  cd_metadata :: "(string \<times> json) list option"
  cd_notifyUrl :: "string option"

text \<open>
  A property of a callback body: the object does not have it, has it with the value \<open>undefined\<close>
  (as every declared field of an instance of a DTO class), or has it with a value.
\<close>

datatype 'a field = Absent | Undefined | Given 'a

fun own :: "'a field \<Rightarrow> bool" where
  \<comment> \<open>\<open>Object.prototype.hasOwnProperty.call\<close>\<close>
  "own Absent = False"
| "own Undefined = True"
| "own (Given _) = True"

fun given :: "'a field \<Rightarrow> 'a option" where
  "given (Given x) = Some x"
| "given _ = None"

record callback_execution =
  cx_durationMs :: "int field"
  cx_timedOut :: "bool field"
  cx_outputTruncated :: "bool field"
  cx_errorType :: "error_type field"

record callback_dto =
  cb_status :: job_status
  cb_stdout :: "string field"
  cb_stderr :: "string field"
  cb_exitCode :: "int option field"
  cb_execution :: "callback_execution field"

record job_stats =
  st_queuedCount :: int
  st_runningCount :: int
  st_activeCount :: int
  st_terminalCount :: int
  st_maxActiveJobs :: int
  st_maxConcurrency :: int
  st_oldestQueuedAgeMs :: "int option option"

section \<open>Fingerprints\<close>

definition normalizeLegacySource :: "create_dto \<Rightarrow> create_dto" where
  "normalizeLegacySource input =
     (if cd_source input \<noteq> Some Synapse then input
      else input\<lparr>cd_source := Some (Source Channel),
                 cd_sourceName := Some (nullish (cd_sourceName input) ''claude-synapse'')\<rparr>)"

fun source_value :: "create_source \<Rightarrow> string" where
  "source_value (Source s) = source_name s"
| "source_value Synapse = ''synapse''"

fun known_source :: "create_source \<Rightarrow> job_source" where
  \<comment> \<open>the source of a normalised input; the second case does not arise there\<close>
  "known_source (Source s) = s"
| "known_source Synapse = Channel"

definition hashStableJson :: "bridge_env \<Rightarrow> json \<Rightarrow> string" where
  "hashStableJson env v = be_sha256 env (stableStringify v)"

definition fingerprint_payload :: "create_dto \<Rightarrow> bool \<Rightarrow> json" where
  "fingerprint_payload input includeExecutionMode = object_of (
     [(''prompt'', Some (JStr (cd_prompt input)))] @
     (if includeExecutionMode
      then [(''executionMode'', Some (JStr (mode_name (nullish (cd_executionMode input) ExecMode))))] else []) @
     [(''cwd'', map_option JStr (cd_cwd input)),
      (''notifyUrl'', map_option JStr (cd_notifyUrl input)),
      (''originRoutingKey'', map_option JStr (cd_originRoutingKey input)),
      (''source'', map_option (JStr \<circ> source_value) (cd_source input)),
      (''sourceName'', map_option JStr (cd_sourceName input)),
      (''metadata'', map_option JObj (cd_metadata input))])"

definition buildRequestFingerprintFromPayload :: "bridge_env \<Rightarrow> create_dto \<Rightarrow> bool \<Rightarrow> string" where
  "buildRequestFingerprintFromPayload env input includeExecutionMode =
     hashStableJson env (fingerprint_payload input includeExecutionMode)"

definition buildRequestFingerprint :: "bridge_env \<Rightarrow> create_dto \<Rightarrow> string option" where
  "buildRequestFingerprint env input =
     (if \<not> truthy_str (cd_requestId input) then None
      else Some (buildRequestFingerprintFromPayload env input True))"

definition payload_of_job :: "bridge_job \<Rightarrow> create_dto" where
  \<comment> \<open>\<open>existingPayload\<close>\<close>
  "payload_of_job j = \<lparr>cd_prompt = j_prompt j, cd_executionMode = j_executionMode j, cd_cwd = j_cwd j,
     cd_requestId = None, cd_originRoutingKey = j_originRoutingKey j,
     cd_source = map_option Source (j_source j), cd_sourceName = j_sourceName j,
     cd_metadata = j_metadata j, cd_notifyUrl = j_notifyUrl j\<rparr>"

definition fingerprint_matches :: "bridge_env \<Rightarrow> bridge_job \<Rightarrow> create_dto \<Rightarrow> bool" where
  "fingerprint_matches env existingJob incomingInput =
     (if \<not> truthy_str (j_requestId existingJob) \<or> \<not> truthy_str (cd_requestId incomingInput) then True
      else
        (let existingPayload = payload_of_job existingJob;
             fp = buildRequestFingerprintFromPayload env;
             incomingCurrent = fp incomingInput True;
             existingCurrent = fp existingPayload True
         in if j_requestFingerprint existingJob = Some incomingCurrent \<or> existingCurrent = incomingCurrent
            then True
            else
              (let incomingLegacy = fp incomingInput False;
                   existingLegacy = fp existingPayload False
               in nullish (j_executionMode existingJob) ExecMode =
                    nullish (cd_executionMode incomingInput) ExecMode \<and>
                  (\<not> truthy_str (j_requestFingerprint existingJob) \<or>
                   j_requestFingerprint existingJob = Some existingLegacy) \<and>
                  incomingLegacy = existingLegacy)))"

definition assertRequestFingerprintMatches :: "bridge_env \<Rightarrow> bridge_job \<Rightarrow> create_dto \<Rightarrow> unit bridge_op" where
  "assertRequestFingerprintMatches env existingJob incomingInput =
     (if fingerprint_matches env existingJob incomingInput then op_return ()
      else op_fail (ConflictException
        (''requestId '' @ nullish (j_requestId existingJob) [] @ '' for source '' @
         nullish (map_option source_name (j_source existingJob)) ''default'' @
         '' already belongs to a different job payload'')))"

section \<open>Creating a job\<close>

definition assertAllowedCwd :: "bridge_env \<Rightarrow> string option \<Rightarrow> string option bridge_op" where
  "assertAllowedCwd env cwd =
     op_bind awaiting (\<lambda>_.
       case resolveAllowedExecutionCwd (be_realpath env) (be_cwd env) cwd (bc_allowedCwdPrefixes (be_cfg env)) of
         Inl e \<Rightarrow> op_fail (BadCwd e)
       | Inr c \<Rightarrow> op_return c)"

definition same_request_key :: "create_dto \<Rightarrow> bridge_job \<Rightarrow> bool" where
  "same_request_key input job \<longleftrightarrow>
     j_requestId job = cd_requestId input \<and>
     map_option source_name (j_source job) = map_option source_value (cd_source input)"

definition findExistingRequestJob :: "bridge_env \<Rightarrow> create_dto \<Rightarrow> bridge_job option bridge_op" where
  "findExistingRequestJob env input =
     (if \<not> truthy_str (cd_requestId input) then op_return None
      else op_bind (await_repo (listAll (be_repo env)))
             (\<lambda>jobs. op_return (find (same_request_key input) jobs)))"

definition padStart :: "nat \<Rightarrow> char \<Rightarrow> string \<Rightarrow> string" where
  "padStart n c s = replicate (n - length s) c @ s"

definition nextQueueOrder :: "string bridge_op" where
  "nextQueueOrder = (\<lambda>s.
     let q = Suc (bs_queueSequence s)
     in (Inr (dec_int (now_ms s) @ ''-'' @ padStart 6 (CHR ''0'') (dec_nat q)), s\<lparr>bs_queueSequence := q\<rparr>))"

definition new_job :: "bridge_env \<Rightarrow> create_dto \<Rightarrow> string option \<Rightarrow> string \<Rightarrow> string \<Rightarrow> string \<Rightarrow> bridge_job" where
  "new_job env input requestFingerprint i queueOrder now = \<lparr>
     j_id = i, j_prompt = cd_prompt input,
     j_executionMode = Some (nullish (cd_executionMode input) ExecMode),
     j_cwd = cd_cwd input, j_queueOrder = Some queueOrder, j_requestId = cd_requestId input,
     j_requestFingerprint = requestFingerprint, j_originRoutingKey = cd_originRoutingKey input,
     j_source = map_option known_source (cd_source input), j_sourceName = cd_sourceName input,
     j_metadata = cd_metadata input, j_notifyUrl = cd_notifyUrl input, j_status = Queued,
     j_createdAt = now, j_startedAt = None, j_finishedAt = None, j_exitCode = Some None,
     j_stdout = [], j_stderr = [],
     j_execution = \<lparr>em_command = bc_omxCommand (be_cfg env), em_timeoutMs = bc_jobTimeoutMs (be_cfg env),
        em_maxOutputChars = bc_maxOutputChars (be_cfg env), em_durationMs = None, em_timedOut = None,
        em_outputTruncated = None, em_errorType = None, em_recoveredFromRestart = None\<rparr>,
     j_session = None, j_notifyOutcome = None, j_notifyHistory = None\<rparr>"

definition create_new :: "bridge_env \<Rightarrow> create_dto \<Rightarrow> string option \<Rightarrow> bridge_job bridge_op" where
  \<comment> \<open>the part behind the lookup\<close>
  "create_new env input requestFingerprint =
     op_bind (await_repo (countActive (be_repo env))) (\<lambda>activeCount.
       if activeCount \<ge> bc_maxActiveJobs (be_cfg env) then op_fail (TooManyRequests activeCount)
       else
         op_bind (on_repo (randomUUID (be_repo env))) (\<lambda>i.
         op_bind nextQueueOrder (\<lambda>queueOrder s.
           await_repo (save (be_repo env) (new_job env input requestFingerprint i queueOrder (now_iso env s))) s)))"

definition createJob :: "bridge_env \<Rightarrow> create_dto \<Rightarrow> bridge_job bridge_op" where
  "createJob env input =
     (let sourceNormalizedInput = normalizeLegacySource input in
      op_bind (assertAllowedCwd env (cd_cwd sourceNormalizedInput)) (\<lambda>cwd.
      let normalizedInput = sourceNormalizedInput\<lparr>cd_cwd := cwd\<rparr>;
          requestFingerprint = buildRequestFingerprint env normalizedInput
      in op_bind (findExistingRequestJob env normalizedInput) (\<lambda>existing.
           case existing of
             Some existingJob \<Rightarrow>
               op_bind (assertRequestFingerprintMatches env existingJob normalizedInput)
                 (\<lambda>_. op_return existingJob)
           | None \<Rightarrow> create_new env normalizedInput requestFingerprint)))"

section \<open>Reading\<close>

definition listJobs :: "bridge_env \<Rightarrow> job_status option \<Rightarrow> bridge_job list bridge_op" where
  "listJobs env status =
     (case status of
        Some st \<Rightarrow> await_repo (listByStatus (be_repo env) st)
      | None \<Rightarrow> await_repo (listAll (be_repo env)))"

definition older :: "repo_config \<Rightarrow> bridge_job \<Rightarrow> bridge_job \<Rightarrow> bool" where
  \<comment> \<open>\<open>Date.parse(a.createdAt) < Date.parse(b.createdAt)\<close>, false when one is \<open>NaN\<close>\<close>
  "older cfg a b =
     (case (rc_parseDate cfg (j_createdAt a), rc_parseDate cfg (j_createdAt b)) of
        (Some x, Some y) \<Rightarrow> x < y | _ \<Rightarrow> False)"

definition oldest_queued :: "repo_config \<Rightarrow> bridge_job list \<Rightarrow> bridge_job option" where
  "oldest_queued cfg queuedJobs =
     foldl (\<lambda>oldest job. case oldest of None \<Rightarrow> Some job | Some o' \<Rightarrow> if older cfg job o' then Some job else Some o')
       None queuedJobs"

definition getStats :: "bridge_env \<Rightarrow> job_stats bridge_op" where
  "getStats env =
     op_bind (await_repo (listAll (be_repo env))) (\<lambda>jobs s.
       let queuedJobs = filter (\<lambda>j. j_status j = Queued) jobs;
           runningCount = js_length (filter (\<lambda>j. j_status j = Running) jobs)
       in (Inr \<lparr>st_queuedCount = js_length queuedJobs, st_runningCount = runningCount,
            st_activeCount = js_length queuedJobs + runningCount,
            st_terminalCount = js_length (filter (\<lambda>j. isTerminal (j_status j)) jobs),
            st_maxActiveJobs = bc_maxActiveJobs (be_cfg env),
            st_maxConcurrency = bc_maxConcurrency (be_cfg env),
            st_oldestQueuedAgeMs =
              (case oldest_queued (be_repo env) queuedJobs of
                 None \<Rightarrow> None
               | Some j \<Rightarrow> Some (map_option (\<lambda>t. now_ms s - t) (rc_parseDate (be_repo env) (j_createdAt j))))\<rparr>, s))"

definition not_found :: "string \<Rightarrow> bridge_error" where
  "not_found i = NotFoundException (''Job '' @ i @ '' not found'')"

definition getJobOrThrow :: "bridge_env \<Rightarrow> string \<Rightarrow> bridge_job bridge_op" where
  "getJobOrThrow env i =
     op_bind (await_repo (getById (be_repo env) i)) (\<lambda>job.
       case job of None \<Rightarrow> op_fail (not_found i) | Some j \<Rightarrow> op_return j)"

definition session_summary_of :: "bridge_job \<Rightarrow> session_summary" where
  "session_summary_of job = \<lparr>ss_jobId = j_id job, ss_jobStatus = j_status job,
     ss_executionMode = nullish (j_executionMode job) ExecMode,
     ss_attachCommand = map_option ts_attachCommand (j_session job), ss_session = j_session job\<rparr>"

definition getJobSessionOrThrow :: "bridge_env \<Rightarrow> string \<Rightarrow> session_summary bridge_op" where
  "getJobSessionOrThrow env i = op_bind (getJobOrThrow env i) (\<lambda>job. op_return (session_summary_of job))"

section \<open>Completion by a callback\<close>

definition projectCallbackExecution :: "callback_execution field \<Rightarrow> exec_meta \<Rightarrow> exec_meta" where
  \<comment> \<open>\<open>{ ...job.execution, ...patch }\<close>\<close>
  "projectCallbackExecution execution e =
     (case given execution of
        None \<Rightarrow> e
      | Some x \<Rightarrow> e\<lparr>
          em_durationMs := (case given (cx_durationMs x) of None \<Rightarrow> em_durationMs e | v \<Rightarrow> v),
          em_timedOut := (case given (cx_timedOut x) of None \<Rightarrow> em_timedOut e | v \<Rightarrow> v),
          em_outputTruncated := (case given (cx_outputTruncated x) of None \<Rightarrow> em_outputTruncated e | v \<Rightarrow> v),
          em_errorType := (case given (cx_errorType x) of None \<Rightarrow> em_errorType e | v \<Rightarrow> v)\<rparr>)"

definition callback_update :: "callback_dto \<Rightarrow> string \<Rightarrow> bridge_job \<Rightarrow> bridge_job" where
  "callback_update input now job = job\<lparr>
     j_status := cb_status input,
     j_finishedAt := Some now,
     j_exitCode := Some (if own (cb_exitCode input) then nullish (given (cb_exitCode input)) None
                         else nullish (j_exitCode job) None),
     j_stdout := nullish (given (cb_stdout input)) (j_stdout job),
     j_stderr := nullish (given (cb_stderr input)) (j_stderr job),
     j_execution := projectCallbackExecution (cb_execution input) (j_execution job)\<rparr>"

definition differs :: "'a field \<Rightarrow> 'a option \<Rightarrow> bool" where
  "differs f v \<longleftrightarrow> own f \<and> v \<noteq> given f"

definition isEquivalentCallbackReplay :: "bridge_job \<Rightarrow> callback_dto \<Rightarrow> bool" where
  "isEquivalentCallbackReplay job input =
     (if j_status job \<noteq> cb_status input then False
      else if differs (cb_stdout input) (Some (j_stdout job)) then False
      else if differs (cb_stderr input) (Some (j_stderr job)) then False
      else if differs (cb_exitCode input) (j_exitCode job) then False
      else
        (case given (cb_execution input) of
           None \<Rightarrow> True
         | Some x \<Rightarrow>
             \<not> differs (cx_durationMs x) (em_durationMs (j_execution job)) \<and>
             \<not> differs (cx_timedOut x) (em_timedOut (j_execution job)) \<and>
             \<not> differs (cx_outputTruncated x) (em_outputTruncated (j_execution job)) \<and>
             \<not> differs (cx_errorType x) (em_errorType (j_execution job))))"

definition completeJobFromCallback :: "bridge_env \<Rightarrow> string \<Rightarrow> callback_dto \<Rightarrow> bridge_job bridge_op" where
  "completeJobFromCallback env i input =
     op_bind (transition_now env i [Queued, Running] (callback_update input)) (\<lambda>(transitioned, job).
       case job of
         None \<Rightarrow> op_fail (not_found i)
       | Some j \<Rightarrow>
           (if \<not> transitioned then
              (if isTerminal (j_status j) \<and> isEquivalentCallbackReplay j input then op_return j
               else op_fail (ConflictException (''Callback conflicts with stored '' @ status_name (j_status j) @
                      '' result for job '' @ i)))
            else
              op_bind (runner_cancel env i) (\<lambda>_.
              op_bind (trackCompletionNotification j) (\<lambda>_. op_return j))))"

section \<open>Retrying a notification and cancelling\<close>

definition triggerNotifyRetry :: "bridge_env \<Rightarrow> string \<Rightarrow> bridge_job bridge_op" where
  "triggerNotifyRetry env i =
     op_bind (getJobOrThrow env i) (\<lambda>job.
       if \<not> isTerminal (j_status job) then op_fail (ConflictException (''Job '' @ i @ '' is not terminal''))
       else op_bind (notifyJobComplete env job (Some ManualTrigger)) (\<lambda>_. getJobOrThrow env i))"

definition cancelled_update :: "tmux_session option \<Rightarrow> string \<Rightarrow> bridge_job \<Rightarrow> bridge_job" where
  "cancelled_update session now j = j\<lparr>
     j_session := (case session of None \<Rightarrow> j_session j | v \<Rightarrow> v),
     j_status := Cancelled, j_finishedAt := Some now, j_exitCode := Some (nullish (j_exitCode j) None),
     j_stderr := (if j_stderr j \<noteq> [] then j_stderr j else ''Cancelled by API request''),
     j_execution := (j_execution j)\<lparr>em_errorType := Some CancelledError\<rparr>\<rparr>"

definition already :: "string \<Rightarrow> bridge_job \<Rightarrow> bridge_error" where
  "already i j = ConflictException (''Job '' @ i @ '' is already '' @ status_name (j_status j))"

definition cancel_transition :: "bridge_env \<Rightarrow> string \<Rightarrow> bridge_job \<Rightarrow> bool \<Rightarrow> bridge_job bridge_op" where
  \<comment> \<open>the part behind the cancellation of a session\<close>
  "cancel_transition env i jobToCancel runnerCancelAlreadyRequested =
     op_bind (transition_now env i [Queued, Running] (cancelled_update (j_session jobToCancel)))
       (\<lambda>(transitioned, job).
         case job of
           None \<Rightarrow> op_fail (not_found i)
         | Some j \<Rightarrow>
             (if \<not> transitioned
              then (if j_status j = Cancelled then op_return j else op_fail (already i j))
              else
                op_bind (if runnerCancelAlreadyRequested then op_return True else runner_cancel env i) (\<lambda>_.
                op_bind (trackCompletionNotification j) (\<lambda>_. op_return j))))"

definition cancelJob :: "bridge_env \<Rightarrow> string \<Rightarrow> bridge_job bridge_op" where
  "cancelJob env i =
     op_bind (getJobOrThrow env i) (\<lambda>job.
       if j_status job = Cancelled then op_return job
       else if isTerminal (j_status job) then op_fail (already i job)
       else if j_executionMode job = Some TmuxMode \<and> j_status job = Running \<and> j_session job \<noteq> None
       then op_bind (runner_cancel env i) (\<lambda>cancelled.
              if \<not> cancelled
              then op_fail (ConflictException (''Job '' @ i @ '' tmux session could not be cancelled''))
              else op_bind (getJobOrThrow env i) (\<lambda>jobToCancel. cancel_transition env i jobToCancel True))
       else cancel_transition env i job False)"

end
