(* ===== verification/TmuxSafety.thy ===== *)
theory TmuxSafety
  imports BridgeSamples JobCourse
begin

text \<open>
  What the session runner guarantees: the command line it hands to the shell, the results it
  collects, which directories it may delete, and that it never touches the job files.
\<close>

section \<open>Shell quoting\<close>

text \<open>
  The POSIX rules for splitting a command line into words, as far as they are needed to read
  the script: single quotes, backslashes outside quotes, and blanks between words.
\<close>

fun sh_scan :: "bool \<Rightarrow> string option \<Rightarrow> string \<Rightarrow> string list option" where
  \<comment> \<open>inside single quotes?, the word read so far (if one has begun), the rest\<close>
  "sh_scan True w [] = None"
| "sh_scan True w (c # cs) =
     (if c = single_quote then sh_scan False w cs
      else sh_scan True (Some (nullish w [] @ [c])) cs)"
| "sh_scan False w [] = Some (case w of None \<Rightarrow> [] | Some x \<Rightarrow> [x])"
| "sh_scan False w (c # cs) =
     (if c = single_quote then sh_scan True (Some (nullish w [])) cs
      else if c = CHR '' '' then
        (case w of None \<Rightarrow> sh_scan False None cs | Some x \<Rightarrow> map_option (Cons x) (sh_scan False None cs))
      else if c = backslash then
        (case cs of [] \<Rightarrow> None | d # ds \<Rightarrow> sh_scan False (Some (nullish w [] @ [d])) ds)
      else sh_scan False (Some (nullish w [] @ [c])) cs)"

definition sh_words :: "string \<Rightarrow> string list option" where
  "sh_words s = sh_scan False None s"

lemma quote_chars: "single_quote \<noteq> backslash" "single_quote \<noteq> CHR '' ''" "backslash \<noteq> CHR '' ''"
  "backslash \<noteq> single_quote" "CHR '' '' \<noteq> single_quote"
  by (simp_all add: single_quote_def backslash_def)

lemma sh_scan_quoted:
  "sh_scan True (Some w) (concat (map quote_char v) @ single_quote # rest) = sh_scan False (Some (w @ v)) rest"
  by (induction v arbitrary: w) (simp_all add: quote_char_def quote_chars)

lemma sh_scan_word: "sh_scan False None (shellQuote v @ rest) = sh_scan False (Some v) rest"
  using sh_scan_quoted [of "[]" v rest] by (simp add: shellQuote_def quote_chars)

lemma sh_words_quoted: "sh_words (join_with '' '' (map shellQuote args)) = Some args"
proof (induction args)
  case Nil
  then show ?case by (simp add: sh_words_def)
next
  case (Cons a args)
  show ?case
  proof (cases args)
    case Nil
    then show ?thesis using sh_scan_word [of a "[]"] by (simp add: sh_words_def)
  next
    case (Cons b bs)
    then have "join_with '' '' (map shellQuote (a # args)) =
        shellQuote a @ CHR '' '' # join_with '' '' (map shellQuote args)" by simp
    then show ?thesis
      using Cons.IH sh_scan_word [of a] by (simp add: sh_words_def quote_chars)
  qed
qed

text \<open>
  Quoting. However the configured command, its arguments or a path are spelled, the shell
  reads the quoted command line back as exactly the intended words.
\<close>

theorem shell_reads_intended_words:
  "sh_words (join_with '' '' (map shellQuote args)) = Some args \<and>
   sh_words (join_with '' '' (shellQuote (bc_omxCommand cfg) # map shellQuote (buildOmxExecArgs cfg))) =
     Some (bc_omxCommand cfg # buildOmxExecArgs cfg)"
  using sh_words_quoted [of args] sh_words_quoted [of "bc_omxCommand cfg # buildOmxExecArgs cfg"] by simp

section \<open>Operations that leave the jobs alone\<close>

definition dirs_separate :: "bridge_env \<Rightarrow> bool" where
  \<comment> \<open>the jobs directory does not lie in the sessions directory\<close>
  "dirs_separate env \<longleftrightarrow>
     take (length (rc_tmuxSessionsDirectory (be_repo env))) (rc_jobsDirectory (be_repo env)) \<noteq>
       rc_tmuxSessionsDirectory (be_repo env)"

lemma session_path_not_job:
  "dirs_separate env \<Longrightarrow> session_path env i f \<noteq> job_file (be_repo env) k"
proof
  let ?t = "rc_tmuxSessionsDirectory (be_repo env)"
  assume sep: "dirs_separate env" and eq: "session_path env i f = job_file (be_repo env) k"
  then have "?t @ [i] = rc_jobsDirectory (be_repo env)"
    by (simp add: session_path_def sessionDirectory_def job_file_def)
  then have "take (length ?t) (rc_jobsDirectory (be_repo env)) = ?t"
    by (metis append_eq_conv_conj)
  with sep show False by (simp add: dirs_separate_def)
qed

lemmas session_not_job = session_path_not_job session_path_not_job [symmetric]

lemma take_prefix_parent:
  assumes "take (length (t @ [i])) (j @ [k]) = t @ [i]"
  shows "take (length t) j = t"
proof -
  from assms obtain r where r: "j @ [k] = (t @ [i]) @ r" by (metis append_take_drop_id)
  show ?thesis
  proof (cases r rule: rev_cases)
    case Nil
    with r show ?thesis by simp
  next
    case (snoc r' y)
    with r have "j = t @ i # r'" by simp
    then show ?thesis by simp
  qed
qed

lemma fs_ok_rm_tree: "fs_ok fs \<Longrightarrow> fs_ok (fs_rm_tree d fs)"
  by (simp add: fs_ok_def fs_rm_tree_def distinct_map_filter)

lemma job_in_rm_tree:
  assumes "dirs_separate env"
  shows "job_in env (fs_rm_tree (sessionDirectory env i) fs) = job_in env fs"
proof (rule job_in_cong)
  fix k
  let ?j = "rc_jobsDirectory (be_repo env)"
  have "take (length (sessionDirectory env i)) (?j @ [n]) \<noteq> sessionDirectory env i" for n
    using assms take_prefix_parent [of _ i ?j n] by (auto simp: dirs_separate_def sessionDirectory_def)
  then have "map_of (fs_rm_tree (sessionDirectory env i) fs) (?j @ [n]) = map_of fs (?j @ [n])" for n
    by (induction fs) (auto simp: fs_rm_tree_def)
  then show "file_content (job_file (be_repo env) k) (fs_rm_tree (sessionDirectory env i) fs) =
      file_content (job_file (be_repo env) k) fs"
    by (simp add: file_content_def job_file_def)
qed

context job_relation
begin

lemma rm_guar:
  assumes "dirs_separate env"
  shows "guar R env (modify_fs (fs_rm (session_path env i f)))"
proof (rule modify_fs_guar)
  fix fs assume "fs_ok fs"
  have "job_in env (fs_rm (session_path env i f) fs) = job_in env fs"
    by (rule job_in_cong) (simp add: file_content_rm session_not_job [OF assms])
  then show "disk_moves R env fs (fs_rm (session_path env i f) fs)" by (simp add: disk_moves_def rel_refl)
qed

lemma rm_tree_guar:
  assumes "dirs_separate env"
  shows "guar R env (modify_fs (fs_rm_tree (sessionDirectory env i)))"
  by (rule modify_fs_guar) (simp add: disk_moves_def rel_refl job_in_rm_tree [OF assms] fs_ok_rm_tree)

lemma write_session_guar:
  assumes "dirs_separate env"
  shows "guar R env (write_session_file env i f c m)"
proof -
  have "guar R env (modify_fs (write_file p (session_path env i f) c m))" for p
  proof (rule modify_fs_guar)
    fix fs assume "fs_ok fs"
    have "job_in env (write_file p (session_path env i f) c m fs) = job_in env fs"
      by (rule job_in_cong) (simp add: file_content_write session_not_job [OF assms])
    then show "disk_moves R env fs (write_file p (session_path env i f) c m fs)"
      by (simp add: disk_moves_def rel_refl)
  qed
  moreover have "guar R env (on_repo next_write)"
    by (intro read_guar keeps_next_write) (auto simp: next_write_def intro!: job_at_cong split: list.splits)
  ultimately show ?thesis
    unfolding write_session_file_def by (auto intro!: bind_guar fail_guar)
qed

lemma runTmux_guar: "guar R env (runTmux args)"
proof (rule guarI)
  fix s :: bridge_state and r s'
  let ?s0 = "s\<lparr>bs_tmuxCommands := bs_tmuxCommands s @ [args]\<rparr>"
  assume ok: "sane R env s" and run: "runTmux args s = (r, s')"
  have a: "moves R env s ?s0" by (rule moves_frame) (simp_all add: rel_refl)
  have b: "moves R env ?s0 (world_step ?s0)" using moves_sane [OF a ok] by (rule world_step_moves)
  have "moves R env (world_step ?s0) s'"
    by (rule moves_frame) (use run in \<open>auto simp: rel_refl runTmux_def Let_def split: list.splits\<close>)
  with a b show "moves R env s s'" using trans_moves by blast
qed

lemma ensureSession_guar: "guar R env (ensureSessionDirectory env d)"
  unfolding ensureSessionDirectory_def private_op_def
  by (intro private_guar fs_ok_ensure) (rule file_content_ensure)

lemma prepare_guar: "guar R env (prepareDirectories env)"
  unfolding prepareDirectories_def Let_def private_op_def
proof (intro bind_guar private_guar fs_ok_ensure)
  fix x
  show "guar R env (\<lambda>s. op_foreach (\<lambda>e. ensureSessionDirectory env (rc_tmuxSessionsDirectory (be_repo env) @ [fst e]))
      (filter job_directory_entry (readdir (rc_tmuxSessionsDirectory (be_repo env)) (the_fs s))) s)"
    by (rule guar_at, rule exI, rule conjI [OF _ refl], intro foreach_guar ensureSession_guar)
qed (rule file_content_ensure)

lemma tmux_ready_guar: "guar R env (tmux_ensureReady env)"
proof (rule guarI)
  fix s r s'
  assume ok: "sane R env s" and run: "tmux_ensureReady env s = (r, s')"
  obtain q t where p: "prepareDirectories env s = (q, t)" by (cases "prepareDirectories env s")
  have st: "moves R env s t" by (rule guarD [OF prepare_guar ok p])
  have "moves R env t (t\<lparr>bs_tmuxReady := True\<rparr>)" by (rule moves_frame) (simp_all add: rel_refl)
  with st run p show "moves R env s s'"
    by (cases q) (auto simp: tmux_ensureReady_def same_moves intro: trans_moves split: if_splits)
qed

lemma writeSessionState_guar:
  "dirs_separate env \<Longrightarrow> guar R env (writeSessionState env i session)"
  unfolding writeSessionState_def by (intro bind_guar tmux_ready_guar ensureSession_guar write_session_guar)

lemma resolve_guar: "guar R env (resolveExecutionCwd env cwd)"
  unfolding resolveExecutionCwd_def by (auto intro: fail_guar return_guar split: sum.split)

lemma state_written_guar:
  assumes "dirs_separate env"
  shows "guar R env (op_bind (writeSessionState env i t) (\<lambda>_. op_return x))"
  by (intro bind_guar writeSessionState_guar [OF assms] return_guar)

lemma tmux_start_guar:
  assumes "dirs_separate env"
  shows "guar R env (tmux_start env job)"
proof (rule guar_at)
  fix s0
  have started: "guar R env (\<lambda>s. if b then (Inl (e s), s) else
      op_bind (writeSessionState env i (f s)) (\<lambda>_. op_return (g s)) s)" for b e i f g
  proof (rule guar_at)
    fix s
    show "\<exists>n. guar R env n \<and> (if b then (Inl (e s), s) else
        op_bind (writeSessionState env i (f s)) (\<lambda>_. op_return (g s)) s) = n s"
      by (cases b) (auto intro: constant_guar state_written_guar [OF assms]
          exI [of _ "\<lambda>t. (Inl (e s), t)"])
  qed
  show "\<exists>n. guar R env n \<and> tmux_start env job s0 = n s0"
    unfolding tmux_start_def Let_def
    by (rule exI, rule conjI [OF _ refl], intro bind_guar foreach_guar rm_guar [OF assms]
       resolve_guar write_session_guar [OF assms] runTmux_guar tmux_ready_guar ensureSession_guar started)
qed

lemma wait_loop_moves: "sane R env s \<Longrightarrow> moves R env s (snd (wait_loop env i d s))"
proof (induction env i d s rule: wait_loop.induct)
  case (1 env i d s)
  let ?n = "snd (sleep_ms (min EXIT_CODE_GRACE_INTERVAL_MS (d - now_ms s)) s)"
  have n: "moves R env s ?n" by (rule guarD [OF sleep_guar "1.prems" surjective_pairing])
  show ?case
  proof (cases "now_ms s \<le> d \<and> readExitCode env i (the_fs s) = None \<and> \<not> d - now_ms s \<le> 0")
    case True
    then have "wait_loop env i d s = wait_loop env i d ?n" by (simp add: wait_loop.simps [of env i d s] Let_def)
    with "1.IH" [OF _ _ refl _ moves_sane [OF n "1.prems"]] True n show ?thesis
      by (auto intro: trans_moves)
  next
    case False
    then show ?thesis by (auto simp: wait_loop.simps [of env i d s] Let_def same_moves split: option.split)
  qed
qed

lemma waitForExitCode_guar: "guar R env (waitForExitCode env i)"
proof (rule guarI)
  fix s r s'
  assume "sane R env s" and "waitForExitCode env i s = (r, s')"
  with wait_loop_moves [of env s i "now_ms s + EXIT_CODE_GRACE_MS"] show "moves R env s s'"
    by (auto simp: waitForExitCode_def split: prod.splits)
qed

lemma collect_branches_guar:
  assumes "dirs_separate env"
  shows "guar R env (collect_exited env job session c)" and "guar R env (collect_failed env job session m t e)"
  unfolding collect_exited_def collect_failed_def Let_def
  by (rule guar_at, rule exI, rule conjI [OF _ refl], rule state_written_guar [OF assms])+

lemma hasSession_guar: "guar R env (hasSession n)"
  unfolding hasSession_def by (intro bind_guar runTmux_guar return_guar)

lemma tmux_collect_guar:
  assumes "dirs_separate env"
  shows "guar R env (tmux_collect env job)"
proof (cases "j_session job")
  case None
  then show ?thesis by (simp add: tmux_collect_def return_guar)
next
  case (Some session)
  have exited: "guar R env (op_bind (collect_exited env job session c) (\<lambda>r. op_return (Some r)))" for c
    by (intro bind_guar collect_branches_guar [OF assms] return_guar)
  have failed: "guar R env (op_bind (collect_failed env job session m t e) (\<lambda>r. op_return (Some r)))" for m t e
    by (intro bind_guar collect_branches_guar [OF assms] return_guar)
  have late: "guar R env (case l of
       Some c \<Rightarrow> op_bind (collect_exited env job session c) (\<lambda>r. op_return (Some r))
     | None \<Rightarrow> op_bind (collect_failed env job session m t e) (\<lambda>r. op_return (Some r)))" for l m t e
    using exited failed by (cases l) simp_all
  have alive: "guar R env (if a then op_return None
      else op_bind (waitForExitCode env (j_id job)) (\<lambda>l. case l of
       Some c \<Rightarrow> op_bind (collect_exited env job session c) (\<lambda>r. op_return (Some r))
     | None \<Rightarrow> op_bind (collect_failed env job session m t e) (\<lambda>r. op_return (Some r))))" for a m t e
    by (cases a) (simp_all add: return_guar bind_guar waitForExitCode_guar late)
  show ?thesis
  proof (rule guar_at)
    fix s
    consider c where "readExitCode env (j_id job) (the_fs s) = Some c"
      | "readExitCode env (j_id job) (the_fs s) = None" "isTimedOut env job s"
      | "readExitCode env (j_id job) (the_fs s) = None" "\<not> isTimedOut env job s"
      by (cases "readExitCode env (j_id job) (the_fs s)") auto
    then show "\<exists>n. guar R env n \<and> tmux_collect env job s = n s"
    proof cases
      case 1
      with Some show ?thesis by (simp add: tmux_collect_def) (metis exited)
    next
      case 2
      with Some show ?thesis
        by (simp add: tmux_collect_def) (rule exI, rule conjI [OF _ refl], intro bind_guar runTmux_guar failed)
    next
      case 3
      with Some show ?thesis
        by (simp add: tmux_collect_def) (rule exI, rule conjI [OF _ refl], intro bind_guar hasSession_guar alive)
    qed
  qed
qed

lemma tmux_cancel_guar:
  assumes "dirs_separate env"
  shows "guar R env (tmux_cancel env job)"
proof (cases "j_session job")
  case None
  then show ?thesis by (simp add: tmux_cancel_def return_guar)
next
  case (Some session)
  have "guar R env (\<lambda>s. if b then (Inr None, s) else
     op_bind (writeSessionState env (j_id job) (f s)) (\<lambda>_. op_return (Some (f s))) s)" for b f
  proof (rule guar_at)
    fix s
    show "\<exists>n. guar R env n \<and> (if b then (Inr None, s) else
        op_bind (writeSessionState env (j_id job) (f s)) (\<lambda>_. op_return (Some (f s))) s) = n s"
      by (cases b) (auto intro: constant_guar state_written_guar [OF assms] exI [of _ "\<lambda>t. (Inr None, t)"])
  qed
  with Some show ?thesis
    unfolding tmux_cancel_def Let_def by (simp add: bind_guar runTmux_guar)
qed

end

section \<open>Collecting a result\<close>

lemma now_ms_repo [simp]: "now_ms (s\<lparr>bs_repo := r\<rparr>) = rs_now r"
  by (simp add: now_ms_def)

lemma sleep_now: "now_ms (snd (sleep_ms k s)) = now_ms s + k"
  by (simp add: sleep_ms_def op_modify_def)

text \<open>Waiting for a late exit code ends with one that is on disk, or at the deadline.\<close>

lemma wait_loop_result:
  "now_ms s \<le> d \<Longrightarrow> wait_loop env i d s = (c, s') \<Longrightarrow>
   now_ms s' \<le> d \<and> readExitCode env i (the_fs s') = c \<and> (c = None \<longrightarrow> now_ms s' = d)"
proof (induction env i d s arbitrary: c s' rule: wait_loop.induct)
  case (1 env i d s)
  note unfold = wait_loop.simps [of env i d s]
  show ?case
  proof (cases "readExitCode env i (the_fs s)")
    case (Some x)
    with "1.prems" have "c = Some x" "s' = s" by (simp_all add: unfold)
    with Some "1.prems"(1) show ?thesis by simp
  next
    case None
    show ?thesis
    proof (cases "d - now_ms s \<le> 0")
      case True
      with None "1.prems" show ?thesis by (simp add: unfold Let_def)
    next
      case False
      let ?n = "snd (sleep_ms (min EXIT_CODE_GRACE_INTERVAL_MS (d - now_ms s)) s)"
      have "wait_loop env i d ?n = (c, s')"
        using False None "1.prems" by (simp add: unfold Let_def)
      moreover have "now_ms ?n \<le> d" by (simp add: sleep_now)
      ultimately show ?thesis using "1.IH" [OF "1.prems"(1) None refl False] by blast
    qed
  qed
qed

lemma waitForExitCode_result:
  assumes "waitForExitCode env i s = (r, s')"
  shows "\<exists>c. r = Inr c \<and> readExitCode env i (the_fs s') = c \<and> now_ms s' \<le> now_ms s + EXIT_CODE_GRACE_MS"
proof -
  obtain c t where loop: "wait_loop env i (now_ms s + EXIT_CODE_GRACE_MS) s = (c, t)" by fastforce
  with assms have "r = Inr c" "s' = t" by (simp_all add: waitForExitCode_def)
  moreover have "now_ms s \<le> now_ms s + EXIT_CODE_GRACE_MS" by (simp add: EXIT_CODE_GRACE_MS_def)
  note wait_loop_result [OF this loop]
  ultimately show ?thesis by blast
qed

lemma runTmux_result: "\<exists>q. runTmux args s = (Inr q, snd (runTmux args s))"
  by (simp add: runTmux_def Let_def split: list.split)

lemma runTmux_now [simp]: "now_ms (snd (runTmux args s)) = now_ms s"
  by (simp add: runTmux_def Let_def now_ms_def world_step_def split: list.split)

definition capture_failed :: "bridge_env \<Rightarrow> string \<Rightarrow> int \<Rightarrow> fs \<Rightarrow> bool" where
  \<comment> \<open>the capture wrapper reports a failure or another exit code\<close>
  "capture_failed env i code fs \<longleftrightarrow>
     (\<exists>m. readCaptureMetadata env i fs = Some m \<and>
        (truthy_str (cm_captureFailure m) \<or> (cm_exitCode m \<noteq> None \<and> cm_exitCode m \<noteq> Some code)))"

lemma collect_exited_result:
  assumes "collect_exited env job ses code s = (Inr (res, ses'), s')"
  shows "er_exitCode res = Some code \<and> ts_lastExitCode ses' = Some (Some code) \<and>
    ts_sessionName ses' = ts_sessionName ses \<and>
    (if code = 0 \<and> \<not> capture_failed env (j_id job) code (the_fs s)
     then er_status res = Succeeded \<and> ts_status ses' = TExited \<and> em_errorType (er_execution res) = None
     else er_status res = Failed \<and> ts_status ses' = TFailed \<and>
       em_errorType (er_execution res) =
         Some (if capture_failed env (j_id job) code (the_fs s) then ExecutionError else NonZeroExit))"
proof -
  define cf where "cf = (case readCaptureMetadata env (j_id job) (the_fs s) of
             None \<Rightarrow> False
           | Some m \<Rightarrow> truthy_str (cm_captureFailure m) \<or>
                        (cm_exitCode m \<noteq> None \<and> cm_exitCode m \<noteq> Some code))"
  have cf: "cf = capture_failed env (j_id job) code (the_fs s)"
    by (simp add: cf_def capture_failed_def split: option.split)
  from assms show ?thesis
    unfolding collect_exited_def Let_def cf_def [symmetric] cf
    by (auto simp: op_bind_Inr_iff op_return_def tmux_execution_def)
qed

lemma collect_failed_result:
  assumes "collect_failed env job ses m t e s = (Inr (res, ses'), s')"
  shows "er_exitCode res = None \<and> ts_lastExitCode ses' = Some None \<and> er_status res = Failed \<and>
    ts_status ses' = TFailed \<and> em_errorType (er_execution res) = Some e \<and>
    ts_sessionName ses' = ts_sessionName ses \<and> ends_with m (er_stderr res)"
  using assms by (auto simp: collect_failed_def Let_def op_bind_Inr_iff op_return_def tmux_execution_def ends_with_iff)


lemma sample_collected:
  "case tmux_collect sample_bridge (sample_tmux_job uuid1 Running) sample_bridge_state of
     (Inr (Some (res, ses)), _) \<Rightarrow> er_status res = Succeeded \<and> er_exitCode res = Some 0 \<and> er_stdout res = ''hello''
   | _ \<Rightarrow> False"
  by code_simp


section \<open>Deleting artifacts\<close>

lemma assertPrivateOwnedDirectory_ok:
  assumes "assertPrivateOwnedDirectory env d acc fs = Inr ()"
  shows "\<exists>n. map_of fs d = Some n \<and> isDirectory n \<and> owned env n \<and>
    (\<forall>e \<in> set (readdir d fs). \<not> isSymbolicLink (snd e) \<and> acc e)"
  using assms by (auto simp: assertPrivateOwnedDirectory_def lstatIfExists_def unrelated_entry_def find_None_iff
      split: sum.splits option.splits if_splits)

definition removal_checks :: "bridge_env \<Rightarrow> string \<Rightarrow> fs \<Rightarrow> bool" where
  \<comment> \<open>the directory is ours and holds nothing but session files\<close>
  "removal_checks env i fs \<longleftrightarrow>
     (\<exists>n. map_of fs (sessionDirectory env i) = Some n \<and> isDirectory n \<and> owned (rc_env (be_repo env)) n) \<and>
     list_all (\<lambda>e. isFile (snd e) \<and> fst e \<in> set SESSION_FILES) (readdir (sessionDirectory env i) fs)"

lemma removal_checksI:
  "assertPrivateOwnedDirectory (rc_env (be_repo env)) (sessionDirectory env i) session_entry fs = Inr () \<Longrightarrow>
   removal_checks env i fs"
  using assertPrivateOwnedDirectory_ok [of "rc_env (be_repo env)" "sessionDirectory env i" session_entry fs]
  by (auto simp: removal_checks_def session_entry_def list_all_iff)

lemma removeArtifacts_cases:
  assumes "runTmux [''has-session'', ''-t'', name] s = (Inr q, s1)"
  shows "\<exists>st s'. removeArtifacts env i name s = (Inr \<lparr>ar_jobId = i, ar_status = st\<rparr>, s') \<and>
    ((st \<noteq> Removed \<and> (s' = s \<or> s' = s1)) \<or>
     (st = Removed \<and> JOB_ID_PATTERN i \<and> name = buildSessionName i \<and>
      readPersistedSessionName env i (the_fs s) = Some name \<and> isConfirmedMissingSession q \<and>
      removal_checks env i (the_fs s) \<and> removal_checks env i (the_fs s1) \<and>
      be_inode env (sessionDirectory env i) (the_fs s1) = be_inode env (sessionDirectory env i) (the_fs s) \<and>
      s' = snd (modify_fs (fs_rm_tree (sessionDirectory env i)) s1)))"
proof -
  let ?d = "sessionDirectory env i"
  let ?check = "assertPrivateOwnedDirectory (rc_env (be_repo env)) ?d session_entry"
  consider "\<not> JOB_ID_PATTERN i \<or> name \<noteq> buildSessionName i \<or> lstatIfExists ?d (the_fs s) = None \<or>
        (\<exists>e. ?check (the_fs s) = Inl e) \<or> readPersistedSessionName env i (the_fs s) \<noteq> Some name \<or>
        (\<exists>n. lstatIfExists ?d (the_fs s) = Some n \<and> (isSymbolicLink n \<or> \<not> isDirectory n))"
    | n where "JOB_ID_PATTERN i" "name = buildSessionName i" "lstatIfExists ?d (the_fs s) = Some n"
        "\<not> isSymbolicLink n" "isDirectory n" "?check (the_fs s) = Inr ()"
        "readPersistedSessionName env i (the_fs s) = Some name"
    by (cases "?check (the_fs s)"; cases "lstatIfExists ?d (the_fs s)") auto
  then show ?thesis
  proof cases
    case 1
    then have "\<exists>st. st \<noteq> Removed \<and> removeArtifacts env i name s = (Inr \<lparr>ar_jobId = i, ar_status = st\<rparr>, s)"
      by (cases "lstatIfExists ?d (the_fs s)"; cases "?check (the_fs s)")
         (auto simp: removeArtifacts_def Let_def op_return_def)
    then show ?thesis by blast
  next
    case 2
    have run: "removeArtifacts env i name s =
       (if tr_code q = Some 0 then (Inr \<lparr>ar_jobId = i, ar_status = RetainedLive\<rparr>, s1)
        else if \<not> isConfirmedMissingSession q then (Inr \<lparr>ar_jobId = i, ar_status = LivenessUnknown\<rparr>, s1)
        else (case ?check (the_fs s1) of
            Inl _ \<Rightarrow> (Inr \<lparr>ar_jobId = i, ar_status = CleanupFailed\<rparr>, s1)
          | Inr _ \<Rightarrow> (if be_inode env ?d (the_fs s1) \<noteq> be_inode env ?d (the_fs s)
              then (Inr \<lparr>ar_jobId = i, ar_status = CleanupFailed\<rparr>, s1)
              else (Inr \<lparr>ar_jobId = i, ar_status = Removed\<rparr>, snd (modify_fs (fs_rm_tree ?d) s1)))))"
      using 2 assms by (simp add: removeArtifacts_def Let_def op_bind_def op_return_def modify_fs_def op_modify_def
          split: sum.split)
    show ?thesis
      using 2 removal_checksI [of env i "the_fs s"] removal_checksI [of env i "the_fs s1"]
      unfolding run by (auto split: sum.split)
  qed
qed


lemma sample_removed:
  "case removeArtifacts sample_bridge uuid1 (buildSessionName uuid1) sample_bridge_state of
     (Inr r, t) \<Rightarrow> ar_status r = Removed \<and> map_of (the_fs t) (session_path sample_bridge uuid1 SESSION_FILE) = None
   | _ \<Rightarrow> False"
  by code_simp


context job_relation
begin

lemma removeArtifacts_guar:
  assumes "dirs_separate env"
  shows "guar R env (removeArtifacts env i name)"
proof (rule guarI)
  fix s r s'
  assume ok: "sane R env s" and run: "removeArtifacts env i name s = (r, s')"
  obtain q s1 where t: "runTmux [''has-session'', ''-t'', name] s = (Inr q, s1)"
    using runTmux_result by blast
  have s1: "moves R env s s1" by (rule guarD [OF runTmux_guar ok t])
  have "moves R env s1 (snd (modify_fs (fs_rm_tree (sessionDirectory env i)) s1))"
    by (rule guarD [OF rm_tree_guar [OF assms] moves_sane [OF s1 ok] surjective_pairing])
  with removeArtifacts_cases [OF t, of env i] run s1 show "moves R env s s'"
    by (auto intro: trans_moves same_moves)
qed

lemma cleanup_orphan_guar:
  assumes "dirs_separate env"
  shows "guar R env (cleanup_orphan env known cutoff e)"
proof (rule guar_at)
  fix s
  have "guar R env (op_bind (removeArtifacts env (fst e) n) (\<lambda>r. op_return (Some r)))" for n
    by (intro bind_guar removeArtifacts_guar [OF assms] return_guar)
  moreover have "guar R env (\<lambda>s. (Inr x, s))" for x :: "artifact_result option"
    by (rule constant_guar)
  ultimately show "\<exists>n. guar R env n \<and> cleanup_orphan env known cutoff e s = n s"
    by (cases "newestArtifactTimestamp env (sessionDirectory env (fst e)) (the_fs s)")
       (auto simp: cleanup_orphan_def op_return_def split: if_splits)
qed

lemma cleanupStaleOrphans_guar:
  assumes "dirs_separate env"
  shows "guar R env (cleanupStaleOrphans env jobs days durable)"
  unfolding cleanupStaleOrphans_def Let_def
proof (intro bind_guar tmux_ready_guar)
  fix x
  show "guar R env (\<lambda>s. op_bind (op_map (cleanup_orphan env (map j_id jobs @ durable) (now_ms s - days * 24 * 60 * 60 * 1000))
        (readdir (rc_tmuxSessionsDirectory (be_repo env)) (the_fs s))) (\<lambda>rs. op_return (List.map_filter id rs)) s)"
    by (rule guar_at, rule exI, rule conjI [OF _ refl],
        intro bind_guar map_guar cleanup_orphan_guar [OF assms] return_guar)
qed

end

text \<open>The files of one session, while no other process writes.\<close>

definition session_kept :: "bridge_env \<Rightarrow> string \<Rightarrow> fs \<Rightarrow> bridge_state \<Rightarrow> bool" where
  "session_kept env k fs s \<longleftrightarrow> bs_world s = [] \<and>
     (\<forall>f. file_content (session_path env k f) (the_fs s) = file_content (session_path env k f) fs)"

lemma session_kept_private:
  assumes "\<And>fs r fs' p. m fs = (r, fs') \<Longrightarrow> file_content p fs' = file_content p fs"
  shows "op_keeps (session_kept env k fs) (private_op m)"
proof (rule op_keepsI)
  fix s
  assume k: "session_kept env k fs s"
  obtain q t where "m (rs_fs (bs_repo s)) = (q, t)" by (cases "m (rs_fs (bs_repo s))")
  with assms [OF this] k show "session_kept env k fs (snd (private_op m s))"
    by (cases q) (auto simp: session_kept_def private_op_def on_repo_def on_fs_def the_fs_def)
qed

lemma session_kept_ready: "op_keeps (session_kept env k fs) (tmux_ensureReady env)"
proof (rule op_keepsI)
  fix s
  assume s: "session_kept env k fs s"
  have "op_keeps (session_kept env k fs) (prepareDirectories env)"
    unfolding prepareDirectories_def Let_def
  proof (intro op_keeps_bind session_kept_private)
    fix x
    show "op_keeps (session_kept env k fs) (\<lambda>s. op_foreach
        (\<lambda>e. ensureSessionDirectory env (rc_tmuxSessionsDirectory (be_repo env) @ [fst e]))
        (filter job_directory_entry (readdir (rc_tmuxSessionsDirectory (be_repo env)) (the_fs s))) s)"
    proof (rule op_keepsI)
      fix s
      have each: "op_keeps (session_kept env k fs) (op_foreach
          (\<lambda>e. ensureSessionDirectory env (rc_tmuxSessionsDirectory (be_repo env) @ [fst e])) es)" for es
        unfolding ensureSessionDirectory_def
        by (intro op_keeps_foreach session_kept_private file_content_ensure)
      assume "session_kept env k fs s"
      then show "session_kept env k fs (snd (op_foreach
          (\<lambda>e. ensureSessionDirectory env (rc_tmuxSessionsDirectory (be_repo env) @ [fst e]))
          (filter job_directory_entry (readdir (rc_tmuxSessionsDirectory (be_repo env)) (the_fs s))) s))"
        by (rule op_keepsD [OF each _ surjective_pairing])
    qed
  qed (rule file_content_ensure)
  with s have "session_kept env k fs (snd (prepareDirectories env s))" by (simp add: op_keeps_def)
  with s show "session_kept env k fs (snd (tmux_ensureReady env s))"
    by (auto simp: tmux_ensureReady_def session_kept_def the_fs_def split: prod.splits sum.splits)
qed

lemma session_kept_remove:
  assumes "i \<noteq> k"
  shows "op_keeps (session_kept env k fs) (removeArtifacts env i name)"
proof (rule op_keepsI)
  fix s
  assume s: "session_kept env k fs s"
  obtain q s1 where t: "runTmux [''has-session'', ''-t'', name] s = (Inr q, s1)"
    using runTmux_result by blast
  from s t have s1: "session_kept env k fs s1"
    by (auto simp: session_kept_def runTmux_def Let_def world_step_def the_fs_def split: list.splits)
  have "file_content (session_path env k f) (fs_rm_tree (sessionDirectory env i) t) =
      file_content (session_path env k f) t" for f t
  proof -
    have "map_of (fs_rm_tree (sessionDirectory env i) t) (session_path env k f) = map_of t (session_path env k f)"
      using assms by (induction t) (auto simp: fs_rm_tree_def session_path_def sessionDirectory_def)
    then show ?thesis by (simp add: file_content_def)
  qed
  with s1 have "session_kept env k fs (snd (modify_fs (fs_rm_tree (sessionDirectory env i)) s1))"
    by (simp add: session_kept_def modify_fs_def op_modify_def the_fs_def)
  with removeArtifacts_cases [OF t, of env i] s s1 show "session_kept env k fs (snd (removeArtifacts env i name s))"
    by auto
qed

lemma session_kept_orphan:
  assumes "k \<in> set known"
  shows "op_keeps (session_kept env k fs) (cleanup_orphan env known cutoff e)"
proof (cases "fst e = k")
  case True
  with assms show ?thesis by (simp add: cleanup_orphan_def)
next
  case False
  then have "op_keeps (session_kept env k fs) (op_bind (removeArtifacts env (fst e) (buildSessionName (fst e)))
      (\<lambda>r. op_return (Some r)))"
    by (intro op_keeps_bind session_kept_remove) simp_all
  then show ?thesis
    by (auto simp: cleanup_orphan_def op_keeps_def op_return_def split: option.split)
qed

lemma orphan_result_id:
  assumes "cleanup_orphan env known cutoff e s = (Inr (Some r), s')"
  shows "ar_jobId r \<notin> set known \<and> JOB_ID_PATTERN (ar_jobId r)"
proof -
  obtain q s1 where t: "runTmux [''has-session'', ''-t'', buildSessionName (fst e)] s = (Inr q, s1)"
    using runTmux_result by blast
  from assms removeArtifacts_cases [OF t, of env "fst e"] show ?thesis
    by (auto simp: cleanup_orphan_def op_return_def op_bind_def split: if_splits option.splits)
qed

lemma orphan_results_ids:
  "op_map (cleanup_orphan env known cutoff) es s = (Inr rs, s') \<Longrightarrow> Some r \<in> set rs \<Longrightarrow>
   ar_jobId r \<notin> set known \<and> JOB_ID_PATTERN (ar_jobId r)"
proof (induction es arbitrary: s rs)
  case Nil
  then show ?case by (simp add: op_return_def)
next
  case (Cons e es)
  from Cons.prems(1) obtain y ys t where y: "cleanup_orphan env known cutoff e s = (Inr y, t)"
    and ys: "op_map (cleanup_orphan env known cutoff) es t = (Inr ys, s')" and rs: "rs = y # ys"
    by (auto simp: op_bind_Inr_iff op_return_def)
  show ?case
  proof (cases "y = Some r")
    case True
    with y show ?thesis by (intro orphan_result_id) simp
  next
    case False
    with rs Cons.prems(2) show ?thesis by (intro Cons.IH [OF ys]) auto
  qed
qed

text \<open>
  C29. Orphans. Sweeping the sessions directory touches no file of a session whose job is
  known, whether it is listed or its file only exists on disk, reports only directories named
  by the UUID of no known job, and leaves every stored job as it is.
\<close>

theorem known_sessions_spared:
  assumes "cleanupStaleOrphans env jobs days durable s = (r, s')" and "bs_world s = []"
    and "dirs_separate env" and "fs_ok (the_fs s)"
  shows "(\<forall>k \<in> j_id ` set jobs \<union> set durable. \<forall>f.
      file_content (session_path env k f) (the_fs s') = file_content (session_path env k f) (the_fs s)) \<and>
    (\<forall>rs. r = Inr rs \<longrightarrow> (\<forall>x \<in> set rs. JOB_ID_PATTERN (ar_jobId x) \<and> ar_jobId x \<notin> j_id ` set jobs \<union> set durable)) \<and>
    bridge_job_at env s' = bridge_job_at env s"
proof (intro conjI ballI allI impI)
  fix k f
  assume "k \<in> j_id ` set jobs \<union> set durable"
  then have known: "k \<in> set (map j_id jobs @ durable)" by simp
  have loop: "op_keeps (session_kept env k (the_fs s)) (op_bind (op_map (cleanup_orphan env (map j_id jobs @ durable) c) es)
      (\<lambda>rs. op_return (List.map_filter id rs)))" for c es
    by (intro op_keeps_bind op_keeps_map session_kept_orphan [OF known] op_keeps_basic)
  have "op_keeps (session_kept env k (the_fs s)) (cleanupStaleOrphans env jobs days durable)"
    unfolding cleanupStaleOrphans_def Let_def
  proof (rule op_keeps_bind [OF session_kept_ready])
    fix x
    show "op_keeps (session_kept env k (the_fs s)) (\<lambda>s. op_bind (op_map (cleanup_orphan env (map j_id jobs @ durable)
        (now_ms s - days * 24 * 60 * 60 * 1000)) (readdir (rc_tmuxSessionsDirectory (be_repo env)) (the_fs s)))
        (\<lambda>rs. op_return (List.map_filter id rs)) s)"
      by (rule op_keepsI, rule op_keepsD [OF loop _ surjective_pairing])
  qed
  moreover have "session_kept env k (the_fs s) s" by (simp add: session_kept_def assms(2))
  ultimately have "session_kept env k (the_fs s) s'" using assms(1) by (rule op_keepsD)
  then show "file_content (session_path env k f) (the_fs s') = file_content (session_path env k f) (the_fs s)"
    by (simp add: session_kept_def)
next
  fix rs x
  assume "r = Inr rs" and "x \<in> set rs"
  with assms(1) obtain c es t u ys where "op_map (cleanup_orphan env (map j_id jobs @ durable) c) es t = (Inr ys, u)"
    and "rs = List.map_filter id ys"
    by (auto simp: cleanupStaleOrphans_def Let_def op_bind_Inr_iff op_return_def)
  moreover have "Some x \<in> set ys"
    using \<open>x \<in> set rs\<close> \<open>rs = List.map_filter id ys\<close> by (auto simp: set_map_filter_eq)
  ultimately show "JOB_ID_PATTERN (ar_jobId x)" "ar_jobId x \<notin> j_id ` set jobs \<union> set durable"
    using orphan_results_ids by fastforce+
next
  have "sane (\<lambda>i. (=)) env s" using assms(2,4) by (simp add: sane_def world_ok_def)
  from guarD [OF unchanged.cleanupStaleOrphans_guar [OF assms(3)] this assms(1)]
  show "bridge_job_at env s' = bridge_job_at env s" by (simp add: moves_def fun_eq_iff)
qed

lemma sample_swept:
  "case cleanupStaleOrphans sample_bridge [] 0 [uuid2] sample_bridge_state of
     (Inr rs, t) \<Rightarrow> rs = [\<lparr>ar_jobId = uuid1, ar_status = Removed\<rparr>] | _ \<Rightarrow> False"
  by code_simp

theorem known_sessions_spared_witness:
  "\<exists>s'. cleanupStaleOrphans sample_bridge [] 0 [uuid2] sample_bridge_state =
      (Inr [\<lparr>ar_jobId = uuid1, ar_status = Removed\<rparr>], s') \<and> uuid1 \<noteq> uuid2 \<and>
      bridge_job_at sample_bridge s' = bridge_job_at sample_bridge sample_bridge_state"
proof -
  from sample_swept obtain s' where run: "cleanupStaleOrphans sample_bridge [] 0 [uuid2] sample_bridge_state =
      (Inr [\<lparr>ar_jobId = uuid1, ar_status = Removed\<rparr>], s')" by (auto split: prod.splits sum.splits)
  have "bs_world sample_bridge_state = []" by (simp add: sample_bridge_state_def)
  moreover have "dirs_separate sample_bridge" by code_simp
  moreover have "fs_ok (the_fs sample_bridge_state)" by code_simp
  ultimately show ?thesis using known_sessions_spared [OF run] run by auto
qed

end
