(* ===== verification/RunnerSafety.thy ===== *)
theory RunnerSafety
  imports JobRunner JobRetention TmuxSafety
begin

text \<open>
  What the job runner guarantees whatever happens while it awaits: the course of every job, the
  bound on the running jobs, first come first served, and what recovery, cancellation and shutdown
  leave behind.
\<close>

section \<open>The relations of the services\<close>

text \<open>
  What the operations of the services need of a relation: it allows a step of a job that is not
  terminal and does not begin to run, and the removal of a terminal job.
\<close>

locale service_relation = job_relation +
  assumes active_step: "\<not> isTerminal (j_status j) \<Longrightarrow> same_request j k \<Longrightarrow>
      (j_status k = Running \<Longrightarrow> j_status j = Running) \<Longrightarrow> R i (Some j) (Some k)"
    and removal: "isTerminal (j_status j) \<Longrightarrow> R i (Some j) None"

interpretation course: service_relation "job_course k" for k
  by unfold_locales (auto intro!: course_step simp: job_move_def)

interpretation starts: service_relation never_starts
  by unfold_locales (auto simp: never_starts_def is_running_def)

lemma same_request_updates [simp]:
  "same_request j (claim_update now j)" "same_request j (requeue_update j)"
  "same_request j (result_update res now j)" "same_request j (session_update t j)"
  "same_request j (interrupted_update now j)" "same_request j (failed_update m now j)"
  "same_request j (collect_update c now j)"
  by (simp_all add: same_request_def claim_update_def requeue_update_def result_update_def session_update_def
      interrupted_update_def failed_update_def collect_update_def)

lemma status_updates [simp]:
  "j_status (claim_update now j) = Running" "j_status (requeue_update j) = Queued"
  "j_status (result_update res now j) = er_status res" "j_status (session_update t j) = j_status j"
  "j_status (interrupted_update now j) = Failed" "j_status (failed_update m now j) = Failed"
  "j_status (collect_update c now j) = er_status (fst c)"
  by (simp_all add: claim_update_def requeue_update_def result_update_def session_update_def
      interrupted_update_def failed_update_def collect_update_def)

lemma same_request_id: "same_request j k \<Longrightarrow> j_id k = j_id j"
  by (simp add: same_request_def)

lemma remove_some_at:
  "op_foreach (\<lambda>i. op_bind (jobPath cfg i) (\<lambda>p. op_modify (\<lambda>s. s\<lparr>rs_fs := fs_rm p (rs_fs s)\<rparr>))) ids s = (r, s') \<Longrightarrow>
   job_at cfg s' i = job_at cfg s i \<or> (i \<in> set ids \<and> job_at cfg s' i = None)"
proof (induction ids arbitrary: s)
  case Nil
  then show ?case by (simp add: op_return_def)
next
  case (Cons a ids)
  show ?case
  proof (cases "JOB_ID_PATTERN a")
    case False
    with Cons.prems show ?thesis by (simp add: op_bind_def jobPath_def op_fail_def)
  next
    case True
    let ?s1 = "s\<lparr>rs_fs := fs_rm (job_file cfg a) (rs_fs s)\<rparr>"
    from True Cons.prems have "op_foreach (\<lambda>i. op_bind (jobPath cfg i)
        (\<lambda>p. op_modify (\<lambda>s. s\<lparr>rs_fs := fs_rm p (rs_fs s)\<rparr>))) ids ?s1 = (r, s')"
      by (simp add: op_bind_def jobPath_def op_return_def op_modify_def)
    from Cons.IH [OF this] show ?thesis by (cases "i = a") (auto simp: job_at_def file_content_rm)
  qed
qed

lemma listAll_reads: "listAll cfg s = (r, s') \<Longrightarrow> job_at cfg s' = job_at cfg s"
proof -
  assume run: "listAll cfg s = (r, s')"
  obtain q t where e: "ensureReady cfg s = (q, t)" by (cases "ensureReady cfg s")
  obtain js u where rd: "read_entries cfg (map (\<lambda>i. i @ ''.json'') (stored_ids cfg (rs_fs t))) t = (js, u)"
    by fastforce
  have "s' = t \<or> s' = u"
    using run e rd by (cases q) (auto simp: listAll_def op_bind_def Let_def stored_ids_def job_names)
  then show ?thesis using job_at_ensureReady [OF e] read_entries_at [OF rd] by auto
qed

lemma cleanup_at:
  assumes "cleanupTerminalJobs cfg days mx s = (r, s')" and "repo_ok s"
  shows "job_at cfg s' i = job_at cfg s i \<or>
    (job_at cfg s' i = None \<and> (\<exists>j. job_at cfg s i = Some j \<and> isTerminal (j_status j)))"
proof -
  obtain l t where l: "listAll cfg s = (l, t)" by (cases "listAll cfg s")
  note at_t = listAll_reads [OF l]
  show ?thesis
  proof (cases l)
    case (Inl e)
    with assms(1) l at_t show ?thesis by (simp add: cleanupTerminalJobs_def op_bind_def)
  next
    case (Inr jobs)
    define ts where "ts = sort_cmp (terminal_cmp cfg) (filter (\<lambda>j. isTerminal (j_status j)) jobs)"
    define ids where "ids = to_delete cfg (rs_now s - days * 24 * 60 * 60 * 1000) mx ts"
    obtain q u where q: "op_foreach (\<lambda>i. op_bind (jobPath cfg i)
        (\<lambda>p. op_modify (\<lambda>s. s\<lparr>rs_fs := fs_rm p (rs_fs s)\<rparr>))) ids t = (q, u)" by fastforce
    have "op_bind (op_foreach (\<lambda>i. op_bind (jobPath cfg i)
        (\<lambda>p. op_modify (\<lambda>s. s\<lparr>rs_fs := fs_rm p (rs_fs s)\<rparr>))) ids) (\<lambda>_. op_return \<lparr>
               cl_deleted = js_length ids, cl_retained = js_length ts - js_length ids,
               cl_deletedEntries = map cleanup_entry_of (filter (\<lambda>j. j_id j \<in> set ids) ts)\<rparr>) t = (r, s')"
      using assms(1) l Inr unfolding cleanupTerminalJobs_def Let_def ts_def ids_def
      by (simp only: op_bind_def [of "listAll cfg"] prod.case sum.case)
    with q have "s' = u" by (cases q) (simp_all add: op_bind_def op_return_def)
    moreover have "\<exists>j. job_at cfg s k = Some j \<and> isTerminal (j_status j)" if "k \<in> set ids" for k
    proof -
      from that to_delete_ids obtain j where "j \<in> set ts" "k = j_id j" unfolding ids_def by blast
      then have "j \<in> set jobs" "isTerminal (j_status j)" by (simp_all add: ts_def del: isTerminal.simps)
      with listAll_result(2) [OF l [unfolded Inr] assms(2)] \<open>k = j_id j\<close> show ?thesis by blast
    qed
    ultimately show ?thesis using remove_some_at [OF q, of i] at_t by auto
  qed
qed

section \<open>What every operation of the runner guarantees\<close>

lemma listByStatus_reads: "listByStatus cfg st s = (r, s') \<Longrightarrow> job_at cfg s' = job_at cfg s"
  by (auto simp: listByStatus_def op_bind_def op_return_def split: prod.splits sum.splits dest: listAll_reads)

lemma listDurable_reads: "listDurableJobIds cfg s = (r, s') \<Longrightarrow> job_at cfg s' = job_at cfg s"
  by (auto simp: listDurableJobIds_def op_bind_def split: prod.splits sum.splits dest: job_at_ensureReady)

lemma getById_reads: "getById cfg i s = (r, s') \<Longrightarrow> job_at cfg s' = job_at cfg s"
  by (cases r) (auto dest: getById_error getById_at)

context job_relation
begin

lemma catch_guar: "guar R env m \<Longrightarrow> (\<And>e. guar R env (h e)) \<Longrightarrow> guar R env (op_catch m h)"
proof (rule guarI)
  fix s r s'
  assume m: "guar R env m" and h: "\<And>e. guar R env (h e)" and ok: "sane R env s"
    and run: "op_catch m h s = (r, s')"
  obtain q t where q: "m s = (q, t)" by (cases "m s")
  have st: "moves R env s t" using m ok q by (rule guarD)
  show "moves R env s s'"
  proof (cases q)
    case (Inl e)
    with run q have "h e t = (r, s')" by (simp add: op_catch_def)
    from guarD [OF h moves_sane [OF st ok] this] st show ?thesis using trans_moves by blast
  next
    case (Inr x)
    with run q st show ?thesis by (simp add: op_catch_def)
  qed
qed

lemma finally_guar:
  assumes "guar R env m" and "\<And>s. bs_repo (f s) = bs_repo s" and "\<And>s. bs_world (f s) = bs_world s"
  shows "guar R env (op_finally m f)"
proof (rule guarI)
  fix s r s'
  assume ok: "sane R env s" and run: "op_finally m f s = (r, s')"
  obtain q t where q: "m s = (q, t)" by (cases "m s")
  have "moves R env t (f t)" by (rule moves_frame) (simp_all add: rel_refl assms)
  with guarD [OF assms(1) ok q] run q show "moves R env s s'" by (auto simp: op_finally_def intro: trans_moves)
qed

lemma store_reads_guar:
  "guar R env (await_repo (getById (be_repo env) i))"
  "guar R env (await_repo (listAll (be_repo env)))"
  "guar R env (await_repo (listByStatus (be_repo env) st))"
  "guar R env (await_repo (listDurableJobIds (be_repo env)))"
  "guar R env (await_repo (ensureReady (be_repo env)))"
  by (intro read_guar repo_keeps; rule getById_reads listAll_reads listByStatus_reads listDurable_reads
      job_at_ensureReady; assumption)+

lemma track_guar: "guar R env (trackCompletionNotification job)" "guar R env (track_transition t)"
proof -
  show t: "guar R env (trackCompletionNotification job)" for job
    unfolding trackCompletionNotification_def by (rule frame_guar) (simp_all add: op_modify_def)
  show "guar R env (track_transition t)"
    unfolding track_transition_def
    by (auto intro!: bind_guar t return_guar split: prod.split bool.split option.split)
qed

lemma execute_guar: "guar R env omx_execute"
proof (rule guarI)
  fix s r s'
  assume ok: "sane R env s" and run: "omx_execute s = (r, s')"
  have "moves R env (world_step s) s'"
    by (rule moves_frame) (use run in \<open>auto simp: rel_refl omx_execute_def Let_def split: list.splits sum.splits\<close>)
  with world_step_moves [OF ok] show "moves R env s s'" by (rule trans_moves)
qed

lemma transition_now_guar:
  assumes "\<And>now j. j_status j \<in> set sts \<Longrightarrow> R (j_id j) (Some j) (Some (upd now j))"
    and "\<And>now j. j_id (upd now j) = j_id j"
  shows "guar R env (transition_now env i sts upd)"
proof (rule guar_at)
  fix s
  show "\<exists>n. guar R env n \<and> transition_now env i sts upd s = n s"
    unfolding transition_now_def by (rule exI, rule conjI [OF _ refl], rule transition_guar) (rule assms, assumption?)+
qed

end

context service_relation
begin

lemma running_step_guar:
  assumes "\<And>now j. same_request j (upd now j)"
  shows "guar R env (transition_now env i [Running] upd)"
  by (rule transition_now_guar) (auto intro!: active_step assms same_request_id)

lemma requeue_guar: "guar R env (requeueClaimedJob env i)"
  unfolding requeueClaimedJob_def by (intro bind_guar running_step_guar return_guar) simp

lemma mark_failed_guar: "guar R env (markRunningJobFailed env i e)"
  unfolding markRunningJobFailed_def by (intro bind_guar running_step_guar track_guar return_guar) simp

lemma start_tmux_guar: "dirs_separate env \<Longrightarrow> guar R env (startTmuxJob env job)"
  unfolding startTmuxJob_def
  by (auto intro!: catch_guar bind_guar tmux_start_guar running_step_guar mark_failed_guar return_guar)

lemma executeJob_guar:
  assumes "dirs_separate env"
  shows "guar R env (executeJob env job)"
  unfolding executeJob_def
proof (intro bind_guar store_reads_guar option_guar if_guar constant_guar requeue_guar
    start_tmux_guar [OF assms])
  fix x
  let ?i = "j_id job"
  have "guar R env (op_finally
      (op_catch (op_bind omx_execute (\<lambda>result. op_bind (transition_now env ?i [Running] (result_update result))
         (\<lambda>t. op_bind (track_transition t) (\<lambda>_. op_return ())))) (markRunningJobFailed env ?i))
      (\<lambda>t. t\<lparr>bs_controllers := AList.delete ?i (bs_controllers t)\<rparr>))"
    by (intro finally_guar catch_guar bind_guar execute_guar running_step_guar track_guar return_guar
        mark_failed_guar) simp_all
  then show "guar R env (\<lambda>s. op_finally
      (op_catch (op_bind omx_execute (\<lambda>result. op_bind (transition_now env ?i [Running] (result_update result))
         (\<lambda>t. op_bind (track_transition t) (\<lambda>_. op_return ())))) (markRunningJobFailed env ?i))
      (\<lambda>t. t\<lparr>bs_controllers := AList.delete ?i (bs_controllers t)\<rparr>)
      (s\<lparr>bs_controllers := AList.update ?i False (bs_controllers s)\<rparr>))"
    by (rule prepared_guar) simp_all
qed

lemma collectTmuxJob_guar: "dirs_separate env \<Longrightarrow> guar R env (collectTmuxJob env job)"
  unfolding collectTmuxJob_def
  by (auto intro!: bind_guar tmux_collect_guar running_step_guar track_guar return_guar split: option.split)

lemma reconcile_guar: "dirs_separate env \<Longrightarrow> guar R env (reconcileRunningTmuxJobs env b)"
  unfolding reconcileRunningTmuxJobs_def performRunningTmuxReconciliation_def
  by (auto intro!: bind_guar store_reads_guar map_guar collectTmuxJob_guar return_guar awaiting_guar)

lemma runner_cancel_guar:
  assumes "dirs_separate env"
  shows "guar R env (runner_cancel env i)"
  unfolding runner_cancel_def
proof (rule bind_guar [OF store_reads_guar(1)])
  fix found
  have abort: "guar R env (\<lambda>s. case map_of (bs_controllers s) i of None \<Rightarrow> (Inr False, s)
       | Some _ \<Rightarrow> (Inr True, s\<lparr>bs_controllers := AList.update i True (bs_controllers s)\<rparr>))"
    by (rule frame_guar) (simp_all split: option.split)
  have kill: "guar R env (op_bind (if be_tmuxRunner env then tmux_cancel env job else op_return None) (\<lambda>session.
        case session of None \<Rightarrow> op_return False
        | Some t \<Rightarrow> op_bind (transition_now env i [Running] (\<lambda>_. session_update t)) (\<lambda>_. op_return True)))" for job
    by (auto intro!: bind_guar tmux_cancel_guar [OF assms] running_step_guar return_guar split: option.split)
  show "guar R env (\<lambda>s. case found of Some job \<Rightarrow>
           (if j_executionMode job = Some TmuxMode \<and> j_session job \<noteq> None
            then op_bind (if be_tmuxRunner env then tmux_cancel env job else op_return None) (\<lambda>session.
                   case session of None \<Rightarrow> op_return False
                   | Some t \<Rightarrow> op_bind (transition_now env i [Running] (\<lambda>_. session_update t)) (\<lambda>_. op_return True)) s
            else (case map_of (bs_controllers s) i of None \<Rightarrow> (Inr False, s)
               | Some _ \<Rightarrow> (Inr True, s\<lparr>bs_controllers := AList.update i True (bs_controllers s)\<rparr>)))
       | None \<Rightarrow> (case map_of (bs_controllers s) i of None \<Rightarrow> (Inr False, s)
            | Some _ \<Rightarrow> (Inr True, s\<lparr>bs_controllers := AList.update i True (bs_controllers s)\<rparr>)))"
    by (rule option_guar [OF abort], rule if_guar [OF kill abort])
qed

lemma recover_job_guar:
  assumes "dirs_separate env"
  shows "guar R env (recover_job env job)"
proof -
  have "guar R env (op_bind (transition_now env i [Running] interrupted_update) (\<lambda>_. op_return ()))" for i
    by (intro bind_guar running_step_guar return_guar) simp
  then show ?thesis
    unfolding recover_job_def Let_def
    by (auto intro!: bind_guar collectTmuxJob_guar [OF assms] return_guar)
qed

lemma recover_guar: "dirs_separate env \<Longrightarrow> guar R env (recoverInterruptedJobs env)"
  unfolding recoverInterruptedJobs_def by (intro bind_guar store_reads_guar foreach_guar recover_job_guar)

lemma cleanup_guar:
  assumes "dirs_separate env"
  shows "guar R env (performTerminalCleanup env)"
proof -
  have "guar R env (await_repo (cleanupTerminalJobs (be_repo env) d m))" for d m
  proof (rule await_repo_guar [OF keeps_cleanupTerminalJobs])
    fix s r s' i
    assume "cleanupTerminalJobs (be_repo env) d m s = (r, s')" and "repo_ok s"
    from cleanup_at [OF this, of i] show "R i (job_at (be_repo env) s i) (job_at (be_repo env) s' i)"
      by (auto simp: rel_refl simp del: isTerminal.simps intro: removal)
  qed
  moreover have "guar R env (remove_deleted_artifacts env e)" for e
    unfolding remove_deleted_artifacts_def
    by (auto intro!: catch_guar bind_guar removeArtifacts_guar [OF assms] return_guar)
  ultimately show ?thesis
    unfolding performTerminalCleanup_def
    by (auto intro!: bind_guar foreach_guar catch_guar store_reads_guar cleanupStaleOrphans_guar [OF assms] return_guar)
qed

end

section \<open>The bound on the running jobs\<close>

definition running_ids :: "bridge_env \<Rightarrow> bridge_state \<Rightarrow> string set" where
  "running_ids env s = {i. is_running (bridge_job_at env s i)}"

lemma running_ids_iff: "i \<in> running_ids env s \<longleftrightarrow> (\<exists>j. bridge_job_at env s i = Some j \<and> j_status j = Running)"
  by (auto simp: running_ids_def is_running_def split: option.splits)

lemma finite_running: "fs_ok (the_fs s) \<Longrightarrow> finite (running_ids env s)"
proof -
  assume ok: "fs_ok (the_fs s)"
  have "running_ids env s \<subseteq> set (stored_ids (be_repo env) (the_fs s))"
    using stored_ids_iff [OF ok, of _ "be_repo env"]
    by (auto simp: running_ids_iff bridge_job_at_in job_in_def bind_eq_Some_conv)
  then show ?thesis by (rule finite_subset) simp
qed

lemma moves_running: "moves never_starts env s t \<Longrightarrow> running_ids env t \<subseteq> running_ids env s"
  by (auto simp: running_ids_def never_starts_def dest: movesD)

lemma listed_running:
  assumes "listAll (be_repo env) (bs_repo s) = (Inr jobs, t)" and "fs_ok (the_fs s)"
  shows "running_ids env s = set (map j_id (filter (\<lambda>j. j_status j = Running) jobs))"
    and "distinct (map j_id jobs)"
proof -
  note r = listAll_result [OF assms(1) assms(2) [unfolded the_fs_def]]
  show "distinct (map j_id jobs)" by (rule r(3))
  show "running_ids env s = set (map j_id (filter (\<lambda>j. j_status j = Running) jobs))"
  proof (rule set_eqI)
    fix i
    have "i \<in> running_ids env s \<longleftrightarrow> (\<exists>j. j \<in> set jobs \<and> j_id j = i \<and> j_status j = Running)"
      unfolding running_ids_iff bridge_job_at_def r(2) by (metis job_at_id)
    then show "i \<in> running_ids env s \<longleftrightarrow> i \<in> set (map j_id (filter (\<lambda>j. j_status j = Running) jobs))" by auto
  qed
qed

lemma claim_candidate_room:
  assumes "claim_candidate cfg inFlight jobs = Some c" and "distinct (map j_id jobs)"
  shows "c \<in> set jobs" and "j_status c = Queued" and "j_id c \<notin> set inFlight"
    and "int (length (filter (\<lambda>j. j_status j = Running) jobs)) < bc_maxConcurrency cfg"
    and "int (length inFlight) < bc_maxConcurrency cfg"
proof -
  let ?run = "filter (\<lambda>j. j_status j = Running) jobs"
  let ?out = "filter (\<lambda>j. j_id j \<notin> set inFlight) ?run" and ?in = "filter (\<lambda>j. j_id j \<in> set inFlight) ?run"
  from assms(1) have room: "int (length inFlight) + int (length ?out) < bc_maxConcurrency cfg"
    and find: "find (\<lambda>j. j_id j \<notin> set inFlight) (filter (\<lambda>j. j_status j = Queued) jobs) = Some c"
    by (auto simp: claim_candidate_def Let_def js_length_def split: if_splits)
  from find obtain n where "n < length (filter (\<lambda>j. j_status j = Queued) jobs)"
    "c = filter (\<lambda>j. j_status j = Queued) jobs ! n" "j_id c \<notin> set inFlight"
    by (auto simp: find_Some_iff)
  then have "c \<in> set (filter (\<lambda>j. j_status j = Queued) jobs)" by (metis nth_mem)
  then show "c \<in> set jobs" "j_status c = Queued" by auto
  show "j_id c \<notin> set inFlight" by fact
  have "distinct (map j_id ?in)" by (intro distinct_map_filter assms(2))
  moreover have "set (map j_id ?in) \<subseteq> set inFlight" by auto
  ultimately have "length ?in \<le> length inFlight"
    by (metis List.finite_set card_length card_mono distinct_card le_trans length_map)
  moreover have "length ?run = length ?in + length ?out"
    using sum_length_filter_compl [of "\<lambda>j. j_id j \<in> set inFlight" ?run] by simp
  ultimately show "int (length ?run) < bc_maxConcurrency cfg" using room by linarith
  show "int (length inFlight) < bc_maxConcurrency cfg" using room by linarith
qed

lemma world_inFlight: "set (bs_inFlight (world_step s)) \<subseteq> set (bs_inFlight s)"
  "length (bs_inFlight (world_step s)) \<le> length (bs_inFlight s)"
  by (auto simp: world_step_def split: list.split)

lemma await_inFlight:
  assumes "await_repo m s = (r, s')"
  shows "set (bs_inFlight s') \<subseteq> set (bs_inFlight s)" and "length (bs_inFlight s') \<le> length (bs_inFlight s)"
proof -
  obtain q t where "m (bs_repo s) = (q, t)" by (cases "m (bs_repo s)")
  with assms have "s' = world_step (s\<lparr>bs_repo := t\<rparr>)"
    by (cases q) (simp_all add: await_repo_def on_repo_def)
  with world_inFlight [of "s\<lparr>bs_repo := t\<rparr>"]
  show "set (bs_inFlight s') \<subseteq> set (bs_inFlight s)" "length (bs_inFlight s') \<le> length (bs_inFlight s)"
    by simp_all
qed

lemma requeue_inFlight:
  assumes "op_bind (requeueClaimedJob env i) (\<lambda>_. op_return x) s = (r, s')"
  shows "set (bs_inFlight s') \<subseteq> set (bs_inFlight s)" and "r = Inr x \<or> (\<exists>e. r = Inl e)"
proof -
  obtain q t where q: "transition_now env i [Running] (\<lambda>_. requeue_update) s = (q, t)" by fastforce
  with assms have "s' = t" "r = Inr x \<or> (\<exists>e. r = Inl e)"
    by (cases q; auto simp: requeueClaimedJob_def op_bind_def op_return_def)+
  with await_inFlight(1) [OF q [unfolded transition_now_def]]
  show "set (bs_inFlight s') \<subseteq> set (bs_inFlight s)" "r = Inr x \<or> (\<exists>e. r = Inl e)"
    by simp_all
qed

text \<open>One conditional transition to \<open>running\<close>, and what happens while it is awaited.\<close>

lemma claim_transition:
  assumes "transition_now env i [Queued] claim_update s = (q, t)" and "sane never_starts env s"
  shows "sane never_starts env t" and "running_ids env t \<subseteq> insert i (running_ids env s)"
    and "set (bs_inFlight t) \<subseteq> set (bs_inFlight s)" and "length (bs_inFlight t) \<le> length (bs_inFlight s)"
    and "q = Inr (True, x) \<Longrightarrow> \<exists>j. bridge_job_at env s i = Some j \<and> j_status j = Queued \<and>
           x = Some (claim_update (now_iso env s) j) \<and> j_id j = i"
proof -
  let ?upd = "claim_update (now_iso env s)"
  obtain p u where p: "transition (be_repo env) i [Queued] ?upd (bs_repo s) = (p, u)"
    by (cases "transition (be_repo env) i [Queued] ?upd (bs_repo s)")
  let ?v = "s\<lparr>bs_repo := u\<rparr>"
  have t: "t = world_step ?v" and q: "q = (case p of Inl e \<Rightarrow> Inl (RepoError e) | Inr x \<Rightarrow> Inr x)"
    using assms(1) p by (auto simp: transition_now_def await_repo_def on_repo_def split: sum.splits)
  have "repo_ok u" using op_keepsD [OF keeps_transition _ p] assms(2) by (simp add: sane_def the_fs_def)
  then have sv: "sane never_starts env ?v" using assms(2) by (simp add: sane_def world_ok_def the_fs_def)
  note mv = starts.world_step_moves [OF sv]
  show "sane never_starts env t" using moves_sane [OF mv sv] t by simp
  have "running_ids env ?v \<subseteq> insert i (running_ids env s)"
    using repo.cas_cases [OF p] job_at_id [of "be_repo env" "bs_repo s" i]
    by (auto simp: running_ids_iff bridge_job_at_def same_request_id [OF same_request_updates(1)] split: if_splits)
  then show "running_ids env t \<subseteq> insert i (running_ids env s)" using moves_running [OF mv] t by blast
  show "set (bs_inFlight t) \<subseteq> set (bs_inFlight s)" "length (bs_inFlight t) \<le> length (bs_inFlight s)"
    using world_inFlight [of ?v] t by simp_all
  assume "q = Inr (True, x)"
  with q have "p = Inr (True, x)" by (simp split: sum.splits)
  with p have "transition (be_repo env) i [Queued] ?upd (bs_repo s) = (Inr (True, x), u)" by simp
  from repo.cas_applied [OF this] show "\<exists>j. bridge_job_at env s i = Some j \<and> j_status j = Queued \<and>
           x = Some (claim_update (now_iso env s) j) \<and> j_id j = i"
    by (auto simp: bridge_job_at_def dest: job_at_id)
qed

text \<open>
  C3. The limit on concurrency. Claiming never lets more jobs run than the configured maximum, even
  though other runs end, jobs are cancelled or completed and the service is shut down while the
  claim awaits the store: when a job is claimed, at most \<open>maxConcurrency\<close> jobs run, it is recorded
  as in flight, it was queued and no other job began to run; otherwise the number of running jobs
  does not exceed the maximum unless it did before.
\<close>

theorem claim_respects_limit:
  assumes "claimNext env s = (r, s')" and "sane never_starts env s"
  shows "(case r of
      Inr (Some j) \<Rightarrow>
        int (card (running_ids env s')) \<le> bc_maxConcurrency (be_cfg env) \<and>
        running_ids env s' \<subseteq> insert (j_id j) (running_ids env s) \<and>
        j_status j = Running \<and> j_id j \<in> set (bs_inFlight s') \<and> \<not> bs_shuttingDown s' \<and>
        int (length (bs_inFlight s')) \<le> bc_maxConcurrency (be_cfg env)
    | _ \<Rightarrow> int (card (running_ids env s')) \<le>
        max (bc_maxConcurrency (be_cfg env)) (int (card (running_ids env s))) \<and>
        set (bs_inFlight s') \<subseteq> set (bs_inFlight s))"
proof -
  let ?max = "bc_maxConcurrency (be_cfg env)"
  let ?cap = "max ?max (int (card (running_ids env s)))"
  have fin: "finite (running_ids env s)" using assms(2) by (intro finite_running) (simp add: sane_def)
  have rest: ?thesis if "\<And>j. r \<noteq> Inr (Some j)" "int (card (running_ids env s')) \<le> ?cap"
    "set (bs_inFlight s') \<subseteq> set (bs_inFlight s)"
    using that by (auto split: sum.split option.split)
  obtain l s1 where l: "await_repo (listAll (be_repo env)) s = (l, s1)"
    by (cases "await_repo (listAll (be_repo env)) s")
  have m1: "moves never_starts env s s1" by (rule guarD [OF starts.store_reads_guar(2) assms(2) l])
  note sane1 = moves_sane [OF m1 assms(2)] and sub1 = moves_running [OF m1]
  have cap1: "int (card (running_ids env s1)) \<le> ?cap" using card_mono [OF fin sub1] by linarith
  have fl1: "set (bs_inFlight s1) \<subseteq> set (bs_inFlight s)"
    using await_inFlight(1) [OF l] .
  show ?thesis
  proof (cases "r = Inr None \<and> (s' = s \<or> s' = s1) \<or> (\<exists>e. r = Inl e \<and> s' = s1)")
    case True
    then show ?thesis using cap1 fl1 by (intro rest) auto
  next
    case False
    then obtain jobs c where jobs: "l = Inr jobs" and c: "claim_candidate (be_cfg env) (bs_inFlight s1) jobs = Some c"
      using assms(1) l
      by (auto simp: claimNext_def op_bind_def split: if_splits sum.splits option.splits)
    obtain q s2 where q: "transition_now env (j_id c) [Queued] claim_update s1 = (q, s2)" by fastforce
    have run: "(r, s') = (case q of Inl e \<Rightarrow> (Inl e, s2) | Inr (transitioned, job) \<Rightarrow>
        (if \<not> transitioned \<or> job = None then (Inr None, s2)
         else if bs_shuttingDown s2 then op_bind (requeueClaimedJob env (j_id (the job))) (\<lambda>_. op_return None) s2
         else (Inr job, s2\<lparr>bs_inFlight := set_add (j_id c) (bs_inFlight s2)\<rparr>)))"
      using assms(1) l jobs c q False
      by (auto simp: claimNext_def op_bind_def split: if_splits sum.splits prod.splits)
    obtain t where t: "listAll (be_repo env) (bs_repo s) = (Inr jobs, t)"
      using await_repo_Inr [OF l [unfolded jobs]] by blast
    have "fs_ok (the_fs s)" using assms(2) by (simp add: sane_def)
    note listed = listed_running [OF t this] and room = claim_candidate_room [OF c listed_running(2) [OF t this]]
    note tr = claim_transition [OF q sane1]
    have fl2: "set (bs_inFlight s2) \<subseteq> set (bs_inFlight s)" using tr(3) fl1 by blast
    have sub2: "running_ids env s2 \<subseteq> insert (j_id c) (running_ids env s)" using tr(2) sub1 by blast
    have "card (running_ids env s2) \<le> card (insert (j_id c) (running_ids env s))"
      using sub2 fin by (intro card_mono) simp_all
    then have "card (running_ids env s2) \<le> Suc (card (running_ids env s))"
      using fin by (auto simp: card_insert_if split: if_splits)
    moreover have "card (running_ids env s) = length (filter (\<lambda>j. j_status j = Running) jobs)"
      unfolding listed(1) using distinct_card [OF distinct_map_filter [OF listed(2)]] by simp
    ultimately have cap2: "int (card (running_ids env s2)) \<le> ?max" using room(4) by linarith
    show ?thesis
    proof (cases "\<exists>job. q = Inr (True, Some job) \<and> \<not> bs_shuttingDown s2")
      case True
      then obtain job where job: "q = Inr (True, Some job)" and up: "\<not> bs_shuttingDown s2" by blast
      with run have r: "r = Inr (Some job)" and s': "s' = s2\<lparr>bs_inFlight := set_add (j_id c) (bs_inFlight s2)\<rparr>"
        by simp_all
      from tr(5) [OF job] obtain j where "bridge_job_at env s1 (j_id c) = Some j" "j_id j = j_id c"
        "job = claim_update (now_iso env s1) j" by blast
      then have j: "j_status job = Running" "j_id job = j_id c"
        by (simp_all add: same_request_id [OF same_request_updates(1)])
      have "int (length (set_add (j_id c) (bs_inFlight s2))) \<le> ?max"
        using room(5) tr(4) by (simp add: set_add_def)
      moreover have "running_ids env s' = running_ids env s2"
        by (simp add: s' running_ids_def bridge_job_at_def)
      ultimately show ?thesis using r s' j cap2 sub2 up by (simp add: set_add_def)
    next
      case False
      show ?thesis
      proof (cases "\<exists>job. q = Inr (True, Some job)")
        case True
        with False run obtain i where rq: "op_bind (requeueClaimedJob env i) (\<lambda>_. op_return None) s2 = (r, s')"
          by auto
        have "guar never_starts env (op_bind (requeueClaimedJob env i) (\<lambda>_. op_return (None :: bridge_job option)))"
          by (intro starts.bind_guar starts.requeue_guar starts.return_guar)
        from moves_running [OF guarD [OF this tr(1) rq]] have "running_ids env s' \<subseteq> running_ids env s2" .
        then have "card (running_ids env s') \<le> card (running_ids env s2)"
          using tr(1) by (intro card_mono finite_running) (simp_all add: sane_def)
        then show ?thesis using requeue_inFlight [OF rq] cap2 fl2 by (intro rest) auto
      next
        case None: False
        with run have "s' = s2 \<and> (r = Inr None \<or> (\<exists>e. r = Inl e))"
          by (auto split: sum.splits prod.splits if_splits option.splits)
        then show ?thesis using cap2 fl2 by (intro rest) auto
      qed
    qed
  qed
qed

definition claim_bridge :: bridge_env where
  "claim_bridge = sample_bridge\<lparr>be_cfg := sample_bridge_config\<lparr>bc_maxConcurrency := 2\<rparr>\<rparr>"

lemma sample_claimed:
  "case claimNext claim_bridge sample_bridge_state of
     (Inr (Some j), t) \<Rightarrow> j_id j = uuid2 | _ \<Rightarrow> False"
  by code_simp

lemma sample_sane: "sane R env sample_bridge_state"
proof -
  have "fs_ok (the_fs sample_bridge_state)" by code_simp
  then show ?thesis by (simp add: sane_def world_ok_def sample_bridge_state_def)
qed

theorem claim_respects_limit_witness:
  "\<exists>j s'. claimNext claim_bridge sample_bridge_state = (Inr (Some j), s') \<and> j_id j = uuid2 \<and>
     int (card (running_ids claim_bridge s')) \<le> 2 \<and> uuid2 \<in> set (bs_inFlight s')"
proof -
  from sample_claimed obtain j s' where run: "claimNext claim_bridge sample_bridge_state = (Inr (Some j), s')"
    and j: "j_id j = uuid2" by (auto split: prod.splits sum.splits option.splits)
  from claim_respects_limit [OF run sample_sane] run j show ?thesis
    by (auto simp: claim_bridge_def sample_bridge_config_def)
qed

section \<open>First come, first served\<close>

lemma find_first:
  "find P xs = Some c \<Longrightarrow> sorted_wrt Q xs \<Longrightarrow> x \<in> set xs \<Longrightarrow> P x \<Longrightarrow> x = c \<or> Q c x"
  by (induction xs) (auto split: if_splits)

lemma claim_listed:
  assumes "claimNext env s = (Inr (Some j), s')"
  shows "\<exists>jobs s1 c s2. await_repo (listAll (be_repo env)) s = (Inr jobs, s1) \<and>
    claim_candidate (be_cfg env) (bs_inFlight s1) jobs = Some c \<and>
    transition_now env (j_id c) [Queued] claim_update s1 = (Inr (True, Some j), s2) \<and>
    s' = s2\<lparr>bs_inFlight := set_add (j_id c) (bs_inFlight s2)\<rparr>"
proof -
  from assms obtain jobs s1 where l: "await_repo (listAll (be_repo env)) s = (Inr jobs, s1)"
    by (auto simp: claimNext_def op_bind_Inr_iff split: if_splits)
  with assms obtain c where c: "claim_candidate (be_cfg env) (bs_inFlight s1) jobs = Some c"
    by (auto simp: claimNext_def op_bind_def split: if_splits option.splits)
  obtain q s2 where q: "transition_now env (j_id c) [Queued] claim_update s1 = (q, s2)" by fastforce
  have run: "(Inr (Some j), s') = (case q of Inl e \<Rightarrow> (Inl e, s2) | Inr (transitioned, job) \<Rightarrow>
        (if \<not> transitioned \<or> job = None then (Inr None, s2)
         else if bs_shuttingDown s2 then op_bind (requeueClaimedJob env (j_id (the job))) (\<lambda>_. op_return None) s2
         else (Inr job, s2\<lparr>bs_inFlight := set_add (j_id c) (bs_inFlight s2)\<rparr>)))"
    using assms l c q
    by (auto simp: claimNext_def op_bind_def split: if_splits sum.splits prod.splits)
  have "q = Inr (True, Some j) \<and> s' = s2\<lparr>bs_inFlight := set_add (j_id c) (bs_inFlight s2)\<rparr>"
  proof -
    have no: "op_bind (requeueClaimedJob env i) (\<lambda>_. op_return None) s2 \<noteq> (Inr (Some j), s')" for i
      using requeue_inFlight(2) [of env i None s2 "Inr (Some j)" s'] by auto
    from run no show ?thesis by (auto split: sum.splits prod.splits if_splits)
  qed
  with l c q show ?thesis by blast
qed

text \<open>
  Order. The claimed job was the first in queue order, at the time of the listing, of the queued
  jobs that were not in flight, and only its state changed.
\<close>

theorem claim_first_come:
  assumes "claimNext env s = (Inr (Some j), s')" and "fs_ok (the_fs s)"
    and "collation (rc_localeCompare (be_repo env))"
  shows "\<exists>c. bridge_job_at env s (j_id c) = Some c \<and> j_status c = Queued \<and> j_id c = j_id j \<and>
    (\<forall>k \<in> {k. bridge_job_at env s (j_id k) = Some k \<and> j_status k = Queued \<and> j_id k \<notin> set (bs_inFlight s)}.
       queue_cmp (be_repo env) c k \<le> 0)"
proof -
  obtain jobs s1 c s2 where l: "await_repo (listAll (be_repo env)) s = (Inr jobs, s1)"
    and c: "claim_candidate (be_cfg env) (bs_inFlight s1) jobs = Some c"
    and t: "transition_now env (j_id c) [Queued] claim_update s1 = (Inr (True, Some j), s2)"
    using claim_listed [OF assms(1)] by blast
  obtain u where u: "listAll (be_repo env) (bs_repo s) = (Inr jobs, u)" using await_repo_Inr [OF l] by blast
  note r = listAll_result [OF u assms(2) [unfolded the_fs_def]]
  note room = claim_candidate_room [OF c r(3)]
  have find: "find (\<lambda>j. j_id j \<notin> set (bs_inFlight s1)) (filter (\<lambda>j. j_status j = Queued) jobs) = Some c"
    using c by (auto simp: claim_candidate_def Let_def split: if_splits)
  have sorted: "sorted_wrt (\<lambda>a b. queue_cmp (be_repo env) a b \<le> 0) (filter (\<lambda>j. j_status j = Queued) jobs)"
    using listAll_sorted [OF u assms(2) [unfolded the_fs_def] assms(3)] by (rule sorted_wrt_filter)
  have refl: "queue_cmp (be_repo env) c c \<le> 0"
    by (simp add: comparator.cmp_refl [OF queue_cmp_comparator [OF assms(3)]])
  have first: "queue_cmp (be_repo env) c k \<le> 0"
    if "bridge_job_at env s (j_id k) = Some k" "j_status k = Queued" "j_id k \<notin> set (bs_inFlight s)" for k
  proof -
    have "k \<in> set (filter (\<lambda>j. j_status j = Queued) jobs)"
      using that(1,2) r(2) by (simp add: bridge_job_at_def)
    moreover have "j_id k \<notin> set (bs_inFlight s1)" using that(3) await_inFlight(1) [OF l] by blast
    ultimately show ?thesis using find_first [OF find sorted, of k] refl by auto
  qed
  obtain q v where "transition (be_repo env) (j_id c) [Queued] (claim_update (now_iso env s1)) (bs_repo s1) = (Inr (True, Some j), v)"
    using await_repo_Inr [OF t [unfolded transition_now_def]] by blast
  from repo.cas_applied [OF this] have "j_id j = j_id c"
    by (auto simp: same_request_id [OF same_request_updates(1)] dest: job_at_id)
  moreover have "bridge_job_at env s (j_id c) = Some c" using r(2) room(1) by (simp add: bridge_job_at_def)
  ultimately show ?thesis using first room(2) by auto
qed

theorem claim_first_come_witness:
  "\<exists>j s' c. claimNext claim_bridge sample_bridge_state = (Inr (Some j), s') \<and>
     bridge_job_at claim_bridge sample_bridge_state (j_id c) = Some c \<and> j_status c = Queued \<and> j_id c = uuid2"
proof -
  from sample_claimed obtain j s' where run: "claimNext claim_bridge sample_bridge_state = (Inr (Some j), s')"
    and j: "j_id j = uuid2" by (auto split: prod.splits sum.splits option.splits)
  have "fs_ok (the_fs sample_bridge_state)" using sample_sane by (simp add: sane_def)
  moreover have "collation (rc_localeCompare (be_repo claim_bridge))"
    using collation_lex_cmp by (simp add: claim_bridge_def sample_bridge_def sample_repo_def sample_config_def)
  ultimately show ?thesis using claim_first_come [OF run] run j by fastforce
qed

section \<open>The course of the jobs\<close>

text \<open>
  Claiming makes a job run: a relation of the life cycle also allows that.
\<close>

locale lifecycle_relation = service_relation +
  assumes any_step: "\<not> isTerminal (j_status j) \<Longrightarrow> same_request j k \<Longrightarrow> R i (Some j) (Some k)"
begin

lemma claimNext_guar: "guar R env (claimNext env)"
proof -
  have tr: "guar R env (transition_now env i [Queued] claim_update)" for i
    by (rule transition_now_guar)
       (auto intro!: any_step simp: same_request_id [OF same_request_updates(1)])
  have rest: "guar R env (\<lambda>s2.
      if \<not> transitioned \<or> job = None then (Inr None, s2)
      else if bs_shuttingDown s2
      then op_bind (requeueClaimedJob env (j_id (the job))) (\<lambda>_. op_return None) s2
      else (Inr job, s2\<lparr>bs_inFlight := set_add (j_id c) (bs_inFlight s2)\<rparr>))"
    for transitioned c and job :: "bridge_job option"
  proof (intro if_guar constant_guar bind_guar requeue_guar return_guar)
    show "guar R env (\<lambda>s2. (Inr job, s2\<lparr>bs_inFlight := set_add (j_id c) (bs_inFlight s2)\<rparr>))"
      by (rule frame_guar) simp_all
  qed
  have pair: "guar R env (op_bind (transition_now env (j_id c) [Queued] claim_update)
      (\<lambda>(transitioned, job) s2.
        if \<not> transitioned \<or> job = None then (Inr None, s2)
        else if bs_shuttingDown s2
        then op_bind (requeueClaimedJob env (j_id (the job))) (\<lambda>_. op_return None) s2
        else (Inr job, s2\<lparr>bs_inFlight := set_add (j_id c) (bs_inFlight s2)\<rparr>)))" for c
  proof (rule bind_guar [OF tr])
    fix x :: "bool \<times> bridge_job option"
    obtain a b where "x = (a, b)" by (cases x)
    then show "guar R env (case x of (transitioned, job) \<Rightarrow> \<lambda>s2.
        if \<not> transitioned \<or> job = None then (Inr None, s2)
        else if bs_shuttingDown s2
        then op_bind (requeueClaimedJob env (j_id (the job))) (\<lambda>_. op_return None) s2
        else (Inr job, s2\<lparr>bs_inFlight := set_add (j_id c) (bs_inFlight s2)\<rparr>))"
      by (simp only: prod.case rest)
  qed
  show ?thesis
    unfolding claimNext_def
    by (intro if_guar constant_guar bind_guar store_reads_guar)
       (rule option_guar [OF constant_guar pair])
qed

lemma runOnce_guar:
  assumes "dirs_separate env"
  shows "guar R env (runOnce env b)"
proof (rule guarI)
  fix s r s'
  assume ok: "sane R env s" and run: "runOnce env b s = (r, s')"
  obtain q t where q: "reconcileRunningTmuxJobs env b s = (q, t)" by fastforce
  have st: "moves R env s t" by (rule guarD [OF reconcile_guar [OF assms] ok q])
  have fin: "guar R env (op_finally (op_bind (executeJob env job) (\<lambda>_. op_return True))
      (\<lambda>t. t\<lparr>bs_inFlight := filter (\<lambda>i. i \<noteq> j_id job) (bs_inFlight t)\<rparr>))" for job
    by (intro finally_guar bind_guar executeJob_guar [OF assms] return_guar) simp_all
  have rest: "guar R env (op_bind (claimNext env) (\<lambda>claimed.
            case claimed of
              None \<Rightarrow> op_return x
            | Some job \<Rightarrow>
                op_finally (op_bind (executeJob env job) (\<lambda>_. op_return True))
                  (\<lambda>t. t\<lparr>bs_inFlight := filter (\<lambda>i. i \<noteq> j_id job) (bs_inFlight t)\<rparr>)))" for x
    by (rule bind_guar [OF claimNext_guar]) (auto intro: fin return_guar split: option.split)
  show "moves R env s s'"
  proof (cases "s' = t")
    case True
    with st show ?thesis by simp
  next
    case False
    with run q have "\<exists>x. op_bind (claimNext env) (\<lambda>claimed.
            case claimed of
              None \<Rightarrow> op_return x
            | Some job \<Rightarrow>
                op_finally (op_bind (executeJob env job) (\<lambda>_. op_return True))
                  (\<lambda>t. t\<lparr>bs_inFlight := filter (\<lambda>i. i \<noteq> j_id job) (bs_inFlight t)\<rparr>)) t = (r, s')"
      by (auto simp: runOnce_def split: sum.splits if_splits)
    then show ?thesis using guarD [OF rest moves_sane [OF st ok]] st trans_moves by blast
  qed
qed

end

interpretation course: lifecycle_relation "job_course k" for k
  by unfold_locales (auto intro!: course_step simp: job_move_def)

section \<open>Recovery after a restart\<close>

lemma collect_status:
  assumes "tmux_collect env job s = (Inr (Some c), s')"
  shows "er_status (fst c) = Succeeded \<or> er_status (fst c) = Failed"
proof -
  have exited: "er_status (fst c) = Succeeded \<or> er_status (fst c) = Failed"
    if "op_bind (collect_exited env job ses x) (\<lambda>r. op_return (Some r)) t = (Inr (Some c), s')" for ses x t
    using that collect_exited_result [of env job ses x t "fst c" "snd c" s']
    by (auto simp: op_bind_Inr_iff op_return_def split: if_splits)
  have failed: "er_status (fst c) = Succeeded \<or> er_status (fst c) = Failed"
    if "op_bind (collect_failed env job ses m q e) (\<lambda>r. op_return (Some r)) t = (Inr (Some c), s')" for ses m q e t
    using that collect_failed_result [of env job ses m q e t "fst c" "snd c" s']
    by (auto simp: op_bind_Inr_iff op_return_def)
  from assms obtain ses where ses: "j_session job = Some ses"
    by (cases "j_session job") (auto simp: tmux_collect_def op_return_def)
  show ?thesis
  proof (cases "readExitCode env (j_id job) (the_fs s)")
    case (Some x)
    with assms ses exited show ?thesis by (simp add: tmux_collect_def)
  next
    case None
    show ?thesis
    proof (cases "isTimedOut env job s")
      case True
      with assms ses None failed show ?thesis by (auto simp: tmux_collect_def op_bind_Inr_iff [of "runTmux _"])
    next
      case False
      have none: "op_return None t \<noteq> (Inr (Some c), s')" for t by (simp add: op_return_def)
      from False assms ses None none obtain l t where "(case l of
            Some exitCode \<Rightarrow> op_bind (collect_exited env job ses exitCode) (\<lambda>r. op_return (Some r))
          | None \<Rightarrow> op_bind (collect_failed env job ses ''tmux session exited before writing an exit code'' None
              ExecutionError) (\<lambda>r. op_return (Some r))) t = (Inr (Some c), s')"
        by (auto simp: tmux_collect_def op_bind_Inr_iff [of "hasSession _"] op_bind_Inr_iff [of "waitForExitCode _ _"]
            split: if_splits)
      then show ?thesis using exited failed by (cases l) auto
    qed
  qed
qed

lemma stopped_by_transition:
  assumes "transition_now env i [Running] upd s = (Inr q, t)" and "sane never_starts env s"
    and "\<And>now j. j_status (upd now j) \<noteq> Running" and "\<And>now j. j_id (upd now j) = j_id j"
  shows "i \<notin> running_ids env t"
proof -
  let ?upd = "upd (now_iso env s)"
  obtain u where u: "transition (be_repo env) i [Running] ?upd (bs_repo s) = (Inr q, u)"
    and t: "t = world_step (s\<lparr>bs_repo := u\<rparr>)"
    using await_repo_Inr [OF assms(1) [unfolded transition_now_def]] by blast
  let ?v = "s\<lparr>bs_repo := u\<rparr>"
  have "repo_ok u" using op_keepsD [OF keeps_transition _ u] assms(2) by (simp add: sane_def the_fs_def)
  then have "sane never_starts env ?v" using assms(2) by (simp add: sane_def world_ok_def the_fs_def)
  then have "running_ids env t \<subseteq> running_ids env ?v" using t starts.world_step_moves moves_running by blast
  moreover have "i \<notin> running_ids env ?v"
    using repo.cas_cases [OF u] assms(3,4)
    by (auto simp: running_ids_iff bridge_job_at_def split: if_splits dest: job_at_id)
  ultimately show ?thesis by blast
qed

lemma recover_job_stops:
  assumes "recover_job env job s = (Inr (), t)" and "sane never_starts env s" and "dirs_separate env"
    and "\<not> (j_executionMode job = Some TmuxMode \<and> map_option ts_status (j_session job) = Some TRunning)"
  shows "j_id job \<notin> running_ids env t"
proof -
  have fail: "j_id job \<notin> running_ids env t"
    if "op_bind (transition_now env (j_id job) [Running] interrupted_update) (\<lambda>_. op_return ()) u = (Inr (), t)"
      "sane never_starts env u" for u
  proof -
    from that(1) obtain q where "transition_now env (j_id job) [Running] interrupted_update u = (Inr q, t)"
      by (auto simp: op_bind_Inr_iff op_return_def)
    from stopped_by_transition [OF this that(2)] show ?thesis by (simp add: same_request_id [OF same_request_updates(5)])
  qed
  show ?thesis
  proof (cases "j_executionMode job = Some TmuxMode")
    case False
    with assms(1) have "op_bind (transition_now env (j_id job) [Running] interrupted_update) (\<lambda>_. op_return ()) s = (Inr (), t)"
      by (simp add: recover_job_def)
    then show ?thesis using assms(2) by (rule fail)
  next
    case True
    with assms(4) have no: "(map_option ts_status (j_session job) = Some TRunning) = False" by simp
    from assms(1) have "op_bind (collectTmuxJob env job) (\<lambda>collected. if collected then op_return ()
        else op_bind (transition_now env (j_id job) [Running] interrupted_update) (\<lambda>_. op_return ())) s = (Inr (), t)"
      by (simp only: recover_job_def Let_def True refl if_True no if_False)
    then obtain b u where c: "collectTmuxJob env job s = (Inr b, u)"
      and rest: "(if b then op_return ()
        else op_bind (transition_now env (j_id job) [Running] interrupted_update) (\<lambda>_. op_return ())) u = (Inr (), t)"
      unfolding op_bind_Inr_iff [of "collectTmuxJob env job"] by blast
    have su: "sane never_starts env u"
      using moves_sane [OF guarD [OF starts.collectTmuxJob_guar [OF assms(3)] assms(2) c] assms(2)] .
    show ?thesis
    proof (cases b)
      case False
      with rest have "op_bind (transition_now env (j_id job) [Running] interrupted_update) (\<lambda>_. op_return ()) u = (Inr (), t)"
        by simp
      then show ?thesis using su by (rule fail)
    next
      case True
      with c obtain co v where co: "tmux_collect env job s = (Inr (Some co), v)"
        and tr: "op_bind (transition_now env (j_id job) [Running] (collect_update co)) track_transition v = (Inr True, u)"
        by (auto simp: collectTmuxJob_def op_bind_Inr_iff [of "tmux_collect _ _"] op_return_def
            split: if_splits option.splits)
      have sv: "sane never_starts env v"
        using moves_sane [OF guarD [OF starts.tmux_collect_guar [OF assms(3)] assms(2) co] assms(2)] .
      from tr obtain q w where q: "transition_now env (j_id job) [Running] (collect_update co) v = (Inr q, w)"
        and w: "track_transition q w = (Inr True, u)" by (auto simp: op_bind_Inr_iff)
      have "j_id job \<notin> running_ids env w"
        using collect_status [OF co] by (intro stopped_by_transition [OF q sv]) (auto simp: same_request_id [OF same_request_updates(7)])
      moreover have "moves never_starts env w u"
        by (rule guarD [OF starts.track_guar(2) _ w])
           (rule moves_sane [OF guarD [OF starts.running_step_guar sv q] sv], simp)
      moreover have "t = u" using rest True by (simp add: op_return_def)
      ultimately show ?thesis using moves_running by blast
    qed
  qed
qed

definition resumable :: "bridge_job \<Rightarrow> bool" where
  \<comment> \<open>a job recovery leaves running: its session was recorded as running\<close>
  "resumable j \<longleftrightarrow> j_executionMode j = Some TmuxMode \<and> map_option ts_status (j_session j) = Some TRunning"

lemma recover_jobs_stop:
  assumes "op_foreach (recover_job env) jobs s = (Inr (), t)" and "sane never_starts env s" and "dirs_separate env"
  shows "running_ids env t \<subseteq> running_ids env s - {j_id j | j. j \<in> set jobs \<and> \<not> resumable j}"
  using assms(1,2)
proof (induction jobs arbitrary: s)
  case Nil
  then show ?case by (simp add: op_return_def)
next
  case (Cons job jobs)
  then obtain u where u: "recover_job env job s = (Inr (), u)" and t: "op_foreach (recover_job env) jobs u = (Inr (), t)"
    by (auto simp: op_bind_Inr_iff)
  have m: "moves never_starts env s u"
    by (rule guarD [OF starts.recover_job_guar [OF assms(3)] Cons.prems(2) u])
  have "j_id job \<notin> running_ids env u" if "\<not> resumable job"
    using recover_job_stops [OF u Cons.prems(2) assms(3)] that by (auto simp: resumable_def)
  then show ?case using Cons.IH [OF t moves_sane [OF m Cons.prems(2)]] moves_running [OF m] by auto
qed

text \<open>
  C21. Recovery after a restart. When recovery returns, every job that still runs was running when
  recovery began, runs in a session, and that session was recorded as running: no job executed by
  the process that died stays in the state \<open>running\<close>, whatever happens while recovery awaits.
\<close>

theorem recovery_stops_lost_jobs:
  assumes "recoverInterruptedJobs env s = (Inr (), s')" and "sane never_starts env s" and "dirs_separate env"
  shows "running_ids env s' \<subseteq> {i. \<exists>j. bridge_job_at env s i = Some j \<and> j_status j = Running \<and> resumable j}"
proof -
  from assms(1) obtain jobs u where l: "await_repo (listByStatus (be_repo env) Running) s = (Inr jobs, u)"
    and f: "op_foreach (recover_job env) jobs u = (Inr (), s')"
    by (auto simp: recoverInterruptedJobs_def op_bind_Inr_iff)
  from await_repo_Inr [OF l] obtain r all where all: "listAll (be_repo env) (bs_repo s) = (Inr all, r)"
    and jobs: "jobs = filter (\<lambda>j. j_status j = Running) all"
    by (auto simp: listByStatus_def op_bind_Inr_iff op_return_def)
  have ok: "fs_ok (rs_fs (bs_repo s))" using assms(2) by (simp add: sane_def the_fs_def)
  note mem = listAll_result(2) [OF all ok]
  have m: "moves never_starts env s u" by (rule guarD [OF starts.store_reads_guar(3) assms(2) l])
  have sub: "running_ids env s' \<subseteq> running_ids env s - {j_id j | j. j \<in> set jobs \<and> \<not> resumable j}"
    using recover_jobs_stop [OF f moves_sane [OF m assms(2)] assms(3)] moves_running [OF m] by blast
  show ?thesis
  proof
    fix i assume i: "i \<in> running_ids env s'"
    with sub have "i \<in> running_ids env s" by blast
    then obtain j where j: "bridge_job_at env s i = Some j" "j_status j = Running" by (auto simp: running_ids_iff)
    then have "j_id j = i" by (auto simp: bridge_job_at_def dest: job_at_id)
    with j have "j \<in> set jobs" by (auto simp: jobs mem bridge_job_at_def)
    with sub i \<open>j_id j = i\<close> have "resumable j" by auto
    with j show "i \<in> {i. \<exists>j. bridge_job_at env s i = Some j \<and> j_status j = Running \<and> resumable j}" by blast
  qed
qed

definition restart_state :: bridge_state where
  \<comment> \<open>the process died while it executed the job \<open>uuid2\<close>\<close>
  "restart_state = sample_bridge_state\<lparr>bs_repo := (bs_repo sample_bridge_state)\<lparr>rs_fs :=
     map (\<lambda>e. if fst e = job_file sample_repo uuid2 then stored (sample_job uuid2 Running None) else e) sample_disk\<rparr>\<rparr>"

lemma restart_sample:
  "fst (recoverInterruptedJobs sample_bridge restart_state) = Inr ()"
  "fs_ok (the_fs restart_state)" "dirs_separate sample_bridge"
  "map_option j_status (bridge_job_at sample_bridge restart_state uuid2) = Some Running"
  "map_option resumable (bridge_job_at sample_bridge restart_state uuid2) = Some False"
  by code_simp+

theorem recovery_stops_lost_jobs_witness:
  "\<exists>s'. recoverInterruptedJobs sample_bridge restart_state = (Inr (), s') \<and>
     uuid2 \<in> running_ids sample_bridge restart_state \<and> uuid2 \<notin> running_ids sample_bridge s'"
proof -
  obtain s' where run: "recoverInterruptedJobs sample_bridge restart_state = (Inr (), s')"
    using restart_sample(1) by (metis prod.collapse)
  have "bs_world restart_state = []" by (simp add: restart_state_def sample_bridge_state_def)
  then have "sane never_starts sample_bridge restart_state"
    using restart_sample(2) by (simp add: sane_def world_ok_def)
  note sub = recovery_stops_lost_jobs [OF run this restart_sample(3)]
  obtain z where z: "bridge_job_at sample_bridge restart_state uuid2 = Some z" "j_status z = Running" "\<not> resumable z"
    using restart_sample(4,5) by auto
  then have "uuid2 \<in> running_ids sample_bridge restart_state" by (auto simp: running_ids_iff)
  moreover have "uuid2 \<notin> running_ids sample_bridge s'" using sub z by fastforce
  ultimately show ?thesis using run by blast
qed

end
