(* ===== verification/ServiceSamples.thy ===== *)
theory ServiceSamples
  imports JobsService RunnerSafety
begin

text \<open>
  Concrete requests on which the properties of the job API are applied: a creation with a request
  id and its repetition, a callback and its repetition, and a cancellation.
\<close>

definition sample_create :: create_dto where
  "sample_create = \<lparr>cd_prompt = ''p'', cd_executionMode = None, cd_cwd = None, cd_requestId = Some ''r'',
     cd_originRoutingKey = None, cd_source = None, cd_sourceName = None, cd_metadata = None, cd_notifyUrl = None\<rparr>"

definition sample_callback :: callback_dto where
  "sample_callback = \<lparr>cb_status = Succeeded, cb_stdout = Given ''out'', cb_stderr = Absent,
     cb_exitCode = Given (Some 0), cb_execution = Absent\<rparr>"

definition create_state :: bridge_state where
  \<comment> \<open>an empty store, early on the clock\<close>
  "create_state = sample_bridge_state\<lparr>bs_repo := \<lparr>rs_fs = [([''s''], own_dir), ([''s'', ''jobs''], own_dir)],
     rs_ready = True, rs_now = 5, rs_uuids = 0, rs_writes = []\<rparr>\<rparr>"

lemma created_sample:
  "map_sum id j_id (fst (createJob sample_bridge sample_create create_state)) = Inr uuid5"
  "case createJob sample_bridge sample_create create_state of (r, s) \<Rightarrow> bs_world s = [] \<and>
     (case findExistingRequestJob sample_bridge sample_create s of
        (Inr (Some j), t) \<Rightarrow> fingerprint_matches sample_bridge j sample_create | _ \<Rightarrow> False)"
  by code_simp+

lemma completed_sample:
  "map_sum id j_id (fst (completeJobFromCallback sample_bridge uuid2 sample_callback sample_bridge_state)) = Inr uuid2"
  by code_simp

lemma cancelled_sample:
  "map_sum id j_id (fst (cancelJob sample_bridge uuid2 sample_bridge_state)) = Inr uuid2"
  "map_option j_status (bridge_job_at sample_bridge sample_bridge_state uuid2) = Some Queued"
  "map_option j_status (bridge_job_at sample_bridge sample_bridge_state uuid3) = Some Succeeded"
  by code_simp+

lemma create_sane: "sane R env create_state"
proof -
  have "fs_ok (the_fs create_state)" by code_simp
  then show ?thesis by (simp add: sane_def world_ok_def create_state_def sample_bridge_state_def)
qed

lemma sample_separate: "dirs_separate sample_bridge"
  by code_simp

lemma returned: "map_sum id j_id (fst x) = Inr i \<Longrightarrow> \<exists>j t. x = (Inr j, t) \<and> j_id j = i"
  by (cases x; cases "fst x") simp_all

end
