(* ===== verification/JobsSafety.thy ===== *)
theory JobsSafety
  imports ServiceSamples
begin

text \<open>
  What the job API guarantees while the job runner, the notifier and other requests interleave
  with it: capacity, idempotent creation, the first result wins, a cancelled job stays cancelled,
  and consistent counts.
\<close>

interpretation any_course: lifecycle_relation "\<lambda>i. job_move\<^sup>*\<^sup>*"
  by unfold_locales (auto intro: rtranclp_trans simp: job_move_def)

section \<open>What the operations guarantee\<close>

lemma same_request_service [simp]:
  "same_request j (callback_update input now j)" "same_request j (cancelled_update ses now j)"
  by (simp_all add: same_request_def callback_update_def cancelled_update_def)

lemma status_service [simp]:
  "j_status (callback_update input now j) = cb_status input" "j_status (cancelled_update ses now j) = Cancelled"
  by (simp_all add: callback_update_def cancelled_update_def)

lemma active_not_terminal: "j_status j \<in> set [Queued, Running] \<Longrightarrow> \<not> isTerminal (j_status j)"
  by auto

context job_relation
begin

lemma pair_guar: "(\<And>a b. guar R env (f a b)) \<Longrightarrow> guar R env (case x of (a, b) \<Rightarrow> f a b)"
  by (cases x) simp

lemma case_guar: "guar R env m \<Longrightarrow> (\<And>a. guar R env (n a)) \<Longrightarrow> guar R env (case x of None \<Rightarrow> m | Some a \<Rightarrow> n a)"
  by (cases x) simp_all

lemma reading_guar: "guar R env (\<lambda>s. (f s, s))"
  by (rule frame_guar) simp_all

lemma get_job_guar: "guar R env (getJobOrThrow env i)"
  unfolding getJobOrThrow_def
  by (auto intro!: bind_guar store_reads_guar fail_guar return_guar split: option.split)

lemma service_reads_guar:
  "guar R env (listJobs env st)" "guar R env (getStats env)" "guar R env (getJobSessionOrThrow env i)"
  unfolding listJobs_def getStats_def getJobSessionOrThrow_def Let_def
  by (auto intro!: bind_guar store_reads_guar get_job_guar reading_guar return_guar split: option.split)

end

context service_relation
begin

lemma completing_guar:
  assumes "\<And>now j. same_request j (upd now j)" and "\<And>now j. isTerminal (j_status (upd now j))"
  shows "guar R env (transition_now env i [Queued, Running] upd)"
proof (rule transition_now_guar)
  fix now and j :: bridge_job
  assume "j_status j \<in> set [Queued, Running]"
  with assms(2) [of now j] show "R (j_id j) (Some j) (Some (upd now j))"
    by (intro active_step assms(1)) auto
next
  show "j_id (upd now j) = j_id j" for now j using assms(1) by (rule same_request_id)
qed

lemma callback_guar:
  assumes "dirs_separate env" and "isTerminal (cb_status input)"
  shows "guar R env (completeJobFromCallback env i input)"
  unfolding completeJobFromCallback_def
  by (intro bind_guar completing_guar pair_guar case_guar fail_guar)
     (use assms(2) in \<open>auto intro!: bind_guar runner_cancel_guar [OF assms(1)] track_guar fail_guar return_guar
       simp del: isTerminal.simps\<close>)

lemma cancel_transition_guar:
  assumes "dirs_separate env"
  shows "guar R env (cancel_transition env i job b)"
  unfolding cancel_transition_def
  by (intro bind_guar completing_guar pair_guar case_guar fail_guar)
     (auto intro!: bind_guar runner_cancel_guar [OF assms] track_guar fail_guar return_guar)

lemma cancel_job_guar: "dirs_separate env \<Longrightarrow> guar R env (cancelJob env i)"
  unfolding cancelJob_def
  by (auto intro!: bind_guar get_job_guar runner_cancel_guar cancel_transition_guar fail_guar return_guar)

lemma assert_cwd_guar: "guar R env (assertAllowedCwd env cwd)"
  unfolding assertAllowedCwd_def
  by (auto intro!: bind_guar awaiting_guar fail_guar return_guar split: sum.split)

lemma find_existing_guar: "guar R env (findExistingRequestJob env input)"
  unfolding findExistingRequestJob_def by (auto intro!: bind_guar store_reads_guar return_guar)

lemma assert_fingerprint_guar: "guar R env (assertRequestFingerprintMatches env j input)"
  unfolding assertRequestFingerprintMatches_def by (simp add: return_guar fail_guar)

lemma count_guar: "guar R env (await_repo (countActive (be_repo env)))"
proof (intro read_guar repo_keeps)
  show "job_at (be_repo env) t = job_at (be_repo env) s" if "countActive (be_repo env) s = (r, t)" for s r t
    using that by (auto simp: countActive_def op_bind_def op_return_def split: prod.splits sum.splits dest: listAll_reads)
qed

end

abbreviation any_sane :: "bridge_env \<Rightarrow> bridge_state \<Rightarrow> bool" where
  "any_sane \<equiv> sane (\<lambda>i. job_move\<^sup>*\<^sup>*)"

abbreviation any_moves :: "bridge_env \<Rightarrow> bridge_state \<Rightarrow> bridge_state \<Rightarrow> bool" where
  "any_moves \<equiv> moves (\<lambda>i. job_move\<^sup>*\<^sup>*)"

section \<open>How creation proceeds\<close>

definition normalized_input :: "bridge_env \<Rightarrow> create_dto \<Rightarrow> cwd_error + create_dto" where
  \<comment> \<open>the input with its legacy source replaced and its working directory resolved\<close>
  "normalized_input env input =
     (let n = normalizeLegacySource input in
      case resolveAllowedExecutionCwd (be_realpath env) (be_cwd env) (cd_cwd n) (bc_allowedCwdPrefixes (be_cfg env)) of
        Inl e \<Rightarrow> Inl e | Inr c \<Rightarrow> Inr (n\<lparr>cd_cwd := c\<rparr>))"

lemma createJob_run:
  "createJob env input s =
     (case normalized_input env input of
        Inl e \<Rightarrow> (Inl (BadCwd e), world_step s)
      | Inr m \<Rightarrow> op_bind (findExistingRequestJob env m) (\<lambda>existing.
           case existing of
             Some j \<Rightarrow> op_bind (assertRequestFingerprintMatches env j m) (\<lambda>_. op_return j)
           | None \<Rightarrow> create_new env m (buildRequestFingerprint env m)) (world_step s))"
  by (simp add: createJob_def normalized_input_def Let_def assertAllowedCwd_def op_bind_def awaiting_def
      op_modify_def op_fail_def op_return_def split: sum.split)

lemma normalized_source:
  "normalized_input env input = Inr m \<Longrightarrow> cd_source m \<noteq> Some Synapse"
  by (auto simp: normalized_input_def normalizeLegacySource_def Let_def split: sum.splits if_splits)

lemma save_moves:
  assumes "await_repo (save (be_repo env) j) u = (r, s')" and "any_sane env u"
  shows "(\<exists>e. r = Inl e \<and> any_moves env u s') \<or>
    (r = Inr j \<and> (\<exists>v. any_sane env v \<and> bridge_job_at env v = (bridge_job_at env u)(j_id j \<mapsto> j) \<and>
       any_moves env v s'))"
proof -
  obtain q t where q: "save (be_repo env) j (bs_repo u) = (q, t)" by (cases "save (be_repo env) j (bs_repo u)")
  let ?v = "u\<lparr>bs_repo := t\<rparr>"
  have s': "s' = world_step ?v" and r: "r = (case q of Inl e \<Rightarrow> Inl (RepoError e) | Inr x \<Rightarrow> Inr x)"
    using assms(1) q by (auto simp: await_repo_def on_repo_def split: sum.splits)
  have "repo_ok t" using op_keepsD [OF keeps_save _ q] assms(2) by (simp add: sane_def the_fs_def)
  then have sv: "any_sane env ?v" using assms(2) by (simp add: sane_def world_ok_def the_fs_def)
  have mv: "any_moves env ?v s'" unfolding s' by (rule any_course.world_step_moves [OF sv])
  from save_cases [OF q] show ?thesis
  proof (elim disjE conjE exE)
    assume "q = Inr j" "job_at (be_repo env) t = (job_at (be_repo env) (bs_repo u))(j_id j \<mapsto> j)"
    then show ?thesis using r sv mv by (intro disjI2 conjI exI [of _ ?v]) (simp_all add: bridge_job_at_def)
  next
    fix e assume "q = Inl e" "job_at (be_repo env) t = job_at (be_repo env) (bs_repo u)"
    then have "any_moves env u ?v" using sv by (simp add: moves_def bridge_job_at_def)
    then show ?thesis using r \<open>q = Inl e\<close> mv any_course.trans_moves by auto
  qed
qed

lemma create_new_cases:
  assumes "create_new env m fp s = (r, s')" and "any_sane env s"
  shows "(\<exists>e. r = Inl e \<and> any_moves env s s') \<or>
    (\<exists>n u q now v j. r = Inr j \<and> await_repo (countActive (be_repo env)) s = (Inr n, u) \<and>
       n < bc_maxActiveJobs (be_cfg env) \<and> any_moves env s u \<and>
       j = new_job env m fp (rc_uuid (be_repo env) (rs_uuids (bs_repo u))) q now \<and>
       any_sane env v \<and> bridge_job_at env v = (bridge_job_at env u)(j_id j \<mapsto> j) \<and> any_moves env v s')"
proof -
  obtain c u where c: "await_repo (countActive (be_repo env)) s = (c, u)" by fastforce
  have mu: "any_moves env s u" by (rule guarD [OF any_course.count_guar assms(2) c])
  show ?thesis
  proof (cases c)
    case (Inl e)
    with assms(1) c mu show ?thesis by (auto simp: create_new_def op_bind_def)
  next
    case (Inr n)
    show ?thesis
    proof (cases "n \<ge> bc_maxActiveJobs (be_cfg env)")
      case True
      with assms(1) c Inr mu show ?thesis by (auto simp: create_new_def op_bind_def op_fail_def)
    next
      case False
      define i where "i = rc_uuid (be_repo env) (rs_uuids (bs_repo u))"
      define w where "w = u\<lparr>bs_repo := (bs_repo u)\<lparr>rs_uuids := Suc (rs_uuids (bs_repo u))\<rparr>,
        bs_queueSequence := Suc (bs_queueSequence u)\<rparr>"
      obtain q now where run: "await_repo (save (be_repo env) (new_job env m fp i q now)) w = (r, s')"
        using assms(1) c Inr False
        by (auto simp: create_new_def op_bind_def on_repo_def randomUUID_def nextQueueOrder_def Let_def i_def w_def now_ms_def)
      have same: "bridge_job_at env w = bridge_job_at env u" by (simp add: w_def bridge_job_at_def fun_eq_iff job_at_def)
      have "any_sane env u" using moves_sane [OF mu assms(2)] .
      then have sw: "any_sane env w" by (simp add: w_def sane_def world_ok_def the_fs_def)
      have "any_moves env u w" using same sw by (simp add: moves_def)
      with mu have muw: "any_moves env s w" using any_course.trans_moves by blast
      from save_moves [OF run sw] show ?thesis
      proof (elim disjE exE conjE)
        fix e assume "r = Inl e" "any_moves env w s'"
        then show ?thesis using muw any_course.trans_moves by blast
      next
        fix v assume "r = Inr (new_job env m fp i q now)" "any_sane env v" "any_moves env v s'"
          "bridge_job_at env v = (bridge_job_at env w)(j_id (new_job env m fp i q now) \<mapsto> new_job env m fp i q now)"
        then show ?thesis using c Inr False mu same i_def by (intro disjI2 exI conjI) auto
      qed
    qed
  qed
qed

text \<open>The two ways a job is returned: an existing one, or a new one.\<close>

lemma createJob_cases:
  assumes "createJob env input s = (r, s')" and "any_sane env s"
  shows "(\<exists>e. r = Inl e \<and> any_moves env s s') \<or>
    (\<exists>m t jobs j. r = Inr j \<and> normalized_input env input = Inr m \<and> truthy_str (cd_requestId m) \<and>
       any_moves env s t \<and> await_repo (listAll (be_repo env)) t = (Inr jobs, s') \<and>
       find (same_request_key m) jobs = Some j \<and> fingerprint_matches env j m) \<or>
    (\<exists>m t u j. r = Inr j \<and> normalized_input env input = Inr m \<and> any_moves env s t \<and>
       rs_uuids (bs_repo t) = rs_uuids (bs_repo s) \<and> findExistingRequestJob env m t = (Inr None, u) \<and>
       create_new env m (buildRequestFingerprint env m) u = (r, s'))"
proof (cases "normalized_input env input")
  case (Inl e)
  with assms show ?thesis by (auto simp: createJob_run intro: any_course.world_step_moves)
next
  case (Inr m)
  let ?t = "world_step s"
  have mt: "any_moves env s ?t" using assms(2) by (rule any_course.world_step_moves)
  note st = moves_sane [OF mt assms(2)]
  obtain x u where x: "findExistingRequestJob env m ?t = (x, u)" by (cases "findExistingRequestJob env m ?t")
  have mu: "any_moves env ?t u" by (rule guarD [OF any_course.find_existing_guar st x])
  have msu: "any_moves env s u" using mt mu any_course.trans_moves by blast
  show ?thesis
  proof (cases x)
    case (Inl e)
    with assms(1) Inr x msu show ?thesis by (auto simp: createJob_run op_bind_def)
  next
    case found: (Inr y)
    show ?thesis
    proof (cases y)
      case None
      with assms(1) Inr x found have run: "create_new env m (buildRequestFingerprint env m) u = (r, s')"
        by (simp add: createJob_run op_bind_def)
      show ?thesis
      proof (cases r)
        case (Inl e)
        with create_new_cases [OF run moves_sane [OF msu assms(2)]] msu show ?thesis
          using any_course.trans_moves by blast
      next
        case (Inr j)
        moreover have "rs_uuids (bs_repo ?t) = rs_uuids (bs_repo s)" by (simp add: world_step_def split: list.split)
        ultimately show ?thesis using run mt x found None \<open>normalized_input env input = Inr m\<close> by blast
      qed
    next
      case (Some j)
      then obtain jobs where l: "truthy_str (cd_requestId m)"
        "await_repo (listAll (be_repo env)) ?t = (Inr jobs, u)" "find (same_request_key m) jobs = Some j"
        using x found by (auto simp: findExistingRequestJob_def op_bind_Inr_iff op_return_def split: if_splits)
      show ?thesis
      proof (cases "fingerprint_matches env j m")
        case True
        with assms(1) Inr x found Some have "r = Inr j" "s' = u"
          by (simp_all add: createJob_run op_bind_def assertRequestFingerprintMatches_def op_return_def)
        then show ?thesis using l Inr mt True by blast
      next
        case False
        with assms(1) Inr x found Some msu show ?thesis
          by (auto simp: createJob_run op_bind_def assertRequestFingerprintMatches_def op_fail_def)
      qed
    qed
  qed
qed

section \<open>Capacity\<close>

definition active_ids :: "bridge_env \<Rightarrow> bridge_state \<Rightarrow> string set" where
  "active_ids env s = {i. \<exists>j. bridge_job_at env s i = Some j \<and> \<not> isTerminal (j_status j)}"

lemma finite_active:
  assumes "fs_ok (the_fs s)"
  shows "finite (active_ids env s)"
proof -
  have "active_ids env s \<subseteq> set (stored_ids (be_repo env) (the_fs s))"
    using stored_ids_iff [OF assms, of _ "be_repo env"]
    by (auto simp: active_ids_def bridge_job_at_in job_in_def bind_eq_Some_conv simp del: isTerminal.simps)
  then show ?thesis by (rule finite_subset) simp
qed

lemma course_activity:
  assumes "job_move\<^sup>*\<^sup>* x (Some k)" and "\<not> isTerminal (j_status k)"
  shows "\<exists>j. x = Some j \<and> \<not> isTerminal (j_status j) \<and> same_request j k"
proof -
  from course_absent assms(1) obtain j where j: "x = Some j" by (cases x) auto
  have "\<not> isTerminal (j_status j)"
    using course_terminal [OF assms(1) j] assms(2) job_core_status [of k j] by auto
  with j course_request [OF assms(1) j refl] show ?thesis by blast
qed

lemma moves_active: "any_moves env s t \<Longrightarrow> active_ids env t \<subseteq> active_ids env s"
proof
  fix i
  assume m: "any_moves env s t" and "i \<in> active_ids env t"
  then obtain k where k: "bridge_job_at env t i = Some k" "\<not> isTerminal (j_status k)" by (auto simp: active_ids_def)
  from course_activity [OF movesD [OF m, of i, unfolded k(1)] k(2)] show "i \<in> active_ids env s"
    by (auto simp: active_ids_def)
qed

lemma counted_active:
  assumes "await_repo (countActive (be_repo env)) s = (Inr n, u)" and "fs_ok (the_fs s)"
  shows "n = int (card (active_ids env s))"
proof -
  obtain t where "countActive (be_repo env) (bs_repo s) = (Inr n, t)" using await_repo_Inr [OF assms(1)] by blast
  then have n: "n = int (card {i. \<exists>j. job_at (be_repo env) (bs_repo s) i = Some j \<and>
      (j_status j = Queued \<or> j_status j = Running)})"
    by (rule countActive_result(2)) (use assms(2) in \<open>simp add: the_fs_def\<close>)
  have "(j_status j = Queued \<or> j_status j = Running) \<longleftrightarrow> \<not> isTerminal (j_status j)" for j
    by (cases "j_status j") simp_all
  then show ?thesis unfolding n active_ids_def bridge_job_at_def by metis
qed

lemma create_capacity:
  assumes "createJob env input s = (r, s')" and "any_sane env s"
  shows "int (card (active_ids env s')) \<le> max (bc_maxActiveJobs (be_cfg env)) (int (card (active_ids env s))) \<and>
    (\<forall>e. r = Inl e \<longrightarrow> active_ids env s' \<subseteq> active_ids env s)"
proof (intro conjI allI impI)
  have fin: "finite (active_ids env s)" using assms(2) by (intro finite_active) (simp add: sane_def)
  have stays: "int (card (active_ids env s')) \<le> max (bc_maxActiveJobs (be_cfg env)) (int (card (active_ids env s)))"
    if "any_moves env s s'"
    using card_mono [OF fin moves_active [OF that]] by linarith
  have new: "int (card (active_ids env s')) \<le> bc_maxActiveJobs (be_cfg env)"
    if "any_moves env s t" "create_new env m fp t = (Inr j, s')" for t m fp j
  proof -
    have st: "any_sane env t" using moves_sane [OF that(1) assms(2)] .
    from create_new_cases [OF that(2) st] obtain n u v where
      n: "await_repo (countActive (be_repo env)) t = (Inr n, u)" "n < bc_maxActiveJobs (be_cfg env)"
      and m: "any_moves env t u" "bridge_job_at env v = (bridge_job_at env u)(j_id j \<mapsto> j)" "any_moves env v s'"
      by auto
    have fin_t: "finite (active_ids env t)" using st by (intro finite_active) (simp add: sane_def)
    have "active_ids env v \<subseteq> insert (j_id j) (active_ids env u)"
      by (auto simp: active_ids_def m(2) split: if_splits simp del: isTerminal.simps)
    with moves_active [OF m(1)] moves_active [OF m(3)]
    have "active_ids env s' \<subseteq> insert (j_id j) (active_ids env t)" by blast
    then have "card (active_ids env s') \<le> card (insert (j_id j) (active_ids env t))"
      using fin_t by (intro card_mono) simp_all
    also have "\<dots> \<le> Suc (card (active_ids env t))" using fin_t by (simp add: card_insert_if)
    finally show ?thesis using n counted_active [OF n(1)] st by (simp add: sane_def)
  qed
  from createJob_cases [OF assms]
  show "int (card (active_ids env s')) \<le> max (bc_maxActiveJobs (be_cfg env)) (int (card (active_ids env s)))"
  proof (elim disjE exE conjE)
    fix e assume "any_moves env s s'" then show ?thesis by (rule stays)
  next
    fix t jobs assume t: "any_moves env s t" "await_repo (listAll (be_repo env)) t = (Inr jobs, s')"
    have "any_moves env t s'"
      by (rule guarD [OF any_course.store_reads_guar(2) moves_sane [OF t(1) assms(2)] t(2)])
    with t(1) show ?thesis using any_course.trans_moves stays by blast
  next
    fix m t u j assume t: "any_moves env s t" "findExistingRequestJob env m t = (Inr None, u)"
      "create_new env m (buildRequestFingerprint env m) u = (r, s')" "r = Inr j"
    have "any_moves env t u"
      by (rule guarD [OF any_course.find_existing_guar moves_sane [OF t(1) assms(2)] t(2)])
    then have "any_moves env s u" using t(1) any_course.trans_moves by blast
    from new [OF this t(3) [unfolded t(4)]] show ?thesis by linarith
  qed
next
  fix e assume "r = Inl e"
  then show "active_ids env s' \<subseteq> active_ids env s"
    using createJob_cases [OF assms] by (auto dest: moves_active)
qed

lemma capacity:
  "createJob env input s = (r, s') \<Longrightarrow> any_sane env s \<Longrightarrow>
   int (card (active_ids env s')) \<le> max (bc_maxActiveJobs (be_cfg env)) (int (card (active_ids env s)))"
  using create_capacity by blast

text \<open>
  C4. Capacity. Creating a job never lets the number of active (queued or running) jobs exceed the
  configured maximum, although other jobs are claimed, completed, cancelled and removed while the
  creation awaits; a request that is refused adds no active job at all.
\<close>

theorem create_respects_capacity:
  assumes "createJob env input s = (r, s')" and "any_sane env s"
  shows "int (card (active_ids env s')) \<le> max (bc_maxActiveJobs (be_cfg env)) (int (card (active_ids env s))) \<and>
    (\<forall>e. r = Inl e \<longrightarrow> active_ids env s' \<subseteq> active_ids env s)"
  using assms by (rule create_capacity)

theorem create_respects_capacity_witness:
  "\<exists>j s'. createJob sample_bridge sample_create create_state = (Inr j, s') \<and>
     int (card (active_ids sample_bridge s')) \<le> max 3 (int (card (active_ids sample_bridge create_state)))"
proof -
  obtain j s' where run: "createJob sample_bridge sample_create create_state = (Inr j, s')"
    using returned [OF created_sample(1)] by blast
  from create_respects_capacity [OF run create_sane] run show ?thesis
    by (auto simp: sample_bridge_def sample_bridge_config_def)
qed

section \<open>One job per request\<close>

definition request_key :: "bridge_job \<Rightarrow> string option \<times> job_source option" where
  "request_key j = (j_requestId j, j_source j)"

definition unique_requests :: "bridge_env \<Rightarrow> bridge_state \<Rightarrow> bool" where
  \<comment> \<open>no two stored jobs have the same request id and source\<close>
  "unique_requests env s \<longleftrightarrow>
     (\<forall>i k j l. bridge_job_at env s i = Some j \<longrightarrow> bridge_job_at env s k = Some l \<longrightarrow>
        truthy_str (j_requestId j) \<longrightarrow> request_key j = request_key l \<longrightarrow> i = k)"

lemma moved_from:
  assumes "any_moves env s t" and "bridge_job_at env t i = Some k"
  shows "\<exists>j. bridge_job_at env s i = Some j \<and> same_request j k"
proof -
  have c: "job_move\<^sup>*\<^sup>* (bridge_job_at env s i) (Some k)" using movesD [OF assms(1), of i] assms(2) by simp
  show ?thesis
  proof (cases "bridge_job_at env s i")
    case None
    with c course_absent [of "Some k"] show ?thesis by simp
  next
    case (Some j)
    then show ?thesis using course_request [OF c Some refl] by simp
  qed
qed

lemma moves_unique:
  assumes "any_moves env s t" and "unique_requests env s"
  shows "unique_requests env t"
  unfolding unique_requests_def
proof (intro allI impI)
  fix i k j l
  assume at: "bridge_job_at env t i = Some j" "bridge_job_at env t k = Some l"
    and key: "truthy_str (j_requestId j)" "request_key j = request_key l"
  from moved_from [OF assms(1) at(1)] moved_from [OF assms(1) at(2)] obtain j' l' where
    "bridge_job_at env s i = Some j'" "same_request j' j" "bridge_job_at env s k = Some l'" "same_request l' l"
    by blast
  with assms(2) key show "i = k" by (auto simp: unique_requests_def request_key_def same_request_def)
qed

lemma same_request_key_iff:
  assumes "cd_source m \<noteq> Some Synapse"
  shows "same_request_key m j \<longleftrightarrow> request_key j = (cd_requestId m, map_option known_source (cd_source m))"
proof -
  have "map_option source_name (j_source j) = map_option source_value (cd_source m) \<longleftrightarrow>
    j_source j = map_option known_source (cd_source m)"
  proof (cases "cd_source m")
    case None
    then show ?thesis by simp
  next
    case (Some x)
    with assms obtain y where "x = Source y" by (cases x) auto
    with Some show ?thesis by (auto dest: sources.name_inj)
  qed
  then show ?thesis by (auto simp: same_request_key_def request_key_def)
qed

lemma create_unique:
  assumes "createJob env input s = (r, s')" and "any_sane env s" and "unique_requests env s"
  shows "unique_requests env s'"
  using createJob_cases [OF assms(1,2)]
proof (elim disjE exE conjE)
  fix e assume "any_moves env s s'" then show ?thesis using assms(3) by (rule moves_unique)
next
  fix t jobs assume t: "any_moves env s t" "await_repo (listAll (be_repo env)) t = (Inr jobs, s')"
  have "any_moves env t s'"
    by (rule guarD [OF any_course.store_reads_guar(2) moves_sane [OF t(1) assms(2)] t(2)])
  with t(1) show ?thesis using any_course.trans_moves moves_unique assms(3) by blast
next
  fix m t u j assume r: "r = Inr j" and m: "normalized_input env input = Inr m" and t: "any_moves env s t"
    and f: "findExistingRequestJob env m t = (Inr None, u)"
    and c: "create_new env m (buildRequestFingerprint env m) u = (r, s')"
  have st: "any_sane env t" using moves_sane [OF t assms(2)] .
  have tu: "any_moves env t u" by (rule guarD [OF any_course.find_existing_guar st f])
  have su: "any_sane env u" using moves_sane [OF tu st] .
  from create_new_cases [OF c su] r obtain u' v q now where uu: "any_moves env u u'"
    and j: "j = new_job env m (buildRequestFingerprint env m) (rc_uuid (be_repo env) (rs_uuids (bs_repo u'))) q now"
    and v: "bridge_job_at env v = (bridge_job_at env u')(j_id j \<mapsto> j)" "any_moves env v s'"
    by blast
  have tu': "any_moves env t u'" using tu uu any_course.trans_moves by blast
  have uniq: "unique_requests env u'"
    using moves_unique [OF tu' moves_unique [OF t assms(3)]] .
  note src = normalized_source [OF m]
  have key: "request_key j = (cd_requestId m, map_option known_source (cd_source m))"
    by (simp add: j new_job_def request_key_def)
  have none: "request_key l \<noteq> request_key j" if "bridge_job_at env u' k = Some l" "truthy_str (j_requestId j)" for k l
  proof
    assume eq: "request_key l = request_key j"
    note at_l = that(1)
    have tr: "truthy_str (cd_requestId m)" using that(2) by (simp add: j new_job_def)
    with f obtain jobs where jobs: "await_repo (listAll (be_repo env)) t = (Inr jobs, u)"
      and nf: "find (same_request_key m) jobs = None"
      by (auto simp: findExistingRequestJob_def op_bind_Inr_iff op_return_def)
    obtain w where w: "listAll (be_repo env) (bs_repo t) = (Inr jobs, w)" using await_repo_Inr [OF jobs] by blast
    obtain l' where l': "bridge_job_at env t k = Some l'" "same_request l' l"
      using moved_from [OF tu' at_l] by blast
    then have "request_key l' = request_key j" using eq by (simp add: same_request_def request_key_def)
    then have "same_request_key m l'" using key same_request_key_iff [OF src] by simp
    moreover have "l' \<in> set jobs"
      using listAll_result(2) [OF w] st l' by (auto simp: bridge_job_at_def sane_def the_fs_def dest: job_at_id)
    ultimately show False using nf by (auto simp: find_None_iff)
  qed
  have "unique_requests env v"
    unfolding unique_requests_def
  proof (intro allI impI)
    fix a b x y
    assume at: "bridge_job_at env v a = Some x" "bridge_job_at env v b = Some y"
      and key: "truthy_str (j_requestId x)" "request_key x = request_key y"
    then have keys: "truthy_str (j_requestId y)" by (simp add: request_key_def)
    have old: "bridge_job_at env u' c = Some z" if "bridge_job_at env v c = Some z" "c \<noteq> j_id j" for c z
      using that by (simp add: v(1))
    have new: "z = j" if "bridge_job_at env v c = Some z" "c = j_id j" for c z using that by (simp add: v(1))
    show "a = b"
    proof (cases "a = j_id j"; cases "b = j_id j")
      assume "a = j_id j" "b \<noteq> j_id j"
      then show ?thesis using none [OF old [OF at(2)]] new [OF at(1)] key by simp
    next
      assume "a \<noteq> j_id j" "b = j_id j"
      then show ?thesis using none [OF old [OF at(1)]] new [OF at(2)] key keys by simp
    next
      assume "a \<noteq> j_id j" "b \<noteq> j_id j"
      then show ?thesis using uniq old at key unfolding unique_requests_def by blast
    qed simp
  qed
  with v(2) show ?thesis by (rule moves_unique)
qed

text \<open>
  C5. At most one job per request. If no two stored jobs have the same request id and source, that
  is still so after any creation, and every other operation keeps it (\<open>moves_unique\<close>): retries of
  a request, however they interleave with the job's progress, do not start the work twice.
\<close>

theorem create_keeps_requests_unique:
  assumes "createJob env input s = (r, s')" and "any_sane env s" and "unique_requests env s"
  shows "unique_requests env s'"
  using assms by (rule create_unique)

lemma create_state_unique: "unique_requests sample_bridge create_state"
proof -
  have "bridge_job_at sample_bridge create_state i = Some j \<Longrightarrow> j_requestId j = None" for i j
  proof -
    assume at: "bridge_job_at sample_bridge create_state i = Some j"
    have ok: "fs_ok (the_fs create_state)" by code_simp
    have "i \<in> set (stored_ids (be_repo sample_bridge) (the_fs create_state))"
      using at stored_ids_iff [OF ok, of i "be_repo sample_bridge"]
      by (auto simp: bridge_job_at_in job_in_def bind_eq_Some_conv)
    moreover have "list_all (\<lambda>i. case bridge_job_at sample_bridge create_state i of None \<Rightarrow> True
        | Some j \<Rightarrow> j_requestId j = None) (stored_ids (be_repo sample_bridge) (the_fs create_state))"
      by code_simp
    ultimately show "j_requestId j = None" using at by (auto simp: list_all_iff)
  qed
  then show ?thesis by (auto simp: unique_requests_def)
qed

theorem create_keeps_requests_unique_witness:
  "unique_requests sample_bridge (snd (createJob sample_bridge sample_create create_state))"
  by (rule create_keeps_requests_unique [OF surjective_pairing create_sane create_state_unique])

section \<open>Retries\<close>

definition known :: "bridge_env \<Rightarrow> bridge_job \<Rightarrow> bridge_state \<Rightarrow> bool" where
  \<comment> \<open>what is stored under the id of the job, if anything, is the same request\<close>
  "known env j s \<longleftrightarrow> (\<forall>k. bridge_job_at env s (j_id j) = Some k \<longrightarrow> same_request j k)"

lemma known_moves: "any_moves env s t \<Longrightarrow> known env j s \<Longrightarrow> known env j t"
  unfolding known_def using moved_from same_request_trans by blast

lemma fingerprint_matches_cong:
  "same_request j k \<Longrightarrow> fingerprint_matches env k m = fingerprint_matches env j m"
  by (simp add: same_request_def fingerprint_matches_def payload_of_job_def)

lemma normalized_requestId: "normalized_input env input = Inr m \<Longrightarrow> cd_requestId m = cd_requestId input"
  by (auto simp: normalized_input_def normalizeLegacySource_def Let_def split: sum.splits if_splits)

lemma listed_job:
  assumes "await_repo (listAll (be_repo env)) t = (Inr jobs, u)" and "any_sane env t"
  shows "j \<in> set jobs \<longleftrightarrow> bridge_job_at env t (j_id j) = Some j" and "any_moves env t u"
proof -
  obtain w where w: "listAll (be_repo env) (bs_repo t) = (Inr jobs, w)" using await_repo_Inr [OF assms(1)] by blast
  show "j \<in> set jobs \<longleftrightarrow> bridge_job_at env t (j_id j) = Some j"
    using listAll_result(2) [OF w] assms(2) by (simp add: bridge_job_at_def sane_def the_fs_def)
  show "any_moves env t u" by (rule guarD [OF any_course.store_reads_guar(2) assms(2,1)])
qed

lemma created_known:
  assumes "createJob env input s = (Inr j, s1)" and "any_sane env s" and "truthy_str (cd_requestId input)"
  shows "any_sane env s1 \<and> known env j s1 \<and>
    (\<exists>m. normalized_input env input = Inr m \<and> same_request_key m j \<and> fingerprint_matches env j m)"
  using createJob_cases [OF assms(1,2)]
proof (elim disjE exE conjE)
  fix m t jobs k assume k: "Inr j = Inr k" and m: "normalized_input env input = Inr m"
    and t: "any_moves env s t" and l: "await_repo (listAll (be_repo env)) t = (Inr jobs, s1)"
    and f: "find (same_request_key m) jobs = Some k" and fp: "fingerprint_matches env k m"
  have st: "any_sane env t" using moves_sane [OF t assms(2)] .
  from f have "k \<in> set jobs" "same_request_key m k" by (auto simp: find_Some_iff)
  then have "known env j t" using listed_job(1) [OF l st] k by (simp add: known_def)
  with m fp k \<open>same_request_key m k\<close> listed_job(2) [OF l st] st
  show ?thesis using known_moves moves_sane by blast
next
  fix m t u k assume k: "Inr j = Inr k" and m: "normalized_input env input = Inr m" and t: "any_moves env s t"
    and f: "findExistingRequestJob env m t = (Inr None, u)"
    and c: "create_new env m (buildRequestFingerprint env m) u = (Inr j, s1)"
  have st: "any_sane env t" using moves_sane [OF t assms(2)] .
  have su: "any_sane env u" using moves_sane [OF guarD [OF any_course.find_existing_guar st f] st] .
  from create_new_cases [OF c su] obtain u' v q now where
    j: "j = new_job env m (buildRequestFingerprint env m) (rc_uuid (be_repo env) (rs_uuids (bs_repo u'))) q now"
    and v: "any_sane env v" "bridge_job_at env v = (bridge_job_at env u')(j_id j \<mapsto> j)" "any_moves env v s1"
    by auto
  have "known env j v" by (simp add: known_def v(2))
  moreover have "same_request_key m j"
    using same_request_key_iff [OF normalized_source [OF m]] by (simp add: j new_job_def request_key_def)
  moreover have "fingerprint_matches env j m"
    using assms(3) normalized_requestId [OF m]
    by (simp add: fingerprint_matches_def buildRequestFingerprint_def j new_job_def)
  ultimately show ?thesis using m v(1,3) known_moves moves_sane by blast
qed auto



end
