(* ===== verification/JobResults.thy ===== *)
theory JobResults
  imports JobsSafety
begin

text \<open>
  How jobs end: results reported by a callback, repeated callbacks, cancellation, and the counts
  the API reports.
\<close>

section \<open>A conditional transition behind an \<open>await\<close>\<close>

lemma transition_now_cases:
  assumes "transition_now env i sts upd s = (q, t)" and "any_sane env s"
    and "\<And>now j. j_id (upd now j) = j_id j"
  obtains (failed) e where "q = Inl (RepoError e)"
    | (absent) "q = Inr (False, None)" "bridge_job_at env s i = None"
    | (refused) j where "q = Inr (False, Some j)" "bridge_job_at env s i = Some j" "j_status j \<notin> set sts"
    | (applied) j v where "q = Inr (True, Some (upd (now_iso env s) j))" "bridge_job_at env s i = Some j"
        "j_status j \<in> set sts" "any_sane env v" "bridge_job_at env v i = Some (upd (now_iso env s) j)"
        "any_moves env v t"
proof -
  let ?upd = "upd (now_iso env s)"
  obtain p u where p: "transition (be_repo env) i sts ?upd (bs_repo s) = (p, u)"
    by (cases "transition (be_repo env) i sts ?upd (bs_repo s)")
  let ?v = "s\<lparr>bs_repo := u\<rparr>"
  have t: "t = world_step ?v" and q: "q = (case p of Inl e \<Rightarrow> Inl (RepoError e) | Inr x \<Rightarrow> Inr x)"
    using assms(1) p by (auto simp: transition_now_def await_repo_def on_repo_def split: sum.splits)
  have "repo_ok u" using op_keepsD [OF keeps_transition _ p] assms(2) by (simp add: sane_def the_fs_def)
  then have sv: "any_sane env ?v" using assms(2) by (simp add: sane_def world_ok_def the_fs_def)
  from repo.cas_cases [OF p] show ?thesis
  proof (elim disjE exE conjE)
    assume "p = Inr (False, None)" "job_at (be_repo env) (bs_repo s) i = None"
    then show ?thesis using q by (intro absent) (simp_all add: bridge_job_at_def)
  next
    fix j assume "p = Inr (False, Some j)" "job_at (be_repo env) (bs_repo s) i = Some j" "j_status j \<notin> set sts"
    then show ?thesis using q by (intro refused [of j]) (simp_all add: bridge_job_at_def)
  next
    fix j assume j: "p = Inr (True, Some (?upd j))" "job_at (be_repo env) (bs_repo s) i = Some j" "j_status j \<in> set sts"
      "job_at (be_repo env) u = (job_at (be_repo env) (bs_repo s))(j_id (?upd j) \<mapsto> ?upd j)"
    have "j_id (?upd j) = i" using assms(3) job_at_id [OF j(2)] by simp
    with j q sv t show ?thesis
      using any_course.world_step_moves [OF sv] by (intro applied [of j ?v]) (simp_all add: bridge_job_at_def)
  next
    fix e assume "p = Inl e"
    then show ?thesis using q by (intro failed [of e]) simp
  qed
qed

lemma stored_final:
  assumes "any_moves env v t" and "bridge_job_at env v i = Some k" and "isTerminal (j_status k)"
  shows "bridge_job_at env t i = None \<or> (\<exists>l. bridge_job_at env t i = Some l \<and> job_core l = job_core k)"
  using course_terminal [OF movesD [OF assms(1), of i] assms(2,3)] .

lemma service_ids:
  "j_id (callback_update input now j) = j_id j" "j_id (cancelled_update ses now j) = j_id j"
  by (simp_all add: callback_update_def cancelled_update_def)

section \<open>Callbacks\<close>

lemma callback_tail:
  assumes "op_bind (runner_cancel env i) (\<lambda>_. op_bind (trackCompletionNotification j) (\<lambda>_. op_return j)) t = (r, s')"
    and "any_sane env t" and "dirs_separate env"
  shows "any_moves env t s'" and "(\<exists>e. r = Inl e) \<or> (r = Inr j \<and> (\<exists>ts. bs_tracked s' = ts @ [j]))"
proof -
  have "guar (\<lambda>i. job_move\<^sup>*\<^sup>*) env (op_bind (runner_cancel env i)
      (\<lambda>_. op_bind (trackCompletionNotification j) (\<lambda>_. op_return j)))"
    by (intro any_course.bind_guar any_course.runner_cancel_guar any_course.track_guar any_course.return_guar assms(3))
  from guarD [OF this assms(2,1)] show "any_moves env t s'" .
  obtain q u where "runner_cancel env i t = (q, u)" by (cases "runner_cancel env i t")
  with assms(1) show "(\<exists>e. r = Inl e) \<or> (r = Inr j \<and> (\<exists>ts. bs_tracked s' = ts @ [j]))"
    by (cases q) (auto simp: op_bind_def trackCompletionNotification_def op_modify_def op_return_def)
qed

text \<open>
  C6. The first result wins. A callback for a job that has ended is accepted exactly when it repeats
  the stored result, and refused with a conflict otherwise; for an active job it stores exactly the
  reported result, which from then on only the record of the notifications can follow, and the
  completion is notified; for an unknown job it reports that. A failing store is reported as such.
\<close>

theorem callback_outcome:
  assumes "completeJobFromCallback env i input s = (r, s')" and "any_sane env s"
    and "isTerminal (cb_status input)" and "dirs_separate env"
  shows "(\<exists>e. r = Inl (RepoError e)) \<or>
    (case bridge_job_at env s i of
       None \<Rightarrow> r = Inl (not_found i)
     | Some j \<Rightarrow>
         (if isTerminal (j_status j) then
            (if isEquivalentCallbackReplay j input then r = Inr j
             else r = Inl (ConflictException (''Callback conflicts with stored '' @ status_name (j_status j) @
                    '' result for job '' @ i)))
          else
            (let k = callback_update input (now_iso env s) j in
             (bridge_job_at env s' i = None \<or> (\<exists>l. bridge_job_at env s' i = Some l \<and> job_core l = job_core k)) \<and>
             ((\<exists>e. r = Inl e) \<or> (r = Inr k \<and> (\<exists>ts. bs_tracked s' = ts @ [k]))))))"
proof -
  obtain q t where q: "transition_now env i [Queued, Running] (callback_update input) s = (q, t)" by fastforce
  note run = assms(1) [unfolded completeJobFromCallback_def]
  from q assms(2) service_ids(1) show ?thesis
  proof (cases rule: transition_now_cases)
    case (failed e)
    with run q have "r = Inl (RepoError e)" by (simp add: op_bind_run)
    then show ?thesis by blast
  next
    case absent
    with run q show ?thesis by (simp add: op_bind_run op_fail_def)
  next
    case (refused j)
    then have "isTerminal (j_status j)" by (cases "j_status j") simp_all
    with refused run q show ?thesis
      by (simp add: op_bind_run op_fail_def op_return_def del: isTerminal.simps split: if_splits)
  next
    case (applied j v)
    let ?k = "callback_update input (now_iso env s) j"
    have "op_bind (runner_cancel env i) (\<lambda>_. op_bind (trackCompletionNotification ?k) (\<lambda>_. op_return ?k)) t = (r, s')"
      using run q applied(1) by (simp add: op_bind_run)
    note tail = callback_tail [OF this moves_sane [OF applied(6,4)] assms(4)]
    have "any_moves env v s'" using applied(6) tail(1) any_course.trans_moves by blast
    from stored_final [OF this applied(5)] assms(3)
    have "bridge_job_at env s' i = None \<or> (\<exists>l. bridge_job_at env s' i = Some l \<and> job_core l = job_core ?k)" by simp
    moreover have "\<not> isTerminal (j_status j)" using applied(3) by (rule active_not_terminal)
    ultimately show ?thesis using applied(2) tail(2) by (simp add: Let_def del: isTerminal.simps)
  qed
qed

lemma completed_run:
  "\<exists>k s1. completeJobFromCallback sample_bridge uuid2 sample_callback sample_bridge_state = (Inr k, s1) \<and> j_id k = uuid2"
  using returned [OF completed_sample] by blast

lemma callback_terminal: "isTerminal (cb_status sample_callback)"
  by (simp add: sample_callback_def)

theorem callback_outcome_witness:
  "\<exists>k s1 j. completeJobFromCallback sample_bridge uuid2 sample_callback sample_bridge_state = (Inr k, s1) \<and>
     bridge_job_at sample_bridge sample_bridge_state uuid2 = Some j \<and>
     k = callback_update sample_callback (now_iso sample_bridge sample_bridge_state) j"
proof -
  obtain k s1 where run: "completeJobFromCallback sample_bridge uuid2 sample_callback sample_bridge_state = (Inr k, s1)"
    using completed_run by blast
  obtain j where j: "bridge_job_at sample_bridge sample_bridge_state uuid2 = Some j" "j_status j = Queued"
    using cancelled_sample(2) by auto
  from callback_outcome [OF run sample_sane callback_terminal sample_separate] run j show ?thesis
    by (auto simp: Let_def)
qed

section \<open>Repeated callbacks\<close>

definition explicit :: "callback_dto \<Rightarrow> bool" where
  \<comment> \<open>no property is present with the value \<open>undefined\<close>\<close>
  "explicit input \<longleftrightarrow>
     cb_stdout input \<noteq> Undefined \<and> cb_stderr input \<noteq> Undefined \<and> cb_exitCode input \<noteq> Undefined \<and>
     (case given (cb_execution input) of
        None \<Rightarrow> True
      | Some x \<Rightarrow> cx_durationMs x \<noteq> Undefined \<and> cx_timedOut x \<noteq> Undefined \<and>
          cx_outputTruncated x \<noteq> Undefined \<and> cx_errorType x \<noteq> Undefined)"

lemma own_given: "own f \<Longrightarrow> f \<noteq> Undefined \<Longrightarrow> \<exists>x. f = Given x"
  by (cases f) simp_all

lemma not_differs:
  "f \<noteq> Undefined \<Longrightarrow> \<not> differs f (case given f of None \<Rightarrow> d | v \<Rightarrow> v)"
  "f \<noteq> Undefined \<Longrightarrow> \<not> differs f (Some (nullish (given f) e))"
  by (cases f; simp add: differs_def)+

lemma update_is_replay:
  assumes "explicit input"
  shows "isEquivalentCallbackReplay (callback_update input now j) input"
proof -
  let ?k = "callback_update input now j"
  have e: "cb_stdout input \<noteq> Undefined" "cb_stderr input \<noteq> Undefined" "cb_exitCode input \<noteq> Undefined"
    using assms by (simp_all add: explicit_def)
  have out: "\<not> differs (cb_stdout input) (Some (j_stdout ?k))" "\<not> differs (cb_stderr input) (Some (j_stderr ?k))"
    using not_differs(2) [OF e(1)] not_differs(2) [OF e(2)] by (simp_all add: callback_update_def)
  have code: "\<not> differs (cb_exitCode input) (j_exitCode ?k)"
    using e(3) by (cases "cb_exitCode input") (simp_all add: differs_def callback_update_def)
  show ?thesis
  proof (cases "given (cb_execution input)")
    case None
    with out code show ?thesis by (simp add: isEquivalentCallbackReplay_def)
  next
    case (Some x)
    then have x: "cx_durationMs x \<noteq> Undefined" "cx_timedOut x \<noteq> Undefined" "cx_outputTruncated x \<noteq> Undefined"
      "cx_errorType x \<noteq> Undefined" using assms by (simp_all add: explicit_def)
    have exec: "j_execution ?k = projectCallbackExecution (cb_execution input) (j_execution j)"
      by (simp add: callback_update_def)
    have "\<not> differs (cx_durationMs x) (em_durationMs (j_execution ?k))"
      "\<not> differs (cx_timedOut x) (em_timedOut (j_execution ?k))"
      "\<not> differs (cx_outputTruncated x) (em_outputTruncated (j_execution ?k))"
      "\<not> differs (cx_errorType x) (em_errorType (j_execution ?k))"
      using not_differs(1) [OF x(1)] not_differs(1) [OF x(2)] not_differs(1) [OF x(3)] not_differs(1) [OF x(4)] Some
      by (simp_all add: exec projectCallbackExecution_def)
    with out code Some show ?thesis by (simp add: isEquivalentCallbackReplay_def)
  qed
qed

lemma replay_core: "job_core l = job_core k \<Longrightarrow> isEquivalentCallbackReplay l input = isEquivalentCallbackReplay k input"
proof -
  assume eq: "job_core l = job_core k"
  have "isEquivalentCallbackReplay (job_core j) input = isEquivalentCallbackReplay j input" for j
    by (simp add: isEquivalentCallbackReplay_def job_core_def split: option.split)
  with eq show ?thesis by metis
qed

lemma callback_result:
  assumes "completeJobFromCallback env i input s = (Inr k, s')" and "any_sane env s"
    and "isTerminal (cb_status input)" and "dirs_separate env" and "explicit input"
  shows "isTerminal (j_status k)" and "isEquivalentCallbackReplay k input"
    and "bridge_job_at env s' i = None \<or> (\<exists>l. bridge_job_at env s' i = Some l \<and> job_core l = job_core k)"
proof -
  from callback_outcome [OF assms(1-4)] obtain j where j: "bridge_job_at env s i = Some j"
    by (auto split: option.splits)
  have m: "any_moves env s s'" by (rule guarD [OF any_course.callback_guar [OF assms(4,3)] assms(2,1)])
  have "isTerminal (j_status k) \<and> isEquivalentCallbackReplay k input \<and>
    (bridge_job_at env s' i = None \<or> (\<exists>l. bridge_job_at env s' i = Some l \<and> job_core l = job_core k))"
  proof (cases "isTerminal (j_status j)")
    case True
    with callback_outcome [OF assms(1-4)] j have "k = j" "isEquivalentCallbackReplay j input"
      by (simp_all del: isTerminal.simps split: if_splits)
    then show ?thesis using True stored_final [OF m j True] by simp
  next
    case False
    with callback_outcome [OF assms(1-4)] j have k: "k = callback_update input (now_iso env s) j"
      and st: "bridge_job_at env s' i = None \<or> (\<exists>l. bridge_job_at env s' i = Some l \<and> job_core l = job_core k)"
      by (auto simp: Let_def simp del: isTerminal.simps)
    then show ?thesis using update_is_replay [OF assms(5)] assms(3) by simp
  qed
  then show "isTerminal (j_status k)" "isEquivalentCallbackReplay k input"
    "bridge_job_at env s' i = None \<or> (\<exists>l. bridge_job_at env s' i = Some l \<and> job_core l = job_core k)"
    by blast+
qed

text \<open>
  Repeating an accepted callback is harmless. When a callback none of whose properties is
  present with the value \<open>undefined\<close> was accepted, repeating it later, whatever happened in
  between, returns the same result again, unless the job has been removed meanwhile or the store
  fails.
\<close>

theorem callback_replay_accepted:
  assumes "completeJobFromCallback env i input s = (Inr k, s1)" and "any_sane env s"
    and "isTerminal (cb_status input)" and "dirs_separate env" and "explicit input"
    and "any_moves env s1 s2" and "completeJobFromCallback env i input s2 = (r, s3)"
  shows "(\<exists>l. r = Inr l \<and> job_core l = job_core k) \<or> bridge_job_at env s2 i = None \<or> (\<exists>e. r = Inl (RepoError e))"
proof -
  note one = callback_result [OF assms(1-5)]
  have s1: "any_sane env s1"
    using moves_sane [OF guarD [OF any_course.callback_guar [OF assms(4,3)] assms(2,1)] assms(2)] .
  have s2: "any_sane env s2" using moves_sane [OF assms(6) s1] .
  show ?thesis
  proof (cases "bridge_job_at env s2 i")
    case (Some l)
    with course_absent [of "bridge_job_at env s2 i"] movesD [OF assms(6), of i]
    obtain l1 where l1: "bridge_job_at env s1 i = Some l1" by (cases "bridge_job_at env s1 i") auto
    with one(3) have c1: "job_core l1 = job_core k" by simp
    then have t1: "isTerminal (j_status l1)" using one(1) job_core_status by metis
    from stored_final [OF assms(6) l1 t1] Some have "job_core l = job_core k" using c1 by simp
    moreover from this have "isTerminal (j_status l)" "isEquivalentCallbackReplay l input"
      using one(1,2) job_core_status [of l k] replay_core [of l k] by simp_all
    ultimately show ?thesis
      using callback_outcome [OF assms(7) s2 assms(3,4)] Some by (auto simp del: isTerminal.simps)
  qed simp
qed

theorem callback_replay_accepted_witness:
  "\<exists>k s1. completeJobFromCallback sample_bridge uuid2 sample_callback sample_bridge_state = (Inr k, s1) \<and>
     (\<forall>r s2. completeJobFromCallback sample_bridge uuid2 sample_callback s1 \<noteq> (r, s2) \<or>
        (\<exists>l. r = Inr l \<and> job_core l = job_core k) \<or> bridge_job_at sample_bridge s1 uuid2 = None \<or>
        (\<exists>e. r = Inl (RepoError e)))"
proof -
  obtain k s1 where run: "completeJobFromCallback sample_bridge uuid2 sample_callback sample_bridge_state = (Inr k, s1)"
    using completed_run by blast
  have "explicit sample_callback" by (simp add: explicit_def sample_callback_def)
  note replay = callback_replay_accepted [OF run sample_sane callback_terminal sample_separate this any_course.same_moves]
  with run show ?thesis by blast
qed



section \<open>Cancellation\<close>

lemma cancel_transition_result:
  assumes "cancel_transition env i job b s = (Inr k, s')" and "any_sane env s" and "dirs_separate env"
  shows "j_status k = Cancelled" and "\<exists>j. bridge_job_at env s i = Some j \<and> same_request j k"
    and "bridge_job_at env s' i = None \<or> (\<exists>l. bridge_job_at env s' i = Some l \<and> job_core l = job_core k)"
proof -
  have m: "any_moves env s s'"
    by (rule guarD [OF any_course.cancel_transition_guar [OF assms(3)] assms(2,1)])
  obtain q t where q: "transition_now env i [Queued, Running] (cancelled_update (j_session job)) s = (q, t)"
    by fastforce
  note run = assms(1) [unfolded cancel_transition_def]
  from q assms(2) service_ids(2) have "j_status k = Cancelled \<and> (\<exists>j. bridge_job_at env s i = Some j \<and> same_request j k) \<and>
    (bridge_job_at env s' i = None \<or> (\<exists>l. bridge_job_at env s' i = Some l \<and> job_core l = job_core k))"
  proof (cases rule: transition_now_cases)
    case (failed e)
    with run q show ?thesis by (simp add: op_bind_run)
  next
    case absent
    with run q show ?thesis by (simp add: op_bind_run op_fail_def)
  next
    case (refused j)
    with run q have "k = j" "j_status j = Cancelled"
      by (simp_all add: op_bind_run op_fail_def op_return_def split: if_splits)
    moreover from this have "isTerminal (j_status j)" by simp
    ultimately show ?thesis using refused(2) stored_final [OF m refused(2)] by auto
  next
    case (applied j v)
    let ?k = "cancelled_update (j_session job) (now_iso env s) j"
    obtain x u where x: "(if b then op_return True else runner_cancel env i) t = (x, u)"
      by (cases "(if b then op_return True else runner_cancel env i) t")
    from run q applied(1) have tail: "op_bind (if b then op_return True else runner_cancel env i) (\<lambda>_.
                op_bind (trackCompletionNotification ?k) (\<lambda>_. op_return ?k)) t = (Inr k, s')"
      by (simp only: op_bind_run prod.case option.case not_True_eq_False if_False)
    have "guar (\<lambda>i. job_move\<^sup>*\<^sup>*) env (op_bind (if b then op_return True else runner_cancel env i) (\<lambda>_.
                op_bind (trackCompletionNotification ?k) (\<lambda>_. op_return ?k)))"
      by (auto intro!: any_course.bind_guar any_course.runner_cancel_guar [OF assms(3)]
          any_course.track_guar any_course.return_guar)
    from guarD [OF this moves_sane [OF applied(6,4)] tail] applied(6)
    have "any_moves env v s'" using any_course.trans_moves by blast
    moreover have "k = ?k" using tail x
      by (cases x) (auto simp: op_bind_def trackCompletionNotification_def op_modify_def op_return_def)
    ultimately show ?thesis using applied(2) stored_final [of env v s' i ?k] applied(5) by auto
  qed
  then show "j_status k = Cancelled" "\<exists>j. bridge_job_at env s i = Some j \<and> same_request j k"
    "bridge_job_at env s' i = None \<or> (\<exists>l. bridge_job_at env s' i = Some l \<and> job_core l = job_core k)"
    by blast+
qed

lemma getJob_result:
  assumes "getJobOrThrow env i s = (r, s')" and "any_sane env s"
  shows "any_moves env s s'"
    and "(\<exists>e. r = Inl (RepoError e)) \<or>
      (case bridge_job_at env s i of None \<Rightarrow> r = Inl (not_found i) | Some j \<Rightarrow> r = Inr j)"
proof -
  show "any_moves env s s'" by (rule guarD [OF any_course.get_job_guar assms(2,1)])
  obtain g t where g: "await_repo (getById (be_repo env) i) s = (g, t)" by fastforce
  show "(\<exists>e. r = Inl (RepoError e)) \<or>
      (case bridge_job_at env s i of None \<Rightarrow> r = Inl (not_found i) | Some j \<Rightarrow> r = Inr j)"
  proof (cases g)
    case (Inl e)
    with g assms(1) await_repo_Inl [OF g [unfolded Inl]] show ?thesis by (auto simp: getJobOrThrow_def op_bind_run)
  next
    case (Inr x)
    with await_repo_Inr [OF g [unfolded Inr]] have "x = bridge_job_at env s i"
      by (auto simp: bridge_job_at_def dest: getById_at)
    with assms(1) g Inr show ?thesis
      by (simp add: getJobOrThrow_def op_bind_run op_fail_def op_return_def split: option.splits)
  qed
qed

text \<open>
  C33. Cancellation. A job that was cancelled is returned as it is and a job that ended otherwise is
  refused; when the cancellation of an active job returns, the returned job is cancelled, is the
  same request, and its result is final: nothing that happens afterwards, no late result of the
  command included, changes more than the record of its notifications.
\<close>

theorem cancel_outcome:
  assumes "cancelJob env i s = (r, s')" and "any_sane env s" and "dirs_separate env"
  shows "(\<exists>e. r = Inl (RepoError e)) \<or>
    (case bridge_job_at env s i of
       None \<Rightarrow> r = Inl (not_found i)
     | Some j \<Rightarrow>
         (if j_status j = Cancelled then r = Inr j
          else if isTerminal (j_status j) then r = Inl (already i j)
          else \<forall>k. r = Inr k \<longrightarrow> j_status k = Cancelled \<and> same_request j k \<and>
            (bridge_job_at env s' i = None \<or> (\<exists>l. bridge_job_at env s' i = Some l \<and> job_core l = job_core k))))"
proof -
  obtain g t where g: "getJobOrThrow env i s = (g, t)" by fastforce
  note read = getJob_result [OF g assms(2)]
  note run = assms(1) [unfolded cancelJob_def]
  have st: "any_sane env t" using moves_sane [OF read(1) assms(2)] .
  show ?thesis
  proof (cases g)
    case (Inl e)
    with run g have "r = Inl e" by (simp add: op_bind_run)
    with read(2) Inl show ?thesis by (auto split: option.splits)
  next
    case (Inr j)
    with read(2) have j: "bridge_job_at env s i = Some j" by (auto split: option.splits)
    show ?thesis
    proof (cases "isTerminal (j_status j)")
      case True
      with run g Inr j show ?thesis
        by (simp add: op_bind_run op_return_def op_fail_def split: if_splits del: isTerminal.simps)
    next
      case False
      then have nc: "j_status j \<noteq> Cancelled" by auto
      have final: "j_status k = Cancelled \<and> same_request j k \<and>
            (bridge_job_at env s' i = None \<or> (\<exists>l. bridge_job_at env s' i = Some l \<and> job_core l = job_core k))"
        if "any_moves env t u" "cancel_transition env i job b u = (Inr k, s')" for u job b k
      proof -
        have su: "any_sane env u" using moves_sane [OF that(1) st] .
        note c = cancel_transition_result [OF that(2) su assms(3)]
        from c(2) obtain x where x: "bridge_job_at env u i = Some x" "same_request x k" by blast
        have "any_moves env s u" using read(1) that(1) any_course.trans_moves by blast
        from moved_from [OF this x(1)] j x(2) have "same_request j k" using same_request_trans by auto
        with c show ?thesis by blast
      qed
      have "\<forall>k. r = Inr k \<longrightarrow> j_status k = Cancelled \<and> same_request j k \<and>
            (bridge_job_at env s' i = None \<or> (\<exists>l. bridge_job_at env s' i = Some l \<and> job_core l = job_core k))"
      proof (intro allI impI)
        fix k assume r: "r = Inr k"
        show "j_status k = Cancelled \<and> same_request j k \<and>
            (bridge_job_at env s' i = None \<or> (\<exists>l. bridge_job_at env s' i = Some l \<and> job_core l = job_core k))"
        proof (cases "j_executionMode j = Some TmuxMode \<and> j_status j = Running \<and> j_session j \<noteq> None")
          case tm: False
          with run g Inr nc False r have "cancel_transition env i j False t = (Inr k, s')"
            by (simp only: op_bind_run if_False)
          from final [OF any_course.same_moves this] show ?thesis .
        next
          case True
          with run g Inr nc False r have run2: "op_bind (runner_cancel env i) (\<lambda>cancelled.
              if \<not> cancelled
              then op_fail (ConflictException (''Job '' @ i @ '' tmux session could not be cancelled''))
              else op_bind (getJobOrThrow env i) (\<lambda>jobToCancel. cancel_transition env i jobToCancel True)) t = (Inr k, s')"
            by (simp only: op_bind_run if_False if_True simp_thms)
          then obtain u where u: "runner_cancel env i t = (Inr True, u)"
            and rest: "op_bind (getJobOrThrow env i) (\<lambda>jobToCancel. cancel_transition env i jobToCancel True) u = (Inr k, s')"
            by (auto simp: op_bind_Inr_iff [of "runner_cancel _ _"] op_fail_def split: if_splits)
          from rest obtain job v where v: "getJobOrThrow env i u = (Inr job, v)"
            and c: "cancel_transition env i job True v = (Inr k, s')" by (auto simp: op_bind_Inr_iff)
          have tu: "any_moves env t u" by (rule guarD [OF any_course.runner_cancel_guar [OF assms(3)] st u])
          have "any_moves env u v" by (rule guarD [OF any_course.get_job_guar moves_sane [OF tu st] v])
          with tu have "any_moves env t v" using any_course.trans_moves by blast
          from final [OF this c] show ?thesis .
        qed
      qed
      with j False nc show ?thesis by (simp del: isTerminal.simps)
    qed
  qed
qed

theorem cancel_outcome_witness:
  "\<exists>k s'. cancelJob sample_bridge uuid2 sample_bridge_state = (Inr k, s') \<and> j_status k = Cancelled \<and>
     (bridge_job_at sample_bridge s' uuid2 = None \<or>
      (\<exists>l. bridge_job_at sample_bridge s' uuid2 = Some l \<and> job_core l = job_core k))"
proof -
  obtain k s' where run: "cancelJob sample_bridge uuid2 sample_bridge_state = (Inr k, s')"
    using returned [OF cancelled_sample(1)] by blast
  obtain j where j: "bridge_job_at sample_bridge sample_bridge_state uuid2 = Some j" "j_status j = Queued"
    using cancelled_sample(2) by auto
  from cancel_outcome [OF run sample_sane sample_separate] run j show ?thesis by auto
qed

section \<open>Statistics\<close>

definition ids_where :: "bridge_env \<Rightarrow> bridge_state \<Rightarrow> (bridge_job \<Rightarrow> bool) \<Rightarrow> string set" where
  "ids_where env s P = {i. \<exists>j. bridge_job_at env s i = Some j \<and> P j}"

lemma ids_where_count:
  assumes "listAll (be_repo env) (bs_repo s) = (Inr jobs, t)" and "fs_ok (the_fs s)"
  shows "int (card (ids_where env s P)) = js_length (filter P jobs)"
proof -
  note r = listAll_result [OF assms(1) assms(2) [unfolded the_fs_def]]
  have "ids_where env s P = set (map j_id (filter P jobs))"
    unfolding ids_where_def bridge_job_at_def set_map
    by (rule ids_with) (use r(2) in \<open>auto intro: job_at_id\<close>)
  then show ?thesis
    using distinct_card [OF distinct_map_filter [OF r(3), of P]] by (simp add: js_length_def)
qed

definition created_at :: "bridge_env \<Rightarrow> bridge_job \<Rightarrow> int" where
  "created_at env j = the (rc_parseDate (be_repo env) (j_createdAt j))"

lemma oldest_queued_step:
  assumes "\<forall>j \<in> set (a # xs). rc_parseDate (be_repo env) (j_createdAt j) \<noteq> None"
  shows "\<exists>m \<in> set (a # xs). foldl (\<lambda>oldest job. case oldest of None \<Rightarrow> Some job
      | Some o' \<Rightarrow> if older (be_repo env) job o' then Some job else Some o') (Some a) xs = Some m \<and>
    (\<forall>j \<in> set (a # xs). created_at env m \<le> created_at env j)"
  using assms
proof (induction xs arbitrary: a)
  case Nil
  then show ?case by simp
next
  case (Cons b xs)
  define c where "c = (if older (be_repo env) b a then b else a)"
  have c: "c \<in> set (a # b # xs)" "created_at env c \<le> created_at env a" "created_at env c \<le> created_at env b"
    using Cons.prems by (auto simp: c_def older_def created_at_def)
  have "\<forall>j \<in> set (c # xs). rc_parseDate (be_repo env) (j_createdAt j) \<noteq> None"
    using Cons.prems by (auto simp: c_def)
  from Cons.IH [OF this] obtain m where m: "m \<in> set (c # xs)"
    "foldl (\<lambda>oldest job. case oldest of None \<Rightarrow> Some job
      | Some o' \<Rightarrow> if older (be_repo env) job o' then Some job else Some o') (Some c) xs = Some m"
    "\<forall>j \<in> set (c # xs). created_at env m \<le> created_at env j" by blast
  moreover have "m \<in> set (a # b # xs)" using m(1) c(1) by auto
  moreover have "\<forall>j \<in> set (a # b # xs). created_at env m \<le> created_at env j"
    using m(3) c(2,3) by (auto intro: order_trans)
  moreover have "foldl (\<lambda>oldest job. case oldest of None \<Rightarrow> Some job
      | Some o' \<Rightarrow> if older (be_repo env) job o' then Some job else Some o') (Some a) (b # xs) = Some m"
    using m(2) by (cases "older (be_repo env) b a") (simp_all add: c_def)
  ultimately show ?case by blast
qed

lemma oldest_queued_result:
  assumes "\<forall>j \<in> set xs. rc_parseDate (be_repo env) (j_createdAt j) \<noteq> None"
  shows "(case oldest_queued (be_repo env) xs of
      None \<Rightarrow> xs = []
    | Some m \<Rightarrow> m \<in> set xs \<and> (\<forall>j \<in> set xs. created_at env m \<le> created_at env j))"
proof (cases xs)
  case (Cons a ys)
  with oldest_queued_step [of a ys env] assms show ?thesis by (auto simp: oldest_queued_def)
qed (simp add: oldest_queued_def)

text \<open>
  The statistics count the stored jobs: every job is counted once, as queued, running or
  terminal, the active ones are the queued and the running ones, and the reported age is the age of
  the oldest queued job when the creation times can be read.
\<close>

theorem stats_count_jobs:
  assumes "getStats env s = (Inr st, s')" and "fs_ok (the_fs s)"
  shows "st_queuedCount st = int (card (ids_where env s (\<lambda>j. j_status j = Queued))) \<and>
    st_runningCount st = int (card (running_ids env s)) \<and>
    st_activeCount st = int (card (active_ids env s)) \<and>
    st_activeCount st + st_terminalCount st = int (card (ids_where env s (\<lambda>j. True))) \<and>
    ((\<forall>i j. bridge_job_at env s i = Some j \<longrightarrow> rc_parseDate (be_repo env) (j_createdAt j) \<noteq> None) \<longrightarrow>
     (case st_oldestQueuedAgeMs st of
        None \<Rightarrow> ids_where env s (\<lambda>j. j_status j = Queued) = {}
      | Some age \<Rightarrow> \<exists>m i. bridge_job_at env s i = Some m \<and> j_status m = Queued \<and>
          age = Some (now_ms s' - created_at env m) \<and>
          (\<forall>k j. bridge_job_at env s k = Some j \<and> j_status j = Queued \<longrightarrow> created_at env m \<le> created_at env j)))"
proof -
  from assms(1) obtain jobs where l: "await_repo (listAll (be_repo env)) s = (Inr jobs, s')"
    by (auto simp: getStats_def op_bind_Inr_iff Let_def)
  obtain t where t: "listAll (be_repo env) (bs_repo s) = (Inr jobs, t)" using await_repo_Inr [OF l] by blast
  note count = ids_where_count [OF t assms(2)]
  note mem = listAll_result(2) [OF t assms(2) [unfolded the_fs_def]]
  define queued where "queued = filter (\<lambda>j. j_status j = Queued) jobs"
  have st: "st_queuedCount st = js_length queued"
    "st_runningCount st = js_length (filter (\<lambda>j. j_status j = Running) jobs)"
    "st_activeCount st = st_queuedCount st + st_runningCount st"
    "st_terminalCount st = js_length (filter (\<lambda>j. isTerminal (j_status j)) jobs)"
    "st_oldestQueuedAgeMs st = (case oldest_queued (be_repo env) queued of None \<Rightarrow> None
       | Some j \<Rightarrow> Some (map_option (\<lambda>t. now_ms s' - t) (rc_parseDate (be_repo env) (j_createdAt j))))"
    using assms(1) l by (auto simp: getStats_def op_bind_run Let_def queued_def)
  have parts: "js_length (filter (\<lambda>j. \<not> isTerminal (j_status j)) jobs) =
      js_length (filter (\<lambda>j. j_status j = Queued) jobs) + js_length (filter (\<lambda>j. j_status j = Running) jobs)"
    by (induction jobs) (auto simp: isTerminal_iff simp del: isTerminal.simps)
  have total: "js_length jobs = js_length (filter (\<lambda>j. \<not> isTerminal (j_status j)) jobs) +
      js_length (filter (\<lambda>j. isTerminal (j_status j)) jobs)"
    by (induction jobs) (simp_all del: isTerminal.simps)
  have queued_iff: "j \<in> set queued \<longleftrightarrow> bridge_job_at env s (j_id j) = Some j \<and> j_status j = Queued" for j
    using mem [of j] by (auto simp: queued_def bridge_job_at_def)
  have stored_queued: "j \<in> set queued" if "bridge_job_at env s k = Some j" "j_status j = Queued" for k j
    using that queued_iff [of j] by (auto simp: bridge_job_at_def dest: job_at_id)
  have age: "case st_oldestQueuedAgeMs st of
        None \<Rightarrow> ids_where env s (\<lambda>j. j_status j = Queued) = {}
      | Some age \<Rightarrow> \<exists>m i. bridge_job_at env s i = Some m \<and> j_status m = Queued \<and>
          age = Some (now_ms s' - created_at env m) \<and>
          (\<forall>k j. bridge_job_at env s k = Some j \<and> j_status j = Queued \<longrightarrow> created_at env m \<le> created_at env j)"
    if "\<forall>i j. bridge_job_at env s i = Some j \<longrightarrow> rc_parseDate (be_repo env) (j_createdAt j) \<noteq> None"
  proof -
    have parse: "\<forall>j \<in> set queued. rc_parseDate (be_repo env) (j_createdAt j) \<noteq> None"
      using that queued_iff by blast
    show ?thesis
    proof (cases "oldest_queued (be_repo env) queued")
      case None
      with oldest_queued_result [OF parse] have "queued = []" by simp
      then have "ids_where env s (\<lambda>j. j_status j = Queued) = {}" using stored_queued by (auto simp: ids_where_def)
      with None st(5) show ?thesis by simp
    next
      case (Some m)
      with oldest_queued_result [OF parse] have m: "m \<in> set queued"
        "\<forall>j \<in> set queued. created_at env m \<le> created_at env j" by simp_all
      from m(1) parse obtain c where "rc_parseDate (be_repo env) (j_createdAt m) = Some c" by blast
      with Some st(5) have "st_oldestQueuedAgeMs st = Some (Some (now_ms s' - created_at env m))"
        by (simp add: created_at_def)
      then show ?thesis using m queued_iff [of m] stored_queued by auto
    qed
  qed
  have "running_ids env s = ids_where env s (\<lambda>j. j_status j = Running)"
    by (auto simp: running_ids_iff ids_where_def)
  moreover have "active_ids env s = ids_where env s (\<lambda>j. \<not> isTerminal (j_status j))"
    by (simp add: active_ids_def ids_where_def)
  ultimately show ?thesis
    using st(1-4) age parts total count [of "\<lambda>j. j_status j = Queued"] count [of "\<lambda>j. j_status j = Running"]
      count [of "\<lambda>j. \<not> isTerminal (j_status j)"] count [of "\<lambda>j. True"]
    by (simp add: queued_def del: isTerminal.simps)
qed

theorem stats_count_jobs_witness:
  "\<exists>st s'. getStats sample_bridge sample_bridge_state = (Inr st, s') \<and>
     st_activeCount st = int (card (active_ids sample_bridge sample_bridge_state))"
proof -
  have "\<not> isl (fst (getStats sample_bridge sample_bridge_state))" by code_simp
  then obtain st s' where run: "getStats sample_bridge sample_bridge_state = (Inr st, s')"
    by (cases "getStats sample_bridge sample_bridge_state"; cases "fst (getStats sample_bridge sample_bridge_state)") auto
  have "fs_ok (the_fs sample_bridge_state)" by code_simp
  from stats_count_jobs [OF run this] run show ?thesis by blast
qed

end
