(* ===== verification/JobSystem.thy ===== *)
theory JobSystem
  imports JobResults
begin

text \<open>
  The running service as a transition system. A step runs one operation of the job API, of the job
  runner or of the notifier, from a state in which the clock, the coming results of commands and
  requests, and what others do while the operation awaits may have changed. The theorems hold in
  every reachable state.
\<close>

section \<open>What happens while an operation awaits\<close>

definition others :: job_rel where
  \<comment> \<open>the rest of the system: jobs follow their course and none begins to run (claims are serialised)\<close>
  "others i x y \<longleftrightarrow> job_move\<^sup>*\<^sup>* x y \<and> never_starts i x y"

definition steady :: job_rel where
  \<comment> \<open>besides, no finished job is removed\<close>
  "steady i x y \<longleftrightarrow> others i x y \<and> ((\<exists>j. x = Some j \<and> isTerminal (j_status j)) \<longrightarrow> y \<noteq> None)"

interpretation steady: job_relation steady
proof
  show "steady i x x" for i x by (auto simp: steady_def others_def never_starts_def)
  show "steady i x z" if xy: "steady i x y" and yz: "steady i y z" for i x y z
  proof -
    have "others i x z" using xy yz by (auto simp: steady_def others_def never_starts_def intro: rtranclp_trans)
    moreover have "z \<noteq> None" if "x = Some j" "isTerminal (j_status j)" for j
    proof -
      from xy that obtain k where y: "y = Some k" by (auto simp: steady_def simp del: isTerminal.simps)
      have "job_move\<^sup>*\<^sup>* x y" using xy by (simp add: steady_def others_def)
      from course_terminal [OF this that] y have "isTerminal (j_status k)"
        using job_core_status [of k j] that(2) by simp
      with yz y show ?thesis by (auto simp: steady_def simp del: isTerminal.simps)
    qed
    ultimately show ?thesis by (auto simp: steady_def simp del: isTerminal.simps)
  qed
qed

lemma sane_mono: "(\<And>i x y. R i x y \<Longrightarrow> Q i x y) \<Longrightarrow> sane R env s \<Longrightarrow> sane Q env s"
  unfolding sane_def world_ok_def disk_moves_def by blast

lemma others_sane:
  "sane others env s \<Longrightarrow> any_sane env s" "sane others env s \<Longrightarrow> sane never_starts env s"
  by (erule sane_mono [rotated], simp add: others_def)+

lemma steady_sane: "sane steady env s \<Longrightarrow> sane others env s"
  by (erule sane_mono [rotated]) (simp add: steady_def)

lemma steady_moves: "moves steady env s t \<Longrightarrow> any_sane env t \<Longrightarrow> any_moves env s t"
  by (simp add: moves_def steady_def others_def)

section \<open>Notifications of finished jobs\<close>

lemma same_request_core: "job_core j = job_core k \<Longrightarrow> same_request j k"
proof -
  assume eq: "job_core j = job_core k"
  have "same_request j (job_core j)" "same_request (job_core k) k" by (simp_all add: same_request_def job_core_def)
  with eq show ?thesis using same_request_trans by metis
qed

lemma persist_steady:
  assumes "persistOutcome env i out s = (r, s')" and "sane steady env s"
    and "\<And>k. bridge_job_at env s i = Some k \<Longrightarrow> isTerminal (j_status k)"
  shows "moves steady env s s'"
proof -
  obtain g s1 where g: "await_repo (getById (be_repo env) i) s = (g, s1)" by fastforce
  have "guar steady env (await_repo (getById (be_repo env) i))"
    by (rule steady.store_reads_guar(1))
  then have m1: "moves steady env s s1" using assms(2) g by (rule guarD)
  show ?thesis
  proof (cases "\<exists>latest. g = Inr (Some latest)")
    case False
    with assms(1) g have "s' = s1"
      by (cases g) (auto simp: persistOutcome_def op_bind_def op_return_def split: option.splits)
    with m1 show ?thesis by simp
  next
    case True
    then obtain latest where latest: "g = Inr (Some latest)" by blast
    with assms(1) g have s': "s' = snd (await_repo (save (be_repo env) (with_outcome latest out)) s1)"
      by (simp add: persistOutcome_def op_bind_def)
    obtain q t where q: "getById (be_repo env) i (bs_repo s) = (Inr (Some latest), t)"
      using await_repo_Inr [OF g [unfolded latest]] by blast
    from repo.get_reads [OF q] have at: "bridge_job_at env s i = Some latest" by (simp add: bridge_job_at_def)
    then have lid: "j_id latest = i" by (simp add: bridge_job_at_def job_at_id)
    have fin: "isTerminal (j_status latest)" using assms(3) [OF at] .
    from movesD [OF m1, of i] at fin obtain k where k: "bridge_job_at env s1 i = Some k" "job_core k = job_core latest"
      by (auto simp: steady_def others_def dest: course_terminal simp del: isTerminal.simps)
    have tk: "isTerminal (j_status k)" using job_core_status [OF k(2)] fin by simp
    obtain v u where v: "save (be_repo env) (with_outcome latest out) (bs_repo s1) = (v, u)"
      by (cases "save (be_repo env) (with_outcome latest out) (bs_repo s1)")
    let ?s2 = "s1\<lparr>bs_repo := u\<rparr>"
    have w: "s' = world_step ?s2" using s' v by (cases v) (simp_all add: await_repo_def on_repo_def)
    have s1: "sane steady env s1" using moves_sane [OF m1 assms(2)] .
    have "repo_ok u" using op_keepsD [OF keeps_save _ v] s1 by (simp add: sane_def the_fs_def)
    then have s2: "sane steady env ?s2" using s1 by (simp add: sane_def world_ok_def the_fs_def)
    have core: "job_core (with_outcome latest out) = job_core k" using k(2) by simp
    have req: "same_request k (with_outcome latest out)" by (rule same_request_core [OF core [symmetric]])
    have stat: "j_status (with_outcome latest out) = j_status k" using job_core_status [OF core] .
    have one: "steady i (Some k) (Some (with_outcome latest out))"
      using req core stat
      by (auto simp: steady_def others_def never_starts_def is_running_def job_move_def
          intro!: r_into_rtranclp simp del: isTerminal.simps)
    have "steady x (bridge_job_at env s1 x) (bridge_job_at env ?s2 x)" for x
      using save_cases [OF v] one k(1) lid by (auto simp: bridge_job_at_def steady.rel_refl)
    then have "moves steady env s1 ?s2" using s2 by (simp add: moves_def)
    with m1 steady.world_step_moves [OF s2] w show ?thesis using steady.trans_moves by blast
  qed
qed

definition done_at :: "bridge_env \<Rightarrow> string \<Rightarrow> bridge_state \<Rightarrow> bool" where
  \<comment> \<open>what is stored under the id, if anything, has ended\<close>
  "done_at env i s \<longleftrightarrow> (\<forall>k. bridge_job_at env s i = Some k \<longrightarrow> isTerminal (j_status k))"

lemma done_moves:
  assumes "any_moves env s t" and "done_at env i s"
  shows "done_at env i t"
  unfolding done_at_def
proof (intro allI impI)
  fix k assume k: "bridge_job_at env t i = Some k"
  show "isTerminal (j_status k)"
  proof (rule ccontr)
    assume "\<not> isTerminal (j_status k)"
    with course_activity [of "bridge_job_at env s i" k] movesD [OF assms(1), of i] k
    obtain j where "bridge_job_at env s i = Some j" "\<not> isTerminal (j_status j)" by auto
    with assms(2) show False by (simp add: done_at_def)
  qed
qed

lemma steady_any: "moves steady env s t \<Longrightarrow> sane steady env s \<Longrightarrow> any_moves env s t"
  by (metis moves_sane others_sane(1) steady_moves steady_sane)

lemma notify_steady:
  assumes "notifyJobComplete env job trigger s = (r, s')" and "sane steady env s" and "done_at env (j_id job) s"
  shows "moves steady env s s'"
proof -
  have persist: "moves steady env s u"
    if m: "guar steady env m" and run: "op_bind m (persistOutcome env (j_id job)) s = (q, u)" for m q u
  proof -
    obtain x t where x: "m s = (x, t)" by (cases "m s")
    have st: "moves steady env s t" using m assms(2) x by (rule guarD)
    show ?thesis
    proof (cases x)
      case (Inl e)
      with run x st show ?thesis by (simp add: op_bind_run)
    next
      case (Inr out)
      with run x have p: "persistOutcome env (j_id job) out t = (q, u)" by (simp add: op_bind_run)
      have "done_at env (j_id job) t" using done_moves [OF steady_any [OF st assms(2)] assms(3)] .
      then have "moves steady env t u"
        by (intro persist_steady [OF p moves_sane [OF st assms(2)]]) (simp add: done_at_def)
      with st show ?thesis by (rule steady.trans_moves)
    qed
  qed
  have claude: "guar steady env (op_bind (notifyClaudeWebhook env job) (\<lambda>w.
      op_bind (maybeSendTelegramFallback env job w) (\<lambda>t. op_return (f w t))))" for f
    by (intro steady.bind_guar steady.channels_guar steady.return_guar)
  have both: "guar steady env (op_bind (notifyOpenClawHooks env job) (\<lambda>w.
      op_bind (sendTelegram env job) (\<lambda>t. op_return (f w t))))" for f
    by (intro steady.bind_guar steady.channels_guar steady.return_guar)
  show ?thesis
    using assms(1) persist [OF claude] persist [OF both]
    by (simp add: notifyJobComplete_def Let_def split: if_splits)
qed

section \<open>The operations of the running service\<close>

datatype service_call =
    CallCreate create_dto
  | CallList "job_status option"
  | CallStats
  | CallGet string
  | CallSession string
  | CallCallback string callback_dto
  | CallCancel string
  | CallRunOnce bool
  | CallCleanup
  | CallStart
  | CallShutdown bool bool bool bool
  | CallRetryNotify string
  | CallReconcileNotifications
  | CallNotify bridge_job

fun run_call :: "bridge_env \<Rightarrow> service_call \<Rightarrow> bridge_state \<Rightarrow> bridge_state" where
  "run_call env (CallCreate input) s = snd (createJob env input s)"
| "run_call env (CallList st) s = snd (listJobs env st s)"
| "run_call env CallStats s = snd (getStats env s)"
| "run_call env (CallGet i) s = snd (getJobOrThrow env i s)"
| "run_call env (CallSession i) s = snd (getJobSessionOrThrow env i s)"
| "run_call env (CallCallback i input) s = snd (completeJobFromCallback env i input s)"
| "run_call env (CallCancel i) s = snd (cancelJob env i s)"
| "run_call env (CallRunOnce b) s = snd (runOnce env b s)"
| "run_call env CallCleanup s = snd (performTerminalCleanup env s)"
| "run_call env CallStart s = snd (runner_onModuleInit env s)"
| "run_call env (CallShutdown a b c d) s = snd (runner_onModuleDestroy a b c d s)"
| "run_call env (CallRetryNotify i) s = snd (triggerNotifyRetry env i s)"
| "run_call env CallReconcileNotifications s = snd (reconcileTerminalNotifications env s)"
| "run_call env (CallNotify job) s = snd (notifyJobComplete env job None s)"

fun notifying :: "service_call \<Rightarrow> bool" where
  "notifying (CallRetryNotify _) = True"
| "notifying CallReconcileNotifications = True"
| "notifying (CallNotify _) = True"
| "notifying _ = False"

fun plain :: "service_call \<Rightarrow> bool" where
  \<comment> \<open>neither creates nor starts a job, nor notifies\<close>
  "plain (CallCreate _) = False"
| "plain (CallRunOnce _) = False"
| "plain c = (\<not> notifying c)"

fun allowed :: "bridge_env \<Rightarrow> string set \<Rightarrow> service_call \<Rightarrow> bridge_state \<Rightarrow> bool" where
  \<comment> \<open>the drawn id is new, a callback reports an end (the DTO only admits those), a completion is
     notified for a job that has ended\<close>
  "allowed env K (CallCreate _) s \<longleftrightarrow> rc_uuid (be_repo env) (rs_uuids (bs_repo s)) \<notin> K"
| "allowed env K (CallCallback _ input) s \<longleftrightarrow> isTerminal (cb_status input)"
| "allowed env K (CallNotify job) s \<longleftrightarrow> done_at env (j_id job) s"
| "allowed env K _ s \<longleftrightarrow> True"

definition refreshed :: "bridge_state \<Rightarrow> bridge_state \<Rightarrow> bool" where
  \<comment> \<open>time passes, and the outside world decides what happens next\<close>
  "refreshed s t \<longleftrightarrow> (\<exists>now ws wr ts es fetches.
     t = s\<lparr>bs_repo := (bs_repo s)\<lparr>rs_now := now, rs_writes := wr\<rparr>, bs_world := ws, bs_tmuxResults := ts,
           bs_execResults := es, bs_fetches := fetches\<rparr>)"

inductive service_step :: "bridge_env \<Rightarrow> string set \<Rightarrow> bridge_state \<Rightarrow> bridge_state \<Rightarrow> bool"
  for env :: bridge_env and K :: "string set" where
  call: "service_step env K s (run_call env c t)"
    if "refreshed s t" and "allowed env K c t" and "sane (if notifying c then steady else others) env t"

inductive_cases service_stepE: "service_step env K s s'"

section \<open>Plain operations\<close>

context service_relation
begin

lemma init_guar: "dirs_separate env \<Longrightarrow> guar R env (runner_onModuleInit env)"
  unfolding runner_onModuleInit_def
  by (intro bind_guar store_reads_guar recover_guar cleanup_guar)
     (auto intro!: frame_guar tmux_ready_guar return_guar simp: op_modify_def)

lemma shutdown_guar: "guar R env (runner_onModuleDestroy a b c d)"
  unfolding runner_onModuleDestroy_def
  by (intro bind_guar awaiting_guar)
     (auto intro!: frame_guar return_guar simp: op_modify_def abort_controllers_def)

lemma guar_snd: "guar R env m \<Longrightarrow> sane R env s \<Longrightarrow> moves R env s (snd (m s))"
  by (metis guarD prod.collapse)

lemma plain_moves:
  assumes "plain c" and "allowed env K c s" and "dirs_separate env" and "sane R env s"
  shows "moves R env s (run_call env c s)"
  using assms
  by (cases c)
     (auto intro!: guar_snd service_reads_guar get_job_guar callback_guar cancel_job_guar cleanup_guar init_guar shutdown_guar
       simp del: isTerminal.simps)

end

section \<open>Notifying operations\<close>

lemma done_stored:
  assumes "bridge_job_at env s (j_id j) = Some j" and "isTerminal (j_status j)"
  shows "done_at env (j_id j) s"
  using assms by (simp add: done_at_def)

lemma reconcile_steady:
  assumes "reconcile_notifications env jobs n s = (r, s')" and "sane steady env s"
    and "\<And>j. j \<in> set jobs \<Longrightarrow> done_at env (j_id j) s"
  shows "moves steady env s s'"
  using assms
proof (induction jobs arbitrary: n s)
  case Nil
  then show ?case by (simp add: op_return_def steady.same_moves)
next
  case (Cons job jobs)
  show ?case
  proof (cases "bs_shuttingDown s")
    case True
    with Cons.prems(1) show ?thesis by (simp add: steady.same_moves)
  next
    case False
    obtain x t where x: "notifyJobComplete env job None s = (x, t)" by (cases "notifyJobComplete env job None s")
    have st: "moves steady env s t" using notify_steady [OF x Cons.prems(2)] Cons.prems(3) by simp
    have "done_at env (j_id j) t" if "j \<in> set jobs" for j
      using done_moves [OF steady_any [OF st Cons.prems(2)]] Cons.prems(3) that by simp
    moreover obtain m where "reconcile_notifications env jobs m t = (r, s')"
      using Cons.prems(1) False x by (cases x) auto
    ultimately have "moves steady env t s'" using moves_sane [OF st Cons.prems(2)] by (intro Cons.IH)
    with st show ?thesis by (rule steady.trans_moves)
  qed
qed

lemma reconcile_all_steady:
  assumes "reconcileTerminalNotifications env s = (r, s')" and "sane steady env s"
  shows "moves steady env s s'"
proof -
  obtain l t where l: "await_repo (listAll (be_repo env)) s = (l, t)" by fastforce
  have st: "moves steady env s t" by (rule guarD [OF steady.store_reads_guar(2) assms(2) l])
  show ?thesis
  proof (cases l)
    case (Inl e)
    with assms(1) l st show ?thesis by (simp add: reconcileTerminalNotifications_def op_bind_run)
  next
    case (Inr jobs)
    let ?jobs = "filter (\<lambda>j. isTerminal (j_status j) \<and> j_notifyOutcome j = None) jobs"
    have "done_at env (j_id j) t" if "j \<in> set ?jobs" for j
    proof -
      have "bridge_job_at env s (j_id j) = Some j" "isTerminal (j_status j)"
        using that listed_job(1) [OF l [unfolded Inr] others_sane(1) [OF steady_sane [OF assms(2)]]]
        by (simp_all del: isTerminal.simps)
      then show ?thesis using done_moves [OF steady_any [OF st assms(2)]] done_stored by blast
    qed
    moreover have "reconcile_notifications env ?jobs 0 t = (r, s')"
      using assms(1) l Inr by (simp only: reconcileTerminalNotifications_def op_bind_run)
    ultimately have "moves steady env t s'" using moves_sane [OF st assms(2)] by (intro reconcile_steady)
    with st show ?thesis by (rule steady.trans_moves)
  qed
qed

lemma retry_steady:
  assumes "triggerNotifyRetry env i s = (r, s')" and "sane steady env s"
  shows "moves steady env s s'"
proof -
  obtain g t where g: "getJobOrThrow env i s = (g, t)" by fastforce
  have st: "moves steady env s t" by (rule guarD [OF steady.get_job_guar assms(2) g])
  note run = assms(1) [unfolded triggerNotifyRetry_def]
  show ?thesis
  proof (cases g)
    case (Inl e)
    with run g st show ?thesis by (simp add: op_bind_run)
  next
    case (Inr job)
    show ?thesis
    proof (cases "isTerminal (j_status job)")
      case False
      with run g Inr have "s' = t" by (simp add: op_bind_run op_fail_def del: isTerminal.simps)
      with st show ?thesis by simp
    next
      case True
      have "bridge_job_at env s i = Some job"
        using getJob_result(2) [OF g others_sane(1) [OF steady_sane [OF assms(2)]]] Inr by (auto split: option.splits)
      moreover from this have "j_id job = i" by (auto simp: bridge_job_at_def dest: job_at_id)
      ultimately have "done_at env (j_id job) t"
        using True done_moves [OF steady_any [OF st assms(2)]] done_stored by blast
      moreover obtain x u where x: "notifyJobComplete env job (Some ManualTrigger) t = (x, u)"
        by (cases "notifyJobComplete env job (Some ManualTrigger) t")
      ultimately have tu: "moves steady env t u" using notify_steady moves_sane [OF st assms(2)] by blast
      have su: "moves steady env s u" using st tu by (rule steady.trans_moves)
      from run g Inr True x have "s' = u \<or> getJobOrThrow env i u = (r, s')"
        by (cases x) (simp_all add: op_bind_run del: isTerminal.simps)
      with su guarD [OF steady.get_job_guar moves_sane [OF su assms(2)]] show ?thesis
        using steady.trans_moves by blast
    qed
  qed
qed

lemma notifying_moves:
  assumes "notifying c" and "allowed env K c s" and "sane steady env s"
  shows "moves steady env s (run_call env c s)"
  using assms
  by (cases c) (auto intro: retry_steady reconcile_all_steady notify_steady surjective_pairing prod.collapse [symmetric])

section \<open>Creations\<close>

text \<open>Reading draws no identifier, so the new job's id is the one that was next at the start.\<close>

lemma read_entries_uuids: "read_entries cfg names s = (js, s') \<Longrightarrow> rs_uuids s' = rs_uuids s"
  by (induction names arbitrary: s js)
     (auto simp: read_entry_def Let_def split: prod.splits option.splits dest: parseJob_frame)

lemma listAll_uuids: "listAll cfg s = (r, s') \<Longrightarrow> rs_uuids s' = rs_uuids s"
  by (auto simp: listAll_def op_bind_def Let_def split: prod.splits sum.splits
      dest!: ensureReady_frame read_entries_uuids)

lemma await_uuids:
  assumes "await_repo m s = (r, s')" and "\<And>s r s'. m s = (r, s') \<Longrightarrow> rs_uuids s' = rs_uuids s"
  shows "rs_uuids (bs_repo s') = rs_uuids (bs_repo s)"
proof -
  obtain q t where q: "m (bs_repo s) = (q, t)" by (cases "m (bs_repo s)")
  with assms(1) have "s' = world_step (s\<lparr>bs_repo := t\<rparr>)" by (cases q) (auto simp: await_repo_def on_repo_def)
  with assms(2) [OF q] show ?thesis by (simp add: world_step_def split: list.split)
qed

lemma count_uuids: "countActive cfg s = (r, s') \<Longrightarrow> rs_uuids s' = rs_uuids s"
  by (auto simp: countActive_def op_bind_def op_return_def split: prod.splits sum.splits dest: listAll_uuids)

lemma find_uuids:
  assumes "findExistingRequestJob env m s = (r, s')"
  shows "rs_uuids (bs_repo s') = rs_uuids (bs_repo s)"
proof (cases "truthy_str (cd_requestId m)")
  case True
  obtain l t where l: "await_repo (listAll (be_repo env)) s = (l, t)" by fastforce
  with assms True have "s' = t" by (cases l) (simp_all add: findExistingRequestJob_def op_bind_run op_return_def)
  with await_uuids [OF l listAll_uuids] show ?thesis by simp
next
  case False
  with assms show ?thesis by (simp add: findExistingRequestJob_def op_return_def)
qed

context service_relation
begin

lemma create_guar:
  assumes "\<And>i x j. j_status j = Queued \<Longrightarrow> R i x (Some j)"
  shows "guar R env (createJob env input)"
proof -
  have save: "guar R env (await_repo (save (be_repo env) j))" if "j_status j = Queued" for j
  proof (rule await_repo_guar [OF keeps_save])
    fix s r s' i
    assume "save (be_repo env) j s = (r, s')"
    from save_cases [OF this] assms [OF that] show "R i (job_at (be_repo env) s i) (job_at (be_repo env) s' i)"
      by (auto simp: rel_refl)
  qed
  have uuid: "guar R env (on_repo (randomUUID (be_repo env)))"
  proof (rule read_guar(2))
    show "op_keeps repo_ok (randomUUID (be_repo env))" by (rule op_keepsI) (simp add: randomUUID_def)
  qed (auto simp: randomUUID_def job_at_def fun_eq_iff)
  have order: "guar R env nextQueueOrder" by (rule frame_guar) (simp_all add: nextQueueOrder_def Let_def)
  have "guar R env (\<lambda>s. await_repo (save (be_repo env) (new_job env m fp i q (now_iso env s))) s)" for m fp i q
    by (rule guar_at, rule exI, rule conjI [OF _ refl], rule save) (simp add: new_job_def)
  then have "guar R env (create_new env m fp)" for m fp
    unfolding create_new_def by (auto intro!: bind_guar count_guar fail_guar uuid order)
  then show ?thesis
    unfolding createJob_def Let_def
    by (auto intro!: bind_guar assert_cwd_guar find_existing_guar case_guar assert_fingerprint_guar return_guar)
qed

end

lemma create_course:
  assumes "createJob env input s = (r, s')" and "any_sane env s"
  shows "any_sane env s'"
    and "rc_uuid (be_repo env) (rs_uuids (bs_repo s)) \<noteq> k \<Longrightarrow>
      job_move\<^sup>*\<^sup>* (bridge_job_at env s k) (bridge_job_at env s' k)"
proof -
  have "any_sane env s' \<and> (rc_uuid (be_repo env) (rs_uuids (bs_repo s)) \<noteq> k \<longrightarrow>
      job_move\<^sup>*\<^sup>* (bridge_job_at env s k) (bridge_job_at env s' k))"
    using createJob_cases [OF assms]
  proof (elim disjE exE conjE)
    fix e assume "any_moves env s s'"
    then show ?thesis using moves_sane [OF _ assms(2)] movesD by blast
  next
    fix t jobs assume t: "any_moves env s t" "await_repo (listAll (be_repo env)) t = (Inr jobs, s')"
    have "any_moves env s s'"
      using t(1) listed_job(2) [OF t(2) moves_sane [OF t(1) assms(2)]] by (rule any_course.trans_moves)
    then show ?thesis using moves_sane [OF _ assms(2)] movesD by blast
  next
    fix m t u j assume r: "r = Inr j" and t: "any_moves env s t" "rs_uuids (bs_repo t) = rs_uuids (bs_repo s)"
      and f: "findExistingRequestJob env m t = (Inr None, u)"
      and c: "create_new env m (buildRequestFingerprint env m) u = (r, s')"
    have st: "any_sane env t" using moves_sane [OF t(1) assms(2)] .
    have tu: "any_moves env t u" by (rule guarD [OF any_course.find_existing_guar st f])
    from create_new_cases [OF c moves_sane [OF tu st]] r obtain n u' q now v where
      n: "await_repo (countActive (be_repo env)) u = (Inr n, u')" and uu: "any_moves env u u'"
      and j: "j = new_job env m (buildRequestFingerprint env m) (rc_uuid (be_repo env) (rs_uuids (bs_repo u'))) q now"
      and v: "any_sane env v" "bridge_job_at env v = (bridge_job_at env u')(j_id j \<mapsto> j)" "any_moves env v s'"
      by blast
    have id: "j_id j = rc_uuid (be_repo env) (rs_uuids (bs_repo s))"
      using await_uuids [OF n count_uuids] find_uuids [OF f] t(2) by (simp add: j new_job_def)
    have "any_moves env s u'" using t(1) tu uu any_course.trans_moves by blast
    from movesD [OF this, of k] movesD [OF v(3), of k] moves_sane [OF v(3,1)] show ?thesis
      by (auto simp: v(2) id split: if_splits)
  qed
  then show "any_sane env s'" "rc_uuid (be_repo env) (rs_uuids (bs_repo s)) \<noteq> k \<Longrightarrow>
      job_move\<^sup>*\<^sup>* (bridge_job_at env s k) (bridge_job_at env s' k)" by blast+
qed

section \<open>Running\<close>

lemma keeps_if: "op_keeps P m \<Longrightarrow> op_keeps P n \<Longrightarrow> op_keeps P (\<lambda>s. if c s then m s else n s)"
  unfolding op_keeps_def by simp

lemma keeps_option:
  "op_keeps P m \<Longrightarrow> (\<And>x. op_keeps P (n x)) \<Longrightarrow> op_keeps P (\<lambda>s. case v s of None \<Rightarrow> m s | Some x \<Rightarrow> n x s)"
  unfolding op_keeps_def by (simp split: option.split)

lemma guar_keeps: "guar R env m \<Longrightarrow> op_keeps (sane R env) m"
  unfolding guar_def op_keeps_def moves_def by (metis prod.collapse)

lemma keeps_constant: "op_keeps P (\<lambda>s. (r, s))"
  by (simp add: op_keeps_def)

lemma claimNext_keeps: "op_keeps (sane never_starts env) (claimNext env)"
proof -
  have claim: "op_keeps (sane never_starts env) (transition_now env i [Queued] claim_update)" for i
    by (rule op_keepsI) (rule claim_transition(1) [OF surjective_pairing])
  have rest: "op_keeps (sane never_starts env) (\<lambda>s2.
      if \<not> transitioned \<or> job = None then (Inr None, s2)
      else if bs_shuttingDown s2
      then op_bind (requeueClaimedJob env (j_id (the job))) (\<lambda>_. op_return None) s2
      else (Inr job, s2\<lparr>bs_inFlight := set_add (j_id c) (bs_inFlight s2)\<rparr>))"
    for transitioned and c :: bridge_job and job :: "bridge_job option"
  proof (intro keeps_if keeps_constant op_keeps_bind op_keeps_basic(1) guar_keeps [OF starts.requeue_guar])
    show "op_keeps (sane never_starts env) (\<lambda>s2. (Inr job, s2\<lparr>bs_inFlight := set_add (j_id c) (bs_inFlight s2)\<rparr>))"
      by (simp add: op_keeps_def sane_def world_ok_def the_fs_def)
  qed
  have pair: "op_keeps (sane never_starts env) (case x of (transitioned, job) \<Rightarrow> \<lambda>s2.
      if \<not> transitioned \<or> job = None then (Inr None, s2)
      else if bs_shuttingDown s2
      then op_bind (requeueClaimedJob env (j_id (the job))) (\<lambda>_. op_return None) s2
      else (Inr job, s2\<lparr>bs_inFlight := set_add (j_id c) (bs_inFlight s2)\<rparr>))" for x :: "bool \<times> bridge_job option" and c :: bridge_job
    by (cases x) (simp only: prod.case rest)
  show ?thesis
    unfolding claimNext_def
    by (intro keeps_if keeps_constant op_keeps_bind guar_keeps [OF starts.store_reads_guar(2)])
       (rule keeps_option [OF keeps_constant op_keeps_bind [OF claim pair]])
qed

lemma card_running_mono:
  assumes "moves never_starts env s t" and "sane never_starts env s"
  shows "card (running_ids env t) \<le> card (running_ids env s)"
  using assms(2) by (intro card_mono moves_running [OF assms(1)] finite_running) (simp add: sane_def)

lemma runOnce_limit:
  assumes "runOnce env b s = (r, s')" and "sane never_starts env s" and "dirs_separate env"
  shows "int (card (running_ids env s')) \<le> max (bc_maxConcurrency (be_cfg env)) (int (card (running_ids env s)))"
proof -
  obtain q t where q: "reconcileRunningTmuxJobs env b s = (q, t)" by fastforce
  have mt: "moves never_starts env s t" by (rule guarD [OF starts.reconcile_guar [OF assms(3)] assms(2) q])
  have st: "sane never_starts env t" using moves_sane [OF mt assms(2)] .
  note ct = card_running_mono [OF mt assms(2)]
  show ?thesis
  proof (cases "s' = t")
    case True
    show ?thesis unfolding True using ct by linarith
  next
    case False
    obtain c u where c: "claimNext env t = (c, u)" by (cases "claimNext env t")
    have su: "sane never_starts env u" by (rule op_keepsD [OF claimNext_keeps st c])
    from claim_respects_limit [OF c st]
    have cu: "int (card (running_ids env u)) \<le> max (bc_maxConcurrency (be_cfg env)) (int (card (running_ids env t)))"
      by (auto split: sum.splits option.splits)
    have "card (running_ids env s') \<le> card (running_ids env u)"
    proof (cases "s' = u")
      case ne: False
      with False assms(1) q c obtain job where
        run: "op_finally (op_bind (executeJob env job) (\<lambda>_. op_return True))
          (\<lambda>t. t\<lparr>bs_inFlight := filter (\<lambda>i. i \<noteq> j_id job) (bs_inFlight t)\<rparr>) u = (r, s')"
        by (auto simp: runOnce_def op_bind_def op_return_def split: sum.splits if_splits option.splits)
      have "guar never_starts env (op_finally (op_bind (executeJob env job) (\<lambda>_. op_return True))
          (\<lambda>t. t\<lparr>bs_inFlight := filter (\<lambda>i. i \<noteq> j_id job) (bs_inFlight t)\<rparr>))"
        by (intro starts.finally_guar starts.bind_guar starts.executeJob_guar [OF assms(3)] starts.return_guar) simp_all
      from card_running_mono [OF guarD [OF this su run] su] show ?thesis .
    qed simp
    with cu ct show ?thesis by linarith
  qed
qed

section \<open>The system\<close>

definition system_ok :: "bridge_env \<Rightarrow> bridge_state \<Rightarrow> bool" where
  "system_ok env s \<longleftrightarrow> fs_ok (the_fs s) \<and> unique_requests env s \<and>
     int (card (running_ids env s)) \<le> bc_maxConcurrency (be_cfg env) \<and>
     int (card (active_ids env s)) \<le> bc_maxActiveJobs (be_cfg env)"

lemma refreshed_same:
  assumes "refreshed s t"
  shows "bridge_job_at env t = bridge_job_at env s" and "the_fs t = the_fs s"
  using assms by (auto simp: refreshed_def bridge_job_at_def the_fs_def job_at_def fun_eq_iff)

lemma refreshed_ok: "refreshed s t \<Longrightarrow> system_ok env t = system_ok env s"
  by (simp add: system_ok_def unique_requests_def running_ids_def active_ids_def refreshed_same)

lemma call_others:
  assumes "allowed env K c s" and "sane (if notifying c then steady else others) env s" and "dirs_separate env"
  shows "any_sane env s" and "sane never_starts env s"
    and "(\<And>input. c \<noteq> CallCreate input) \<Longrightarrow> any_moves env s (run_call env c s)"
    and "(\<And>input. c \<noteq> CallCreate input) \<Longrightarrow> (\<And>b. c \<noteq> CallRunOnce b) \<Longrightarrow> moves never_starts env s (run_call env c s)"
proof -
  have so: "sane others env s" using assms(2) steady_sane by (auto split: if_splits)
  note sn = others_sane [OF so]
  show "any_sane env s" "sane never_starts env s" by (rule sn)+
  have st: "moves steady env s (run_call env c s)" "sane steady env s" if "notifying c"
    using notifying_moves assms(1,2) that by auto
  have once: "any_moves env s (run_call env (CallRunOnce b) s)" for b
    using any_course.guar_snd [OF any_course.runOnce_guar [OF assms(3)] sn(1)] by simp
  show "any_moves env s (run_call env c s)" if "\<And>input. c \<noteq> CallCreate input"
  proof (cases "notifying c")
    case True
    then show ?thesis using steady_any st by blast
  next
    case False
    show ?thesis
    proof (cases "\<exists>b. c = CallRunOnce b")
      case True
      with once show ?thesis by blast
    next
      case no: False
      with that False have "plain c" by (cases c) auto
      then show ?thesis using assms(1,3) sn(1) by (rule any_course.plain_moves)
    qed
  qed
  show "moves never_starts env s (run_call env c s)" if "\<And>input. c \<noteq> CallCreate input" "\<And>b. c \<noteq> CallRunOnce b"
  proof (cases "notifying c")
    case True
    note mv = st [OF this]
    have "sane never_starts env (run_call env c s)" using others_sane(2) [OF steady_sane [OF moves_sane [OF mv]]] .
    then show ?thesis using mv(1) by (simp add: moves_def steady_def others_def)
  next
    case False
    with that have "plain c" by (cases c) auto
    then show ?thesis using assms(1,3) sn(2) by (rule starts.plain_moves)
  qed
qed

lemma step_course:
  assumes "service_step env K s s'" and "dirs_separate env"
  shows "k \<in> K \<Longrightarrow> job_move\<^sup>*\<^sup>* (bridge_job_at env s k) (bridge_job_at env s' k)"
proof -
  obtain t c where call: "s' = run_call env c t" "refreshed s t" "allowed env K c t"
    "sane (if notifying c then steady else others) env t" using assms(1) by (auto elim: service_stepE)
  assume k: "k \<in> K"
  note o = call_others [OF call(3,4) assms(2)]
  show ?thesis
  proof (cases "\<exists>input. c = CallCreate input")
    case True
    then obtain input where c: "c = CallCreate input" by blast
    with call(3) k have "rc_uuid (be_repo env) (rs_uuids (bs_repo t)) \<noteq> k" by auto
    from create_course(2) [OF surjective_pairing o(1) this] c call(1) show ?thesis
      by (simp add: refreshed_same [OF call(2)])
  next
    case False
    then have "any_moves env t s'" using o(3) call(1) by blast
    from movesD [OF this, of k] show ?thesis by (simp add: refreshed_same [OF call(2)])
  qed
qed

lemma step_ok:
  assumes "service_step env K s s'" and "dirs_separate env" and "system_ok env s"
  shows "system_ok env s'"
proof -
  obtain t c where call: "s' = run_call env c t" "refreshed s t" "allowed env K c t"
    "sane (if notifying c then steady else others) env t" using assms(1) by (auto elim: service_stepE)
  note o = call_others [OF call(3,4) assms(2)]
  have t: "system_ok env t" using assms(3) refreshed_ok [OF call(2)] by simp
  then have bounds: "int (card (running_ids env t)) \<le> bc_maxConcurrency (be_cfg env)"
    "int (card (active_ids env t)) \<le> bc_maxActiveJobs (be_cfg env)" "unique_requests env t" "fs_ok (the_fs t)"
    by (simp_all add: system_ok_def)
  show ?thesis
  proof (cases "\<exists>input. c = CallCreate input")
    case True
    then obtain input where c: "c = CallCreate input" by blast
    obtain r where run: "createJob env input t = (r, s')" using c call(1) by (cases "createJob env input t") simp
    have "guar never_starts env (createJob env input)"
      by (rule starts.create_guar) (simp add: never_starts_def is_running_def)
    from card_running_mono [OF guarD [OF this o(2) run] o(2)]
    have "int (card (running_ids env s')) \<le> bc_maxConcurrency (be_cfg env)" using bounds(1) by linarith
    moreover have "int (card (active_ids env s')) \<le> bc_maxActiveJobs (be_cfg env)"
      using capacity [OF run o(1)] bounds(2) by linarith
    moreover have "unique_requests env s'" by (rule create_unique [OF run o(1) bounds(3)])
    moreover have "fs_ok (the_fs s')" using create_course(1) [OF run o(1)] by (simp add: sane_def)
    ultimately show ?thesis by (simp add: system_ok_def)
  next
    case False
    then have m: "any_moves env t s'" using o(3) call(1) by blast
    have "card (active_ids env s') \<le> card (active_ids env t)"
      by (intro card_mono moves_active [OF m] finite_active bounds(4))
    then have "int (card (active_ids env s')) \<le> bc_maxActiveJobs (be_cfg env)" using bounds(2) by linarith
    moreover have "unique_requests env s'" by (rule moves_unique [OF m bounds(3)])
    moreover have "fs_ok (the_fs s')" using moves_sane [OF m o(1)] by (simp add: sane_def)
    moreover have "int (card (running_ids env s')) \<le> bc_maxConcurrency (be_cfg env)"
    proof (cases "\<exists>b. c = CallRunOnce b")
      case True
      then obtain b where "c = CallRunOnce b" by blast
      then obtain r where "runOnce env b t = (r, s')" using call(1) by (cases "runOnce env b t") simp
      from runOnce_limit [OF this o(2) assms(2)] bounds(1) show ?thesis by linarith
    next
      case no: False
      then have "moves never_starts env t s'" using o(4) False call(1) by blast
      from card_running_mono [OF this o(2)] bounds(1) show ?thesis by linarith
    qed
    ultimately show ?thesis by (simp add: system_ok_def)
  qed
qed


lemma reachable_course:
  assumes "(service_step env K)\<^sup>*\<^sup>* s s'" and "dirs_separate env" and "k \<in> K"
  shows "job_move\<^sup>*\<^sup>* (bridge_job_at env s k) (bridge_job_at env s' k)"
  using assms(1)
proof induction
  case (step t u)
  then show ?case using step_course [OF step.hyps(2) assms(2,3)] by (metis rtranclp_trans)
qed simp


lemma cancel_step:
  assumes "set (bs_world s) = {}" and "fs_ok (the_fs s)"
  shows "service_step env K s (snd (cancelJob env i s))"
proof -
  have "refreshed s s" unfolding refreshed_def
    by (intro exI [of _ "rs_now (bs_repo s)"] exI [of _ "bs_world s"] exI [of _ "rs_writes (bs_repo s)"]
        exI [of _ "bs_tmuxResults s"] exI [of _ "bs_execResults s"] exI [of _ "bs_fetches s"]) simp
  moreover have "sane others env s" using assms by (simp add: sane_def world_ok_def)
  ultimately show ?thesis using service_step.call [of s s env K "CallCancel i"] by simp
qed

lemma sample_cancel_step: "(service_step sample_bridge {uuid2, uuid3})\<^sup>*\<^sup>* sample_bridge_state
    (snd (cancelJob sample_bridge uuid2 sample_bridge_state))"
proof -
  have "fs_ok (the_fs sample_bridge_state)" by code_simp
  then have "service_step sample_bridge {uuid2, uuid3} sample_bridge_state
      (snd (cancelJob sample_bridge uuid2 sample_bridge_state))"
    by (intro cancel_step) (simp_all add: sample_bridge_state_def)
  then show ?thesis by (rule r_into_rtranclp)
qed

lemma create_step:
  assumes "set (bs_world s) = {}" and "fs_ok (the_fs s)"
  shows "service_step env {} s (snd (createJob env input s))"
proof -
  have "refreshed s s" unfolding refreshed_def
    by (intro exI [of _ "rs_now (bs_repo s)"] exI [of _ "bs_world s"] exI [of _ "rs_writes (bs_repo s)"]
        exI [of _ "bs_tmuxResults s"] exI [of _ "bs_execResults s"] exI [of _ "bs_fetches s"]) simp
  moreover have "sane others env s" using assms by (simp add: sane_def world_ok_def)
  ultimately show ?thesis using service_step.call [of s s env "{}" "CallCreate input"] by simp
qed



end
