(* ===== verification/OmxExec.thy ===== *)
theory OmxExec
  imports BridgeSamples
begin

text \<open>
  Executing a command, \<open>OmxExecService.execute\<close> in \<open>src/jobs/omx-exec.service.ts\<close>, as an event
  driven state machine. The record \<open>exec_run\<close> holds the variables of the closure, the armed timers
  and the signals sent; an event is a callback of the child process, of a timer or of the abort
  signal, with the answers the operating system gives to the calls its handler makes. The promise
  is resolved at most once (\<open>x_result\<close>).
\<close>

section \<open>State and events\<close>

datatype signal = SIGTERM | SIGKILL

text \<open>How \<open>kill\<close> ends: delivered, \<open>ESRCH\<close>, or another error with its message.\<close>

datatype kill_result = Delivered | NoSuchProcess | KillError string

record exec_run =
  x_startedAt :: int
  x_stdout :: output_capture
  x_stderr :: output_capture
  x_result :: "execution_result option"
  x_timedOut :: bool
  x_cancelled :: bool
  x_stdinWriteFailed :: bool
  x_exitCode :: "int option"
  x_sigkillTimer :: bool
  x_groupPoll :: bool
  x_ownedPid :: "int option"
  x_terminationStarted :: bool
  x_childClosed :: bool
  x_childErrored :: bool
  x_timeoutTimer :: bool
  x_abortListener :: bool
  x_signals :: "(int \<times> signal \<times> kill_result) list"

datatype exec_event =
    StdinError string
  | StdoutData string
  | StderrData string
  | ChildError string
  | ChildClose "int option" bool bool \<comment> \<open>the code; the group is seen alive at the first and the second probe\<close>
  | TimeoutFires kill_result
  | AbortFires kill_result
  | SigkillFires kill_result
  | PollFires bool

definition is_windows :: "bridge_env \<Rightarrow> bool" where
  "is_windows env = pe_win32 (rc_env (be_repo env))"

definition settled :: "exec_run \<Rightarrow> bool" where
  "settled x \<longleftrightarrow> x_result x \<noteq> None"

section \<open>The local functions of the closure\<close>

definition capture :: "bridge_env \<Rightarrow> output_capture \<Rightarrow> string \<Rightarrow> output_capture" where
  "capture env = appendCapturedOutput (bc_maxOutputChars (be_cfg env))"

definition note_if_silent :: "bridge_env \<Rightarrow> string \<Rightarrow> exec_run \<Rightarrow> exec_run" where
  \<comment> \<open>\<open>if (stderrCapture.length === 0) stderrCapture = append(...)\<close>\<close>
  "note_if_silent env message x =
     (if cap_length (x_stderr x) = 0 then x\<lparr>x_stderr := capture env (x_stderr x) message\<rparr> else x)"

definition finish_result :: "bridge_env \<Rightarrow> int \<Rightarrow> job_status \<Rightarrow> error_type option \<Rightarrow> exec_run \<Rightarrow> execution_result" where
  "finish_result env now status errorType x = \<lparr>
     er_status = status,
     er_stdout = renderCapturedOutput (bc_maxOutputChars (be_cfg env)) (x_stdout x),
     er_stderr = renderCapturedOutput (bc_maxOutputChars (be_cfg env)) (x_stderr x),
     er_exitCode = x_exitCode x,
     er_execution = \<lparr>em_command = bc_omxCommand (be_cfg env), em_timeoutMs = bc_jobTimeoutMs (be_cfg env),
       em_maxOutputChars = bc_maxOutputChars (be_cfg env), em_durationMs = Some (now - x_startedAt x),
       em_timedOut = Some (x_timedOut x),
       em_outputTruncated = Some (cap_truncated (x_stdout x) \<or> cap_truncated (x_stderr x)),
       em_errorType = errorType, em_recoveredFromRestart = None\<rparr>\<rparr>"

definition finish :: "bridge_env \<Rightarrow> int \<Rightarrow> job_status \<Rightarrow> error_type option \<Rightarrow> exec_run \<Rightarrow> exec_run" where
  "finish env now status errorType x =
     (if settled x then x
      else x\<lparr>x_result := Some (finish_result env now status errorType x), x_timeoutTimer := False,
             x_sigkillTimer := False, x_groupPoll := False, x_abortListener := False\<rparr>)"

definition clearProcessOwnership :: "exec_run \<Rightarrow> exec_run" where
  "clearProcessOwnership x = x\<lparr>x_sigkillTimer := False, x_groupPoll := False, x_ownedPid := None\<rparr>"

definition finishTerminated :: "bridge_env \<Rightarrow> int \<Rightarrow> exec_run \<Rightarrow> exec_run" where
  "finishTerminated env now x =
     (if \<not> x_childClosed x \<or> settled x then x
      else
        (let y = clearProcessOwnership x in
         if x_cancelled y then finish env now Cancelled (Some CancelledError) y
         else finish env now Failed (Some TimeoutError) y))"

definition isOwnedProcessGroupAlive :: "bridge_env \<Rightarrow> bool \<Rightarrow> exec_run \<Rightarrow> bool" where
  \<comment> \<open>the flag: what the probe \<open>kill(-pid, 0)\<close> finds\<close>
  "isOwnedProcessGroupAlive env alive x =
     (if is_windows env \<or> x_ownedPid x = None then False else alive)"

definition waitForOwnedProcessGroupExit :: "bridge_env \<Rightarrow> int \<Rightarrow> bool \<Rightarrow> exec_run \<Rightarrow> exec_run" where
  "waitForOwnedProcessGroupExit env now alive x =
     (if x_groupPoll x \<or> settled x then x
      else
        (let y = x\<lparr>x_groupPoll := True\<rparr> in
         if \<not> isOwnedProcessGroupAlive env alive y then finishTerminated env now y else y))"

definition signalOwnedProcess :: "bridge_env \<Rightarrow> int \<Rightarrow> signal \<Rightarrow> kill_result \<Rightarrow> exec_run \<Rightarrow> bool \<times> exec_run" where
  \<comment> \<open>on Windows the direct child is killed, elsewhere its process group\<close>
  "signalOwnedProcess env now sig answer x =
     (case x_ownedPid x of
        None \<Rightarrow> (False, x)
      | Some pid \<Rightarrow>
          (let y = x\<lparr>x_signals := x_signals x @ [(if is_windows env then pid else - pid, sig, answer)]\<rparr> in
           case answer of
             Delivered \<Rightarrow> (True, y)
           | NoSuchProcess \<Rightarrow> (False, clearProcessOwnership y)
           | KillError message \<Rightarrow>
               (False, finish env now Failed (Some ExecutionError)
                  (clearProcessOwnership
                    (y\<lparr>x_stderr := capture env (x_stderr y) (''Failed to signal owned process: '' @ message)\<rparr>)))))"

definition terminate :: "bridge_env \<Rightarrow> int \<Rightarrow> kill_result \<Rightarrow> exec_run \<Rightarrow> exec_run" where
  "terminate env now answer x =
     (if x_terminationStarted x \<or> settled x then x
      else
        (case signalOwnedProcess env now SIGTERM answer (x\<lparr>x_terminationStarted := True\<rparr>) of
           (True, y) \<Rightarrow> y\<lparr>x_sigkillTimer := True\<rparr>
         | (False, y) \<Rightarrow> y))"

definition handleAbort :: "bridge_env \<Rightarrow> int \<Rightarrow> kill_result \<Rightarrow> exec_run \<Rightarrow> exec_run" where
  "handleAbort env now answer x =
     terminate env now answer (note_if_silent env ''Command cancelled'' (x\<lparr>x_cancelled := True\<rparr>))"

section \<open>The handlers\<close>

definition on_child_error :: "bridge_env \<Rightarrow> int \<Rightarrow> string \<Rightarrow> exec_run \<Rightarrow> exec_run" where
  "on_child_error env now message x =
     finish env now Failed (Some SpawnError)
       (note_if_silent env message (clearProcessOwnership (x\<lparr>x_childErrored := True\<rparr>)))"

definition on_close :: "bridge_env \<Rightarrow> int \<Rightarrow> int option \<Rightarrow> bool \<Rightarrow> bool \<Rightarrow> exec_run \<Rightarrow> exec_run" where
  "on_close env now code alive1 alive2 x0 =
     (let x = x0\<lparr>x_childClosed := True, x_exitCode := code\<rparr> in
      if x_cancelled x \<or> x_timedOut x then
        (if x_terminationStarted x \<and> isOwnedProcessGroupAlive env alive1 x
         then waitForOwnedProcessGroupExit env now alive2 x
         else finishTerminated env now x)
      else
        (let y = clearProcessOwnership x in
         if x_stdinWriteFailed y then finish env now Failed (Some ExecutionError) y
         else if code = Some 0 then finish env now Succeeded None y
         else finish env now Failed (Some NonZeroExit) y))"

definition on_timeout :: "bridge_env \<Rightarrow> int \<Rightarrow> kill_result \<Rightarrow> exec_run \<Rightarrow> exec_run" where
  "on_timeout env now answer x =
     terminate env now answer
       (note_if_silent env (timeout_message (be_cfg env)) (x\<lparr>x_timeoutTimer := False, x_timedOut := True\<rparr>))"

definition on_sigkill :: "bridge_env \<Rightarrow> int \<Rightarrow> kill_result \<Rightarrow> exec_run \<Rightarrow> exec_run" where
  "on_sigkill env now answer x =
     finishTerminated env now
       (clearProcessOwnership (snd (signalOwnedProcess env now SIGKILL answer (x\<lparr>x_sigkillTimer := False\<rparr>))))"

fun exec_on :: "bridge_env \<Rightarrow> int \<Rightarrow> exec_event \<Rightarrow> exec_run \<Rightarrow> exec_run" where
  \<comment> \<open>a listener registered with \<open>once\<close>, a cleared timer and a removed listener do nothing\<close>
  "exec_on env now (StdinError message) x =
     (if x_stdinWriteFailed x then x else note_if_silent env message (x\<lparr>x_stdinWriteFailed := True\<rparr>))"
| "exec_on env now (StdoutData chunk) x = x\<lparr>x_stdout := capture env (x_stdout x) chunk\<rparr>"
| "exec_on env now (StderrData chunk) x = x\<lparr>x_stderr := capture env (x_stderr x) chunk\<rparr>"
| "exec_on env now (ChildError message) x =
     (if x_childErrored x then x else on_child_error env now message x)"
| "exec_on env now (ChildClose code alive1 alive2) x =
     (if x_childClosed x then x else on_close env now code alive1 alive2 x)"
| "exec_on env now (TimeoutFires answer) x = (if x_timeoutTimer x then on_timeout env now answer x else x)"
| "exec_on env now (AbortFires answer) x =
     (if x_abortListener x then handleAbort env now answer (x\<lparr>x_abortListener := False\<rparr>) else x)"
| "exec_on env now (SigkillFires answer) x = (if x_sigkillTimer x then on_sigkill env now answer x else x)"
| "exec_on env now (PollFires alive) x =
     (if x_groupPoll x \<and> \<not> isOwnedProcessGroupAlive env alive x then finishTerminated env now x else x)"

definition exec_all :: "bridge_env \<Rightarrow> (int \<times> exec_event) list \<Rightarrow> exec_run \<Rightarrow> exec_run" where
  "exec_all env evs x = foldl (\<lambda>x (now, ev). exec_on env now ev x) x evs"

section \<open>Starting\<close>

definition isValidPid :: "int option \<Rightarrow> bool" where
  "isValidPid pid \<longleftrightarrow> (case pid of None \<Rightarrow> False | Some p \<Rightarrow> p > 0)"

record spawn_request =
  sp_command :: string
  sp_args :: "string list"
  sp_env :: "(string \<times> string) list"
  sp_detached :: bool
  sp_cwd :: "string option"
  sp_stdin :: string

definition spawn_of :: "bridge_env \<Rightarrow> string \<Rightarrow> string option \<Rightarrow> spawn_request" where
  "spawn_of env prompt executionCwd = \<lparr>sp_command = bc_omxCommand (be_cfg env), sp_args = buildOmxExecArgs (be_cfg env),
     sp_env = buildChildEnv env, sp_detached = (\<not> is_windows env),
     sp_cwd = (if truthy_str executionCwd then executionCwd else None), sp_stdin = prompt\<rparr>"

definition new_run :: "int \<Rightarrow> int option \<Rightarrow> bool \<Rightarrow> exec_run" where
  "new_run startedAt pid hasSignal = \<lparr>x_startedAt = startedAt, x_stdout = emptyOutputCapture,
     x_stderr = emptyOutputCapture, x_result = None, x_timedOut = False, x_cancelled = False,
     x_stdinWriteFailed = False, x_exitCode = None, x_sigkillTimer = False, x_groupPoll = False,
     x_ownedPid = (if isValidPid pid then pid else None), x_terminationStarted = False, x_childClosed = False,
     x_childErrored = False, x_timeoutTimer = True, x_abortListener = hasSignal, x_signals = []\<rparr>"

definition invalid_cwd_result :: "bridge_env \<Rightarrow> int \<Rightarrow> string \<Rightarrow> execution_result" where
  "invalid_cwd_result env duration message = \<lparr>er_status = Failed, er_stdout = [], er_stderr = message, er_exitCode = None,
     er_execution = \<lparr>em_command = bc_omxCommand (be_cfg env), em_timeoutMs = bc_jobTimeoutMs (be_cfg env),
       em_maxOutputChars = bc_maxOutputChars (be_cfg env), em_durationMs = Some duration, em_timedOut = None,
       em_outputTruncated = None, em_errorType = Some InvalidCwd, em_recoveredFromRestart = None\<rparr>\<rparr>"

definition cancelledBeforeSpawn :: "bridge_env \<Rightarrow> int \<Rightarrow> execution_result" where
  "cancelledBeforeSpawn env duration = \<lparr>er_status = Cancelled, er_stdout = [], er_stderr = ''Command cancelled'',
     er_exitCode = None,
     er_execution = \<lparr>em_command = bc_omxCommand (be_cfg env), em_timeoutMs = bc_jobTimeoutMs (be_cfg env),
       em_maxOutputChars = bc_maxOutputChars (be_cfg env), em_durationMs = Some duration, em_timedOut = Some False,
       em_outputTruncated = Some False, em_errorType = Some CancelledError, em_recoveredFromRestart = None\<rparr>\<rparr>"

definition exec_start ::
  "bridge_env \<Rightarrow> string \<Rightarrow> string option \<Rightarrow> bool option \<Rightarrow> int \<Rightarrow> int \<Rightarrow> int option \<Rightarrow> kill_result option \<Rightarrow>
   execution_result + spawn_request \<times> exec_run" where
  \<comment> \<open>an immediate result, or what is spawned and the run; the fourth argument is the state of the
     signal (absent, or whether it was aborted while the directory was resolved), the last one is
     present when the signal is aborted during the spawn\<close>
  "exec_start env prompt cwd signal startedAt now pid aborted =
     (case (if truthy_str cwd then resolveAllowedExecutionCwd (be_realpath env) (be_cwd env) cwd
                                   (bc_allowedCwdPrefixes (be_cfg env)) else Inr None) of
        Inl e \<Rightarrow> Inl (invalid_cwd_result env (now - startedAt) (be_errorText env (CwdFailure e)))
      | Inr executionCwd \<Rightarrow>
          (if signal = Some True then Inl (cancelledBeforeSpawn env (now - startedAt))
           else Inr (spawn_of env prompt executionCwd,
             case aborted of
               Some answer \<Rightarrow>
                 (if signal = None then new_run startedAt pid False
                  else handleAbort env now answer (new_run startedAt pid False))
             | None \<Rightarrow> new_run startedAt pid (signal \<noteq> None))))"

section \<open>The promise is resolved once\<close>

lemma note_simps [simp]:
  "x_result (note_if_silent env m x) = x_result x" "x_terminationStarted (note_if_silent env m x) = x_terminationStarted x"
  "x_childClosed (note_if_silent env m x) = x_childClosed x" "x_ownedPid (note_if_silent env m x) = x_ownedPid x"
  "x_sigkillTimer (note_if_silent env m x) = x_sigkillTimer x" "x_groupPoll (note_if_silent env m x) = x_groupPoll x"
  "x_cancelled (note_if_silent env m x) = x_cancelled x" "x_timedOut (note_if_silent env m x) = x_timedOut x"
  "x_timeoutTimer (note_if_silent env m x) = x_timeoutTimer x" "x_signals (note_if_silent env m x) = x_signals x"
  "x_abortListener (note_if_silent env m x) = x_abortListener x" "x_exitCode (note_if_silent env m x) = x_exitCode x"
  by (simp_all add: note_if_silent_def)

lemmas exec_fns = finish_def finishTerminated_def clearProcessOwnership_def waitForOwnedProcessGroupExit_def
  isOwnedProcessGroupAlive_def terminate_def handleAbort_def on_child_error_def on_close_def on_timeout_def
  on_sigkill_def signalOwnedProcess_def Let_def settled_def

lemma settled_stays: "settled x \<Longrightarrow> x_result (exec_on env now ev x) = x_result x"
  by (cases ev) (auto simp: exec_fns split: option.splits kill_result.splits)

lemma still_settled: "settled x \<Longrightarrow> settled (exec_on env now ev x)"
  using settled_stays [of x env now ev] by (simp add: settled_def)

lemma settled_all: "settled x \<Longrightarrow> x_result (exec_all env evs x) = x_result x"
proof (induction evs arbitrary: x)
  case (Cons e evs)
  obtain now ev where e: "e = (now, ev)" by (cases e)
  have "x_result (exec_on env now ev x) = x_result x" using Cons.prems by (rule settled_stays)
  then show ?case using Cons.IH [of "exec_on env now ev x"] Cons.prems by (simp add: e exec_all_def settled_def)
qed (simp add: exec_all_def)

section \<open>The invariant of a run\<close>

definition run_ok :: "exec_run \<Rightarrow> bool" where
  "run_ok x \<longleftrightarrow> settled x \<or>
     ((x_timeoutTimer x \<or> x_terminationStarted x) \<and>
      (x_terminationStarted x \<longrightarrow> x_cancelled x \<or> x_timedOut x) \<and>
      (x_cancelled x \<or> x_timedOut x \<longrightarrow> x_terminationStarted x) \<and>
      (x_terminationStarted x \<and> x_ownedPid x \<noteq> None \<longrightarrow> x_sigkillTimer x) \<and>
      (x_childClosed x \<longrightarrow> x_groupPoll x \<and> x_ownedPid x \<noteq> None \<and> x_terminationStarted x) \<and>
      (\<not> x_childClosed x \<longrightarrow> \<not> x_groupPoll x) \<and>
      (x_sigkillTimer x \<longrightarrow> x_terminationStarted x) \<and>
      (\<not> x_terminationStarted x \<longrightarrow> x_signals x = []))"

lemma run_ok_new: "run_ok (new_run t pid sg)"
  by (simp add: run_ok_def new_run_def)

lemma run_ok_step: "run_ok x \<Longrightarrow> run_ok (exec_on env now ev x)"
proof (cases "settled x")
  case True
  then show "run_ok (exec_on env now ev x)" using settled_stays [OF True, of env now ev] by (simp add: run_ok_def settled_def)
next
  case False
  assume "run_ok x"
  with False show ?thesis
    by (cases ev) (auto simp: run_ok_def exec_fns split: option.splits kill_result.splits prod.splits)
qed

definition result_ok :: "exec_run \<Rightarrow> bool" where
  \<comment> \<open>what a reported result says, and that nothing is armed any more\<close>
  "result_ok x \<longleftrightarrow> (case x_result x of None \<Rightarrow> True | Some res \<Rightarrow>
     \<not> x_timeoutTimer x \<and> \<not> x_sigkillTimer x \<and> \<not> x_abortListener x \<and>
     (case em_errorType (er_execution res) of
        None \<Rightarrow> er_status res = Succeeded \<and> er_exitCode res = Some 0 \<and>
          em_timedOut (er_execution res) = Some False \<and> x_signals x = []
      | Some NonZeroExit \<Rightarrow> er_status res = Failed \<and> er_exitCode res \<noteq> Some 0 \<and>
          em_timedOut (er_execution res) = Some False \<and> x_signals x = []
      | Some CancelledError \<Rightarrow> er_status res = Cancelled \<and> x_cancelled x \<and> x_childClosed x
      | Some TimeoutError \<Rightarrow> er_status res = Failed \<and> em_timedOut (er_execution res) = Some True \<and> x_childClosed x
      | Some SpawnError \<Rightarrow> er_status res = Failed \<and> x_childErrored x
      | Some ExecutionError \<Rightarrow> er_status res = Failed \<and> (x_stdinWriteFailed x \<or> x_signals x \<noteq> [])
      | Some InvalidCwd \<Rightarrow> False))"

definition frozen :: "exec_run \<Rightarrow> exec_run \<Rightarrow> bool" where
  \<comment> \<open>what cannot change any more once the result is reported\<close>
  "frozen x y \<longleftrightarrow> x_result y = x_result x \<and> x_signals y = x_signals x \<and>
     (x_timeoutTimer y \<longrightarrow> x_timeoutTimer x) \<and> (x_sigkillTimer y \<longrightarrow> x_sigkillTimer x) \<and>
     (x_abortListener y \<longrightarrow> x_abortListener x) \<and> (x_cancelled x \<longrightarrow> x_cancelled y) \<and>
     (x_childClosed x \<longrightarrow> x_childClosed y) \<and> (x_childErrored x \<longrightarrow> x_childErrored y) \<and>
     (x_stdinWriteFailed x \<longrightarrow> x_stdinWriteFailed y)"

lemma result_ok_frozen:
  assumes "frozen x y" and "result_ok x"
  shows "result_ok y"
proof (cases "x_result x")
  case None
  then show ?thesis using assms(1) by (simp add: frozen_def result_ok_def)
next
  case (Some res)
  with assms show ?thesis
    unfolding frozen_def result_ok_def
    by (cases "em_errorType (er_execution res)") (auto split: error_type.splits)
qed

lemma settled_calls:
  assumes "settled x"
  shows "finish env now st er x = x" and "finishTerminated env now x = x"
    and "waitForOwnedProcessGroupExit env now alive x = x"
  using assms by (simp_all add: finish_def finishTerminated_def waitForOwnedProcessGroupExit_def)

lemma settled_close:
  assumes "settled x"
  shows "frozen x (on_close env now code a b x)"
proof -
  let ?x = "x\<lparr>x_childClosed := True, x_exitCode := code\<rparr>"
  have s: "settled (x\<lparr>x_childClosed := True, x_exitCode := c\<rparr>)"
    "settled (clearProcessOwnership (x\<lparr>x_childClosed := True, x_exitCode := c\<rparr>))" for c
    using assms by (simp_all add: settled_def clearProcessOwnership_def)
  have "on_close env now code a b x = ?x \<or> on_close env now code a b x = clearProcessOwnership ?x"
    by (simp add: on_close_def Let_def settled_calls s)
  moreover have "frozen x ?x" "frozen x (clearProcessOwnership ?x)"
    by (simp_all add: frozen_def clearProcessOwnership_def)
  ultimately show ?thesis by metis
qed

lemma settled_frame:
  assumes "settled x" and "result_ok x"
  shows "result_ok (exec_on env now ev x)"
proof -
  have t: "\<not> x_timeoutTimer x" "\<not> x_sigkillTimer x" "\<not> x_abortListener x"
    using assms by (auto simp: settled_def result_ok_def)
  have "frozen x (exec_on env now ev x)"
  proof (cases ev)
    case (ChildError m)
    have "settled (note_if_silent env m (clearProcessOwnership (x\<lparr>x_childErrored := True\<rparr>)))"
      using assms(1) by (simp add: settled_def clearProcessOwnership_def)
    then show ?thesis using ChildError
      by (simp add: on_child_error_def settled_calls) (simp add: frozen_def note_if_silent_def clearProcessOwnership_def)
  next
    case (ChildClose c a b)
    then show ?thesis using settled_close [OF assms(1)] by (simp add: frozen_def)
  qed (use t settled_calls [OF assms(1)] in \<open>auto simp: frozen_def note_if_silent_def\<close>)
  then show ?thesis using assms(2) by (rule result_ok_frozen)
qed

lemma unsettled_ok: "\<not> settled x \<Longrightarrow> result_ok x"
  by (simp add: settled_def result_ok_def)

lemma finish_result_ok:
  assumes "\<not> settled x"
  shows "x_signals x \<noteq> [] \<or> x_stdinWriteFailed x \<Longrightarrow> result_ok (finish env now Failed (Some ExecutionError) x)"
    and "x_childErrored x \<Longrightarrow> result_ok (finish env now Failed (Some SpawnError) x)"
    and "x_childClosed x \<Longrightarrow> x_cancelled x \<Longrightarrow> result_ok (finish env now Cancelled (Some CancelledError) x)"
    and "x_childClosed x \<Longrightarrow> x_timedOut x \<Longrightarrow> result_ok (finish env now Failed (Some TimeoutError) x)"
    and "x_signals x = [] \<Longrightarrow> \<not> x_timedOut x \<Longrightarrow> x_exitCode x = Some 0 \<Longrightarrow> result_ok (finish env now Succeeded None x)"
    and "x_signals x = [] \<Longrightarrow> \<not> x_timedOut x \<Longrightarrow> x_exitCode x \<noteq> Some 0 \<Longrightarrow>
      result_ok (finish env now Failed (Some NonZeroExit) x)"
  using assms by (auto simp: finish_def result_ok_def finish_result_def)

lemma owner_simps [simp]:
  "settled (clearProcessOwnership x) = settled x" "x_childClosed (clearProcessOwnership x) = x_childClosed x"
  "x_cancelled (clearProcessOwnership x) = x_cancelled x" "x_timedOut (clearProcessOwnership x) = x_timedOut x"
  "x_signals (clearProcessOwnership x) = x_signals x" "x_exitCode (clearProcessOwnership x) = x_exitCode x"
  "x_stdinWriteFailed (clearProcessOwnership x) = x_stdinWriteFailed x"
  "x_childErrored (clearProcessOwnership x) = x_childErrored x"
  by (simp_all add: clearProcessOwnership_def settled_def)

lemma settled_note [simp]: "settled (note_if_silent env m x) = settled x"
  "x_childErrored (note_if_silent env m x) = x_childErrored x"
  by (simp_all add: settled_def note_if_silent_def)

lemma finishTerminated_ok:
  assumes "\<not> settled x" and "x_cancelled x \<or> x_timedOut x"
  shows "result_ok (finishTerminated env now x)"
  using assms by (auto simp: finishTerminated_def Let_def unsettled_ok intro!: finish_result_ok)

lemma finishTerminated_settles: "x_childClosed x \<Longrightarrow> settled (finishTerminated env now x)"
  by (simp add: finishTerminated_def finish_def Let_def settled_def)

lemma signal_ok:
  assumes "\<not> settled x"
  shows "result_ok (snd (signalOwnedProcess env now sig answer x))"
    and "settled (snd (signalOwnedProcess env now sig answer x)) \<or>
      (x_cancelled (snd (signalOwnedProcess env now sig answer x)) = x_cancelled x \<and>
       x_timedOut (snd (signalOwnedProcess env now sig answer x)) = x_timedOut x \<and>
       x_childClosed (snd (signalOwnedProcess env now sig answer x)) = x_childClosed x)"
proof -
  have u: "settled (x\<lparr>x_signals := l\<rparr>) = settled x" "settled (x\<lparr>x_signals := l, x_stderr := c\<rparr>) = settled x" for l c
    by (simp_all add: settled_def)
  show "result_ok (snd (signalOwnedProcess env now sig answer x))"
    using assms u
    by (auto simp: signalOwnedProcess_def Let_def unsettled_ok intro!: finish_result_ok split: option.split kill_result.split)
  show "settled (snd (signalOwnedProcess env now sig answer x)) \<or>
      (x_cancelled (snd (signalOwnedProcess env now sig answer x)) = x_cancelled x \<and>
       x_timedOut (snd (signalOwnedProcess env now sig answer x)) = x_timedOut x \<and>
       x_childClosed (snd (signalOwnedProcess env now sig answer x)) = x_childClosed x)"
    using assms
    by (auto simp: signalOwnedProcess_def Let_def finish_def settled_def split: option.split kill_result.split)
qed

lemma armed_ok: "result_ok (y\<lparr>x_sigkillTimer := True\<rparr>)" if "\<not> settled y"
  using that by (simp add: unsettled_ok settled_def)

lemma delivered_unsettled:
  "signalOwnedProcess env now sig answer x = (True, y) \<Longrightarrow> \<not> settled x \<Longrightarrow> \<not> settled y"
  by (auto simp: signalOwnedProcess_def Let_def settled_def split: option.splits kill_result.splits)

lemma terminate_ok:
  assumes "\<not> settled x"
  shows "result_ok (terminate env now answer x)"
proof (cases "x_terminationStarted x")
  case True
  with assms show ?thesis by (simp add: terminate_def unsettled_ok)
next
  case False
  let ?x = "x\<lparr>x_terminationStarted := True\<rparr>"
  have u: "\<not> settled ?x" using assms by (simp add: settled_def)
  obtain b y where y: "signalOwnedProcess env now SIGTERM answer ?x = (b, y)" by fastforce
  with False assms have "terminate env now answer x = (if b then y\<lparr>x_sigkillTimer := True\<rparr> else y)"
    by (simp add: terminate_def split: bool.split)
  then show ?thesis
    using signal_ok(1) [OF u, of env now SIGTERM answer] y armed_ok delivered_unsettled [OF _ u] by (cases b) auto
qed

lemma on_close_ok:
  assumes "run_ok x" and "\<not> settled x"
  shows "result_ok (on_close env now code a b x)"
proof -
  let ?x = "x\<lparr>x_childClosed := True, x_exitCode := code\<rparr>"
  have u: "\<not> settled ?x" using assms(2) by (simp add: settled_def)
  show ?thesis
  proof (cases "x_cancelled x \<or> x_timedOut x")
    case True
    then have t: "result_ok (finishTerminated env now ?x)" using u by (intro finishTerminated_ok) auto
    have p: "\<not> settled (?x\<lparr>x_groupPoll := True\<rparr>)" using assms(2) by (simp add: settled_def)
    then have "result_ok (finishTerminated env now (?x\<lparr>x_groupPoll := True\<rparr>))"
      using True by (intro finishTerminated_ok) auto
    then have "result_ok (waitForOwnedProcessGroupExit env now b ?x)"
      using p u by (simp add: waitForOwnedProcessGroupExit_def Let_def unsettled_ok)
    with t True show ?thesis by (simp add: on_close_def Let_def)
  next
    case False
    then have s: "x_signals x = []" using assms by (auto simp: run_ok_def)
    let ?y = "clearProcessOwnership ?x"
    have y: "\<not> settled ?y" using u by simp
    have f: "x_signals ?y = []" "\<not> x_timedOut ?y" "x_exitCode ?y = code" "x_stdinWriteFailed ?y = x_stdinWriteFailed x"
      using False s by simp_all
    have e: "on_close env now code a b x =
        (if x_stdinWriteFailed x then finish env now Failed (Some ExecutionError) ?y
         else if code = Some 0 then finish env now Succeeded None ?y
         else finish env now Failed (Some NonZeroExit) ?y)"
      using False by (simp add: on_close_def Let_def)
    show ?thesis unfolding e
      using finish_result_ok(1,5,6) [OF y] f by (simp del: owner_simps)
  qed
qed

lemma sigkill_ok:
  assumes "run_ok x" and "\<not> settled x" and "x_sigkillTimer x"
  shows "result_ok (on_sigkill env now answer x)"
proof -
  let ?x = "x\<lparr>x_sigkillTimer := False\<rparr>"
  let ?y = "snd (signalOwnedProcess env now SIGKILL answer ?x)"
  have u: "\<not> settled ?x" using assms(2) by (simp add: settled_def)
  have c: "x_cancelled x \<or> x_timedOut x" using assms by (auto simp: run_ok_def)
  show ?thesis
  proof (cases "settled ?y")
    case True
    have "result_ok (clearProcessOwnership ?y)"
      using signal_ok(1) [OF u, of env now SIGKILL answer] True
      by (auto simp: result_ok_def clearProcessOwnership_def settled_def split: option.splits error_type.splits)
    with True show ?thesis by (simp add: on_sigkill_def finishTerminated_def)
  next
    case False
    with signal_ok(2) [OF u, of env now SIGKILL answer] c show ?thesis
      by (auto simp: on_sigkill_def intro!: finishTerminated_ok)
  qed
qed

lemma finish_ok:
  assumes "run_ok x" and "\<not> settled x"
  shows "result_ok (exec_on env now ev x)"
proof (cases ev)
  case (ChildError m)
  have "\<not> settled (x\<lparr>x_childErrored := True\<rparr>)" using assms(2) by (simp add: settled_def)
  then show ?thesis using ChildError assms(2)
    by (auto simp: on_child_error_def unsettled_ok intro!: finish_result_ok(2))
next
  case (ChildClose c a b)
  with on_close_ok [OF assms] assms(2) show ?thesis by (simp add: unsettled_ok)
next
  case (TimeoutFires a)
  have "\<not> settled (x\<lparr>x_timeoutTimer := False, x_timedOut := True\<rparr>)" using assms(2) by (simp add: settled_def)
  with TimeoutFires assms(2) show ?thesis by (simp add: on_timeout_def terminate_ok unsettled_ok)
next
  case (AbortFires a)
  have "\<not> settled (x\<lparr>x_abortListener := False, x_cancelled := True\<rparr>)" using assms(2) by (simp add: settled_def)
  with AbortFires assms(2) show ?thesis by (simp add: handleAbort_def terminate_ok unsettled_ok)
next
  case (SigkillFires a)
  with sigkill_ok [OF assms] assms(2) show ?thesis by (simp add: unsettled_ok)
next
  case (PollFires a)
  have "x_groupPoll x \<Longrightarrow> x_cancelled x \<or> x_timedOut x" using assms by (auto simp: run_ok_def)
  with PollFires assms(2) show ?thesis by (auto simp: unsettled_ok intro!: finishTerminated_ok)
qed (use assms(2) in \<open>auto simp: note_if_silent_def settled_def intro!: unsettled_ok\<close>)

lemma run_invariant:
  "run_ok x \<Longrightarrow> result_ok x \<Longrightarrow> run_ok (exec_all env evs x) \<and> result_ok (exec_all env evs x)"
proof (induction evs arbitrary: x)
  case (Cons e evs)
  obtain now ev where e: "e = (now, ev)" by (cases e)
  have "result_ok (exec_on env now ev x)"
    using settled_frame finish_ok Cons.prems by (cases "settled x") blast+
  then show ?case using Cons.IH [OF run_ok_step [OF Cons.prems(1)]] by (simp add: e exec_all_def)
qed (simp add: exec_all_def)

lemma reachable_run:
  "run_ok (exec_all env evs (new_run t pid sg))" "result_ok (exec_all env evs (new_run t pid sg))"
  using run_invariant [OF run_ok_new, of t pid sg env evs] by (simp_all add: result_ok_def new_run_def)

lemma exec_all_append: "exec_all env (evs @ later) x = exec_all env later (exec_all env evs x)"
  by (simp add: exec_all_def)

lemma start_reachable:
  assumes "exec_start env prompt cwd sg startedAt now pid aborted = Inr (req, x)"
  obtains evs has where "x = exec_all env evs (new_run startedAt pid has)"
proof (cases "aborted \<noteq> None \<and> sg \<noteq> None")
  case True
  then obtain answer where "x = handleAbort env now answer (new_run startedAt pid False)"
    using assms by (auto simp: exec_start_def split: sum.splits if_splits)
  moreover have "exec_all env [(now, AbortFires answer)] (new_run startedAt pid True) =
      handleAbort env now answer (new_run startedAt pid False)"
    by (simp add: exec_all_def new_run_def)
  ultimately show ?thesis using that by metis
next
  case False
  then have "x = new_run startedAt pid (sg \<noteq> None) \<or> x = new_run startedAt pid False"
    using assms by (auto simp: exec_start_def split: sum.splits if_splits option.splits)
  moreover have "y = exec_all env [] y" for y by (simp add: exec_all_def)
  ultimately show ?thesis using that by metis
qed

lemma started_run:
  assumes "exec_start env prompt cwd sg startedAt now pid aborted = Inr (req, x)"
  shows "run_ok (exec_all env evs x)" and "result_ok (exec_all env evs x)"
  using start_reachable [OF assms] reachable_run by (metis exec_all_append)+

text \<open>
  C12. What a run reports, for every sequence of output, exits, time-outs, aborts and failing signals
  after any start: it is reported once and never changes; success means exit code 0, no time-out and
  no signal sent; a cancelled or timed out run is reported as such only after the child has closed;
  the error type determines the status; and after the report no timer and no listener is left.
\<close>

theorem exec_reports:
  assumes "exec_start env prompt cwd sg startedAt now pid aborted = Inr (req, x)"
  shows "(\<forall>res. x_result (exec_all env evs x) = Some res \<longrightarrow>
      x_result (exec_all env (evs @ later) x) = Some res) \<and>
    result_ok (exec_all env evs x)"
  using settled_all [of "exec_all env evs x" env later] started_run(2) [OF assms]
  by (simp add: exec_all_append settled_def)

definition sample_events :: "(int \<times> exec_event) list" where
  "sample_events = [(1, StdoutData ''hi''), (2, AbortFires Delivered), (3, ChildClose None True True),
     (4, PollFires True), (5, SigkillFires Delivered)]"

definition sample_run :: exec_run where
  "sample_run = new_run 0 (Some 7) True"

lemma sample_start: "exec_start sample_bridge ''p'' None (Some False) 0 0 (Some 7) None =
    Inr (spawn_of sample_bridge ''p'' None, sample_run)"
  by (simp add: exec_start_def truthy_str_def sample_run_def)

theorem exec_reports_witness:
  "map_option er_status (x_result (exec_all sample_bridge sample_events sample_run)) = Some Cancelled \<and>
   result_ok (exec_all sample_bridge sample_events sample_run)"
proof
  show "map_option er_status (x_result (exec_all sample_bridge sample_events sample_run)) = Some Cancelled"
    by code_simp
  show "result_ok (exec_all sample_bridge sample_events sample_run)"
    using exec_reports [OF sample_start, of sample_events "[]"] by blast
qed

section \<open>The process group is gone\<close>

text \<open>
  C13. No process is left behind silently. While the run owns a process group that it has begun to
  terminate, the only events that report a result are: the child closed and a probe found the group
  gone, a later probe found it gone, it was sent \<open>SIGKILL\<close>, a signal could not be delivered, or the child
  could not be started at all.
\<close>

theorem exec_group_ended:
  assumes "\<not> settled x" and "settled (exec_on env now ev x)" and "x_terminationStarted x"
    and "x_ownedPid x = Some p" and "\<not> is_windows env" and "run_ok x"
  shows "(\<exists>code a b. ev = ChildClose code a b \<and> \<not> (a \<and> b)) \<or> ev = PollFires False \<or>
    (\<exists>answer. ev = SigkillFires answer \<and> (- p, SIGKILL, answer) \<in> set (x_signals (exec_on env now ev x))) \<or>
    (\<exists>m. ev = ChildError m)"
  using assms
  by (cases ev) (auto simp: exec_fns run_ok_def split: kill_result.splits if_splits)

theorem exec_group_ended_witness:
  "(\<exists>code a b. PollFires False = ChildClose code a b \<and> \<not> (a \<and> b)) \<or> PollFires False = PollFires False \<or>
    (\<exists>answer. PollFires False = SigkillFires answer \<and> (- 7, SIGKILL, answer) \<in>
      set (x_signals (exec_on sample_bridge 4 (PollFires False) (exec_all sample_bridge (take 3 sample_events) sample_run)))) \<or>
    (\<exists>m. PollFires False = ChildError m)"
proof (rule exec_group_ended)
  let ?x = "exec_all sample_bridge (take 3 sample_events) sample_run"
  show "\<not> settled ?x" "settled (exec_on sample_bridge 4 (PollFires False) ?x)" "x_terminationStarted ?x"
    "x_ownedPid ?x = Some 7" "\<not> is_windows sample_bridge"
    by code_simp+
  show "run_ok ?x" by (rule started_run [OF sample_start])
qed

section \<open>Every run ends\<close>

lemma close_ends:
  assumes "run_ok y" and "settled y \<or> x_terminationStarted y"
  shows "settled (exec_on env now (ChildClose code p q) y) \<or>
    (x_childClosed (exec_on env now (ChildClose code p q) y) \<and>
     x_sigkillTimer (exec_on env now (ChildClose code p q) y))"
proof (cases "settled y")
  case True
  then have "settled (exec_on env now (ChildClose code p q) y)" by (rule still_settled)
  then show ?thesis ..
next
  case False
  with assms have t: "x_terminationStarted y" by simp
  show ?thesis
  proof (cases "x_childClosed y")
    case True
    with assms(1) False t show ?thesis by (auto simp: run_ok_def)
  next
    case unclosed: False
    let ?x = "y\<lparr>x_childClosed := True, x_exitCode := code\<rparr>"
    have c: "x_cancelled y \<or> x_timedOut y" and k: "x_ownedPid y \<noteq> None \<Longrightarrow> x_sigkillTimer y"
      using assms(1) False t by (auto simp: run_ok_def)
    have u: "\<not> settled ?x" "\<not> x_groupPoll ?x" using assms(1) False unclosed by (auto simp: run_ok_def settled_def)
    have e: "exec_on env now (ChildClose code p q) y =
        (if isOwnedProcessGroupAlive env p ?x then waitForOwnedProcessGroupExit env now q ?x else finishTerminated env now ?x)"
      using unclosed c t by (simp add: on_close_def Let_def)
    show ?thesis
    proof (cases "isOwnedProcessGroupAlive env p ?x \<and> isOwnedProcessGroupAlive env q (?x\<lparr>x_groupPoll := True\<rparr>)")
      case True
      then have "x_ownedPid y \<noteq> None" by (auto simp: isOwnedProcessGroupAlive_def split: if_splits)
      with True u k show ?thesis unfolding e by (simp add: waitForOwnedProcessGroupExit_def Let_def)
    next
      case False
      then show ?thesis unfolding e using u finishTerminated_settles
        by (auto simp: waitForOwnedProcessGroupExit_def Let_def)
    qed
  qed
qed

lemma signal_closed: "x_childClosed (snd (signalOwnedProcess env now sig answer x)) = x_childClosed x"
  by (simp add: signalOwnedProcess_def Let_def finish_def split: option.split kill_result.split)

lemma sigkill_ends:
  "x_childClosed z \<Longrightarrow> x_sigkillTimer z \<Longrightarrow> settled (exec_on env now (SigkillFires a) z)"
  by (simp add: on_sigkill_def finishTerminated_settles signal_closed)

text \<open>
  C11. A run that has not been reported is bounded: in every reachable state the firing of its
  time-out, the closing of the child and the firing of the kill timer, as far as they are still
  pending, report it.
\<close>

theorem exec_always_ends:
  assumes "exec_start env prompt cwd sg startedAt now pid aborted = Inr (req, x)"
  shows "settled (exec_all env [(n1, TimeoutFires a1), (n2, ChildClose code p q), (n3, SigkillFires a2)]
     (exec_all env evs x))"
proof -
  let ?x = "exec_all env evs x"
  have ok: "run_ok ?x" using assms by (rule started_run)
  let ?y = "exec_on env n1 (TimeoutFires a1) ?x"
  let ?z = "exec_on env n2 (ChildClose code p q) ?y"
  have y: "run_ok ?y" using ok by (rule run_ok_step)
  have z: "run_ok ?z" using y by (rule run_ok_step)
  have "settled ?y \<or> x_terminationStarted ?y"
    using ok by (cases a1) (auto simp: run_ok_def exec_fns split: option.splits)
  then have "settled ?z \<or> (x_childClosed ?z \<and> x_sigkillTimer ?z)"
    using close_ends [OF y] by blast
  then have "settled (exec_on env n3 (SigkillFires a2) ?z)"
  proof
    assume "settled ?z"
    then show ?thesis by (rule still_settled)
  next
    assume "x_childClosed ?z \<and> x_sigkillTimer ?z"
    then show ?thesis by (blast intro: sigkill_ends)
  qed
  then show ?thesis unfolding exec_all_def by (simp del: exec_on.simps)
qed

theorem exec_always_ends_witness:
  "settled (exec_all sample_bridge [(6, TimeoutFires Delivered), (7, ChildClose None True True), (8, SigkillFires Delivered)]
     (exec_all sample_bridge [(1, StdoutData ''hi'')] sample_run))"
  by (rule exec_always_ends [OF sample_start])

text \<open>
  The closing of the child is needed: without it, and without a failing spawn or signal, no time-out
  and no kill timer ends the run, for instance while a descendant that left the process group holds
  the output open.
\<close>

definition keeps_open :: "exec_event \<Rightarrow> bool" where
  "keeps_open ev \<longleftrightarrow> (\<forall>m. ev \<noteq> ChildError m) \<and> (\<forall>c a b. ev \<noteq> ChildClose c a b) \<and>
     (\<forall>m. ev \<noteq> TimeoutFires (KillError m) \<and> ev \<noteq> AbortFires (KillError m) \<and> ev \<noteq> SigkillFires (KillError m))"

lemma open_output_hangs:
  assumes "\<And>now ev. (now, ev) \<in> set evs \<Longrightarrow> keeps_open ev"
  shows "\<not> settled (exec_all env evs (new_run t pid sg))"
proof -
  have step: "\<not> settled (exec_on env now ev x) \<and> \<not> x_childClosed (exec_on env now ev x)"
    if "keeps_open ev" "\<not> settled x" "\<not> x_childClosed x" for ev x now
    using that by (cases ev) (auto simp: keeps_open_def exec_fns split: option.splits kill_result.splits)
  have "\<not> settled (exec_all env evs x)" if "\<And>now ev. (now, ev) \<in> set evs \<Longrightarrow> keeps_open ev"
    "\<not> settled x" "\<not> x_childClosed x" for x
    using that
  proof (induction evs arbitrary: x)
    case (Cons e evs)
    obtain now ev where e: "e = (now, ev)" by (cases e)
    have "keeps_open ev" using Cons.prems(1) [of now ev] e by simp
    from step [OF this Cons.prems(2,3), of now]
    have "\<not> settled (exec_all env evs (exec_on env now ev x))" by (intro Cons.IH) (use Cons.prems(1) in auto)
    then show ?case by (simp add: e exec_all_def)
  qed (simp add: exec_all_def)
  from this [of "new_run t pid sg"] assms show ?thesis by (simp add: settled_def new_run_def)
qed

end
