(* ===== verification/JsonParse.thy ===== *)
theory JsonParse
  imports JsonText JobValidation CallbackAuth
begin

text \<open>
  \<open>JSON.parse\<close> on the texts the programs exchange: values without fractions and exponents, strings of
  code units below 256. What it gives for other texts is left open where it is used: the programs
  take the reader as a parameter with the law of the locale \<open>json_reader\<close>, that it reads back
  what \<open>JSON.stringify\<close> wrote. \<open>json_parse\<close> is such a reader.
\<close>

section \<open>The reader\<close>

definition json_ws :: "char \<Rightarrow> bool" where
  "json_ws c \<longleftrightarrow> (of_char c :: nat) \<in> {9, 10, 13, 32}"

definition skip_ws :: "string \<Rightarrow> string" where
  "skip_ws s = dropWhile json_ws s"

definition plain_escape :: "char \<Rightarrow> char option" where
  "plain_escape c = (let n = (of_char c :: nat) in
     if n = 34 \<or> n = 92 \<or> n = 47 then Some c
     else if n = 98 then Some (char_of (8::nat))
     else if n = 102 then Some (char_of (12::nat))
     else if n = 110 then Some (char_of (10::nat))
     else if n = 114 then Some (char_of (13::nat))
     else if n = 116 then Some (char_of (9::nat))
     else None)"

fun unicode_escape :: "string \<Rightarrow> (char \<times> string) option" where
  "unicode_escape (a # b # c # d # r) =
     (if list_all is_hex [a, b, c, d] \<and> hex_value a = 0 \<and> hex_value b = 0
      then Some (char_of (16 * hex_value c + hex_value d), r) else None)"
| "unicode_escape _ = None"

fun parse_chars :: "nat \<Rightarrow> string \<Rightarrow> (string \<times> string) option" where
  \<comment> \<open>behind the opening quote\<close>
  "parse_chars 0 s = None"
| "parse_chars (Suc n) [] = None"
| "parse_chars (Suc n) (c # r) =
     (if (of_char c :: nat) = 34 then Some ([], r)
      else if (of_char c :: nat) = 92 then
        (case r of
           [] \<Rightarrow> None
         | e # r' \<Rightarrow>
             (if e = CHR ''u''
              then (case unicode_escape r' of
                      None \<Rightarrow> None
                    | Some (x, r'') \<Rightarrow> map_option (\<lambda>(t, q). (x # t, q)) (parse_chars n r''))
              else (case plain_escape e of
                      None \<Rightarrow> None
                    | Some x \<Rightarrow> map_option (\<lambda>(t, q). (x # t, q)) (parse_chars n r'))))
      else if (of_char c :: nat) < 32 then None
      else map_option (\<lambda>(t, q). (c # t, q)) (parse_chars n r))"

definition number_end :: "string \<Rightarrow> bool" where
  \<comment> \<open>no fraction and no exponent follows\<close>
  "number_end r \<longleftrightarrow> (case r of [] \<Rightarrow> True | c # _ \<Rightarrow> c \<noteq> CHR ''.'' \<and> c \<noteq> CHR ''e'' \<and> c \<noteq> CHR ''E'')"

definition parse_nat :: "string \<Rightarrow> (int \<times> string) option" where
  "parse_nat s =
     (let ds = takeWhile is_digit s; r = dropWhile is_digit s in
      if ds = [] \<or> (hd ds = CHR ''0'' \<and> length ds > 1) \<or> \<not> number_end r then None
      else Some (digits_value ds, r))"

definition parse_number :: "string \<Rightarrow> (int \<times> string) option" where
  "parse_number s = (case s of
       [] \<Rightarrow> None
     | c # r \<Rightarrow> (if c = CHR ''-'' then map_option (\<lambda>(n, q). (- n, q)) (parse_nat r)
                 else parse_nat s))"

definition parse_word :: "string \<Rightarrow> json \<Rightarrow> string \<Rightarrow> (json \<times> string) option" where
  "parse_word w v s = (if starts_with w s then Some (v, drop (length w) s) else None)"

fun parse_value :: "nat \<Rightarrow> string \<Rightarrow> (json \<times> string) option"
  and parse_items :: "nat \<Rightarrow> string \<Rightarrow> (json list \<times> string) option"
  and parse_members :: "nat \<Rightarrow> string \<Rightarrow> ((string \<times> json) list \<times> string) option" where
  "parse_value 0 s = None"
| "parse_value (Suc n) s =
     (case s of
        [] \<Rightarrow> None
      | c # r \<Rightarrow>
          (if c = CHR ''n'' then parse_word ''null'' JNull s
           else if c = CHR ''t'' then parse_word ''true'' (JBool True) s
           else if c = CHR ''f'' then parse_word ''false'' (JBool False) s
           else if (of_char c :: nat) = 34
             then map_option (\<lambda>(t, q). (JStr t, q)) (parse_chars (Suc (length r)) r)
           else if c = CHR ''['' then
             (if take 1 (skip_ws r) = '']'' then Some (JArr [], tl (skip_ws r))
              else map_option (\<lambda>(vs, q). (JArr vs, q)) (parse_items n (skip_ws r)))
           else if c = CHR 0x7B then
             (if take 1 (skip_ws r) = [CHR 0x7D] then Some (JObj [], tl (skip_ws r))
              else map_option (\<lambda>(kvs, q). (JObj (foldl (\<lambda>m (k, v). put_prop k v m) [] kvs), q))
                     (parse_members n (skip_ws r)))
           else map_option (\<lambda>(i, q). (JNum i, q)) (parse_number s)))"
| "parse_items 0 s = None"
| "parse_items (Suc n) s =
     (case parse_value n s of
        None \<Rightarrow> None
      | Some (v, r) \<Rightarrow>
          (case skip_ws r of
             c # q \<Rightarrow> (if c = CHR '']'' then Some ([v], q)
                       else if c = CHR '','' then map_option (\<lambda>(vs, t). (v # vs, t)) (parse_items n (skip_ws q))
                       else None)
           | [] \<Rightarrow> None))"
| "parse_members 0 s = None"
| "parse_members (Suc n) s =
     (case s of
        c # r \<Rightarrow>
          (if (of_char c :: nat) \<noteq> 34 then None
           else (case parse_chars (Suc (length r)) r of
               None \<Rightarrow> None
             | Some (k, r1) \<Rightarrow>
                 (case skip_ws r1 of
                    d # r2 \<Rightarrow>
                      (if d \<noteq> CHR '':'' then None
                       else (case parse_value n (skip_ws r2) of
                           None \<Rightarrow> None
                         | Some (v, r3) \<Rightarrow>
                             (case skip_ws r3 of
                                e # q \<Rightarrow>
                                  (if e = CHR 0x7D then Some ([(k, v)], q)
                                   else if e = CHR '',''
                                   then map_option (\<lambda>(kvs, t). ((k, v) # kvs, t)) (parse_members n (skip_ws q))
                                   else None)
                              | [] \<Rightarrow> None)))
                  | [] \<Rightarrow> None)))
      | [] \<Rightarrow> None)"

definition json_parse :: "string \<Rightarrow> json option" where
  \<comment> \<open>\<open>None\<close>: it throws\<close>
  "json_parse s =
     (case parse_value (2 * length s + 1) (skip_ws s) of
        Some (v, r) \<Rightarrow> (if skip_ws r = [] then Some v else None)
      | None \<Rightarrow> None)"

section \<open>Strings\<close>

lemma char_code: "n < 256 \<Longrightarrow> (of_char c :: nat) = n \<longleftrightarrow> c = char_of n"
  by (auto simp: of_char_of)

lemma hex_digit_read:
  assumes "n < 16"
  shows "is_hex (hex_digit n)" and "hex_value (hex_digit n) = n"
  using digest_digit_props [OF assms] by (simp_all add: hex_digit_def digest_digit_def)

lemma char_literals: "char_of (34::nat) = CHR 0x22" "char_of (92::nat) = CHR 0x5C" "char_of (8::nat) = CHR 0x08"
  "char_of (9::nat) = CHR 0x09" "char_of (10::nat) = CHR 0x0A" "char_of (12::nat) = CHR 0x0C" "char_of (13::nat) = CHR 0x0D"
  by (simp_all add: char_of_eq_iff)

lemma parse_escaped: "parse_chars (Suc n) (json_escape_char c @ q) = map_option (\<lambda>(t, r). (c # t, r)) (parse_chars n q)"
proof (cases "(of_char c :: nat) < 32")
  case True
  let ?n = "of_char c :: nat"
  show ?thesis
  proof (cases "?n \<in> {8, 9, 10, 12, 13}")
    case True
    then have "c \<in> {char_of (8::nat), char_of (9::nat), char_of (10::nat), char_of (12::nat), char_of (13::nat)}"
      by (auto simp: char_code)
    then show ?thesis by (auto simp: json_escape_char_def plain_escape_def)
  next
    case False
    have d: "?n div 16 < 16" "?n mod 16 < 16" using True by auto
    have "json_escape_char c = [char_of (92::nat), CHR ''u'', CHR ''0'', CHR ''0'', hex_digit (?n div 16), hex_digit (?n mod 16)]"
      using False True by (auto simp: json_escape_char_def Let_def)
    moreover have "is_hex CHR ''0''" "hex_value CHR ''0'' = 0" by (simp_all add: is_hex_def is_digit_def hex_value_def)
    ultimately show ?thesis using hex_digit_read [OF d(1)] hex_digit_read [OF d(2)] by simp
  qed
next
  case False
  then show ?thesis
    by (auto simp: json_escape_char_def Let_def plain_escape_def char_code char_literals)
qed

lemma parse_quoted:
  "length s < n \<Longrightarrow> parse_chars n (concat (map json_escape_char s) @ CHR 0x22 # rest) = Some (s, rest)"
proof (induction s arbitrary: n)
  case Nil
  then show ?case by (cases n) simp_all
next
  case (Cons c s)
  then obtain m where m: "n = Suc m" by (cases n) auto
  then show ?case using Cons.IH [of m] Cons.prems by (simp add: parse_escaped)
qed

lemma escape_nonempty [simp]: "json_escape_char c \<noteq> []"
  by (simp add: json_escape_char_def Let_def)

lemma length_escaped: "length s \<le> length (concat (map json_escape_char s))"
proof (induction s)
  case (Cons c s)
  moreover have "0 < length (json_escape_char c)" by simp
  ultimately show ?case by (simp del: length_greater_0_conv)
qed simp

lemma json_quote_eq: "json_quote s = CHR 0x22 # concat (map json_escape_char s) @ [CHR 0x22]"
  by (simp add: json_quote_def char_of_eq_iff)

lemma parse_string:
  "parse_chars (Suc (length (concat (map json_escape_char s) @ CHR 0x22 # rest)))
     (concat (map json_escape_char s) @ CHR 0x22 # rest) = Some (s, rest)"
  by (rule parse_quoted) (use length_escaped [of s] in simp)

section \<open>Numbers\<close>

definition number_stop :: "string \<Rightarrow> bool" where
  "number_stop r \<longleftrightarrow> (case r of [] \<Rightarrow> True | c # _ \<Rightarrow> \<not> is_digit c) \<and> number_end r"

lemma dec_nat_no_zero: "10 \<le> n \<Longrightarrow> hd (dec_nat n) \<noteq> CHR ''0''"
proof (induction n rule: dec_nat.induct)
  case (1 n)
  show ?case
  proof (cases "n div 10 < 10")
    case True
    have "0 < n div 10" using "1.prems" by auto
    moreover have "digit_char k \<noteq> CHR ''0''" if "0 < k" "k < 10" for k
    proof
      assume "digit_char k = CHR ''0''"
      then have "(of_char (digit_char k) :: nat) = 48" by simp
      with that show False by (simp add: digit_char_def)
    qed
    ultimately show ?thesis using True "1.prems" by (simp add: dec_nat_big dec_nat_small)
  next
    case False
    with 1 show ?thesis by (simp add: dec_nat_big)
  qed
qed

lemma parse_nat_dec:
  assumes "number_stop rest"
  shows "parse_nat (dec_nat n @ rest) = Some (int n, rest)"
proof -
  have d: "\<forall>x \<in> set (dec_nat n). is_digit x" using all_digits_dec_nat [of n] by (simp add: list_all_iff)
  have r: "takeWhile is_digit rest = []" "dropWhile is_digit rest = rest"
    using assms by (auto simp: number_stop_def split: list.splits)
  have t: "takeWhile is_digit (dec_nat n @ rest) = dec_nat n" "dropWhile is_digit (dec_nat n @ rest) = rest"
    using d r by (simp_all add: takeWhile_append2 dropWhile_append2)
  have z: "\<not> (hd (dec_nat n) = CHR ''0'' \<and> length (dec_nat n) > 1)"
    using dec_nat_no_zero [of n] by (cases "n < 10") (simp_all add: dec_nat_small)
  show ?thesis
    using z assms by (auto simp: parse_nat_def t digits_value_dec_nat number_stop_def Let_def)
qed

lemma dec_nat_head: obtains c t where "dec_nat n = c # t" and "is_digit c"
  using all_digits_dec_nat [of n] by (cases "dec_nat n") auto

lemma parse_number_dec:
  assumes "number_stop rest"
  shows "parse_number (dec_int i @ rest) = Some (i, rest)"
proof (cases "i < 0")
  case True
  then show ?thesis using parse_nat_dec [OF assms, of "nat (- i)"] by (simp add: parse_number_def dec_int_def)
next
  case False
  obtain c t where c: "dec_nat (nat i) = c # t" "is_digit c" by (rule dec_nat_head)
  then have "c \<noteq> CHR ''-''" by (auto simp: is_digit_def)
  with False c show ?thesis
    using parse_nat_dec [OF assms, of "nat i"] by (simp add: parse_number_def dec_int_def)
qed

section \<open>What is written is read back\<close>

fun json_wf :: "json \<Rightarrow> bool" where
  \<comment> \<open>no object has two properties of the same name\<close>
  "json_wf (JArr xs) \<longleftrightarrow> (\<forall>x \<in> set xs. json_wf x)"
| "json_wf (JObj kvs) \<longleftrightarrow> distinct (map fst kvs) \<and> (\<forall>kv \<in> set kvs. json_wf (snd kv))"
| "json_wf _ \<longleftrightarrow> True"

lemma put_prop_new: "k \<notin> fst ` set m \<Longrightarrow> put_prop k v m = m @ [(k, v)]"
  by (induction m) auto

lemma foldl_put_prop:
  "distinct (map fst (m @ kvs)) \<Longrightarrow> foldl (\<lambda>m (k, v). put_prop k v m) m kvs = m @ kvs"
proof (induction kvs arbitrary: m)
  case (Cons kv kvs)
  obtain k v where kv: "kv = (k, v)" by (cases kv)
  then have "put_prop k v m = m @ [(k, v)]" using Cons.prems by (intro put_prop_new) auto
  then show ?case using Cons.IH [of "m @ [(k, v)]"] Cons.prems kv by simp
qed simp

definition member_text :: "string \<times> json \<Rightarrow> string" where
  "member_text kv = json_quote (fst kv) @ '':'' @ json_text (snd kv)"

definition text_head :: "string \<Rightarrow> bool" where
  \<comment> \<open>how a written value begins\<close>
  "text_head s \<longleftrightarrow> (case s of [] \<Rightarrow> False | c # _ \<Rightarrow> \<not> json_ws c \<and> c \<noteq> CHR '']'' \<and> c \<noteq> CHR 0x7D)"

lemma text_head_append [simp]: "text_head s \<Longrightarrow> text_head (s @ r)"
  by (cases s) (simp_all add: text_head_def)

lemma skip_head [simp]: "text_head s \<Longrightarrow> skip_ws s = s"
  by (cases s) (simp_all add: text_head_def skip_ws_def)

lemma text_head_json [simp]: "text_head (json_text v)"
proof (cases v)
  case (JNum i)
  obtain c t where c: "dec_nat (nat i) = c # t" "is_digit c" by (rule dec_nat_head)
  have "\<not> json_ws c" "c \<noteq> CHR '']''" "c \<noteq> CHR 0x7D" using c(2) by (auto simp: is_digit_def json_ws_def)
  with c(1) JNum show ?thesis by (simp add: dec_int_def text_head_def json_ws_def)
qed (auto simp: text_head_def json_ws_def json_quote_eq)

lemma text_head_member [simp]: "text_head (member_text kv)"
  by (simp add: member_text_def json_quote_eq text_head_def json_ws_def)

lemma join_head [simp]: "text_head x \<Longrightarrow> text_head (join_with sep (x # xs))"
  by (cases xs) simp_all

lemma skip_stop [simp]: "skip_ws (CHR '','' # r) = CHR '','' # r" "skip_ws (CHR '']'' # r) = CHR '']'' # r"
  "skip_ws (CHR 0x7D # r) = CHR 0x7D # r" "skip_ws (CHR '':'' # r) = CHR '':'' # r"
  by (simp_all add: skip_ws_def json_ws_def)

lemma number_stop_simps [simp]: "number_stop []" "number_stop (CHR '','' # r)" "number_stop (CHR '']'' # r)"
  "number_stop (CHR 0x7D # r)"
  by (simp_all add: number_stop_def number_end_def is_digit_def)

definition reads :: "json \<Rightarrow> bool" where
  "reads v \<longleftrightarrow> (\<forall>n rest. 2 * length (json_text v) + 1 \<le> n \<longrightarrow> number_stop rest \<longrightarrow>
     parse_value n (json_text v @ rest) = Some (v, rest))"

lemma items_read:
  assumes "\<forall>x \<in> set xs. reads x" and "xs \<noteq> []" and "2 * length (join_with '','' (map json_text xs)) + 2 \<le> n"
  shows "parse_items n (join_with '','' (map json_text xs) @ CHR '']'' # rest) = Some (xs, rest)"
  using assms
proof (induction xs arbitrary: n)
  case (Cons x xs)
  obtain m where n: "n = Suc m" using Cons.prems(3) by (cases n) auto
  show ?case
  proof (cases xs)
    case Nil
    with Cons.prems n have "parse_value m (json_text x @ CHR '']'' # rest) = Some (x, CHR '']'' # rest)"
      by (simp add: reads_def)
    with Nil n show ?thesis by simp
  next
    case (Cons y ys)
    let ?j = "join_with '','' (map json_text xs)"
    have e: "join_with '','' (map json_text (x # xs)) = json_text x @ CHR '','' # ?j" using Cons by simp
    have "parse_value m (json_text x @ CHR '','' # (?j @ CHR '']'' # rest)) = Some (x, CHR '','' # (?j @ CHR '']'' # rest))"
      using Cons.prems(1,3) n e by (simp add: reads_def)
    moreover have "parse_items m (?j @ CHR '']'' # rest) = Some (xs, rest)"
      using Cons.IH [of m] Cons.prems(1,3) n e Cons by simp
    moreover have "skip_ws (?j @ CHR '']'' # rest) = ?j @ CHR '']'' # rest" using Cons by simp
    ultimately show ?thesis unfolding n e by simp
  qed
qed simp

lemma members_read:
  assumes "\<forall>kv \<in> set kvs. reads (snd kv)" and "kvs \<noteq> []" and "2 * length (join_with '','' (map member_text kvs)) + 2 \<le> n"
  shows "parse_members n (join_with '','' (map member_text kvs) @ CHR 0x7D # rest) = Some (kvs, rest)"
  using assms
proof (induction kvs arbitrary: n)
  case (Cons kv kvs)
  obtain m where n: "n = Suc m" using Cons.prems(3) by (cases n) auto
  obtain k v where kv: "kv = (k, v)" by (cases kv)
  have one: "parse_members (Suc m) (member_text kv @ r) =
      (case skip_ws r of
         e # q \<Rightarrow> (if e = CHR 0x7D then Some ([kv], q)
                   else if e = CHR '',''
                   then map_option (\<lambda>(kvs, t). (kv # kvs, t)) (parse_members m (skip_ws q))
                   else None)
       | [] \<Rightarrow> None)" if "number_stop r" "2 * length (member_text kv) + 1 \<le> m" for r
  proof -
    have "parse_value m (json_text v @ r) = Some (v, r)"
      using Cons.prems(1) kv that by (simp add: reads_def member_text_def)
    moreover have "parse_chars (Suc (length (concat (map json_escape_char k) @ CHR 0x22 # CHR '':'' # json_text v @ r)))
        (concat (map json_escape_char k) @ CHR 0x22 # CHR '':'' # json_text v @ r) =
        Some (k, CHR '':'' # json_text v @ r)" by (rule parse_string)
    moreover have "member_text kv @ r = CHR 0x22 # concat (map json_escape_char k) @ CHR 0x22 # CHR '':'' # json_text v @ r"
      by (simp add: member_text_def kv json_quote_eq)
    ultimately show ?thesis unfolding kv by simp
  qed
  show ?case
  proof (cases kvs)
    case Nil
    have "parse_members (Suc m) (member_text kv @ CHR 0x7D # rest) = Some ([kv], rest)"
      by (subst one) (use Cons.prems(3) n Nil in simp_all)
    then show ?thesis using Nil n by (simp del: parse_members.simps)
  next
    case (Cons y ys)
    let ?j = "join_with '','' (map member_text kvs)"
    have e: "join_with '','' (map member_text (kv # kvs)) = member_text kv @ CHR '','' # ?j" using Cons by simp
    have "parse_members m (?j @ CHR 0x7D # rest) = Some (kvs, rest)"
      using Cons.IH [of m] Cons.prems(1,3) n e Cons by simp
    moreover have "skip_ws (?j @ CHR 0x7D # rest) = ?j @ CHR 0x7D # rest" using Cons by simp
    moreover have "2 * length (member_text kv) + 1 \<le> m" using Cons.prems(3) n e by simp
    ultimately have "parse_members (Suc m) (member_text kv @ CHR '','' # ?j @ CHR 0x7D # rest) = Some (kv # kvs, rest)"
      by (subst one) simp_all
    then show ?thesis unfolding n e by (simp del: parse_members.simps)
  qed
qed simp

lemma readsI:
  assumes "\<And>n rest. number_stop rest \<Longrightarrow> parse_value (Suc n) (json_text v @ rest) = Some (v, rest)"
  shows "reads v"
  unfolding reads_def
proof (intro allI impI)
  fix n rest assume "2 * length (json_text v) + 1 \<le> n" "number_stop rest"
  moreover from this obtain m where "n = Suc m" by (cases n) auto
  ultimately show "parse_value n (json_text v @ rest) = Some (v, rest)" using assms by simp
qed

lemma reads_word: "reads JNull" "reads (JBool b)"
  by (rule readsI; simp add: parse_word_def starts_with_def)+

lemma reads_json: "json_wf v \<Longrightarrow> reads v"
proof (induction v)
  case (JNum i)
  have "parse_value (Suc n) (dec_int i @ rest) = Some (JNum i, rest)" if r: "number_stop rest" for n rest
  proof -
    obtain c t where c: "dec_int i = c # t" "is_digit c \<or> c = CHR ''-''"
      by (metis dec_int_def dec_nat_head)
    have "c \<notin> {CHR ''n'', CHR ''t'', CHR ''f'', CHR ''['', CHR 0x7B, CHR 0x22}" using c(2) by (auto simp: is_digit_def)
    moreover have "(of_char c :: nat) \<noteq> 34" using c(2) by (auto simp: is_digit_def)
    ultimately show ?thesis using parse_number_dec [OF r, of i] c(1) by simp
  qed
  then show ?case by (intro readsI) simp
next
  case (JStr s)
  have "parse_value (Suc n) (json_quote s @ rest) = Some (JStr s, rest)" for n rest
    using parse_string [of s rest] by (simp add: json_quote_eq)
  then show ?case by (intro readsI) simp
next
  case (JArr xs)
  have "parse_value n (json_text (JArr xs) @ rest) = Some (JArr xs, rest)"
    if n: "2 * length (json_text (JArr xs)) + 1 \<le> n" for n rest
  proof (cases xs)
    case Nil
    then show ?thesis using n by (cases n) simp_all
  next
    case (Cons y ys)
    let ?j = "join_with '','' (map json_text xs)"
    obtain m where m: "n = Suc m" using n by (cases n) auto
    have "parse_items m (?j @ CHR '']'' # rest) = Some (xs, rest)"
      by (rule items_read) (use JArr Cons n m in auto)
    moreover have h: "text_head (?j @ CHR '']'' # rest)" using Cons by simp
    moreover have "take 1 (?j @ CHR '']'' # rest) \<noteq> '']''"
      using h by (cases "?j @ CHR '']'' # rest") (auto simp: text_head_def)
    ultimately show ?thesis unfolding m by simp
  qed
  then show ?case by (simp add: reads_def)
next
  case (JObj kvs)
  have t: "json_text (JObj kvs) = CHR 0x7B # join_with '','' (map member_text kvs) @ [CHR 0x7D]"
    by (simp add: member_text_def cong: map_cong)
  have "parse_value n (json_text (JObj kvs) @ rest) = Some (JObj kvs, rest)"
    if n: "2 * length (json_text (JObj kvs)) + 1 \<le> n" for n rest
  proof (cases kvs)
    case Nil
    then show ?thesis using n by (cases n) simp_all
  next
    case (Cons y ys)
    let ?j = "join_with '','' (map member_text kvs)"
    obtain m where m: "n = Suc m" using n by (cases n) auto
    have "parse_members m (?j @ CHR 0x7D # rest) = Some (kvs, rest)"
    proof (rule members_read)
      show "\<forall>kv \<in> set kvs. reads (snd kv)" using JObj by (metis json_wf.simps(2) prod.collapse snds.intros)
    qed (use Cons n m t in auto)
    moreover have h: "text_head (?j @ CHR 0x7D # rest)" using Cons by simp
    moreover have "take 1 (?j @ CHR 0x7D # rest) \<noteq> [CHR 0x7D]"
      using h by (cases "?j @ CHR 0x7D # rest") (auto simp: text_head_def)
    moreover have "foldl (\<lambda>m (k, v). put_prop k v m) [] kvs = kvs" using JObj.prems foldl_put_prop [of "[]"] by simp
    ultimately show ?thesis unfolding m t by simp
  qed
  then show ?case by (simp add: reads_def)
qed (rule reads_word)+

lemma json_parse_text:
  assumes "json_wf v"
  shows "json_parse (json_text v) = Some v"
proof -
  have "parse_value (2 * length (json_text v) + 1) (json_text v @ []) = Some (v, [])"
    using reads_json [OF assms] unfolding reads_def by (blast intro: order_refl number_stop_simps)
  then show ?thesis
    by (simp add: json_parse_def del: parse_value.simps) (simp add: skip_ws_def)
qed

section \<open>What is read is well formed\<close>

lemma put_prop_keys: "fst ` set (put_prop k v m) = insert k (fst ` set m)"
  by (induction k v m rule: put_prop.induct) auto

lemma put_prop_distinct: "distinct (map fst m) \<Longrightarrow> distinct (map fst (put_prop k v m))"
proof (induction k v m rule: put_prop.induct)
  case (2 k v k' v' m)
  then show ?case using put_prop_keys [of k v m] by (auto simp: image_iff)
qed simp

lemma put_prop_values: "kv \<in> set (put_prop k v m) \<Longrightarrow> snd kv = v \<or> kv \<in> set m"
  by (induction k v m rule: put_prop.induct) (auto split: if_splits)

lemma foldl_put_wf:
  "(\<forall>kv \<in> set kvs. json_wf (snd kv)) \<Longrightarrow> json_wf (JObj m) \<Longrightarrow>
   json_wf (JObj (foldl (\<lambda>m (k, v). put_prop k v m) m kvs))"
proof (induction kvs arbitrary: m)
  case (Cons kv kvs)
  obtain k v where kv: "kv = (k, v)" by (cases kv)
  have "json_wf (JObj (put_prop k v m))"
    using Cons.prems kv put_prop_distinct [of m k v] by (auto dest: put_prop_values)
  with Cons kv show ?case by simp
qed simp

lemma wf_objects: "json_wf (JObj [])"
  "\<forall>kv \<in> set kvs. json_wf (snd kv) \<Longrightarrow> json_wf (JObj (foldl (\<lambda>m (k, v). put_prop k v m) [] kvs))"
proof -
  show "json_wf (JObj [])" by simp
  then show "\<forall>kv \<in> set kvs. json_wf (snd kv) \<Longrightarrow> json_wf (JObj (foldl (\<lambda>m (k, v). put_prop k v m) [] kvs))"
    by (rule foldl_put_wf [rotated])
qed

lemma parse_wf:
  "parse_value n s = Some (v, r) \<Longrightarrow> json_wf v"
  "parse_items n s = Some (vs, r) \<Longrightarrow> \<forall>x \<in> set vs. json_wf x"
  "parse_members n s = Some (kvs, r) \<Longrightarrow> \<forall>kv \<in> set kvs. json_wf (snd kv)"
proof (induction n s and n s and n s arbitrary: v r and vs r and kvs r rule: parse_value_parse_items_parse_members.induct)
  case (2 n s)
  then show ?case
    by (auto simp: parse_word_def wf_objects simp del: json_wf.simps(2) split: list.splits if_splits)
next
  case (4 n s)
  then show ?case by (auto split: option.splits prod.splits list.splits if_splits)
next
  case (6 n s)
  then show ?case by (auto split: option.splits prod.splits list.splits if_splits) fastforce
qed simp_all

lemma json_parse_wf: "json_parse s = Some v \<Longrightarrow> json_wf v"
  by (auto simp: json_parse_def simp del: parse_value.simps dest: parse_wf(1) split: option.splits prod.splits if_splits)

lemma json_wf_object_of:
  assumes "distinct (map fst ps)" and "\<And>k x. (k, Some x) \<in> set ps \<Longrightarrow> json_wf x"
  shows "json_wf (object_of ps)"
proof -
  have "distinct (map fst (List.map_filter (\<lambda>(k, v). map_option (Pair k) v) ps)) \<and>
      set (List.map_filter (\<lambda>(k, v). map_option (Pair k) v) ps) \<subseteq> {(k, x). (k, Some x) \<in> set ps}"
    using assms(1)
  proof (induction ps)
    case (Cons f ps)
    obtain k v where f: "f = (k, v)" by (cases f)
    have "k \<notin> fst ` {(k, x). (k, Some x) \<in> set ps}" using Cons.prems f by force
    with Cons f show ?case by (cases v) (auto simp: List.map_filter_simps)
  qed (simp add: List.map_filter_simps)
  then show ?thesis using assms(2) by (auto simp: object_of_def)
qed

section \<open>The contract of the reader\<close>

locale json_reader =
  fixes parse :: "string \<Rightarrow> json option"
  assumes parse_text: "json_wf v \<Longrightarrow> parse (json_text v) = Some v"
    and parse_result: "parse s = Some v \<Longrightarrow> json_wf v"

interpretation json_parse: json_reader json_parse
  by unfold_locales (auto intro: json_parse_text json_parse_wf)

section \<open>Written texts stay on one line\<close>

definition one_line :: "string \<Rightarrow> bool" where
  "one_line s \<longleftrightarrow> (\<forall>c \<in> set s. 32 \<le> (of_char c :: nat))"

lemma one_line_simps [simp]: "one_line []" "one_line (c # s) \<longleftrightarrow> 32 \<le> (of_char c :: nat) \<and> one_line s"
  "one_line (s @ t) \<longleftrightarrow> one_line s \<and> one_line t"
  by (auto simp: one_line_def)

lemma one_line_escape [simp]: "one_line (json_escape_char c)"
proof -
  have "32 \<le> (of_char (hex_digit n) :: nat)" if "n < 16" for n
    using that by (simp add: hex_digit_def)
  moreover have "(of_char c :: nat) div 16 < 16" using of_char_less [of c] by linarith
  ultimately show ?thesis by (auto simp: json_escape_char_def Let_def char_literals)
qed

lemma one_line_quote [simp]: "one_line (json_quote s)"
proof -
  have "one_line (concat (map json_escape_char s))" by (induction s) simp_all
  then show ?thesis by (simp add: json_quote_eq)
qed

lemma one_line_join: "one_line sep \<Longrightarrow> (\<And>x. x \<in> set xs \<Longrightarrow> one_line x) \<Longrightarrow> one_line (join_with sep xs)"
  by (induction sep xs rule: join_with.induct) auto

lemma one_line_dec [simp]: "one_line (dec_int i)"
proof -
  have "one_line (dec_nat n)" for n
    using all_digits_dec_nat [of n] by (auto simp: one_line_def list_all_iff is_digit_def dest!: bspec)
  then show ?thesis by (simp add: dec_int_def)
qed

lemma one_line_json [simp]: "one_line (json_text v)"
proof (induction v)
  case (JArr xs)
  then show ?case by (auto intro!: one_line_join)
next
  case (JObj kvs)
  then show ?case by (fastforce intro!: one_line_join)
qed simp_all

end
