(* ===== verification/WebhookCodec.thy ===== *)
theory WebhookCodec
  imports JsonParse JobNotify
begin

text \<open>
  Reading jobs and notifications that arrive from outside, \<open>omx-dispatch/webhook-codec.ts\<close> (its
  signatures are in \<open>CallbackAuth\<close>). Unknown and ill-typed properties are dropped, never refused, except for
  the identifier and the status. A normalised job has the type of \<open>BridgeJob\<close>, which the dispatch
  server declares again with the same fields.
\<close>

section \<open>Reading single properties\<close>

definition getStringField :: "json \<Rightarrow> string \<Rightarrow> string option" where
  "getStringField record key =
     (case jfield record key of
        Some (JStr s) \<Rightarrow> (if length s > 0 then Some s else None)
      | _ \<Rightarrow> None)"

definition read_enum :: "('a \<Rightarrow> string) \<Rightarrow> 'a list \<Rightarrow> json option \<Rightarrow> 'a option" where
  \<comment> \<open>\<open>isJobStatus\<close>, \<open>isJobSource\<close> and the other tests \<open>VALUES.includes(value)\<close>, with the cast\<close>
  "read_enum name values v = (case v of Some (JStr s) \<Rightarrow> enum_find name values s | _ \<Rightarrow> None)"

definition read_number :: "json option \<Rightarrow> int option" where
  "read_number v = (case v of Some (JNum i) \<Rightarrow> Some i | _ \<Rightarrow> None)"

definition read_boolean :: "json option \<Rightarrow> bool option" where
  "read_boolean v = (case v of Some (JBool b) \<Rightarrow> Some b | _ \<Rightarrow> None)"

definition read_nullable :: "json option \<Rightarrow> int option option" where
  \<comment> \<open>\<open>typeof v === 'number' || v === null ? v : undefined\<close>\<close>
  "read_nullable v = (case v of Some (JNum i) \<Rightarrow> Some (Some i) | Some JNull \<Rightarrow> Some None | _ \<Rightarrow> None)"

definition read_record :: "json option \<Rightarrow> json option" where
  "read_record v = (case v of Some x \<Rightarrow> (if isRecord x then Some x else None) | None \<Rightarrow> None)"

section \<open>Normalisation\<close>

definition extractWebhookJobId :: "json \<Rightarrow> string option" where
  "extractWebhookJobId payload =
     (if \<not> isRecord payload then None
      else (case getStringField payload ''id'' of
              Some i \<Rightarrow> Some i
            | None \<Rightarrow> getStringField payload ''jobId''))"

definition normalizeNotifyChannelResult :: "json option \<Rightarrow> channel_result option" where
  "normalizeNotifyChannelResult payload =
     (case read_record payload of
        None \<Rightarrow> None
      | Some v \<Rightarrow>
          (case read_enum channel_status_name NOTIFY_CHANNEL_STATUSES (jfield v ''status'') of
             None \<Rightarrow> None
           | Some st \<Rightarrow> Some \<lparr>
               cr_status = st,
               cr_error = getStringField v ''error'',
               cr_httpStatus = read_number (jfield v ''httpStatus''),
               cr_attempts = read_number (jfield v ''attempts''),
               cr_skippedReason = getStringField v ''skippedReason''\<rparr>))"

definition normalizeNotifyOutcome :: "json option \<Rightarrow> notify_outcome option" where
  "normalizeNotifyOutcome payload =
     (case read_record payload of
        None \<Rightarrow> None
      | Some v \<Rightarrow>
          (case (getStringField v ''attemptedAt'', read_enum notify_mode_name NOTIFY_MODE_VALUES (jfield v ''mode'')) of
             (Some attemptedAt, Some mode) \<Rightarrow> Some \<lparr>
               no_attemptedAt = attemptedAt,
               no_mode = mode,
               no_trigger = read_enum trigger_name NOTIFY_TRIGGER_VALUES (jfield v ''trigger''),
               no_attemptIndex = read_number (jfield v ''attemptIndex''),
               no_claudeWebhook = normalizeNotifyChannelResult (jfield v ''claudeWebhook''),
               no_openclaw = normalizeNotifyChannelResult (jfield v ''openclaw''),
               no_telegram = normalizeNotifyChannelResult (jfield v ''telegram'')\<rparr>
           | _ \<Rightarrow> None))"

definition normalizeTmuxSession :: "json option \<Rightarrow> tmux_session option" where
  "normalizeTmuxSession payload =
     (case read_record payload of
        None \<Rightarrow> None
      | Some v \<Rightarrow>
          (if jfield v ''backend'' \<noteq> Some (JStr ''tmux'') then None
           else
             (case (read_enum tmux_status_name TMUX_SESSION_STATUSES (jfield v ''status''),
                    getStringField v ''sessionName'', getStringField v ''createdAt'',
                    getStringField v ''updatedAt'', getStringField v ''attachCommand'') of
                (Some st, Some sessionName, Some createdAt, Some updatedAt, Some attachCommand) \<Rightarrow> Some \<lparr>
                  ts_sessionName = sessionName,
                  ts_status = st,
                  ts_createdAt = createdAt,
                  ts_updatedAt = updatedAt,
                  ts_attachCommand = attachCommand,
                  ts_cwd = getStringField v ''cwd'',
                  ts_lastExitCode = read_nullable (jfield v ''lastExitCode'')\<rparr>
              | _ \<Rightarrow> None)))"

definition normalize_execution :: "json \<Rightarrow> exec_meta" where
  "normalize_execution execution = \<lparr>
     em_command = nullish (getStringField execution ''command'') [],
     em_timeoutMs = nullish (read_number (jfield execution ''timeoutMs'')) 0,
     em_maxOutputChars = nullish (read_number (jfield execution ''maxOutputChars'')) 0,
     em_durationMs = read_number (jfield execution ''durationMs''),
     em_timedOut = read_boolean (jfield execution ''timedOut''),
     em_outputTruncated = read_boolean (jfield execution ''outputTruncated''),
     em_errorType = read_enum error_type_name EXECUTION_ERROR_TYPES (jfield execution ''errorType''),
     em_recoveredFromRestart = read_boolean (jfield execution ''recoveredFromRestart'')\<rparr>"

definition normalize_history :: "json option \<Rightarrow> notify_outcome list option" where
  "normalize_history v =
     (case v of
        Some (JArr entries) \<Rightarrow> Some (List.map_filter (\<lambda>entry. normalizeNotifyOutcome (Some entry)) entries)
      | _ \<Rightarrow> None)"

definition normalizeWebhookJob :: "json option \<Rightarrow> bridge_job option" where
  \<comment> \<open>the argument may be \<open>undefined\<close>\<close>
  "normalizeWebhookJob payload0 =
     (case read_record payload0 of
        None \<Rightarrow> None
      | Some payload \<Rightarrow>
          (case (extractWebhookJobId payload, read_enum status_name JOB_STATUSES (jfield payload ''status'')) of
             (Some i, Some st) \<Rightarrow>
               (let execution = nullish (read_record (jfield payload ''execution'')) (JObj []) in Some \<lparr>
                  j_id = i,
                  j_prompt = nullish (getStringField payload ''prompt'') [],
                  j_executionMode = read_enum mode_name JOB_EXECUTION_MODES (jfield payload ''executionMode''),
                  j_cwd = getStringField payload ''cwd'',
                  j_queueOrder = Some (nullish (getStringField payload ''queueOrder'') []),
                  j_requestId = getStringField payload ''requestId'',
                  j_requestFingerprint = getStringField payload ''requestFingerprint'',
                  j_originRoutingKey = getStringField payload ''originRoutingKey'',
                  j_source = read_enum source_name JOB_SOURCE_VALUES (jfield payload ''source''),
                  j_sourceName = getStringField payload ''sourceName'',
                  j_metadata = map_option props_of (read_record (jfield payload ''metadata'')),
                  j_notifyUrl = getStringField payload ''notifyUrl'',
                  j_status = st,
                  j_createdAt = nullish (getStringField payload ''createdAt'') [],
                  j_startedAt = getStringField payload ''startedAt'',
                  j_finishedAt = getStringField payload ''finishedAt'',
                  j_exitCode = read_nullable (jfield payload ''exitCode''),
                  j_stdout = nullish (getStringField payload ''stdout'') [],
                  j_stderr = nullish (getStringField payload ''stderr'') [],
                  j_execution = normalize_execution execution,
                  j_session = normalizeTmuxSession (jfield payload ''session''),
                  j_notifyOutcome = normalizeNotifyOutcome (jfield payload ''notifyOutcome''),
                  j_notifyHistory = normalize_history (jfield payload ''notifyHistory'')\<rparr>)
           | _ \<Rightarrow> None))"

record job_notification =
  nt_receivedAt :: string
  nt_job :: bridge_job

definition normalizeNotification :: "json \<Rightarrow> job_notification option" where
  "normalizeNotification payload =
     (if \<not> isRecord payload then None
      else
        (case (getStringField payload ''receivedAt'', normalizeWebhookJob (jfield payload ''job'')) of
           (Some receivedAt, Some job) \<Rightarrow> Some \<lparr>nt_receivedAt = receivedAt, nt_job = job\<rparr>
         | _ \<Rightarrow> None))"

section \<open>Serialisation\<close>

definition webhook_job_json :: "bridge_job \<Rightarrow> json" where
  \<comment> \<open>\<open>JSON.stringify\<close> of a normalised job: the properties in the order of the literal of
     \<open>normalizeWebhookJob\<close>\<close>
  "webhook_job_json j = object_of
    [(''id'', Some (JStr (j_id j))),
     (''prompt'', Some (JStr (j_prompt j))),
     (''executionMode'', map_option (JStr \<circ> mode_name) (j_executionMode j)),
     (''cwd'', map_option JStr (j_cwd j)),
     (''queueOrder'', map_option JStr (j_queueOrder j)),
     (''requestId'', map_option JStr (j_requestId j)),
     (''requestFingerprint'', map_option JStr (j_requestFingerprint j)),
     (''originRoutingKey'', map_option JStr (j_originRoutingKey j)),
     (''source'', map_option (JStr \<circ> source_name) (j_source j)),
     (''sourceName'', map_option JStr (j_sourceName j)),
     (''notifyUrl'', map_option JStr (j_notifyUrl j)),
     (''metadata'', map_option JObj (j_metadata j)),
     (''status'', Some (JStr (status_name (j_status j)))),
     (''createdAt'', Some (JStr (j_createdAt j))),
     (''startedAt'', map_option JStr (j_startedAt j)),
     (''finishedAt'', map_option JStr (j_finishedAt j)),
     (''exitCode'', map_option json_nullable (j_exitCode j)),
     (''stdout'', Some (JStr (j_stdout j))),
     (''stderr'', Some (JStr (j_stderr j))),
     (''execution'', Some (exec_meta_json (j_execution j))),
     (''session'', map_option tmux_session_json (j_session j)),
     (''notifyOutcome'', map_option notify_outcome_json (j_notifyOutcome j)),
     (''notifyHistory'', map_option (JArr \<circ> map notify_outcome_json) (j_notifyHistory j))]"

definition notification_json :: "job_notification \<Rightarrow> json" where
  "notification_json n = object_of
    [(''receivedAt'', Some (JStr (nt_receivedAt n))), (''job'', Some (webhook_job_json (nt_job n)))]"

section \<open>What normalisation keeps\<close>

definition tidy_string :: "string option \<Rightarrow> string option" where
  \<comment> \<open>an empty string counts as absent\<close>
  "tidy_string s = (if s = Some [] then None else s)"

definition tidy_channel :: "channel_result \<Rightarrow> channel_result" where
  "tidy_channel r = r\<lparr>cr_error := tidy_string (cr_error r), cr_skippedReason := tidy_string (cr_skippedReason r)\<rparr>"

definition tidy_outcome :: "notify_outcome \<Rightarrow> notify_outcome option" where
  "tidy_outcome r = (if no_attemptedAt r = [] then None
     else Some (r\<lparr>no_claudeWebhook := map_option tidy_channel (no_claudeWebhook r),
                  no_openclaw := map_option tidy_channel (no_openclaw r),
                  no_telegram := map_option tidy_channel (no_telegram r)\<rparr>))"

definition tidy_session :: "tmux_session \<Rightarrow> tmux_session option" where
  "tidy_session s =
     (if [] \<in> set [ts_sessionName s, ts_createdAt s, ts_updatedAt s, ts_attachCommand s] then None
      else Some (s\<lparr>ts_cwd := tidy_string (ts_cwd s)\<rparr>))"

definition tidy_job :: "bridge_job \<Rightarrow> bridge_job" where
  "tidy_job j = j\<lparr>
     j_cwd := tidy_string (j_cwd j), j_queueOrder := Some (nullish (j_queueOrder j) []),
     j_requestId := tidy_string (j_requestId j), j_requestFingerprint := tidy_string (j_requestFingerprint j),
     j_originRoutingKey := tidy_string (j_originRoutingKey j), j_sourceName := tidy_string (j_sourceName j),
     j_notifyUrl := tidy_string (j_notifyUrl j), j_startedAt := tidy_string (j_startedAt j),
     j_finishedAt := tidy_string (j_finishedAt j),
     j_session := Option.bind (j_session j) tidy_session,
     j_notifyOutcome := Option.bind (j_notifyOutcome j) tidy_outcome,
     j_notifyHistory := map_option (List.map_filter tidy_outcome) (j_notifyHistory j)\<rparr>"

lemma getStringField_some:
  "jfield v k = Some (JStr s) \<Longrightarrow> getStringField v k = tidy_string (Some s)"
  "jfield v k = map_option JStr t \<Longrightarrow> getStringField v k = tidy_string t"
  by (auto simp: getStringField_def tidy_string_def split: option.splits)

lemma nullish_tidy [simp]: "nullish (tidy_string q) [] = nullish q []"
  by (simp add: tidy_string_def)

lemma read_back [simp]:
  "read_number (Some (JNum i)) = Some i" "read_number (map_option JNum n) = n"
  "read_boolean (map_option JBool b) = b" "read_nullable (map_option json_nullable c) = c"
  "read_record (Some (object_of fs)) = Some (object_of fs)"
  by (auto simp: read_number_def read_boolean_def read_nullable_def read_record_def object_of_def
      split: option.splits json.splits elim: json_nullable.elims)

lemma read_enum_back:
  assumes "\<And>x. enum_find name values (name x) = Some x"
  shows "read_enum name values (Some (JStr (name x))) = Some x"
    and "read_enum name values (map_option (JStr \<circ> name) y) = y"
  using assms by (simp_all add: read_enum_def split: option.split)

lemmas enum_back [simp] = read_enum_back [OF statuses.find_name] read_enum_back [OF modes.find_name]
  read_enum_back [OF tmux_statuses.find_name] read_enum_back [OF error_types.find_name]
  read_enum_back [OF sources.find_name] read_enum_back [OF notify_modes.find_name]
  read_enum_back [OF triggers.find_name] read_enum_back [OF channel_statuses.find_name]

lemma channel_back: "normalizeNotifyChannelResult (map_option channel_result_json r) = map_option tidy_channel r"
proof (cases r)
  case (Some c)
  have "read_record (Some (channel_result_json c)) = Some (channel_result_json c)"
    by (simp add: channel_result_json_def)
  with Some show ?thesis
    by (simp add: normalizeNotifyChannelResult_def channel_result_fields getStringField_some tidy_channel_def)
qed (simp add: normalizeNotifyChannelResult_def read_record_def)

lemma outcome_back: "normalizeNotifyOutcome (Some (notify_outcome_json r)) = tidy_outcome r"
proof -
  have "read_record (Some (notify_outcome_json r)) = Some (notify_outcome_json r)"
    by (simp add: notify_outcome_json_def)
  then show ?thesis
    by (simp add: normalizeNotifyOutcome_def notify_outcome_fields getStringField_some channel_back tidy_outcome_def tidy_string_def)
qed

lemma session_back: "normalizeTmuxSession (Some (tmux_session_json s)) = tidy_session s"
proof -
  have "read_record (Some (tmux_session_json s)) = Some (tmux_session_json s)"
    by (simp add: tmux_session_json_def)
  then show ?thesis
    by (auto simp: normalizeTmuxSession_def tmux_session_fields getStringField_some tidy_session_def tidy_string_def)
qed

lemma execution_back: "normalize_execution (exec_meta_json e) = e"
  by (simp add: normalize_execution_def exec_meta_fields getStringField_some)

lemma history_back: "normalize_history (map_option (JArr \<circ> map notify_outcome_json) h) = map_option (List.map_filter tidy_outcome) h"
  by (cases h) (simp_all add: normalize_history_def List.map_filter_def outcome_back comp_def filter_map)

lemma map_of_swap: "fst a \<noteq> fst b \<Longrightarrow> map_of (xs @ a # b # ys) = map_of (xs @ b # a # ys)"
  by (cases a; cases b) (auto simp: fun_upd_twist)

lemma jfield_swap:
  assumes "distinct (map fst (xs @ a # b # ys))"
  shows "jfield (object_of (xs @ a # b # ys)) k = jfield (object_of (xs @ b # a # ys)) k"
proof -
  have "distinct (map fst (xs @ b # a # ys))" "fst a \<noteq> fst b" using assms by auto
  then show ?thesis using assms map_of_swap [of a b xs ys] by simp
qed

lemma webhook_job_fields [simp]: "jfield (webhook_job_json j) k = jfield (job_json j) k"
  unfolding webhook_job_json_def job_json_def
  using jfield_swap [of "[(''id'', Some (JStr (j_id j))),
     (''prompt'', Some (JStr (j_prompt j))),
     (''executionMode'', map_option (JStr \<circ> mode_name) (j_executionMode j)),
     (''cwd'', map_option JStr (j_cwd j)),
     (''queueOrder'', map_option JStr (j_queueOrder j)),
     (''requestId'', map_option JStr (j_requestId j)),
     (''requestFingerprint'', map_option JStr (j_requestFingerprint j)),
     (''originRoutingKey'', map_option JStr (j_originRoutingKey j)),
     (''source'', map_option (JStr \<circ> source_name) (j_source j)),
     (''sourceName'', map_option JStr (j_sourceName j))]" "(''notifyUrl'', map_option JStr (j_notifyUrl j))"
     "(''metadata'', map_option JObj (j_metadata j))"] by simp

lemma parts_back:
  "normalizeTmuxSession (map_option tmux_session_json x) = Option.bind x tidy_session"
  "normalizeNotifyOutcome (map_option notify_outcome_json y) = Option.bind y tidy_outcome"
  "map_option props_of (read_record (map_option JObj m)) = m"
proof -
  show "normalizeTmuxSession (map_option tmux_session_json x) = Option.bind x tidy_session"
    by (cases x) (simp_all add: session_back normalizeTmuxSession_def [of None] read_record_def)
  show "normalizeNotifyOutcome (map_option notify_outcome_json y) = Option.bind y tidy_outcome"
    by (cases y) (simp_all add: outcome_back normalizeNotifyOutcome_def [of None] read_record_def)
  show "map_option props_of (read_record (map_option JObj m)) = m"
    by (cases m) (simp_all add: read_record_def)
qed

lemma job_back:
  assumes f: "\<And>k. jfield v k = jfield (job_json j) k" and "isRecord v"
  shows "normalizeWebhookJob (Some v) = (if j_id j = [] then None else Some (tidy_job j))"
proof -
  have r: "read_record (Some v) = Some v" "read_record (Some (exec_meta_json (j_execution j))) = Some (exec_meta_json (j_execution j))"
    using assms(2) by (simp_all add: read_record_def exec_meta_json_def)
  have i: "jfield v ''id'' = Some (JStr (j_id j))" "jfield v ''jobId'' = None" unfolding f
    by (simp_all add: job_json_def)
  have s: "getStringField v k = getStringField (job_json j) k" for k by (simp add: getStringField_def f)
  have "extractWebhookJobId v = tidy_string (Some (j_id j))"
    using assms(2) i by (simp add: extractWebhookJobId_def getStringField_def tidy_string_def)
  then show ?thesis
    by (simp add: normalizeWebhookJob_def r f s job_fields job_fields2 getStringField_some tidy_string_def [of "Some (j_id j)"])
       (cases j; simp add: execution_back history_back parts_back tidy_job_def)
qed

section \<open>Normalised jobs and notifications\<close>

lemma getStringField_tidy [simp]: "tidy_string (getStringField v k) = getStringField v k"
  by (auto simp: tidy_string_def getStringField_def split: option.splits json.splits)

lemma getStringField_nonempty [simp]: "getStringField v k = Some s \<Longrightarrow> s \<noteq> []"
  by (auto simp: getStringField_def split: option.splits json.splits if_splits)

lemma getStringField_not_empty [simp]: "getStringField v k \<noteq> Some []"
  using getStringField_nonempty by blast

lemma channel_tidy [simp]: "map_option tidy_channel (normalizeNotifyChannelResult p) = normalizeNotifyChannelResult p"
  by (auto simp: normalizeNotifyChannelResult_def tidy_channel_def split: option.split)

lemma outcome_tidy [simp]: "Option.bind (normalizeNotifyOutcome p) tidy_outcome = normalizeNotifyOutcome p"
  by (auto simp: normalizeNotifyOutcome_def tidy_outcome_def split: option.split)

lemma session_tidy [simp]: "Option.bind (normalizeTmuxSession p) tidy_session = normalizeTmuxSession p"
  by (auto simp: normalizeTmuxSession_def tidy_session_def split: option.split)

lemma history_tidy [simp]: "map_option (List.map_filter tidy_outcome) (normalize_history p) = normalize_history p"
proof -
  have "List.map_filter tidy_outcome (List.map_filter (\<lambda>e. normalizeNotifyOutcome (Some e)) es) =
      List.map_filter (\<lambda>e. normalizeNotifyOutcome (Some e)) es" for es
  proof (induction es)
    case (Cons e es)
    have "normalizeNotifyOutcome (Some e) = Some r \<Longrightarrow> tidy_outcome r = Some r" for r
      using outcome_tidy [of "Some e"] by simp
    with Cons show ?case by (auto simp: List.map_filter_simps split: option.split)
  qed (simp add: List.map_filter_simps)
  then show ?thesis by (auto simp: normalize_history_def split: option.split json.split)
qed

lemma normalized_job:
  assumes "normalizeWebhookJob p = Some j"
  shows "j_id j \<noteq> []" and "tidy_job j = j"
proof -
  obtain v i where v: "p = Some v" "extractWebhookJobId v = Some i" "j_id j = i"
    using assms by (auto simp: normalizeWebhookJob_def read_record_def Let_def split: option.splits if_splits)
  then show "j_id j \<noteq> []" by (auto simp: extractWebhookJobId_def split: if_splits option.splits)
  show "tidy_job j = j"
    using assms by (auto simp: normalizeWebhookJob_def tidy_job_def Let_def split: option.splits)
qed

lemma webhook_json_record [simp]: "isRecord (webhook_job_json j)"
  by (simp add: webhook_job_json_def)

lemma normalize_stored_job:
  "normalizeWebhookJob p = Some j \<Longrightarrow> normalizeWebhookJob (Some (webhook_job_json j)) = Some j"
  using normalized_job [of p j] by (simp add: job_back)

definition notification_ok :: "job_notification \<Rightarrow> bool" where
  "notification_ok n \<longleftrightarrow> nt_receivedAt n \<noteq> [] \<and> j_id (nt_job n) \<noteq> [] \<and> tidy_job (nt_job n) = nt_job n"

lemma normalizeNotification_ok: "normalizeNotification v = Some n \<Longrightarrow> notification_ok n"
  by (auto simp: normalizeNotification_def notification_ok_def dest: normalized_job split: if_splits option.splits)

lemma normalizeNotification_json: "notification_ok n \<Longrightarrow> normalizeNotification (notification_json n) = Some n"
  by (cases n) (simp add: normalizeNotification_def notification_json_def notification_ok_def job_back
      getStringField_def)

definition meta_wf :: "bridge_job \<Rightarrow> bool" where
  "meta_wf j \<longleftrightarrow> (case j_metadata j of None \<Rightarrow> True | Some kvs \<Rightarrow> json_wf (JObj kvs))"

lemma json_wf_field: "json_wf v \<Longrightarrow> jfield v k = Some x \<Longrightarrow> json_wf x"
  by (cases v) (auto dest!: map_of_SomeD)

lemma json_wf_nullable [simp]: "json_wf (json_nullable c)"
  by (cases c) simp_all

lemma Some_map_option [simp]: "Some x = map_option f y \<longleftrightarrow> (\<exists>z. y = Some z \<and> x = f z)"
  by (cases y) auto

lemma json_wf_parts [simp]: "json_wf (exec_meta_json e)" "json_wf (tmux_session_json s)"
  "json_wf (channel_result_json c)" "json_wf (notify_outcome_json r)"
proof -
  show ch: "json_wf (channel_result_json c)" for c
    unfolding channel_result_json_def by (rule json_wf_object_of) auto
  show "json_wf (exec_meta_json e)" "json_wf (tmux_session_json s)"
    unfolding exec_meta_json_def tmux_session_json_def by (rule json_wf_object_of; auto)+
  show "json_wf (notify_outcome_json r)"
    unfolding notify_outcome_json_def by (rule json_wf_object_of) (auto simp: ch)
qed

lemma json_wf_job: "meta_wf j \<Longrightarrow> json_wf (webhook_job_json j)" "meta_wf j \<Longrightarrow> json_wf (job_json j)"
  unfolding webhook_job_json_def job_json_def meta_wf_def
  by (rule json_wf_object_of; auto)+

lemma json_wf_notification: "meta_wf (nt_job n) \<Longrightarrow> json_wf (notification_json n)"
  unfolding notification_json_def by (rule json_wf_object_of) (auto simp: json_wf_job)

lemma normalized_meta_wf:
  assumes "normalizeWebhookJob (Some v) = Some j" and "json_wf v"
  shows "meta_wf j"
proof (cases "jfield v ''metadata''")
  case None
  with assms(1) show ?thesis
    by (auto simp: normalizeWebhookJob_def read_record_def meta_wf_def Let_def split: option.splits if_splits)
next
  case (Some m)
  with assms(2) have "json_wf m" by (rule json_wf_field)
  moreover from this have "isRecord m \<Longrightarrow> json_wf (JObj (props_of m))" by (cases m) simp_all
  ultimately show ?thesis using Some assms(1)
    by (auto simp: normalizeWebhookJob_def read_record_def meta_wf_def Let_def split: option.splits if_splits)
qed

lemma normalizeNotification_wf:
  assumes "normalizeNotification v = Some n" and "json_wf v"
  shows "meta_wf (nt_job n)"
proof (cases "jfield v ''job''")
  case None
  with assms(1) show ?thesis
    by (auto simp: normalizeNotification_def normalizeWebhookJob_def [of None] read_record_def split: option.splits if_splits)
next
  case (Some w)
  with assms(1) have "normalizeWebhookJob (Some w) = Some (nt_job n)"
    by (auto simp: normalizeNotification_def split: option.splits if_splits)
  then show ?thesis using json_wf_field [OF assms(2) Some] by (rule normalized_meta_wf)
qed

end
