(* ===== verification/NotificationStore.thy ===== *)
theory NotificationStore
  imports WebhookCodec
begin

text \<open>
  The persisted queue of job completions, \<open>omx-dispatch/notification-store.ts\<close>: a file with one
  JSON text per line, and a copy of it in memory. Every operation runs alone in its process
  (\<open>withStoreLock\<close> chains the promises) and, between processes, under the lock file, so it is one
  step on the state; how the lock is taken is the subject of \<open>NotificationLock\<close>.
  \<open>st_locks\<close> says how the coming attempts to take it end and \<open>st_io\<close> whether the coming file
  operations succeed; empty lists stand for success.
\<close>

section \<open>State\<close>

datatype store_error =
    LockUnavailable string
  | FileFailure
  | ReadBeforeEnqueue
  | ReadBeforeJobDrain
  | ReadBeforeDrain

datatype store_warning =
    SkippedMalformed int
  | StartupOverflow int
  | CompactFailed
  | MalformedWhileEnqueueing int
  | QueueOverflow int int
  | PersistFailed string
  | MalformedWhileStats int
  | DrainRewriteFailed
  | MalformedWhileJobDrain int string
  | MalformedWhileDrain int
  | ClearFailed
  | ReadFailure
  | StatFailure

record store_options =
  so_storePath :: string
  so_maxQueueSize :: int
  so_lockStaleMs :: int
  so_lockTimeoutMs :: int
  so_previewMax :: int
  so_previewTextMax :: int
  so_parse :: "string \<Rightarrow> json option"
  so_time :: "string \<Rightarrow> int option"
  so_localeCompare :: "string \<Rightarrow> string \<Rightarrow> int"

record store_state =
  st_queue :: "job_notification list"
  st_dropped :: int
  st_file :: "string option"
  st_locks :: "store_error option list"
  st_io :: "bool list"
  st_log :: "store_warning list"

type_synonym 'a store_op = "(store_state, store_error, 'a) op"

definition warn :: "store_warning \<Rightarrow> unit store_op" where
  "warn w = op_modify (\<lambda>s. s\<lparr>st_log := st_log s @ [w]\<rparr>)"

definition warn_if :: "bool \<Rightarrow> store_warning \<Rightarrow> unit store_op" where
  "warn_if b w = op_when b (warn w)"

definition file_op :: "(store_state \<Rightarrow> store_state) \<Rightarrow> unit store_op" where
  "file_op f = (\<lambda>s.
     case st_io s of
       [] \<Rightarrow> (Inr (), f s)
     | ok # rest \<Rightarrow> (if ok then (Inr (), f (s\<lparr>st_io := rest\<rparr>)) else (Inl FileFailure, s\<lparr>st_io := rest\<rparr>)))"

definition withFileLock :: "'a store_op \<Rightarrow> 'a store_op" where
  "withFileLock operation = (\<lambda>s.
     case st_locks s of
       [] \<Rightarrow> operation s
     | None # rest \<Rightarrow> operation (s\<lparr>st_locks := rest\<rparr>)
     | Some e # rest \<Rightarrow> (Inl e, s\<lparr>st_locks := rest\<rparr>))"

section \<open>The file\<close>

definition NEWLINE :: char where "NEWLINE = CHR 0x0A"

definition CARRIAGE_RETURN :: char where "CARRIAGE_RETURN = CHR 0x0D"

definition strip_cr :: "string \<Rightarrow> string" where
  "strip_cr s = (if s \<noteq> [] \<and> last s = CARRIAGE_RETURN then butlast s else s)"

definition split_lines :: "string \<Rightarrow> string list" where
  \<comment> \<open>\<open>split(/\r?\n/)\<close>\<close>
  "split_lines raw = (let parts = split_on NEWLINE raw in map strip_cr (butlast parts) @ [last parts])"

definition read_line :: "store_options \<Rightarrow> string \<Rightarrow> job_notification option" where
  "read_line opts t =
     (case so_parse opts t of
        None \<Rightarrow> None
      | Some v \<Rightarrow> normalizeNotification v)"

definition trimmed_lines :: "string \<Rightarrow> string list" where
  "trimmed_lines raw = filter (\<lambda>t. t \<noteq> []) (map trim (split_lines raw))"

definition read_notifications :: "store_options \<Rightarrow> string option \<Rightarrow> job_notification list" where
  "read_notifications opts content =
     (case content of None \<Rightarrow> [] | Some raw \<Rightarrow> List.map_filter (read_line opts) (trimmed_lines raw))"

definition count_malformed :: "store_options \<Rightarrow> string option \<Rightarrow> int" where
  "count_malformed opts content =
     (case content of
        None \<Rightarrow> 0
      | Some raw \<Rightarrow> js_length (filter (\<lambda>t. read_line opts t = None) (trimmed_lines raw)))"

record persisted_read =
  pr_notifications :: "job_notification list"
  pr_malformed :: int
  pr_readFailed :: bool

definition readUnsafe :: "store_options \<Rightarrow> persisted_read store_op" where
  "readUnsafe opts =
     op_catch
       (op_bind (file_op id) (\<lambda>_ s.
          (Inr \<lparr>pr_notifications = read_notifications opts (st_file s),
                pr_malformed = count_malformed opts (st_file s), pr_readFailed = False\<rparr>, s)))
       (\<lambda>_. op_bind (warn ReadFailure) (\<lambda>_. op_return
          \<lparr>pr_notifications = [], pr_malformed = 0, pr_readFailed = True\<rparr>))"

definition notification_line :: "job_notification \<Rightarrow> string" where
  "notification_line n = json_text (notification_json n)"

definition payload_text :: "job_notification list \<Rightarrow> string" where
  "payload_text ns = join_with [NEWLINE] (map notification_line ns) @ [NEWLINE]"

definition clearUnsafe :: "unit store_op" where
  "clearUnsafe = file_op (\<lambda>s. s\<lparr>st_file := None\<rparr>)"

definition rewriteUnsafe :: "job_notification list \<Rightarrow> unit store_op" where
  \<comment> \<open>the temporary file is written first and then renamed over the store\<close>
  "rewriteUnsafe ns =
     (if ns = [] then clearUnsafe
      else op_bind (file_op id) (\<lambda>_. file_op (\<lambda>s. s\<lparr>st_file := Some (payload_text ns)\<rparr>)))"

definition appendUnsafe :: "job_notification \<Rightarrow> unit store_op" where
  "appendUnsafe n =
     file_op (\<lambda>s. s\<lparr>st_file := Some (nullish (st_file s) [] @ notification_line n @ [NEWLINE])\<rparr>)"

definition storeBytes :: "int store_op" where
  "storeBytes =
     op_catch
       (op_bind (file_op id) (\<lambda>_ s.
          (Inr (case st_file s of None \<Rightarrow> 0 | Some raw \<Rightarrow> js_length (utf8_bytes raw)), s)))
       (\<lambda>_. op_bind (warn StatFailure) (\<lambda>_. op_return 0))"

section \<open>Deduplication and retention\<close>

definition notificationTime :: "store_options \<Rightarrow> job_notification \<Rightarrow> int" where
  "notificationTime opts n = nullish (so_time opts (nt_receivedAt n)) 0"

definition nt_id :: "job_notification \<Rightarrow> string" where
  "nt_id n = j_id (nt_job n)"

fun set_latest :: "store_options \<Rightarrow> job_notification \<Rightarrow> job_notification list \<Rightarrow> job_notification list" where
  \<comment> \<open>one round of the loop over the map \<open>byJobId\<close>, which keeps the insertion order\<close>
  "set_latest opts n [] = [n]"
| "set_latest opts n (e # es) =
     (if nt_id e = nt_id n
      then (if notificationTime opts n \<ge> notificationTime opts e then n # es else e # es)
      else e # set_latest opts n es)"

definition notification_cmp :: "store_options \<Rightarrow> job_notification \<Rightarrow> job_notification \<Rightarrow> int" where
  "notification_cmp opts left right =
     (let byTime = notificationTime opts left - notificationTime opts right in
      if byTime = 0 then so_localeCompare opts (nt_id left) (nt_id right) else byTime)"

definition dedupe :: "store_options \<Rightarrow> job_notification list \<Rightarrow> job_notification list" where
  "dedupe opts ns = sort_cmp (notification_cmp opts) (foldl (\<lambda>m n. set_latest opts n m) [] ns)"

definition retainWithinLimit :: "store_options \<Rightarrow> job_notification list \<Rightarrow> job_notification list \<times> int" where
  "retainWithinLimit opts ns =
     (let overflow = max 0 (js_length ns - so_maxQueueSize opts) in
      (if overflow > 0 then js_slice_from overflow ns else ns, overflow))"

section \<open>The operations\<close>

definition set_queue :: "job_notification list \<Rightarrow> unit store_op" where
  "set_queue ns = op_modify (\<lambda>s. s\<lparr>st_queue := ns\<rparr>)"

definition add_dropped :: "int \<Rightarrow> unit store_op" where
  "add_dropped k = op_modify (\<lambda>s. s\<lparr>st_dropped := st_dropped s + k\<rparr>)"

definition store_load :: "store_options \<Rightarrow> unit store_op" where
  "store_load opts = withFileLock
     (op_bind (readUnsafe opts) (\<lambda>read.
        if pr_readFailed read then op_return ()
        else
          (let deduped = dedupe opts (pr_notifications read);
               (retained, overflow) = retainWithinLimit opts deduped
           in
           op_bind (set_queue retained) (\<lambda>_.
           op_bind (add_dropped overflow) (\<lambda>_.
           op_bind (warn_if (pr_malformed read > 0) (SkippedMalformed (pr_malformed read))) (\<lambda>_.
           op_bind (warn_if (overflow > 0) (StartupOverflow overflow)) (\<lambda>_.
             if length retained \<noteq> length (pr_notifications read) \<or> pr_malformed read > 0 \<or> overflow > 0
             then op_catch (rewriteUnsafe retained) (\<lambda>_. warn CompactFailed)
             else op_return ())))))))"

definition enqueue_try :: "store_options \<Rightarrow> job_notification \<Rightarrow> int store_op" where
  \<comment> \<open>the \<open>try\<close> block\<close>
  "enqueue_try opts n =
     op_bind (readUnsafe opts) (\<lambda>persisted.
       if pr_readFailed persisted then op_fail ReadBeforeEnqueue
       else
         (let deduped = dedupe opts (pr_notifications persisted @ [n]);
              (retained, overflow) = retainWithinLimit opts deduped
          in
          op_bind (add_dropped overflow) (\<lambda>_.
          op_bind (warn_if (pr_malformed persisted > 0) (MalformedWhileEnqueueing (pr_malformed persisted))) (\<lambda>_.
          op_bind op_state (\<lambda>s.
          op_bind (set_queue (filter (\<lambda>x. nt_id x \<in> set (map nt_id retained)) (dedupe opts (st_queue s)))) (\<lambda>_.
          op_bind (rewriteUnsafe retained) (\<lambda>_.
          op_bind (warn_if (overflow > 0) (QueueOverflow overflow (st_dropped s))) (\<lambda>_.
            op_return (js_length retained)))))))))"

definition enqueue_catch :: "store_options \<Rightarrow> job_notification \<Rightarrow> int store_op" where
  \<comment> \<open>the \<open>catch\<close> block: a failure to append is ignored\<close>
  "enqueue_catch opts n =
     op_bind op_state (\<lambda>s.
     op_bind (set_queue (butlast (st_queue s))) (\<lambda>_.
     op_bind (warn (PersistFailed (nt_id n))) (\<lambda>_.
     op_bind (op_catch (appendUnsafe n) (\<lambda>_. op_return ())) (\<lambda>_.
     op_bind op_state (\<lambda>t. op_return (js_length (st_queue t)))))))"

definition store_enqueue :: "store_options \<Rightarrow> job_notification \<Rightarrow> int store_op" where
  "store_enqueue opts n = withFileLock
     (op_bind op_state (\<lambda>s.
      op_bind (set_queue (st_queue s @ [n])) (\<lambda>_.
        op_catch (enqueue_try opts n) (\<lambda>_. enqueue_catch opts n))))"

record notification_preview =
  np_jobId :: string
  np_status :: job_status
  np_receivedAt :: string
  np_finishedAt :: "string option"
  np_stdoutPreview :: string
  np_stderrPreview :: string

record notification_stats =
  ns_pending :: int
  ns_dropped :: int
  ns_storePath :: string
  ns_storeBytes :: int
  ns_oldestEnqueuedAt :: "string option"
  ns_preview :: "notification_preview list option"

definition preview_of :: "store_options \<Rightarrow> job_notification \<Rightarrow> notification_preview" where
  "preview_of opts n = \<lparr>
     np_jobId = nt_id n, np_status = j_status (nt_job n), np_receivedAt = nt_receivedAt n,
     np_finishedAt = j_finishedAt (nt_job n),
     np_stdoutPreview = js_take (so_previewTextMax opts) (j_stdout (nt_job n)),
     np_stderrPreview = js_take (so_previewTextMax opts) (j_stderr (nt_job n))\<rparr>"

definition buildStats :: "store_options \<Rightarrow> int \<Rightarrow> job_notification list \<Rightarrow> int \<Rightarrow> int \<Rightarrow> notification_stats" where
  "buildStats opts dropped ns bytes previewCount =
     (let previewSize = max 0 (min (so_previewMax opts) previewCount) in \<lparr>
        ns_pending = js_length ns, ns_dropped = dropped, ns_storePath = so_storePath opts, ns_storeBytes = bytes,
        ns_oldestEnqueuedAt = (case ns of [] \<Rightarrow> None | n # _ \<Rightarrow> Some (nt_receivedAt n)),
        ns_preview = (if previewSize > 0 then Some (map (preview_of opts) (js_take previewSize ns)) else None)\<rparr>)"

definition store_getStats :: "store_options \<Rightarrow> int \<Rightarrow> notification_stats store_op" where
  "store_getStats opts previewCount = withFileLock
     (op_bind (readUnsafe opts) (\<lambda>read.
        if pr_readFailed read
        then op_bind storeBytes (\<lambda>bytes.
             op_bind op_state (\<lambda>s.
               op_return (buildStats opts (st_dropped s) (dedupe opts (st_queue s)) bytes previewCount)))
        else
          (let deduped = dedupe opts (pr_notifications read) in
           op_bind (warn_if (pr_malformed read > 0) (MalformedWhileStats (pr_malformed read))) (\<lambda>_.
           op_bind storeBytes (\<lambda>bytes.
           op_bind op_state (\<lambda>s.
             op_return (buildStats opts (st_dropped s) deduped bytes previewCount)))))))"

definition store_drainForJob :: "store_options \<Rightarrow> string \<Rightarrow> job_notification option store_op" where
  "store_drainForJob opts jobId = withFileLock
     (op_bind (readUnsafe opts) (\<lambda>read.
        if pr_readFailed read then op_fail ReadBeforeJobDrain
        else
          (let deduped = dedupe opts (pr_notifications read);
               target = find (\<lambda>n. nt_id n = jobId) deduped;
               remaining = filter (\<lambda>n. nt_id n \<noteq> jobId) deduped
           in
           if target = None \<and> pr_malformed read = 0 then op_return None
           else
             op_bind op_state (\<lambda>s.
             op_bind (set_queue (filter (\<lambda>n. nt_id n \<noteq> jobId) (dedupe opts (st_queue s)))) (\<lambda>_.
             op_bind (op_catch (rewriteUnsafe remaining) (\<lambda>e. op_bind (warn DrainRewriteFailed) (\<lambda>_. op_fail e))) (\<lambda>_.
             op_bind (warn_if (pr_malformed read > 0) (MalformedWhileJobDrain (pr_malformed read) jobId)) (\<lambda>_.
               op_return target)))))))"

definition store_drainAll :: "store_options \<Rightarrow> job_notification list store_op" where
  "store_drainAll opts = withFileLock
     (op_bind (readUnsafe opts) (\<lambda>read.
        if pr_readFailed read then op_fail ReadBeforeDrain
        else
          (let pending = dedupe opts (pr_notifications read) in
           op_bind (set_queue []) (\<lambda>_.
           op_bind (warn_if (pr_malformed read > 0) (MalformedWhileDrain (pr_malformed read))) (\<lambda>_.
           op_bind (op_catch clearUnsafe (\<lambda>_. warn ClearFailed)) (\<lambda>_.
             op_return pending))))))"

end
