(* ===== verification/NotificationLock.thy ===== *)
theory NotificationLock
  imports NotificationStore
begin

text \<open>
  The lock file of the notification store, \<open>withFileLock\<close> in \<open>omx-dispatch/notification-store.ts\<close>,
  as steps of any number of processes on a shared directory: one step per file operation, so that
  every interleaving is a run. A lock file is known by the number of its creation, which also stands for
  the token its creator writes into it (\<open>randomUUID\<close> never repeats one). A process may stop at any
  point and never run again.
\<close>

section \<open>State\<close>

datatype lock_pc =
    Outside
  | Opening int nat \<comment> \<open>\<open>startedAt\<close> and \<open>attempt\<close>\<close>
  | Writing nat int nat
  | Inspecting int nat
  | RemovingStale int nat
  | Sleeping int int nat \<comment> \<open>until when\<close>
  | Holding nat
  | Reading nat
  | Unlinking nat
  | LockFailed store_error

record lock_state =
  lk_now :: int
  lk_path :: "nat option" \<comment> \<open>the file at \<open>lockPath\<close>\<close>
  lk_next :: nat
  lk_mtime :: "nat \<Rightarrow> int"
  lk_written :: "nat \<Rightarrow> bool"
  lk_pc :: "nat \<Rightarrow> lock_pc"

definition goto :: "nat \<Rightarrow> lock_pc \<Rightarrow> lock_state \<Rightarrow> lock_state" where
  "goto i pc s = s\<lparr>lk_pc := (lk_pc s)(i := pc)\<rparr>"

section \<open>The file operations\<close>

definition lock_enter :: "nat \<Rightarrow> lock_state \<Rightarrow> lock_state" where
  "lock_enter i s = goto i (Opening (lk_now s) 0) s"

definition lock_open :: "nat \<Rightarrow> int \<Rightarrow> nat \<Rightarrow> lock_state \<Rightarrow> lock_state" where
  \<comment> \<open>\<open>fs.open(lockPath, 'wx')\<close>\<close>
  "lock_open i startedAt attempt s =
     (case lk_path s of
        None \<Rightarrow> goto i (Writing (lk_next s) startedAt attempt)
                  (s\<lparr>lk_path := Some (lk_next s), lk_next := Suc (lk_next s),
                     lk_mtime := (lk_mtime s)(lk_next s := lk_now s),
                     lk_written := (lk_written s)(lk_next s := False)\<rparr>)
      | Some _ \<Rightarrow> goto i (Inspecting startedAt attempt) s)"

definition lock_write :: "nat \<Rightarrow> nat \<Rightarrow> bool \<Rightarrow> lock_state \<Rightarrow> lock_state" where
  \<comment> \<open>the token is written through the handle, whatever the path names by now; if that fails,
     the path is removed\<close>
  "lock_write i k ok s =
     (if ok then goto i (Holding k) (s\<lparr>lk_mtime := (lk_mtime s)(k := lk_now s), lk_written := (lk_written s)(k := True)\<rparr>)
      else goto i (LockFailed FileFailure) (s\<lparr>lk_path := None\<rparr>))"

definition sleep_time :: "nat \<Rightarrow> int" where
  "sleep_time attempt = min 250 (25 + int attempt * 25)"

definition lock_timeout_check :: "store_options \<Rightarrow> nat \<Rightarrow> int \<Rightarrow> nat \<Rightarrow> lock_state \<Rightarrow> lock_state" where
  "lock_timeout_check opts i startedAt attempt s =
     (if lk_now s - startedAt > so_lockTimeoutMs opts
      then goto i (LockFailed (LockUnavailable (so_storePath opts @ ''.lock''))) s
      else goto i (Sleeping (lk_now s + sleep_time (Suc attempt)) startedAt (Suc attempt)) s)"

definition lock_inspect :: "store_options \<Rightarrow> nat \<Rightarrow> int \<Rightarrow> nat \<Rightarrow> lock_state \<Rightarrow> lock_state" where
  \<comment> \<open>\<open>fs.stat\<close>; the file may be gone by now\<close>
  "lock_inspect opts i startedAt attempt s =
     (case lk_path s of
        Some k \<Rightarrow>
          (if lk_now s - lk_mtime s k > so_lockStaleMs opts then goto i (RemovingStale startedAt attempt) s
           else lock_timeout_check opts i startedAt attempt s)
      | None \<Rightarrow> lock_timeout_check opts i startedAt attempt s)"

definition lock_remove_stale :: "nat \<Rightarrow> int \<Rightarrow> nat \<Rightarrow> lock_state \<Rightarrow> lock_state" where
  "lock_remove_stale i startedAt attempt s = goto i (Opening startedAt attempt) (s\<lparr>lk_path := None\<rparr>)"

definition lock_wake :: "nat \<Rightarrow> int \<Rightarrow> int \<Rightarrow> nat \<Rightarrow> lock_state \<Rightarrow> lock_state" where
  "lock_wake i until startedAt attempt s = (if lk_now s \<ge> until then goto i (Opening startedAt attempt) s else s)"

definition lock_release :: "nat \<Rightarrow> nat \<Rightarrow> lock_state \<Rightarrow> lock_state" where
  \<comment> \<open>the operation has ended, the handle is closed\<close>
  "lock_release i k s = goto i (Reading k) s"

definition lock_read_token :: "nat \<Rightarrow> nat \<Rightarrow> lock_state \<Rightarrow> lock_state" where
  \<comment> \<open>\<open>contents.startsWith(lockToken)\<close>\<close>
  "lock_read_token i k s =
     (if lk_path s = Some k \<and> lk_written s k then goto i (Unlinking k) s else goto i Outside s)"

definition lock_unlink :: "nat \<Rightarrow> lock_state \<Rightarrow> lock_state" where
  "lock_unlink i s = goto i Outside (s\<lparr>lk_path := None\<rparr>)"

section \<open>Runs\<close>

definition lock_act :: "store_options \<Rightarrow> nat \<Rightarrow> bool \<Rightarrow> lock_state \<Rightarrow> lock_state" where
  \<comment> \<open>the next step of a process; the flag: the write of the token succeeds\<close>
  "lock_act opts i ok s =
     (case lk_pc s i of
        Outside \<Rightarrow> lock_enter i s
      | Opening t a \<Rightarrow> lock_open i t a s
      | Writing k t a \<Rightarrow> lock_write i k ok s
      | Inspecting t a \<Rightarrow> lock_inspect opts i t a s
      | RemovingStale t a \<Rightarrow> lock_remove_stale i t a s
      | Sleeping until t a \<Rightarrow> lock_wake i until t a s
      | Holding k \<Rightarrow> lock_release i k s
      | Reading k \<Rightarrow> lock_read_token i k s
      | Unlinking k \<Rightarrow> lock_unlink i s
      | LockFailed e \<Rightarrow> s)"

definition lock_tick :: "nat \<Rightarrow> lock_state \<Rightarrow> lock_state" where
  "lock_tick d s = s\<lparr>lk_now := lk_now s + int d\<rparr>"

definition lock_start :: lock_state where
  "lock_start = \<lparr>lk_now = 0, lk_path = None, lk_next = 0, lk_mtime = (\<lambda>_. 0), lk_written = (\<lambda>_. False),
     lk_pc = (\<lambda>_. Outside)\<rparr>"

inductive lock_step :: "store_options \<Rightarrow> lock_state \<Rightarrow> lock_state \<Rightarrow> bool" for opts :: store_options where
  act: "lock_step opts s (lock_act opts i ok s)"
| tick: "lock_step opts s (lock_tick d s)"

definition timely :: "store_options \<Rightarrow> lock_state \<Rightarrow> bool" where
  \<comment> \<open>the lock file is not older than the limit for stale locks\<close>
  "timely opts s \<longleftrightarrow> (case lk_path s of None \<Rightarrow> True | Some k \<Rightarrow> lk_now s - lk_mtime s k \<le> so_lockStaleMs opts)"

inductive lock_run :: "store_options \<Rightarrow> lock_state \<Rightarrow> bool" for opts :: store_options where
  start: "lock_run opts lock_start"
| step: "lock_run opts s \<Longrightarrow> lock_step opts s t \<Longrightarrow> timely opts t \<Longrightarrow> lock_run opts t"

section \<open>Mutual exclusion\<close>

fun owned_lock :: "lock_pc \<Rightarrow> nat option" where
  "owned_lock (Writing k t a) = Some k"
| "owned_lock (Holding k) = Some k"
| "owned_lock (Reading k) = Some k"
| "owned_lock (Unlinking k) = Some k"
| "owned_lock _ = None"

definition lock_inv :: "lock_state \<Rightarrow> bool" where
  "lock_inv s \<longleftrightarrow>
     (\<forall>i k. owned_lock (lk_pc s i) = Some k \<longrightarrow> lk_path s = Some k \<and> k < lk_next s) \<and>
     (\<forall>i j k. owned_lock (lk_pc s i) = Some k \<and> owned_lock (lk_pc s j) = Some k \<longrightarrow> i = j) \<and>
     (\<forall>i t a. lk_pc s i \<noteq> RemovingStale t a)"

lemma lock_inv_start: "lock_inv lock_start"
  by (simp add: lock_inv_def lock_start_def)

fun plain_pc :: "lock_pc \<Rightarrow> bool" where
  "plain_pc (RemovingStale t a) = False"
| "plain_pc pc = (owned_lock pc = None)"

lemma inv_frame [simp]:
  "lock_inv (s\<lparr>lk_mtime := m, lk_written := w\<rparr>) = lock_inv s" "lock_inv (s\<lparr>lk_now := n\<rparr>) = lock_inv s"
  by (simp_all add: lock_inv_def)

lemma owners_equal:
  assumes "lock_inv s" and "owned_lock (lk_pc s i) = Some k" and "owned_lock (lk_pc s j) = Some l"
  shows "i = j \<and> k = l"
proof -
  have "lk_path s = Some k" "lk_path s = Some l" using assms unfolding lock_inv_def by blast+
  then have "k = l" by simp
  then show ?thesis using assms by (auto simp: lock_inv_def)
qed

lemma inv_plain:
  assumes "lock_inv s" and "plain_pc pc"
  shows "lock_inv (goto i pc s)"
proof -
  have "owned_lock pc = None" "pc \<noteq> RemovingStale t a" for t a using assms(2) by (cases pc; simp)+
  then show ?thesis using assms(1) by (auto simp: lock_inv_def goto_def)
qed

lemma inv_keep:
  assumes "lock_inv s" and "owned_lock (lk_pc s i) = Some k" and "owned_lock pc = Some k"
  shows "lock_inv (goto i pc s)"
proof -
  have "pc \<noteq> RemovingStale t a" for t a using assms(3) by auto
  then have "lk_pc (goto i pc s) j \<noteq> RemovingStale t a" for j t a using assms(1) by (simp add: goto_def lock_inv_def)
  moreover have "owned_lock (lk_pc (goto i pc s) j) = owned_lock (lk_pc s j)" for j
    using assms(2,3) by (simp add: goto_def)
  moreover have "lk_path (goto i pc s) = lk_path s" "lk_next (goto i pc s) = lk_next s" by (simp_all add: goto_def)
  ultimately show ?thesis using assms(1) by (simp add: lock_inv_def)
qed

lemma inv_drop:
  assumes "lock_inv s" and "owned_lock (lk_pc s i) = Some k" and "plain_pc pc"
  shows "lock_inv (goto i pc (s\<lparr>lk_path := None\<rparr>))"
proof -
  have "owned_lock pc = None" "pc \<noteq> RemovingStale t a" for t a using assms(3) by (cases pc; simp)+
  moreover have "owned_lock (lk_pc s j) = None" if "j \<noteq> i" for j
    using owners_equal [OF assms(1,2)] that by (cases "owned_lock (lk_pc s j)") auto
  ultimately show ?thesis using assms(1) by (auto simp: lock_inv_def goto_def)
qed

lemma inv_open:
  assumes "lock_inv s" and "lk_path s = None"
  shows "lock_inv (goto i (Writing (lk_next s) t a) (s\<lparr>lk_path := Some (lk_next s), lk_next := Suc (lk_next s),
     lk_mtime := m, lk_written := w\<rparr>))"
proof -
  have "owned_lock (lk_pc s j) = None" for j
    using assms by (cases "owned_lock (lk_pc s j)") (auto simp: lock_inv_def)
  then show ?thesis using assms(1) by (auto simp: lock_inv_def goto_def)
qed

lemma inv_timeout: "lock_inv s \<Longrightarrow> lock_inv (lock_timeout_check opts i t a s)"
  by (simp add: lock_timeout_check_def inv_plain)

lemma inv_act:
  assumes inv: "lock_inv s" and "timely opts s"
  shows "lock_inv (lock_act opts i ok s)"
proof (cases "lk_pc s i")
  case (Opening t a)
  then show ?thesis using inv inv_open [OF inv] inv_plain [OF inv]
    by (auto simp: lock_act_def lock_open_def split: option.split)
next
  case (Writing k t a)
  let ?s = "s\<lparr>lk_mtime := (lk_mtime s)(k := lk_now s), lk_written := (lk_written s)(k := True)\<rparr>"
  have "lock_inv ?s" using inv by simp
  then have "lock_inv (goto i (Holding k) ?s)" by (rule inv_keep) (simp_all add: Writing)
  with inv_drop [OF inv, of i k] Writing show ?thesis by (auto simp: lock_act_def lock_write_def)
next
  case (Inspecting t a)
  then show ?thesis using inv_timeout [OF inv] assms(2)
    by (auto simp: lock_act_def lock_inspect_def timely_def split: option.split)
next
  case (RemovingStale t a)
  then show ?thesis using inv by (simp add: lock_inv_def)
next
  case (Unlinking k)
  then show ?thesis using inv_drop [OF inv, of i k] by (simp add: lock_act_def lock_unlink_def)
qed (use inv inv_keep [OF inv] inv_plain [OF inv] in
  \<open>auto simp: lock_act_def lock_enter_def lock_wake_def lock_release_def lock_read_token_def\<close>)

lemma lock_run_inv: "lock_run opts s \<Longrightarrow> 0 \<le> so_lockStaleMs opts \<Longrightarrow> lock_inv s \<and> timely opts s"
proof (induction rule: lock_run.induct)
  case start
  then show ?case using lock_inv_start by (simp add: timely_def) (simp add: lock_start_def)
next
  case (step s t)
  then have "lock_inv s" "timely opts s" by simp_all
  with step.hyps(2) have "lock_inv t"
    by (auto elim!: lock_step.cases intro: inv_act simp: lock_tick_def)
  with step.hyps(3) show ?case by simp
qed


fun acts :: "store_options \<Rightarrow> nat list \<Rightarrow> lock_state \<Rightarrow> lock_state" where
  "acts opts [] s = s"
| "acts opts (i # is) s = acts opts is (lock_act opts i True s)"

definition sample_lock_options :: store_options where
  "sample_lock_options = \<lparr>so_storePath = ''/n/q'', so_maxQueueSize = 2, so_lockStaleMs = 1000, so_lockTimeoutMs = 100,
     so_previewMax = 5, so_previewTextMax = 10, so_parse = json_parse, so_time = (\<lambda>s. Some (int (length s))),
     so_localeCompare = lex_cmp\<rparr>"

lemmas lock_eval = lock_act_def lock_start_def lock_enter_def lock_open_def lock_write_def lock_tick_def
  lock_inspect_def lock_timeout_check_def lock_remove_stale_def goto_def


section \<open>A wait is bounded\<close>

fun waited :: "lock_pc \<Rightarrow> (int \<times> nat) option" where
  "waited (Opening t a) = Some (t, a)"
| "waited (Inspecting t a) = Some (t, a)"
| "waited (RemovingStale t a) = Some (t, a)"
| "waited (Writing k t a) = Some (t, a)"
| "waited _ = None"

definition wait_inv :: "store_options \<Rightarrow> lock_state \<Rightarrow> bool" where
  "wait_inv opts s \<longleftrightarrow> (\<forall>i t a. waited (lk_pc s i) = Some (t, a) \<longrightarrow>
       50 * int a \<le> lk_now s - t \<and> 50 * (int a - 1) \<le> so_lockTimeoutMs opts) \<and>
     (\<forall>i u t a. lk_pc s i = Sleeping u t a \<longrightarrow> 50 * int a \<le> u - t \<and> 50 * (int a - 1) \<le> so_lockTimeoutMs opts)"

lemma wait_inv_start: "0 \<le> so_lockTimeoutMs opts \<Longrightarrow> wait_inv opts lock_start"
  by (simp add: wait_inv_def lock_start_def)

definition pc_waits :: "store_options \<Rightarrow> int \<Rightarrow> lock_pc \<Rightarrow> bool" where
  "pc_waits opts now pc \<longleftrightarrow>
     (\<forall>t a. waited pc = Some (t, a) \<longrightarrow> 50 * int a \<le> now - t \<and> 50 * (int a - 1) \<le> so_lockTimeoutMs opts) \<and>
     (\<forall>u t a. pc = Sleeping u t a \<longrightarrow> 50 * int a \<le> u - t \<and> 50 * (int a - 1) \<le> so_lockTimeoutMs opts)"

lemma wait_inv_pc: "wait_inv opts s \<longleftrightarrow> (\<forall>i. pc_waits opts (lk_now s) (lk_pc s i))"
  unfolding wait_inv_def pc_waits_def by blast

lemma wait_goto: "wait_inv opts s \<Longrightarrow> pc_waits opts (lk_now s) pc \<Longrightarrow> wait_inv opts (goto i pc s)"
  by (simp add: wait_inv_pc goto_def)

lemma wait_frame [simp]:
  "wait_inv opts (s\<lparr>lk_path := p\<rparr>) = wait_inv opts s"
  "wait_inv opts (s\<lparr>lk_mtime := m\<rparr>) = wait_inv opts s"
  "wait_inv opts (s\<lparr>lk_written := w\<rparr>) = wait_inv opts s"
  "wait_inv opts (s\<lparr>lk_next := n\<rparr>) = wait_inv opts s"
  by (simp_all add: wait_inv_pc)

lemma wait_timeout:
  assumes "wait_inv opts s" and "50 * int a \<le> lk_now s - t"
  shows "wait_inv opts (lock_timeout_check opts i t a s)"
proof -
  have "50 \<le> sleep_time (Suc a)" by (simp add: sleep_time_def)
  with assms show ?thesis
    by (auto simp: lock_timeout_check_def pc_waits_def intro!: wait_goto)
qed

lemma wait_act:
  assumes w: "wait_inv opts s" and "0 \<le> so_lockTimeoutMs opts"
  shows "wait_inv opts (lock_act opts i ok s)"
proof -
  have p: "pc_waits opts (lk_now s) (lk_pc s i)" using w by (simp add: wait_inv_pc)
  show ?thesis
  proof (cases "lk_pc s i")
    case (Opening t a)
    with p show ?thesis using w
      by (auto simp: lock_act_def lock_open_def pc_waits_def intro!: wait_goto split: option.split)
  next
    case (Inspecting t a)
    with p show ?thesis using w wait_timeout [OF w]
      by (auto simp: lock_act_def lock_inspect_def pc_waits_def intro!: wait_goto split: option.split)
  qed (use p w assms(2) in \<open>auto simp: lock_act_def lock_enter_def lock_write_def lock_remove_stale_def lock_wake_def
      lock_release_def lock_read_token_def lock_unlink_def pc_waits_def intro!: wait_goto\<close>)
qed

inductive lock_reach :: "store_options \<Rightarrow> lock_state \<Rightarrow> bool" for opts :: store_options where
  start: "lock_reach opts lock_start"
| step: "lock_reach opts s \<Longrightarrow> lock_step opts s t \<Longrightarrow> lock_reach opts t"

lemma wait_reach: "lock_reach opts s \<Longrightarrow> 0 \<le> so_lockTimeoutMs opts \<Longrightarrow> wait_inv opts s"
proof (induction rule: lock_reach.induct)
  case start
  then show ?case by (rule wait_inv_start)
next
  case (step s t)
  then have w: "wait_inv opts s" by simp
  from step.hyps(2) show ?case
  proof cases
    case (act i ok)
    with wait_act [OF w step.prems] show ?thesis by simp
  next
    case (tick d)
    with w show ?thesis by (fastforce simp: wait_inv_def lock_tick_def)
  qed
qed

text \<open>
  C34. A bounded wait. In every interleaving a process that has not yet got the lock has slept at most
  once more than the time-out allows rounds of 50 milliseconds, and when it has waited longer than the
  time-out and finds a lock that is not stale it gives up with an error.
\<close>

theorem lock_wait_bounded:
  assumes "lock_reach opts s" and "0 \<le> so_lockTimeoutMs opts" and "lk_pc s i = Inspecting t a"
  shows "int a \<le> so_lockTimeoutMs opts div 50 + 1 \<and> 50 * int a \<le> lk_now s - t \<and>
    (lk_now s - t > so_lockTimeoutMs opts \<longrightarrow> timely opts s \<longrightarrow>
     (\<exists>e. lk_pc (lock_act opts i ok s) i = LockFailed e))"
proof -
  have "waited (lk_pc s i) = Some (t, a)" using assms(3) by simp
  then have w: "50 * int a \<le> lk_now s - t" "50 * (int a - 1) \<le> so_lockTimeoutMs opts"
    using wait_reach [OF assms(1,2)] unfolding wait_inv_def by blast+
  moreover from w(2) have "int a \<le> so_lockTimeoutMs opts div 50 + 1" by presburger
  ultimately show ?thesis using assms(3)
    by (auto simp: lock_act_def lock_inspect_def lock_timeout_check_def timely_def goto_def split: option.split)
qed

lemma acts_reach: "lock_reach opts s \<Longrightarrow> lock_reach opts (acts opts is s)"
  by (induction opts "is" s rule: acts.induct) (auto intro: lock_reach.step lock_step.act)

theorem lock_wait_bounded_witness:
  "lk_pc (acts sample_lock_options [0, 0, 0, 1, 1] lock_start) 1 = Inspecting 0 0 \<and>
   int 0 \<le> so_lockTimeoutMs sample_lock_options div 50 + 1"
proof -
  have h: "lk_pc (acts sample_lock_options [0, 0, 0, 1, 1] lock_start) 1 = Inspecting 0 0" by (simp add: lock_eval)
  have "0 \<le> so_lockTimeoutMs sample_lock_options" by (simp add: sample_lock_options_def)
  with lock_wait_bounded [OF acts_reach [OF lock_reach.start] _ h] h show ?thesis by blast
qed

section \<open>Stale locks\<close>

text \<open>
  With a stale lock the exclusion is lost. Process 0 has stopped in its operation. Processes 1 and 2
  both find its lock stale; 1 removes it and takes the lock; then 2, which has decided before, removes the
  lock of 1 and takes it as well.
\<close>

lemma stale_lock_taken_twice:
  assumes "so_lockStaleMs opts < int d"
  shows "\<exists>s. lock_reach opts s \<and> (\<exists>k l. k \<noteq> l \<and> lk_pc s 1 = Holding k \<and> lk_pc s 2 = Holding l)"
proof -
  let ?t = "lock_tick d (acts opts [0, 0, 0] lock_start)"
  let ?s = "acts opts [1, 1, 1, 2, 2, 2, 1, 1, 1, 2, 2, 2] ?t"
  have "lock_reach opts ?t"
    by (rule lock_reach.step [OF acts_reach [OF lock_reach.start] lock_step.tick])
  then have "lock_reach opts ?s" by (rule acts_reach)
  moreover have "lk_pc ?s 1 = Holding 1" "lk_pc ?s 2 = Holding 2"
    using assms by (simp_all add: lock_act_def lock_start_def lock_enter_def lock_open_def lock_write_def lock_tick_def
        lock_inspect_def lock_remove_stale_def goto_def)
  ultimately show ?thesis by (metis n_not_Suc_n numeral_2_eq_2 One_nat_def)
qed

end
