(* ===== verification/NotificationQueue.thy ===== *)
theory NotificationQueue
  imports NotificationStore JobRetention Samples
begin

text \<open>
  What the persisted queue of completions promises: read back, the file is a map from jobs to their
  latest notification, ordered by time of arrival; the operations implement the operations on that
  map, and nothing is lost except by the limit or by failing file operations.
\<close>

section \<open>Writing and reading the file\<close>

definition storable :: "job_notification \<Rightarrow> bool" where
  "storable n \<longleftrightarrow> notification_ok n \<and> meta_wf (nt_job n)"

lemma line_shape: "\<exists>t. notification_line n = CHR 0x7B # t @ [CHR 0x7D]"
  by (simp add: notification_line_def notification_json_def object_of_def)

lemma no_newline: "NEWLINE \<notin> set (notification_line n)"
  using one_line_json [of "notification_json n"]
  by (auto simp: notification_line_def one_line_def NEWLINE_def dest!: bspec)

lemma trim_line [simp]: "trim (notification_line n) = notification_line n"
proof -
  obtain t where t: "notification_line n = CHR 0x7B # t @ [CHR 0x7D]" using line_shape by blast
  have "\<not> is_ws CHR 0x7B" "\<not> is_ws CHR 0x7D" by (simp_all add: is_ws_def)
  then show ?thesis by (simp add: t trim_def)
qed

lemma strip_line [simp]: "strip_cr (notification_line n) = notification_line n" "strip_cr [] = []"
  using line_shape [of n] by (auto simp: strip_cr_def CARRIAGE_RETURN_def)

lemma line_nonempty [simp]: "notification_line n \<noteq> []"
  using line_shape [of n] by auto

lemma split_on_append: "split_on c (xs @ c # ys) = split_on c xs @ split_on c ys"
proof (induction xs)
  case (Cons x xs)
  then show ?case by (cases "split_on c xs") auto
qed simp

lemma split_on_none: "c \<notin> set xs \<Longrightarrow> split_on c xs = [xs]"
  by (induction xs) auto

definition ends_line :: "string \<Rightarrow> bool" where
  "ends_line raw \<longleftrightarrow> raw = [] \<or> last raw = NEWLINE"

lemma ends_line_cases:
  assumes "ends_line raw"
  obtains "raw = []" | r where "raw = r @ [NEWLINE]"
  using assms by (metis append_butlast_last_id ends_line_def)

lemma split_lines_snoc: "split_lines (r @ NEWLINE # l) = map strip_cr (split_on NEWLINE r) @ split_lines l"
proof -
  obtain p where "split_on NEWLINE l = p" "p \<noteq> []" by simp
  then show ?thesis by (simp add: split_lines_def split_on_append butlast_append Let_def)
qed

lemma trimmed_append_line:
  assumes "ends_line raw"
  shows "trimmed_lines (raw @ notification_line n @ [NEWLINE]) = trimmed_lines raw @ [notification_line n]"
proof -
  have l: "split_lines [] = [[]]" "split_lines (notification_line n @ [NEWLINE]) = [notification_line n, []]"
    using split_lines_snoc [of "notification_line n" "[]"] split_on_none [OF no_newline [of n]]
    by (simp_all add: split_lines_def)
  have t: "trim [] = []" by (simp add: trim_def)
  from assms show ?thesis
  proof (cases rule: ends_line_cases)
    case 1
    then show ?thesis by (simp add: trimmed_lines_def l t)
  next
    case (2 r)
    then show ?thesis
      using split_lines_snoc [of r "[]"] split_lines_snoc [of r "notification_line n @ [NEWLINE]"]
      by (simp add: trimmed_lines_def l t)
  qed
qed

lemma payload_snoc: "ns \<noteq> [] \<Longrightarrow> payload_text (n # ns) = notification_line n @ NEWLINE # payload_text ns"
  by (cases ns) (simp_all add: payload_text_def)

lemma trimmed_payload: "ns \<noteq> [] \<Longrightarrow> trimmed_lines (payload_text ns) = map notification_line ns"
proof (induction ns)
  case (Cons n ns)
  show ?case
  proof (cases "ns = []")
    case True
    then show ?thesis using trimmed_append_line [of "[]" n] by (simp add: payload_text_def ends_line_def trimmed_lines_def split_lines_def trim_def)
  next
    case False
    have "trimmed_lines (notification_line n @ NEWLINE # payload_text ns) = notification_line n # trimmed_lines (payload_text ns)"
      by (simp add: trimmed_lines_def split_lines_snoc split_on_none no_newline)
    with False Cons show ?thesis by (simp add: payload_snoc)
  qed
qed simp

lemma payload_ends [simp]: "ends_line (payload_text ns)"
  by (simp add: payload_text_def ends_line_def)

context json_reader
begin

lemma read_stored: "storable n \<Longrightarrow> so_parse opts = parse \<Longrightarrow> read_line opts (notification_line n) = Some n"
  by (simp add: read_line_def notification_line_def storable_def parse_text json_wf_notification normalizeNotification_json)

lemma read_storable:
  assumes "so_parse opts = parse" and "read_line opts t = Some n"
  shows "storable n"
proof -
  obtain v where v: "parse t = Some v" "normalizeNotification v = Some n"
    using assms by (auto simp: read_line_def split: option.splits)
  then show ?thesis
    using normalizeNotification_ok normalizeNotification_wf [OF _ parse_result] by (simp add: storable_def)
qed

lemma read_all_storable:
  assumes "so_parse opts = parse" and "n \<in> set (read_notifications opts f)"
  shows "storable n"
  using assms(2) read_storable [OF assms(1)]
  by (auto simp: read_notifications_def List.map_filter_def split: option.splits)

lemma map_filter_stored:
  "\<forall>n \<in> set ns. storable n \<Longrightarrow> so_parse opts = parse \<Longrightarrow>
   List.map_filter (read_line opts) (map notification_line ns) = ns"
  by (induction ns) (simp_all add: List.map_filter_simps read_stored)

lemma read_payload:
  assumes "\<forall>n \<in> set ns. storable n" and "so_parse opts = parse" and "ns \<noteq> []"
  shows "read_notifications opts (Some (payload_text ns)) = ns"
  using assms map_filter_stored by (simp add: read_notifications_def trimmed_payload)

lemma read_appended:
  assumes "storable n" and "so_parse opts = parse" and "ends_line (nullish f [])"
  shows "read_notifications opts (Some (nullish f [] @ notification_line n @ [NEWLINE])) = read_notifications opts f @ [n]"
proof -
  have "List.map_filter (read_line opts) (trimmed_lines []) = []"
    by (simp add: trimmed_lines_def split_lines_def trim_def List.map_filter_simps)
  then show ?thesis
    using trimmed_append_line [OF assms(3), of n] read_stored [OF assms(1,2)]
    by (cases f) (simp_all add: read_notifications_def List.map_filter_def)
qed

end

section \<open>The latest notification of each job\<close>

definition latest_step :: "store_options \<Rightarrow> job_notification \<Rightarrow> (string \<rightharpoonup> job_notification) \<Rightarrow> string \<rightharpoonup> job_notification" where
  \<comment> \<open>a notification replaces one of the same job that is not later\<close>
  "latest_step opts n M =
     (case M (nt_id n) of
        None \<Rightarrow> M(nt_id n \<mapsto> n)
      | Some e \<Rightarrow> (if notificationTime opts n \<ge> notificationTime opts e then M(nt_id n \<mapsto> n) else M))"

definition latest :: "store_options \<Rightarrow> job_notification list \<Rightarrow> string \<rightharpoonup> job_notification" where
  "latest opts ns = foldl (\<lambda>M n. latest_step opts n M) Map.empty ns"

definition pending :: "store_options \<Rightarrow> store_state \<Rightarrow> string \<rightharpoonup> job_notification" where
  \<comment> \<open>the abstract state of the store\<close>
  "pending opts s = latest opts (read_notifications opts (st_file s))"

definition by_id :: "job_notification list \<Rightarrow> string \<rightharpoonup> job_notification" where
  "by_id ns = map_of (map (\<lambda>n. (nt_id n, n)) ns)"

lemma by_id_iff: "distinct (map nt_id ns) \<Longrightarrow> by_id ns i = Some n \<longleftrightarrow> n \<in> set ns \<and> nt_id n = i"
  by (auto simp: by_id_def comp_def map_of_eq_Some_iff)

lemma by_id_none: "by_id ns i = None \<longleftrightarrow> i \<notin> nt_id ` set ns"
  by (auto simp: by_id_def map_of_eq_None_iff image_iff)

lemma set_latest_ids: "nt_id ` set (set_latest opts n m) = insert (nt_id n) (nt_id ` set m)"
  by (induction opts n m rule: set_latest.induct) auto

lemma set_latest_distinct: "distinct (map nt_id m) \<Longrightarrow> distinct (map nt_id (set_latest opts n m))"
proof (induction opts n m rule: set_latest.induct)
  case (2 opts n e es)
  then show ?case using set_latest_ids [of opts n es] by auto
qed simp

lemma by_id_set_latest: "distinct (map nt_id m) \<Longrightarrow> by_id (set_latest opts n m) = latest_step opts n (by_id m)"
proof (induction opts n m rule: set_latest.induct)
  case (2 opts n e es)
  then show ?case by (auto simp: by_id_def latest_step_def fun_eq_iff split: option.split)
qed (simp add: by_id_def latest_step_def)

lemma foldl_latest:
  "distinct (map nt_id m) \<Longrightarrow>
   distinct (map nt_id (foldl (\<lambda>m n. set_latest opts n m) m ns)) \<and>
   by_id (foldl (\<lambda>m n. set_latest opts n m) m ns) = foldl (\<lambda>M n. latest_step opts n M) (by_id m) ns"
  by (induction ns arbitrary: m) (simp_all add: set_latest_distinct by_id_set_latest)

lemma by_id_set: "distinct (map nt_id xs) \<Longrightarrow> distinct (map nt_id ys) \<Longrightarrow> set xs = set ys \<Longrightarrow> by_id xs = by_id ys"
  by (rule ext) (metis by_id_iff not_None_eq)

lemma dedupe_distinct [simp]: "distinct (map nt_id (dedupe opts ns))"
  using foldl_latest [of "[]" opts ns] by (simp add: dedupe_def)

lemma by_id_dedupe: "by_id (dedupe opts ns) = latest opts ns"
proof -
  let ?m = "foldl (\<lambda>m n. set_latest opts n m) [] ns"
  have m: "distinct (map nt_id ?m)" "by_id ?m = latest opts ns"
    using foldl_latest [of "[]" opts ns] by (simp_all add: latest_def by_id_def)
  have "by_id (dedupe opts ns) = by_id ?m" by (rule by_id_set) (simp_all add: dedupe_def m(1))
  with m(2) show ?thesis by simp
qed

lemma dedupe_iff: "n \<in> set (dedupe opts ns) \<longleftrightarrow> latest opts ns (nt_id n) = Some n"
  using by_id_iff [of "dedupe opts ns" "nt_id n" n] by (simp add: by_id_dedupe)

lemma latest_id: "latest opts ns i = Some n \<Longrightarrow> nt_id n = i"
  using by_id_iff [of "dedupe opts ns" i n] by (simp add: by_id_dedupe)

lemma latest_snoc: "latest opts (ns @ [n]) = latest_step opts n (latest opts ns)"
  by (simp add: latest_def)

lemma latest_distinct: "distinct (map nt_id ns) \<Longrightarrow> latest opts ns = by_id ns"
proof (induction ns rule: rev_induct)
  case (snoc n ns)
  then have "by_id ns (nt_id n) = None" by (auto simp: by_id_none)
  with snoc show ?case
    by (auto simp: latest_snoc latest_step_def fun_eq_iff by_id_def map_add_def split: option.splits)
qed (simp add: latest_def by_id_def)

lemma dedupe_subset: "set (dedupe opts ns) \<subseteq> set ns"
proof -
  have "set (set_latest opts n m) \<subseteq> insert n (set m)" for n m
    by (induction opts n m rule: set_latest.induct) auto
  then have "set (foldl (\<lambda>m n. set_latest opts n m) m ns) \<subseteq> set m \<union> set ns" for m
    by (induction ns arbitrary: m) (simp, fastforce)
  from this [of "[]"] show ?thesis by (simp add: dedupe_def)
qed

lemma notification_cmp_comparator:
  assumes "collation (so_localeCompare opts)"
  shows "comparator (notification_cmp opts)"
proof -
  have "notification_cmp opts = then_cmp (\<lambda>x y. int_cmp (notificationTime opts x) (notificationTime opts y))
      (\<lambda>x y. so_localeCompare opts (nt_id x) (nt_id y))"
    by (simp add: fun_eq_iff notification_cmp_def then_cmp_def int_cmp_def)
  then show ?thesis using assms by (simp add: collation_def then_cmp_comparator comparator_on int_order.comparator_axioms)
qed

lemma sorted_dedupe:
  assumes "collation (so_localeCompare opts)"
  shows "sorted_wrt (\<lambda>a b. notification_cmp opts a b < 0) (dedupe opts ns)"
proof -
  have "sorted_wrt (\<lambda>a b. notification_cmp opts a b \<le> 0) (dedupe opts ns)"
    unfolding dedupe_def by (rule comparator.sorted_sort_cmp [OF notification_cmp_comparator [OF assms]])
  moreover have "notification_cmp opts a b \<noteq> 0" if "nt_id a \<noteq> nt_id b" for a b
    using that assms by (auto simp: notification_cmp_def Let_def collation_zero)
  moreover have "sorted_wrt (\<lambda>a b. nt_id a \<noteq> nt_id b) (dedupe opts ns)"
    using dedupe_distinct [of opts ns] by (simp add: distinct_map distinct_conv_nth sorted_wrt_iff_nth_less inj_on_def)
  ultimately show ?thesis
    by (simp add: sorted_wrt_iff_nth_less) (metis order_le_neq_trans)
qed

section \<open>The limit\<close>

definition kept_newest :: "store_options \<Rightarrow> (string \<rightharpoonup> job_notification) \<Rightarrow> (string \<rightharpoonup> job_notification) \<Rightarrow> bool" where
  \<comment> \<open>\<open>M\<close> is what the limit leaves of \<open>A\<close>: as many as it allows, and the newest\<close>
  "kept_newest opts A M \<longleftrightarrow>
     M \<subseteq>\<^sub>m A \<and>
     int (card (dom M)) = min (int (card (dom A))) (max 0 (so_maxQueueSize opts)) \<and>
     (\<forall>x \<in> ran M. \<forall>y \<in> ran A - ran M. notification_cmp opts y x < 0)"

lemma dom_by_id: "dom (by_id ns) = nt_id ` set ns"
  by (rule set_eqI) (metis by_id_none domIff)

lemma card_by_id: "distinct (map nt_id ns) \<Longrightarrow> card (dom (by_id ns)) = length ns"
  by (metis distinct_card dom_by_id length_map list.set_map)

lemma ran_by_id: "distinct (map nt_id ns) \<Longrightarrow> ran (by_id ns) = set ns"
  by (auto simp: ran_def by_id_iff)

lemma retain_drop:
  "retainWithinLimit opts ns =
     (drop (nat (max 0 (js_length ns - so_maxQueueSize opts))) ns, max 0 (js_length ns - so_maxQueueSize opts))"
  by (simp add: retainWithinLimit_def Let_def js_slice_from_def)

definition retained_of :: "store_options \<Rightarrow> job_notification list \<Rightarrow> job_notification list" where
  "retained_of opts ns = fst (retainWithinLimit opts (dedupe opts ns))"

lemma retained_subset: "set (retained_of opts ns) \<subseteq> set ns"
  using dedupe_subset [of opts ns] set_drop_subset by (fastforce simp: retained_of_def retain_drop)

lemma retained_distinct [simp]: "distinct (map nt_id (retained_of opts ns))"
  using dedupe_distinct [of opts ns] by (simp add: retained_of_def retain_drop distinct_drop flip: drop_map)

lemma length_retained: "js_length (retained_of opts ns) = min (js_length (dedupe opts ns)) (max 0 (so_maxQueueSize opts))"
  by (auto simp: retained_of_def retain_drop js_length_def)

lemma retained_newest:
  assumes "collation (so_localeCompare opts)"
  shows "kept_newest opts (latest opts ns) (by_id (retained_of opts ns))"
proof -
  define d where "d = dedupe opts ns"
  define k where "k = nat (max 0 (js_length d - so_maxQueueSize opts))"
  have r: "retained_of opts ns = drop k d" by (simp add: retained_of_def retain_drop d_def k_def)
  have dd: "distinct (map nt_id d)" "distinct (map nt_id (drop k d))"
    by (simp_all add: d_def distinct_drop flip: drop_map)
  have l: "latest opts ns = by_id d" by (simp add: d_def by_id_dedupe)
  have "by_id (drop k d) \<subseteq>\<^sub>m by_id d"
    unfolding map_le_def by (metis by_id_iff [OF dd(1)] by_id_iff [OF dd(2)] domD in_set_dropD)
  moreover have "int (card (dom (by_id (drop k d)))) = min (int (card (dom (by_id d)))) (max 0 (so_maxQueueSize opts))"
    using length_retained [of opts ns] by (simp add: card_by_id dd r js_length_def flip: d_def)
  moreover have "notification_cmp opts y x < 0" if "x \<in> ran (by_id (drop k d))" "y \<in> ran (by_id d) - ran (by_id (drop k d))" for x y
  proof -
    have s: "sorted_wrt (\<lambda>a b. notification_cmp opts a b < 0) (take k d @ drop k d)"
      using sorted_dedupe [OF assms, of ns] by (simp add: d_def)
    have "set d = set (take k d) \<union> set (drop k d)" by (metis append_take_drop_id set_append)
    with that have "x \<in> set (drop k d)" "y \<in> set (take k d)" by (auto simp: ran_by_id dd)
    with s show ?thesis unfolding sorted_wrt_append by blast
  qed
  ultimately show ?thesis by (simp add: kept_newest_def l r)
qed

section \<open>The file operations\<close>

definition faults :: "store_state \<Rightarrow> nat" where
  \<comment> \<open>how many of the coming file operations will fail\<close>
  "faults s = length (filter Not (st_io s))"

definition io_only :: "store_state \<Rightarrow> store_state \<Rightarrow> bool" where
  \<comment> \<open>the file, the queue and the counter are the same\<close>
  "io_only s t \<longleftrightarrow> st_file t = st_file s \<and> st_queue t = st_queue s \<and> st_dropped t = st_dropped s \<and>
     st_locks t = st_locks s"

lemma file_op_cases:
  obtains t where "file_op f s = (Inr (), f t)" "io_only s t" "faults t = faults s"
  | t where "file_op f s = (Inl FileFailure, t)" "io_only s t" "faults s = Suc (faults t)"
proof (cases "st_io s")
  case Nil
  then show ?thesis using that(1) [of s] by (simp add: file_op_def io_only_def)
next
  case (Cons b bs)
  then show ?thesis
    using that(1) [of "s\<lparr>st_io := bs\<rparr>"] that(2) [of "s\<lparr>st_io := bs\<rparr>"]
    by (cases b) (simp_all add: file_op_def faults_def io_only_def)
qed

definition written :: "job_notification list \<Rightarrow> string option" where
  "written ns = (if ns = [] then None else Some (payload_text ns))"

lemma rewrite_cases:
  obtains t where "rewriteUnsafe ns s = (Inr (), t\<lparr>st_file := written ns\<rparr>)" "io_only s t" "faults t = faults s"
  | t where "rewriteUnsafe ns s = (Inl FileFailure, t)" "io_only s t" "faults t < faults s"
proof (cases "ns = []")
  case True
  then show ?thesis
    using that by (cases rule: file_op_cases [of "\<lambda>s. s\<lparr>st_file := None\<rparr>" s]) (auto simp: rewriteUnsafe_def clearUnsafe_def written_def)
next
  case False
  let ?put = "\<lambda>s. s\<lparr>st_file := Some (payload_text ns)\<rparr>"
  have e: "rewriteUnsafe ns s = op_bind (file_op id) (\<lambda>_. file_op ?put) s" using False by (simp add: rewriteUnsafe_def)
  show ?thesis
  proof (cases rule: file_op_cases [of id s])
    case (1 t)
    then have r: "rewriteUnsafe ns s = file_op ?put t" by (simp add: e op_bind_run)
    show ?thesis
    proof (cases rule: file_op_cases [of ?put t])
      case (1 u)
      with r \<open>io_only s t\<close> \<open>faults t = faults s\<close> that(1) [of u] False show ?thesis by (simp add: written_def io_only_def)
    next
      case (2 u)
      with r \<open>io_only s t\<close> \<open>faults t = faults s\<close> that(2) [of u] show ?thesis by (simp add: io_only_def)
    qed
  next
    case (2 t)
    then show ?thesis using that(2) [of t] by (simp add: e op_bind_run)
  qed
qed

lemma read_cases:
  obtains t where "readUnsafe opts s = (Inr \<lparr>pr_notifications = read_notifications opts (st_file s),
      pr_malformed = count_malformed opts (st_file s), pr_readFailed = False\<rparr>, t)" "io_only s t" "faults t = faults s"
  | t where "readUnsafe opts s = (Inr \<lparr>pr_notifications = [], pr_malformed = 0, pr_readFailed = True\<rparr>, t)"
    "io_only s t" "faults s = Suc (faults t)"
proof (cases rule: file_op_cases [of id s])
  case (1 t)
  then show ?thesis using that(1) [of t] by (simp add: readUnsafe_def op_catch_def op_bind_run io_only_def)
next
  case (2 t)
  then show ?thesis
    using that(2) [of "t\<lparr>st_log := st_log t @ [ReadFailure]\<rparr>"]
    by (simp add: readUnsafe_def op_catch_def op_bind_run warn_def op_run io_only_def faults_def)
qed

lemma io_only_trans: "io_only s t \<Longrightarrow> io_only t u \<Longrightarrow> io_only s u"
  by (simp add: io_only_def)

section \<open>The outcome of the operations\<close>

lemma store_run:
  "warn w s = (Inr (), s\<lparr>st_log := st_log s @ [w]\<rparr>)" "set_queue ns s = (Inr (), s\<lparr>st_queue := ns\<rparr>)"
  "add_dropped k s = (Inr (), s\<lparr>st_dropped := st_dropped s + k\<rparr>)"
  "warn_if b w s = (Inr (), if b then s\<lparr>st_log := st_log s @ [w]\<rparr> else s)"
  by (simp_all add: warn_def set_queue_def add_dropped_def warn_if_def op_run)

lemma faults_simps [simp]: "faults (s\<lparr>st_log := l\<rparr>) = faults s" "faults (s\<lparr>st_queue := q\<rparr>) = faults s"
  "faults (s\<lparr>st_dropped := d\<rparr>) = faults s" "faults (s\<lparr>st_file := f\<rparr>) = faults s"
  "faults (s\<lparr>st_locks := ls\<rparr>) = faults s"
  by (simp_all add: faults_def)

lemma enqueue_try_cases:
  fixes opts n s
  defines "r \<equiv> retained_of opts (read_notifications opts (st_file s) @ [n])"
  obtains t where "enqueue_try opts n s = (Inr (js_length r), t)" "st_file t = written r" "faults t = faults s"
  | e t where "enqueue_try opts n s = (Inl e, t)" "st_file t = st_file s" "faults t < faults s"
proof (cases rule: read_cases [of opts s])
  case (2 t)
  then show ?thesis
    using that(2) [of ReadBeforeEnqueue t] by (simp add: enqueue_try_def op_bind_run op_run io_only_def)
next
  case (1 t)
  let ?read = "\<lparr>pr_notifications = read_notifications opts (st_file s),
      pr_malformed = count_malformed opts (st_file s), pr_readFailed = False\<rparr>"
  obtain v where v: "retainWithinLimit opts (dedupe opts (read_notifications opts (st_file s) @ [n])) = (r, v)"
    by (metis r_def retained_of_def surjective_pairing)
  define u where "u = t\<lparr>st_dropped := st_dropped t + v\<rparr>"
  define w where "w = (if count_malformed opts (st_file s) > 0
      then u\<lparr>st_log := st_log u @ [MalformedWhileEnqueueing (count_malformed opts (st_file s))]\<rparr> else u)"
  define x where "x = w\<lparr>st_queue := filter (\<lambda>y. nt_id y \<in> set (map nt_id r)) (dedupe opts (st_queue w))\<rparr>"
  have x: "st_file x = st_file s" "faults x = faults s" using 1 by (auto simp: x_def w_def u_def io_only_def)
  have run: "enqueue_try opts n s =
      op_bind (rewriteUnsafe r) (\<lambda>_. op_bind (warn_if (v > 0) (QueueOverflow v (st_dropped w))) (\<lambda>_. op_return (js_length r))) x"
  proof -
    have s: "add_dropped v t = (Inr (), u)"
      "warn_if (count_malformed opts (st_file s) > 0) (MalformedWhileEnqueueing (count_malformed opts (st_file s))) u = (Inr (), w)"
      "op_state w = (Inr w, w)"
      "set_queue (filter (\<lambda>y. nt_id y \<in> set (map nt_id r)) (dedupe opts (st_queue w))) w = (Inr (), x)"
      by (simp_all only: store_run op_run u_def w_def x_def)
    show ?thesis
      by (simp add: enqueue_try_def op_bind_def 1(1) v s Let_def del: set_map)
  qed
  show ?thesis
  proof (cases rule: rewrite_cases [of r x])
    case (1 y)
    then show ?thesis
      using that(1) x by (auto simp: run op_bind_def store_run op_run io_only_def)
  next
    case (2 y)
    then show ?thesis using that(2) x by (simp add: run op_bind_def io_only_def)
  qed
qed

lemma enqueue_catch_cases:
  obtains k t where "enqueue_catch opts n s = (Inr k, t)" "faults t = faults s"
    "st_file t = Some (nullish (st_file s) [] @ notification_line n @ [NEWLINE])"
  | k t where "enqueue_catch opts n s = (Inr k, t)" "st_file t = st_file s" "faults t < faults s"
proof -
  define u where "u = s\<lparr>st_queue := butlast (st_queue s), st_log := st_log s @ [PersistFailed (nt_id n)]\<rparr>"
  have u: "st_file u = st_file s" "faults u = faults s" by (simp_all add: u_def faults_def)
  have run: "enqueue_catch opts n s =
      op_bind (op_catch (appendUnsafe n) (\<lambda>_. op_return ())) (\<lambda>_. op_bind op_state (\<lambda>t. op_return (js_length (st_queue t)))) u"
    by (simp add: enqueue_catch_def op_bind_def store_run op_run u_def)
  show ?thesis
  proof (cases rule: file_op_cases [of "\<lambda>s. s\<lparr>st_file := Some (nullish (st_file s) [] @ notification_line n @ [NEWLINE])\<rparr>" u])
    case (1 t)
    then show ?thesis using that(1) u
      by (simp add: run appendUnsafe_def op_bind_def op_catch_def op_run io_only_def)
  next
    case (2 t)
    then show ?thesis using that(2) u
      by (simp add: run appendUnsafe_def op_bind_def op_catch_def op_run io_only_def)
  qed
qed

definition lock_free :: "store_state \<Rightarrow> bool" where
  \<comment> \<open>the next attempt to take the lock succeeds\<close>
  "lock_free s \<longleftrightarrow> (case st_locks s of [] \<Rightarrow> True | l # _ \<Rightarrow> l = None)"

lemma locked:
  assumes "lock_free s"
  obtains t where "\<And>m. withFileLock m s = m t" "st_file t = st_file s" "st_queue t = st_queue s" "faults t = faults s"
    "st_dropped t = st_dropped s"
  using assms that [of s] that [of "s\<lparr>st_locks := tl (st_locks s)\<rparr>"]
  by (auto simp: lock_free_def withFileLock_def split: list.splits)

definition file_ok :: "store_state \<Rightarrow> bool" where
  "file_ok s \<longleftrightarrow> ends_line (nullish (st_file s) [])"

lemma file_ok_written [simp]: "st_file s = written ns \<Longrightarrow> file_ok s"
  by (simp add: file_ok_def written_def) (simp add: ends_line_def)

text \<open>What the limit does to the newest notifications of each job when one arrives.\<close>

definition enqueued :: "store_options \<Rightarrow> job_notification \<Rightarrow> (string \<rightharpoonup> job_notification) \<Rightarrow>
    (string \<rightharpoonup> job_notification) \<Rightarrow> int \<Rightarrow> bool" where
  "enqueued opts n M M' k \<longleftrightarrow> kept_newest opts (latest_step opts n M) M' \<and> k = int (card (dom M'))"

context json_reader
begin

lemma read_written:
  "\<forall>n \<in> set ns. storable n \<Longrightarrow> so_parse opts = parse \<Longrightarrow> read_notifications opts (written ns) = ns"
  using read_payload by (auto simp: written_def read_notifications_def)

lemma retained_read:
  assumes "so_parse opts = parse" and "storable n"
  shows "read_notifications opts (written (retained_of opts (read_notifications opts f @ [n]))) =
    retained_of opts (read_notifications opts f @ [n])"
  using retained_subset [of opts "read_notifications opts f @ [n]"] read_all_storable [OF assms(1)] assms
  by (intro read_written) auto

lemma enqueue_result:
  assumes "store_enqueue opts n s = (r, s')" and "lock_free s" and "file_ok s" and "storable n"
    and "so_parse opts = parse" and "collation (so_localeCompare opts)"
  shows "file_ok s' \<and> (\<exists>k. r = Inr k \<and>
    (enqueued opts n (pending opts s) (pending opts s') k \<or>
     (pending opts s' = latest_step opts n (pending opts s) \<and> faults s' < faults s) \<or>
     (pending opts s' = pending opts s \<and> faults s' + 2 \<le> faults s)))"
proof -
  obtain t where t: "\<And>m :: int store_op. withFileLock m s = m t" "st_file t = st_file s" "faults t = faults s"
    using locked [OF assms(2)] by metis
  define u where "u = t\<lparr>st_queue := st_queue t @ [n]\<rparr>"
  have u: "st_file u = st_file s" "faults u = faults s" using t by (simp_all add: u_def)
  have run: "store_enqueue opts n s = op_catch (enqueue_try opts n) (\<lambda>_. enqueue_catch opts n) u"
    by (simp add: store_enqueue_def t(1) op_bind_def op_run store_run u_def)
  let ?ns = "read_notifications opts (st_file s)"
  show ?thesis
  proof (cases rule: enqueue_try_cases [of opts n u])
    case (1 v)
    then have v: "s' = v" "r = Inr (js_length (retained_of opts (?ns @ [n])))" "st_file v = written (retained_of opts (?ns @ [n]))"
      using assms(1) run u by (simp_all add: op_catch_def)
    have p: "pending opts v = by_id (retained_of opts (?ns @ [n]))"
      by (simp add: pending_def v(3) retained_read [OF assms(5,4)] latest_distinct)
    have "enqueued opts n (pending opts s) (pending opts v) (js_length (retained_of opts (?ns @ [n])))"
      using retained_newest [OF assms(6), of "?ns @ [n]"]
      by (simp add: enqueued_def p pending_def [of opts s] latest_snoc card_by_id js_length_def)
    then show ?thesis using v file_ok_written [of v] by blast
  next
    case (2 e v)
    then have v: "st_file v = st_file s" "faults v < faults s" "store_enqueue opts n s = enqueue_catch opts n v"
      using run u by (simp_all add: op_catch_def)
    show ?thesis
    proof (cases rule: enqueue_catch_cases [of opts n v])
      case (1 k w)
      have "read_notifications opts (st_file w) = ?ns @ [n]"
        using read_appended [OF assms(4,5), of "st_file v"] assms(3) 1 v by (simp add: file_ok_def)
      then have "pending opts w = latest_step opts n (pending opts s)" by (simp add: pending_def latest_snoc)
      moreover have "file_ok w" by (simp add: file_ok_def 1 ends_line_def)
      ultimately show ?thesis using 1 v assms(1) by auto
    next
      case (2 k w)
      then have "pending opts w = pending opts s" "file_ok w" using v assms(3) by (simp_all add: pending_def file_ok_def)
      then show ?thesis using 2 v assms(1) by auto
    qed
  qed
qed

end

section \<open>Draining and counting\<close>

lemma find_by_id: "find (\<lambda>n. nt_id n = i) ns = by_id ns i"
  by (induction ns) (simp_all add: by_id_def)

lemma by_id_filter: "by_id (filter (\<lambda>n. nt_id n \<noteq> i) ns) = (by_id ns)(i := None)"
  by (induction ns) (auto simp: by_id_def fun_eq_iff)

lemma distinct_filter_ids: "distinct (map nt_id ns) \<Longrightarrow> distinct (map nt_id (filter P ns))"
  by (simp add: distinct_map_filter)

lemma count_malformed_nonneg: "0 \<le> count_malformed opts f"
  by (simp add: count_malformed_def js_length_def split: option.split)

definition drained :: "store_options \<Rightarrow> string \<Rightarrow> store_state \<Rightarrow> store_error + job_notification option \<Rightarrow> store_state \<Rightarrow> bool" where
  \<comment> \<open>the pending notification of the job is returned and no longer pending; a failure changes nothing\<close>
  "drained opts i s r s' \<longleftrightarrow> (case r of
       Inr t \<Rightarrow> t = pending opts s i \<and> pending opts s' = (pending opts s)(i := None)
     | Inl _ \<Rightarrow> pending opts s' = pending opts s \<and> faults s' < faults s)"

definition drained_all :: "store_options \<Rightarrow> store_state \<Rightarrow> store_error + job_notification list \<Rightarrow> store_state \<Rightarrow> bool" where
  \<comment> \<open>all pending notifications are returned, in order; a failure to clear the file is tolerated\<close>
  "drained_all opts s r s' \<longleftrightarrow> (case r of
       Inr ns \<Rightarrow> distinct (map nt_id ns) \<and> by_id ns = pending opts s \<and>
         sorted_wrt (\<lambda>a b. notification_cmp opts a b < 0) ns \<and>
         (pending opts s' = Map.empty \<or> (pending opts s' = pending opts s \<and> faults s' < faults s))
     | Inl _ \<Rightarrow> pending opts s' = pending opts s \<and> faults s' < faults s)"

definition counted :: "store_options \<Rightarrow> store_state \<Rightarrow> store_error + notification_stats \<Rightarrow> store_state \<Rightarrow> bool" where
  "counted opts s r s' \<longleftrightarrow> pending opts s' = pending opts s \<and>
     (\<exists>st. r = Inr st \<and> ns_dropped st = st_dropped s \<and>
        (ns_pending st = int (card (dom (pending opts s))) \<or> faults s' < faults s))"

context json_reader
begin

lemma drain_result:
  assumes "store_drainForJob opts i s = (r, s')" and "lock_free s" and "file_ok s" and "so_parse opts = parse"
  shows "file_ok s' \<and> drained opts i s r s'"
proof -
  obtain t where t: "\<And>m :: job_notification option store_op. withFileLock m s = m t" "st_file t = st_file s" "faults t = faults s"
    using locked [OF assms(2)] by metis
  let ?ns = "read_notifications opts (st_file s)" and ?bad = "count_malformed opts (st_file s)"
  let ?rest = "filter (\<lambda>n. nt_id n \<noteq> i) (dedupe opts ?ns)"
  show ?thesis
  proof (cases rule: read_cases [of opts t])
    case (2 u)
    then have "r = Inl ReadBeforeJobDrain" "s' = u"
      using assms(1) by (simp_all add: store_drainForJob_def t(1) op_bind_def op_run)
    then show ?thesis using 2 t assms(3) by (simp add: drained_def io_only_def pending_def file_ok_def)
  next
    case (1 u)
    have u: "st_file u = st_file s" "faults u = faults s" using 1 t by (simp_all add: io_only_def)
    have found: "find (\<lambda>n. nt_id n = i) (dedupe opts ?ns) = pending opts s i"
      by (simp add: find_by_id by_id_dedupe pending_def)
    show ?thesis
    proof (cases "pending opts s i = None \<and> ?bad = 0")
      case True
      then have "r = Inr None" "s' = u"
        using assms(1) 1(1) t(2) found by (auto simp: store_drainForJob_def t(1) op_bind_def op_run Let_def)
      then show ?thesis using True u assms(3)
        by (simp add: drained_def pending_def file_ok_def fun_upd_idem)
    next
      case False
      define v where "v = u\<lparr>st_queue := filter (\<lambda>n. nt_id n \<noteq> i) (dedupe opts (st_queue u))\<rparr>"
      have run: "store_drainForJob opts i s =
          op_bind (op_catch (rewriteUnsafe ?rest) (\<lambda>e. op_bind (warn DrainRewriteFailed) (\<lambda>_. op_fail e))) (\<lambda>_.
            op_bind (warn_if (?bad > 0) (MalformedWhileJobDrain ?bad i)) (\<lambda>_. op_return (pending opts s i))) v"
        using False by (auto simp: store_drainForJob_def t op_bind_def 1(1) op_run store_run Let_def found v_def)
      show ?thesis
      proof (cases rule: rewrite_cases [of ?rest v])
        case (1 w)
        then have r: "r = Inr (pending opts s i)" "st_file s' = written ?rest"
          using assms(1) run by (auto simp: op_bind_def op_catch_def store_run op_run split: if_splits)
        have "read_notifications opts (written ?rest) = ?rest"
          using dedupe_subset [of opts ?ns] read_all_storable [OF assms(4)] by (intro read_written assms(4)) auto
        then have "pending opts s' = (pending opts s)(i := None)"
          by (simp add: pending_def r latest_distinct distinct_filter_ids by_id_filter by_id_dedupe)
        then show ?thesis using r file_ok_written [of s'] by (simp add: drained_def)
      next
        case (2 w)
        then have "r = Inl FileFailure" "st_file s' = st_file s" "faults s' < faults s"
          using assms(1) run u by (auto simp: op_bind_def op_catch_def store_run op_run v_def io_only_def)
        then show ?thesis using assms(3) by (simp add: drained_def pending_def file_ok_def)
      qed
    qed
  qed
qed

end

lemma drainAll_result:
  assumes "store_drainAll opts s = (r, s')" and "lock_free s" and "file_ok s" and "collation (so_localeCompare opts)"
  shows "file_ok s' \<and> drained_all opts s r s'"
proof -
  obtain t where t: "\<And>m :: job_notification list store_op. withFileLock m s = m t" "st_file t = st_file s" "faults t = faults s"
    using locked [OF assms(2)] by metis
  let ?ns = "read_notifications opts (st_file s)" and ?bad = "count_malformed opts (st_file s)"
  show ?thesis
  proof (cases rule: read_cases [of opts t])
    case (2 u)
    then have "r = Inl ReadBeforeDrain" "s' = u"
      using assms(1) by (simp_all add: store_drainAll_def t(1) op_bind_def op_run)
    then show ?thesis using 2 t assms(3) by (simp add: drained_all_def io_only_def pending_def file_ok_def)
  next
    case (1 u)
    define w where "w = (if ?bad > 0 then u\<lparr>st_queue := [], st_log := st_log u @ [MalformedWhileDrain ?bad]\<rparr>
        else u\<lparr>st_queue := []\<rparr>)"
    have w: "st_file w = st_file s" "faults w = faults s"
      using 1 t by (auto simp: w_def io_only_def faults_def)
    have run: "store_drainAll opts s =
        op_bind (op_catch clearUnsafe (\<lambda>_. warn ClearFailed)) (\<lambda>_. op_return (dedupe opts ?ns)) w"
      by (simp add: store_drainAll_def t op_bind_def 1(1) op_run store_run Let_def w_def)
    have ns: "distinct (map nt_id (dedupe opts ?ns))" "by_id (dedupe opts ?ns) = pending opts s"
      "sorted_wrt (\<lambda>a b. notification_cmp opts a b < 0) (dedupe opts ?ns)"
      by (simp_all add: by_id_dedupe pending_def sorted_dedupe [OF assms(4)])
    show ?thesis
    proof (cases rule: file_op_cases [of "\<lambda>s. s\<lparr>st_file := None\<rparr>" w])
      case (1 x)
      then have "r = Inr (dedupe opts ?ns)" "st_file s' = None"
        using assms(1) run by (auto simp: clearUnsafe_def op_bind_def op_catch_def op_run)
      then show ?thesis using ns by (simp add: drained_all_def pending_def file_ok_def ends_line_def read_notifications_def latest_def)
    next
      case (2 x)
      then have "r = Inr (dedupe opts ?ns)" "st_file s' = st_file s" "faults s' < faults s"
        using assms(1) run w by (auto simp: clearUnsafe_def op_bind_def op_catch_def op_run store_run io_only_def)
      then show ?thesis using ns assms(3) by (simp add: drained_all_def pending_def file_ok_def)
    qed
  qed
qed

lemma bytes_same:
  obtains b t where "storeBytes s = (Inr b, t)" "io_only s t" "faults t \<le> faults s"
proof (cases rule: file_op_cases [of id s])
  case (1 t)
  then show ?thesis using that by (simp add: storeBytes_def op_catch_def op_bind_def)
next
  case (2 t)
  then show ?thesis using that [of 0 "t\<lparr>st_log := st_log t @ [StatFailure]\<rparr>"]
    by (simp add: storeBytes_def op_catch_def op_bind_def store_run op_run io_only_def)
qed

lemma stats_result:
  assumes "store_getStats opts k s = (r, s')" and "lock_free s" and "file_ok s"
  shows "file_ok s' \<and> counted opts s r s'"
proof -
  obtain t where t: "\<And>m :: notification_stats store_op. withFileLock m s = m t" "st_file t = st_file s" "faults t = faults s"
    "st_dropped t = st_dropped s"
    using locked [OF assms(2)] by metis
  show ?thesis
  proof (cases rule: read_cases [of opts t])
    case (2 u)
    obtain b v where v: "storeBytes u = (Inr b, v)" "io_only u v" "faults v \<le> faults u" by (rule bytes_same)
    then have "s' = v" "\<exists>st. r = Inr st \<and> ns_dropped st = st_dropped v"
      using assms(1) 2 by (auto simp: store_getStats_def t(1) op_bind_def op_run buildStats_def Let_def)
    then show ?thesis using 2 v t assms(3) by (auto simp: counted_def io_only_def pending_def file_ok_def)
  next
    case (1 u)
    define w where "w = (if count_malformed opts (st_file s) > 0
        then u\<lparr>st_log := st_log u @ [MalformedWhileStats (count_malformed opts (st_file s))]\<rparr> else u)"
    have w: "io_only u w" by (simp add: w_def io_only_def)
    obtain b v where v: "storeBytes w = (Inr b, v)" "io_only w v" "faults v \<le> faults w" by (rule bytes_same)
    have "s' = v \<and> r = Inr (buildStats opts (st_dropped v) (dedupe opts (read_notifications opts (st_file s))) b k)"
      using assms(1) 1(1) v(1) by (simp add: store_getStats_def t op_bind_def op_run store_run Let_def w_def split: if_splits)
    moreover have "js_length (dedupe opts ns) = int (card (dom (latest opts ns)))" for ns
      using card_by_id [OF dedupe_distinct [of opts ns]] by (simp add: by_id_dedupe js_length_def)
    ultimately show ?thesis
      using 1 w v t assms(3) by (auto simp: counted_def io_only_def pending_def file_ok_def buildStats_def Let_def)
  qed
qed

context json_reader
begin

lemma load_result:
  assumes "store_load opts s = (r, s')" and "lock_free s" and "file_ok s" and "so_parse opts = parse"
    and "collation (so_localeCompare opts)"
  shows "file_ok s' \<and> r = Inr () \<and> (pending opts s' = pending opts s \<or> kept_newest opts (pending opts s) (pending opts s'))"
proof -
  obtain t where t: "\<And>m :: unit store_op. withFileLock m s = m t" "st_file t = st_file s" "faults t = faults s"
    using locked [OF assms(2)] by metis
  let ?ns = "read_notifications opts (st_file s)" and ?bad = "count_malformed opts (st_file s)"
  show ?thesis
  proof (cases rule: read_cases [of opts t])
    case (2 u)
    then have "r = Inr ()" "s' = u" using assms(1) by (simp_all add: store_load_def t(1) op_bind_def op_run)
    then show ?thesis using 2 t assms(3) by (simp add: io_only_def pending_def file_ok_def)
  next
    case (1 u)
    obtain v where v: "retainWithinLimit opts (dedupe opts ?ns) = (retained_of opts ?ns, v)"
      by (metis retained_of_def surjective_pairing)
    define w0 where "w0 = u\<lparr>st_queue := retained_of opts ?ns\<rparr>"
    define w1 where "w1 = w0\<lparr>st_dropped := st_dropped w0 + v\<rparr>"
    define w2 where "w2 = (if ?bad > 0 then w1\<lparr>st_log := st_log w1 @ [SkippedMalformed ?bad]\<rparr> else w1)"
    define w where "w = (if v > 0 then w2\<lparr>st_log := st_log w2 @ [StartupOverflow v]\<rparr> else w2)"
    have w: "st_file w = st_file s" using 1 t by (simp add: w_def w2_def w1_def w0_def io_only_def)
    have steps: "set_queue (retained_of opts ?ns) u = (Inr (), w0)" "add_dropped v w0 = (Inr (), w1)"
      "warn_if (?bad > 0) (SkippedMalformed ?bad) w1 = (Inr (), w2)" "warn_if (v > 0) (StartupOverflow v) w2 = (Inr (), w)"
      by (simp_all only: store_run w0_def w1_def w2_def w_def)
    have run: "store_load opts s =
        (if length (retained_of opts ?ns) \<noteq> length ?ns \<or> ?bad > 0 \<or> v > 0
         then op_catch (rewriteUnsafe (retained_of opts ?ns)) (\<lambda>_. warn CompactFailed) w else (Inr (), w))"
      using 1(1) t(2) v by (simp add: store_load_def t(1) op_bind_def steps op_run Let_def)
    consider "s' = w" "r = Inr ()" | "st_file s' = written (retained_of opts ?ns)" "r = Inr ()"
      | "st_file s' = st_file s" "r = Inr ()"
    proof (cases rule: rewrite_cases [of "retained_of opts ?ns" w])
      case (1 x)
      then show ?thesis using that assms(1) run by (auto simp: op_catch_def split: if_splits)
    next
      case (2 x)
      then show ?thesis using that assms(1) run w by (auto simp: op_catch_def store_run io_only_def split: if_splits)
    qed
    then show ?thesis
    proof cases
      case 2
      have "read_notifications opts (written (retained_of opts ?ns)) = retained_of opts ?ns"
        using retained_subset [of opts ?ns] read_all_storable [OF assms(4)] by (intro read_written assms(4)) auto
      then have "pending opts s' = by_id (retained_of opts ?ns)" by (simp add: pending_def 2 latest_distinct)
      then show ?thesis
        using retained_newest [OF assms(5), of ?ns] 2 file_ok_written [of s'] by (simp add: pending_def [of opts s])
    qed (use w assms(3) in \<open>simp_all add: pending_def file_ok_def\<close>)
  qed
qed

end

section \<open>Properties of the queue\<close>

text \<open>
  C14. Enqueueing a completion. Whatever file operations fail, the call returns and the file stays
  readable; afterwards the pending completions are what the limit leaves of the previous ones with the
  new one in place of an older one of the same job, the newest, as many as the returned number says; or,
  when reading or rewriting failed, all of them and the new one; or, only when two operations failed, the
  previous ones, and the new one is lost.
\<close>

theorem enqueue_outcome:
  assumes "store_enqueue opts n s = (r, s')" and "lock_free s" and "file_ok s" and "storable n"
    and "json_reader (so_parse opts)" and "collation (so_localeCompare opts)"
  shows "file_ok s' \<and> (\<exists>k. r = Inr k \<and>
    (enqueued opts n (pending opts s) (pending opts s') k \<or>
     (pending opts s' = latest_step opts n (pending opts s) \<and> faults s' < faults s) \<or>
     (pending opts s' = pending opts s \<and> faults s' + 2 \<le> faults s)))"
  using json_reader.enqueue_result [OF assms(5,1,2,3,4) refl assms(6)] .

definition sample_store_options :: store_options where
  "sample_store_options = \<lparr>so_storePath = ''/n/q'', so_maxQueueSize = 2, so_lockStaleMs = 1000, so_lockTimeoutMs = 100,
     so_previewMax = 5, so_previewTextMax = 10, so_parse = json_parse, so_time = (\<lambda>s. Some (int (length s))),
     so_localeCompare = lex_cmp\<rparr>"

definition sample_notification :: "string \<Rightarrow> job_notification" where
  "sample_notification i = \<lparr>nt_receivedAt = stamp 3, nt_job = tidy_job (sample_job i Succeeded (Some (stamp 2)))\<rparr>"

definition sample_store :: store_state where
  "sample_store = \<lparr>st_queue = [], st_dropped = 0,
     st_file = Some (payload_text [sample_notification uuid1, sample_notification uuid2]),
     st_locks = [], st_io = [True, False], st_log = []\<rparr>"

lemma sample_notification_storable: "storable (sample_notification uuid3)"
proof -
  have "notification_ok (sample_notification uuid3)" by code_simp
  moreover have "meta_wf (nt_job (sample_notification uuid3))" by code_simp
  ultimately show ?thesis by (simp add: storable_def)
qed

lemma sample_store_ok: "lock_free sample_store" "file_ok sample_store" "json_reader (so_parse sample_store_options)"
  "collation (so_localeCompare sample_store_options)"
  using payload_ends json_parse.json_reader_axioms collation_lex_cmp
  by (simp_all add: sample_store_def sample_store_options_def lock_free_def file_ok_def)

theorem enqueue_outcome_witness:
  "\<exists>r s'. store_enqueue sample_store_options (sample_notification uuid3) sample_store = (r, s') \<and> file_ok s' \<and> (\<exists>k. r = Inr k)"
proof -
  obtain r s' where e: "store_enqueue sample_store_options (sample_notification uuid3) sample_store = (r, s')" by fastforce
  show ?thesis
    using enqueue_outcome [OF e sample_store_ok(1,2) sample_notification_storable sample_store_ok(3,4)] e by blast
qed

text \<open>
  A completion that could be neither written nor appended is acknowledged all the same: the call
  returns normally, and the sender does not send it again.
\<close>

lemma lost_but_acknowledged:
  "\<exists>s'. store_enqueue opts n (sample_store\<lparr>st_io := [False, False], st_file := None\<rparr>) = (Inr 0, s') \<and> st_file s' = None"
  by (simp add: sample_store_def store_enqueue_def withFileLock_def op_bind_def op_catch_def op_run store_run enqueue_try_def
      readUnsafe_def file_op_def enqueue_catch_def appendUnsafe_def)

text \<open>
  C15. The file implements a map from jobs to their latest notification. Whatever file operations fail:
  draining a job returns exactly its pending notification and removes exactly that; draining everything
  returns every pending notification, each once, from the oldest to the newest, and leaves the file empty
  unless clearing it failed; the statistics count the pending notifications and change nothing;
  loading keeps them up to the limit; and a failed operation changes nothing.
\<close>

theorem drains_refine_map:
  assumes "lock_free s" and "file_ok s" and "json_reader (so_parse opts)" and "collation (so_localeCompare opts)"
  shows "(case store_drainForJob opts i s of (r, s') \<Rightarrow> file_ok s' \<and> drained opts i s r s') \<and>
    (case store_drainAll opts s of (r, s') \<Rightarrow> file_ok s' \<and> drained_all opts s r s') \<and>
    (case store_getStats opts k s of (r, s') \<Rightarrow> file_ok s' \<and> counted opts s r s') \<and>
    (case store_load opts s of (r, s') \<Rightarrow> file_ok s' \<and> r = Inr () \<and>
       (pending opts s' = pending opts s \<or> kept_newest opts (pending opts s) (pending opts s')))"
  using json_reader.drain_result [OF assms(3) _ assms(1,2) refl] drainAll_result [OF _ assms(1,2,4)]
    stats_result [OF _ assms(1,2)] json_reader.load_result [OF assms(3) _ assms(1,2) refl assms(4)]
  by (simp split: prod.split)

theorem drains_refine_map_witness:
  "(case store_drainForJob sample_store_options uuid1 sample_store of
      (r, s') \<Rightarrow> file_ok s' \<and> drained sample_store_options uuid1 sample_store r s') \<and>
    (case store_drainAll sample_store_options sample_store of
      (r, s') \<Rightarrow> file_ok s' \<and> drained_all sample_store_options sample_store r s') \<and>
    (case store_getStats sample_store_options 1 sample_store of
      (r, s') \<Rightarrow> file_ok s' \<and> counted sample_store_options sample_store r s') \<and>
    (case store_load sample_store_options sample_store of
      (r, s') \<Rightarrow> file_ok s' \<and> r = Inr () \<and>
       (pending sample_store_options s' = pending sample_store_options sample_store \<or>
        kept_newest sample_store_options (pending sample_store_options sample_store) (pending sample_store_options s')))"
  by (rule drains_refine_map [OF sample_store_ok])

end
