(* ===== verification/UrlText.thy ===== *)
theory UrlText
  imports CallbackAuth
begin

text \<open>
  Text in URLs, as the standard library has it: \<open>encodeURIComponent\<close>, the serialisation of
  \<open>URLSearchParams\<close>, and the decoding of a path parameter, with the lemmas that a component is read
  back as it was written and never leaves its segment of the path.
\<close>

section \<open>UTF-8\<close>

fun utf8_text :: "string \<Rightarrow> string" where
  \<comment> \<open>\<open>Buffer.toString('utf8')\<close> of the bytes of a text whose code units are below 256\<close>
  "utf8_text [] = []"
| "utf8_text (c # r) =
     (let n = (of_char c :: nat) in
      if n < 128 then c # utf8_text r
      else (case r of [] \<Rightarrow> [] | d # q \<Rightarrow> char_of ((n - 192) * 64 + (of_char d - 128)) # utf8_text q))"

lemma utf8_text_bytes [simp]: "utf8_text (utf8_bytes t) = t"
proof (induction t)
  case (Cons c t)
  let ?n = "of_char c :: nat"
  have n: "?n < 256" by (rule of_char_less)
  show ?case
  proof (cases "?n < 128")
    case True
    with Cons show ?thesis by simp
  next
    case False
    have c: "(of_char (char_of (192 + ?n div 64)) :: nat) = 192 + ?n div 64"
      "(of_char (char_of (128 + ?n mod 64)) :: nat) = 128 + ?n mod 64"
    proof -
      have "192 + ?n div 64 < 256" "128 + ?n mod 64 < 256" using n by linarith+
      then show "(of_char (char_of (192 + ?n div 64)) :: nat) = 192 + ?n div 64"
        "(of_char (char_of (128 + ?n mod 64)) :: nat) = 128 + ?n mod 64" by (simp_all only: of_char_of mod_less)
    qed
    have "64 * (?n div 64) + ?n mod 64 = ?n" by simp
    then show ?thesis using False Cons c by (simp add: Let_def mult.commute)
  qed
qed simp

section \<open>Percent encoding\<close>

definition upper_hex :: "nat \<Rightarrow> char" where
  "upper_hex n = (if n < 10 then char_of (48 + n) else char_of (55 + n))"

definition percent :: "char \<Rightarrow> string" where
  "percent b = [CHR ''%'', upper_hex ((of_char b :: nat) div 16), upper_hex ((of_char b :: nat) mod 16)]"

definition is_alnum :: "char \<Rightarrow> bool" where
  "is_alnum c = (let n = (of_char c :: nat) in
     (48 \<le> n \<and> n \<le> 57) \<or> (65 \<le> n \<and> n \<le> 90) \<or> (97 \<le> n \<and> n \<le> 122))"

definition unreserved :: "char \<Rightarrow> bool" where
  "unreserved c \<longleftrightarrow> is_alnum c \<or>
     c \<in> {CHR ''-'', CHR ''_'', CHR ''.'', CHR ''!'', CHR ''~'', CHR ''*'', CHR 0x27, CHR ''('', CHR '')''}"

definition encode_byte :: "char \<Rightarrow> string" where
  "encode_byte b = (if unreserved b then [b] else percent b)"

definition encodeURIComponent :: "string \<Rightarrow> string" where
  "encodeURIComponent s = concat (map encode_byte (utf8_bytes s))"

definition form_byte :: "char \<Rightarrow> string" where
  "form_byte b =
     (if b = CHR '' '' then ''+''
      else if is_alnum b \<or> b \<in> {CHR ''*'', CHR ''-'', CHR ''.'', CHR ''_''} then [b]
      else percent b)"

definition form_encode :: "string \<Rightarrow> string" where
  \<comment> \<open>a name or a value in \<open>URLSearchParams.toString()\<close>\<close>
  "form_encode s = concat (map form_byte (utf8_bytes s))"

fun percent_decode :: "string \<Rightarrow> string option" where
  \<comment> \<open>\<open>None\<close>: \<open>decodeURIComponent\<close> throws\<close>
  "percent_decode [] = Some []"
| "percent_decode (c # r) =
     (if c \<noteq> CHR ''%'' then map_option (Cons c) (percent_decode r)
      else (case r of
              a # b # q \<Rightarrow>
                (if is_hex a \<and> is_hex b
                 then map_option (Cons (char_of (16 * hex_value a + hex_value b))) (percent_decode q) else None)
            | _ \<Rightarrow> None))"

definition decodeURIComponent :: "string \<Rightarrow> string option" where
  "decodeURIComponent s = map_option utf8_text (percent_decode s)"

lemma upper_hex_code: "n < 16 \<Longrightarrow> (of_char (upper_hex n) :: nat) = (if n < 10 then 48 + n else 55 + n)"
  by (simp add: upper_hex_def)

lemma upper_hex_props:
  assumes "n < 16"
  shows "is_hex (upper_hex n)" and "hex_value (upper_hex n) = n"
  using assms by (auto simp: is_hex_def is_digit_def hex_value_def Let_def upper_hex_code)

lemma decode_percent: "percent_decode (percent b @ r) = map_option (Cons b) (percent_decode r)"
proof -
  have "(of_char b :: nat) div 16 < 16" using of_char_less [of b] by linarith
  then show ?thesis by (simp add: percent_def upper_hex_props mult.commute)
qed

lemma unreserved_not_percent: "unreserved b \<Longrightarrow> b \<noteq> CHR ''%''"
  by (auto simp: unreserved_def is_alnum_def Let_def)

lemma decode_byte: "percent_decode (encode_byte b @ r) = map_option (Cons b) (percent_decode r)"
  using unreserved_not_percent [of b] by (simp add: encode_byte_def decode_percent)

lemma decode_bytes: "percent_decode (concat (map encode_byte bs)) = Some bs"
  by (induction bs) (simp_all add: decode_byte)

lemma decode_encode [simp]: "decodeURIComponent (encodeURIComponent s) = Some s"
  by (simp add: decodeURIComponent_def encodeURIComponent_def decode_bytes)

lemma encode_inj: "encodeURIComponent s = encodeURIComponent t \<longleftrightarrow> s = t"
  by (metis decode_encode option.inject)

lemma percent_chars: "c \<in> set (percent b) \<Longrightarrow> c = CHR ''%'' \<or> is_alnum c"
proof -
  have "is_alnum (upper_hex n)" if "n < 16" for n
    using that by (auto simp: is_alnum_def Let_def upper_hex_code)
  moreover have "(of_char b :: nat) div 16 < 16" "(of_char b :: nat) mod 16 < 16"
    using of_char_less [of b] by linarith+
  ultimately show "c \<in> set (percent b) \<Longrightarrow> c = CHR ''%'' \<or> is_alnum c" by (auto simp: percent_def)
qed

lemma encode_byte_chars: "c \<in> set (encode_byte b) \<Longrightarrow> unreserved c \<or> c = CHR ''%''"
proof (cases "unreserved b")
  case False
  moreover assume "c \<in> set (encode_byte b)"
  ultimately have "c = CHR ''%'' \<or> is_alnum c" by (intro percent_chars) (simp add: encode_byte_def)
  then show ?thesis by (simp add: unreserved_def) blast
qed (simp add: encode_byte_def)

lemma encoded_segment: "c \<in> set (encodeURIComponent s) \<Longrightarrow> unreserved c \<or> c = CHR ''%''"
  unfolding encodeURIComponent_def set_concat set_map by (blast dest: encode_byte_chars)

lemma delimiters_reserved: "\<not> unreserved CHR ''/''" "\<not> unreserved CHR ''?''" "\<not> unreserved CHR ''#''"
  by code_simp+

lemma encoded_no_slash: "CHR ''/'' \<notin> set (encodeURIComponent s)" "CHR ''?'' \<notin> set (encodeURIComponent s)"
    "CHR ''#'' \<notin> set (encodeURIComponent s)"
  using encoded_segment [of _ s] delimiters_reserved by fastforce+

lemma encode_empty [simp]: "encodeURIComponent s = [] \<longleftrightarrow> s = []"
proof -
  have "encodeURIComponent [] = []" by (simp add: encodeURIComponent_def)
  then show ?thesis using encode_inj [of s "[]"] by simp
qed

end
