(* ===== verification/WebhookServer.thy ===== *)
theory WebhookServer
  imports NotificationQueue DispatchConfig BridgeSamples UrlText
begin

text \<open>
  The receiver of completions, \<open>omx-dispatch/webhook-server.ts\<close>, with the callbacks
  \<open>omx-dispatch/index.ts\<close> hands to it: reading the body under its limit, the checks in their order,
  the queue, and the two messages that are sent afterwards and whose failures are ignored.
\<close>

section \<open>Options and state\<close>

record webhook_options =
  wo_bodyLimitBytes :: int
  wo_signatureRequired :: bool
  wo_secret :: string
  wo_hmac :: "string \<Rightarrow> string \<Rightarrow> string"
  wo_decode :: "string \<Rightarrow> string" \<comment> \<open>\<open>Buffer.toString('utf8')\<close>\<close>
  wo_enableClaudeChannel :: bool
  wo_errorText :: "store_error \<Rightarrow> string"
  wo_store :: store_options

definition webhook_options_of ::
  "dispatch_config \<Rightarrow> (string \<Rightarrow> string \<Rightarrow> string) \<Rightarrow> (string \<Rightarrow> string) \<Rightarrow> (store_error \<Rightarrow> string) \<Rightarrow>
   (string \<Rightarrow> json option) \<Rightarrow> (string \<Rightarrow> int option) \<Rightarrow> (string \<Rightarrow> string \<Rightarrow> int) \<Rightarrow> webhook_options" where
  "webhook_options_of c hmac decode errorText parse time compare = \<lparr>
     wo_bodyLimitBytes = dc_webhookBodyLimitBytes c,
     wo_signatureRequired = (\<not> dc_insecureLoopback c),
     wo_secret = dc_bridgeCallbackSecret c,
     wo_hmac = hmac, wo_decode = decode,
     wo_enableClaudeChannel = dc_enableClaudeChannel c,
     wo_errorText = errorText,
     wo_store = \<lparr>so_storePath = dc_notificationStorePath c, so_maxQueueSize = dc_maxNotificationQueueSize c,
       so_lockStaleMs = dc_notificationLockStaleMs c, so_lockTimeoutMs = dc_notificationLockTimeoutMs c,
       so_previewMax = dc_notificationPreviewMax c, so_previewTextMax = dc_notificationPreviewTextMax c,
       so_parse = parse, so_time = time, so_localeCompare = compare\<rparr>\<rparr>"

record webhook_state =
  ws_store :: store_state
  ws_logged :: "string list"
  ws_channel :: "json list"

section \<open>Requests\<close>

datatype body_event = BodyChunk string | BodyEnd | BodyError

datatype body_result = BodyText string | BodyTooLarge | BodyFailed

fun read_body :: "(string \<Rightarrow> string) \<Rightarrow> int \<Rightarrow> string \<Rightarrow> int \<Rightarrow> body_event list \<Rightarrow> body_result" where
  \<comment> \<open>\<open>readBody\<close>: the bytes so far and their number, then the events; the first result settles it,
     and a connection that breaks off is reported as an error\<close>
  "read_body decode limit chunks totalBytes [] = BodyFailed"
| "read_body decode limit chunks totalBytes (BodyChunk c # evs) =
     (if totalBytes + js_length c > limit then BodyTooLarge
      else read_body decode limit (chunks @ c) (totalBytes + js_length c) evs)"
| "read_body decode limit chunks totalBytes (BodyEnd # evs) = BodyText (decode chunks)"
| "read_body decode limit chunks totalBytes (BodyError # evs) = BodyFailed"

record received_request =
  wr_method :: string
  wr_url :: string
  wr_signature :: "string option"
  wr_body :: "body_event list"

record http_response =
  hr_status :: int
  hr_body :: json

definition error_response :: "int \<Rightarrow> string \<Rightarrow> http_response" where
  "error_response st message = \<lparr>hr_status = st, hr_body = object_of [(''error'', Some (JStr message))]\<rparr>"

definition sendLoggingMessage :: "bridge_job \<Rightarrow> string" where
  \<comment> \<open>the text of \<open>index.ts\<close>\<close>
  "sendLoggingMessage job =
     ''[omx-bridge] Job '' @ j_id job @ '' '' @ status_name (j_status job) @ '': '' @ take 200 (j_stdout job)"

definition channel_content :: "bridge_job \<Rightarrow> json" where
  "channel_content job = object_of
     [(''id'', Some (JStr (j_id job))), (''status'', Some (JStr (status_name (j_status job)))),
      (''cwd'', map_option JStr (j_cwd job)), (''stdout'', Some (JStr (take 2000 (j_stdout job)))),
      (''stderr'', Some (JStr (take 500 (j_stderr job)))), (''finishedAt'', map_option JStr (j_finishedAt job))]"

definition sendClaudeChannelNotification :: "webhook_options \<Rightarrow> bridge_job \<Rightarrow> json list" where
  \<comment> \<open>what it sends\<close>
  "sendClaudeChannelNotification opts job =
     (if \<not> wo_enableClaudeChannel opts then []
      else [object_of
        [(''method'', Some (JStr ''notifications/claude/channel'')),
         (''params'', Some (object_of
            [(''content'', Some (JStr (json_text (channel_content job)))),
             (''meta'', Some (object_of
                [(''source'', Some (JStr ''omx-bridge'')), (''id'', Some (JStr (j_id job))),
                 (''status'', Some (JStr (status_name (j_status job))))]))]))]])"

definition acknowledge :: "webhook_options \<Rightarrow> bridge_job \<Rightarrow> store_error + int \<Rightarrow> webhook_state \<Rightarrow> http_response \<times> webhook_state" where
  \<comment> \<open>\<open>handleNotify\<close> behind the call of \<open>enqueueNotification\<close>\<close>
  "acknowledge opts job result s =
     (case result of
        Inl e \<Rightarrow>
          (\<lparr>hr_status = 503, hr_body = object_of
              [(''error'', Some (JStr ''Failed to persist job notification'')), (''details'', Some (JStr (wo_errorText opts e)))]\<rparr>, s)
      | Inr queued \<Rightarrow>
          (\<lparr>hr_status = 200, hr_body = object_of [(''ok'', Some (JBool True)), (''queued'', Some (JNum queued))]\<rparr>,
           s\<lparr>ws_logged := ws_logged s @ [sendLoggingMessage job],
             ws_channel := ws_channel s @ sendClaudeChannelNotification opts job\<rparr>))"

definition handleNotify :: "webhook_options \<Rightarrow> string \<Rightarrow> received_request \<Rightarrow> webhook_state \<Rightarrow> http_response \<times> webhook_state" where
  "handleNotify opts nowIso req s =
     (case read_body (wo_decode opts) (wo_bodyLimitBytes opts) [] 0 (wr_body req) of
        BodyTooLarge \<Rightarrow> (error_response 413 ''Request body too large'', s)
      | BodyText rawBody \<Rightarrow>
          (case so_parse (wo_store opts) rawBody of
             None \<Rightarrow> (error_response 400 ''Invalid JSON body'', s)
           | Some payload \<Rightarrow>
               (case extractWebhookJobId payload of
                  None \<Rightarrow> (error_response 400 ''Missing job id'', s)
                | Some jobId \<Rightarrow>
                    (if wo_signatureRequired opts \<and> \<not> truthy_str (wr_signature req)
                     then (error_response 401 ''Missing X-Callback-Signature header'', s)
                     else if truthy_str (wr_signature req) \<and>
                             \<not> verifyWebhookSignature (wo_hmac opts) jobId rawBody (the (wr_signature req)) (wo_secret opts)
                     then (error_response 401 ''Signature verification failed'', s)
                     else
                       (case normalizeWebhookJob (Some payload) of
                          None \<Rightarrow> (error_response 400 ''Invalid job notification payload'', s)
                        | Some job \<Rightarrow>
                            (case store_enqueue (wo_store opts) \<lparr>nt_receivedAt = nowIso, nt_job = job\<rparr> (ws_store s) of
                               (result, store) \<Rightarrow> acknowledge opts job result (s\<lparr>ws_store := store\<rparr>))))))
      | BodyFailed \<Rightarrow> (error_response 400 ''Failed to read request body'', s))"

definition handleHealth :: "webhook_options \<Rightarrow> webhook_state \<Rightarrow> http_response \<times> webhook_state" where
  "handleHealth opts s =
     (case store_getStats (wo_store opts) 0 (ws_store s) of
        (Inl e, store) \<Rightarrow>
          (\<lparr>hr_status = 503, hr_body = object_of
              [(''ok'', Some (JBool False)), (''error'', Some (JStr ''Failed to read notification stats'')),
               (''details'', Some (JStr (wo_errorText opts e)))]\<rparr>, s\<lparr>ws_store := store\<rparr>)
      | (Inr stats, store) \<Rightarrow>
          (\<lparr>hr_status = 200, hr_body = object_of
              [(''ok'', Some (JBool True)), (''pending'', Some (JNum (ns_pending stats))),
               (''dropped'', Some (JNum (ns_dropped stats))), (''storePath'', Some (JStr (ns_storePath stats))),
               (''storeBytes'', Some (JNum (ns_storeBytes stats)))]\<rparr>, s\<lparr>ws_store := store\<rparr>))"

definition handleWebhookRequest :: "webhook_options \<Rightarrow> string \<Rightarrow> received_request \<Rightarrow> webhook_state \<Rightarrow> http_response \<times> webhook_state" where
  "handleWebhookRequest opts nowIso req s =
     (if wr_method req = ''POST'' \<and> wr_url req = ''/notify'' then handleNotify opts nowIso req s
      else if wr_method req = ''GET'' \<and> wr_url req = ''/health'' then handleHealth opts s
      else (error_response 404 ''Not found'', s))"

section \<open>Listening\<close>

datatype listen_result = Listening | AddressInUse | ListenError string

function tryListen :: "(int \<Rightarrow> listen_result) \<Rightarrow> int \<Rightarrow> int \<Rightarrow> int \<Rightarrow> string + int" where
  \<comment> \<open>the handlers of \<open>listening\<close> and \<open>error\<close>\<close>
  "tryListen listen port portMax currentPort =
     (case listen currentPort of
        Listening \<Rightarrow> Inr currentPort
      | AddressInUse \<Rightarrow>
          (if port = 0 \<and> currentPort < portMax then tryListen listen port portMax (currentPort + 1)
           else Inl ''EADDRINUSE'')
      | ListenError message \<Rightarrow> Inl message)"
  by pat_completeness auto
termination by (relation "measure (\<lambda>(_, _, portMax, currentPort). nat (portMax - currentPort))") auto

declare tryListen.simps [simp del]

definition startWebhookServer :: "(int \<Rightarrow> listen_result) \<Rightarrow> int \<Rightarrow> int \<Rightarrow> int \<Rightarrow> int \<Rightarrow> string + int \<times> string" where
  \<comment> \<open>the draw is \<open>Math.floor(Math.random() * (portMax - portMin + 1))\<close>\<close>
  "startWebhookServer listen port portMin portMax draw =
     (case tryListen listen port portMax (if port > 0 then port else portMin + draw) of
        Inl e \<Rightarrow> Inl e
      | Inr p \<Rightarrow> Inr (p, ''http://127.0.0.1:'' @ dec_int p @ ''/notify''))"

section \<open>Reading the body\<close>

lemma read_body_chunks:
  "totalBytes + js_length (concat cs) \<le> limit \<Longrightarrow> 0 \<le> totalBytes \<Longrightarrow>
   read_body decode limit acc totalBytes (map BodyChunk cs @ BodyEnd # evs) = BodyText (decode (acc @ concat cs))"
proof (induction cs arbitrary: acc totalBytes)
  case (Cons c cs)
  then show ?case using Cons.IH [of "totalBytes + js_length c" "acc @ c"] by (simp add: js_length_def)
qed simp

lemma read_body_bounded:
  "read_body decode limit acc totalBytes evs = BodyText t \<Longrightarrow>
   \<exists>cs evs'. evs = map BodyChunk cs @ BodyEnd # evs' \<and> t = decode (acc @ concat cs) \<and>
     (cs = [] \<or> totalBytes + js_length (concat cs) \<le> limit)"
proof (induction decode limit acc totalBytes evs rule: read_body.induct)
  case (2 decode limit chunks totalBytes c evs)
  then obtain cs evs' where c: "evs = map BodyChunk cs @ BodyEnd # evs'" "t = decode ((chunks @ c) @ concat cs)"
    "cs = [] \<or> totalBytes + js_length c + js_length (concat cs) \<le> limit" "totalBytes + js_length c \<le> limit"
    by (auto split: if_splits)
  then show ?case by (intro exI [of _ "c # cs"] exI [of _ evs']) (auto simp: js_length_def)
next
  case (3 decode limit chunks totalBytes evs)
  then show ?case by (intro exI [of _ "[]"] exI [of _ evs]) simp
qed simp_all

section \<open>Delivery\<close>

definition delivered :: "store_options \<Rightarrow> job_notification \<Rightarrow> store_state \<Rightarrow> store_state \<Rightarrow> int \<Rightarrow> bool" where
  \<comment> \<open>the outcomes of \<open>enqueue_outcome\<close>\<close>
  "delivered opts n s s' k \<longleftrightarrow>
     enqueued opts n (pending opts s) (pending opts s') k \<or>
     (pending opts s' = latest_step opts n (pending opts s) \<and> faults s' < faults s) \<or>
     (pending opts s' = pending opts s \<and> faults s' + 2 \<le> faults s)"

lemma tidy_idem [simp]: "tidy_string (tidy_string s) = tidy_string s"
  by (simp add: tidy_string_def)

lemma tidy_job_ok:
  assumes "j_id job \<noteq> []" and "nowIso \<noteq> []" and "meta_wf job"
  shows "storable \<lparr>nt_receivedAt = nowIso, nt_job = tidy_job job\<rparr>"
proof -
  have n: "normalizeWebhookJob (Some (job_json job)) = Some (tidy_job job)"
    using assms(1) by (simp add: job_back)
  have "meta_wf (tidy_job job)" using assms(3) by (simp add: meta_wf_def tidy_job_def)
  with normalized_job [OF n] assms show ?thesis by (simp add: storable_def notification_ok_def)
qed

lemma signed_header:
  assumes "bc_callbackSecret (be_cfg env) = Some secret" and "secret \<noteq> []"
  shows "map_of (sr_headers (webhook_request env job url)) ''X-Callback-Signature'' =
    Some (computeCallbackSignature (be_hmac env) (j_id job) (sr_body (webhook_request env job url)) secret)"
  using assms by (simp add: webhook_request_def Let_def)

context json_reader
begin

lemma delivery:
  fixes env :: bridge_env and job :: bridge_job and url nowIso :: string
  defines "sent \<equiv> webhook_request env job url"
  assumes "bc_callbackSecret (be_cfg env) = Some secret" and "secret \<noteq> []"
    and "wo_secret opts = secret" and "wo_hmac opts = be_hmac env" and "so_parse (wo_store opts) = parse"
    and "\<And>t. wo_decode opts (utf8_bytes t) = t"
    and "wr_method req = ''POST''" and "wr_url req = ''/notify''"
    and "wr_signature req = map_of (sr_headers sent) ''X-Callback-Signature''"
    and "wr_body req = map BodyChunk cs @ [BodyEnd]" and "concat cs = utf8_bytes (sr_body sent)"
    and "js_length (concat cs) \<le> wo_bodyLimitBytes opts"
    and "j_id job \<noteq> []" and "meta_wf job" and "nowIso \<noteq> []"
    and "lock_free (ws_store s)" and "file_ok (ws_store s)" and "collation (so_localeCompare (wo_store opts))"
  shows "\<exists>k s'. handleWebhookRequest opts nowIso req s =
      (\<lparr>hr_status = 200, hr_body = object_of [(''ok'', Some (JBool True)), (''queued'', Some (JNum k))]\<rparr>, s') \<and>
    file_ok (ws_store s') \<and>
    delivered (wo_store opts) \<lparr>nt_receivedAt = nowIso, nt_job = tidy_job (webhook_payload job)\<rparr> (ws_store s) (ws_store s') k"
proof -
  let ?p = "webhook_payload job"
  have body: "sr_body sent = json_text (job_json ?p)" by (simp add: sent_def webhook_request_def Let_def)
  have wf: "meta_wf ?p" "j_id ?p = j_id job" using assms(15) by (simp_all add: webhook_payload_def meta_wf_def)
  have body_text: "read_body (wo_decode opts) (wo_bodyLimitBytes opts) [] 0 (wr_body req) = BodyText (sr_body sent)"
    using read_body_chunks [of 0 cs "wo_bodyLimitBytes opts" "wo_decode opts" "[]" "[]"] assms(7,11,12,13) by simp
  have parsed: "parse (sr_body sent) = Some (job_json ?p)" unfolding body by (rule parse_text) (simp add: json_wf_job wf)
  have jid: "extractWebhookJobId (job_json ?p) = Some (j_id job)"
    using assms(14) wf(2) by (simp add: extractWebhookJobId_def getStringField_def job_fields)
  have sig: "wr_signature req = Some (computeCallbackSignature (be_hmac env) (j_id job) (sr_body sent) secret)"
    using signed_header [OF assms(2,3)] assms(10) by (simp add: sent_def)
  have nonempty: "computeCallbackSignature h i b k \<noteq> []" for h i b k by (simp add: computeCallbackSignature_def)
  have ok: "verifyWebhookSignature (be_hmac env) (j_id job) (sr_body sent)
      (computeCallbackSignature (be_hmac env) (j_id job) (sr_body sent) secret) secret"
    using signature_protocol [OF assms(3)] by blast
  have job: "normalizeWebhookJob (Some (job_json ?p)) = Some (tidy_job ?p)"
    using assms(14) wf(2) by (simp add: job_back)
  let ?n = "\<lparr>nt_receivedAt = nowIso, nt_job = tidy_job ?p\<rparr>"
  obtain r store where e: "store_enqueue (wo_store opts) ?n (ws_store s) = (r, store)" by fastforce
  have n: "storable ?n" using tidy_job_ok [of ?p nowIso] assms(14,16) wf by simp
  from enqueue_result [OF e assms(17,18) n assms(6,19)]
  obtain k where k: "r = Inr k" "file_ok store" "delivered (wo_store opts) ?n (ws_store s) store k"
    unfolding delivered_def by blast
  have "handleWebhookRequest opts nowIso req s = acknowledge opts (tidy_job ?p) (Inr k) (s\<lparr>ws_store := store\<rparr>)"
    using assms(4,5,6,8,9) e k(1)
    by (simp add: handleWebhookRequest_def handleNotify_def body_text parsed jid sig nonempty ok job)
  then show ?thesis using k(2,3) by (intro exI [of _ k]) (simp add: acknowledge_def)
qed

end

text \<open>
  C8. A completion the bridge reports arrives. The request the bridge sends for a job with the shared
  secret, in whatever pieces its body arrives, is answered with 200, and the queue holds the job as it
  was reported (its empty strings absent) as its newest notification, within the limits of
  \<open>enqueue_outcome\<close>.
\<close>

theorem webhook_delivery:
  fixes env :: bridge_env and job :: bridge_job and url nowIso :: string
  assumes "bc_callbackSecret (be_cfg env) = Some secret" and "secret \<noteq> []"
    and "wo_secret opts = secret" and "wo_hmac opts = be_hmac env" and "json_reader (so_parse (wo_store opts))"
    and "\<And>t. wo_decode opts (utf8_bytes t) = t"
    and "wr_method req = ''POST''" and "wr_url req = ''/notify''"
    and "wr_signature req = map_of (sr_headers (webhook_request env job url)) ''X-Callback-Signature''"
    and "wr_body req = map BodyChunk cs @ [BodyEnd]" and "concat cs = utf8_bytes (sr_body (webhook_request env job url))"
    and "js_length (concat cs) \<le> wo_bodyLimitBytes opts"
    and "j_id job \<noteq> []" and "meta_wf job" and "nowIso \<noteq> []"
    and "lock_free (ws_store s)" and "file_ok (ws_store s)" and "collation (so_localeCompare (wo_store opts))"
  shows "\<exists>k s'. handleWebhookRequest opts nowIso req s =
      (\<lparr>hr_status = 200, hr_body = object_of [(''ok'', Some (JBool True)), (''queued'', Some (JNum k))]\<rparr>, s') \<and>
    file_ok (ws_store s') \<and>
    delivered (wo_store opts) \<lparr>nt_receivedAt = nowIso, nt_job = tidy_job (webhook_payload job)\<rparr> (ws_store s) (ws_store s') k"
  by (rule json_reader.delivery [OF assms(5,1,2,3,4) refl assms(6-18)])

definition sample_completion :: bridge_job where
  "sample_completion = sample_job uuid3 Succeeded (Some (stamp 2))"

definition sample_sent :: sent_request where
  "sample_sent = webhook_request sample_bridge sample_completion ''u''"

definition sample_webhook :: webhook_options where
  \<comment> \<open>the limit is the size of the sample, the largest body that is read\<close>
  "sample_webhook = \<lparr>wo_bodyLimitBytes = js_length (utf8_bytes (sr_body sample_sent)), wo_signatureRequired = True, wo_secret = ''k'',
     wo_hmac = be_hmac sample_bridge, wo_decode = utf8_text, wo_enableClaudeChannel = True,
     wo_errorText = (\<lambda>_. ''e''), wo_store = sample_store_options\<rparr>"

definition sample_delivery :: received_request where
  "sample_delivery =
     \<lparr>wr_method = ''POST'', wr_url = ''/notify'', wr_signature = map_of (sr_headers sample_sent) ''X-Callback-Signature'',
      wr_body = [BodyChunk (utf8_bytes (sr_body sample_sent)), BodyEnd]\<rparr>"

definition sample_receiver :: webhook_state where
  "sample_receiver = \<lparr>ws_store = sample_store, ws_logged = [], ws_channel = []\<rparr>"

lemma sample_receiver_facts:
  "wo_secret sample_webhook = ''k''" "wo_hmac sample_webhook = be_hmac sample_bridge"
  "json_reader (so_parse (wo_store sample_webhook))" "\<And>t. wo_decode sample_webhook (utf8_bytes t) = t"
  "lock_free (ws_store sample_receiver)" "file_ok (ws_store sample_receiver)"
  "collation (so_localeCompare (wo_store sample_webhook))"
  using sample_store_ok by (simp_all add: sample_webhook_def sample_receiver_def)

lemma sample_delivery_facts:
  "bc_callbackSecret (be_cfg sample_bridge) = Some ''k''" "''k'' \<noteq> []"
  "wr_method sample_delivery = ''POST''" "wr_url sample_delivery = ''/notify''"
  "wr_signature sample_delivery = map_of (sr_headers (webhook_request sample_bridge sample_completion ''u'')) ''X-Callback-Signature''"
  "wr_body sample_delivery = map BodyChunk [utf8_bytes (sr_body (webhook_request sample_bridge sample_completion ''u''))] @ [BodyEnd]"
  "concat [utf8_bytes (sr_body (webhook_request sample_bridge sample_completion ''u''))] =
     utf8_bytes (sr_body (webhook_request sample_bridge sample_completion ''u''))"
  "js_length (concat [utf8_bytes (sr_body (webhook_request sample_bridge sample_completion ''u''))]) \<le> wo_bodyLimitBytes sample_webhook"
  "j_id sample_completion \<noteq> []" "meta_wf sample_completion" "stamp 3 \<noteq> []"
proof -
  show "bc_callbackSecret (be_cfg sample_bridge) = Some ''k''" by (simp add: sample_bridge_def sample_bridge_config_def)
  show "js_length (concat [utf8_bytes (sr_body (webhook_request sample_bridge sample_completion ''u''))]) \<le> wo_bodyLimitBytes sample_webhook"
    by (simp add: sample_webhook_def sample_sent_def)
  show "j_id sample_completion \<noteq> []" "meta_wf sample_completion"
    by (simp_all add: sample_completion_def sample_job_def meta_wf_def uuid3_def)
qed (simp_all add: sample_delivery_def sample_sent_def stamp_def)

lemma sample_delivery_answer:
  "\<exists>k s'. handleWebhookRequest sample_webhook (stamp 3) sample_delivery sample_receiver =
      (\<lparr>hr_status = 200, hr_body = object_of [(''ok'', Some (JBool True)), (''queued'', Some (JNum k))]\<rparr>, s') \<and>
    file_ok (ws_store s')"
  using json_reader.delivery [OF sample_receiver_facts(3) sample_delivery_facts(1,2) sample_receiver_facts(1,2) refl
      sample_receiver_facts(4) sample_delivery_facts(3-11) sample_receiver_facts(5-7)] by blast

theorem webhook_delivery_witness:
  "\<exists>k s'. handleWebhookRequest sample_webhook (stamp 3) sample_delivery sample_receiver =
      (\<lparr>hr_status = 200, hr_body = object_of [(''ok'', Some (JBool True)), (''queued'', Some (JNum k))]\<rparr>, s') \<and>
    file_ok (ws_store s') \<and>
    delivered (wo_store sample_webhook) \<lparr>nt_receivedAt = stamp 3, nt_job = tidy_job (webhook_payload sample_completion)\<rparr>
      (ws_store sample_receiver) (ws_store s') k"
  by (rule webhook_delivery [OF sample_delivery_facts(1,2) sample_receiver_facts(1-4) sample_delivery_facts(3-11)
      sample_receiver_facts(5-7)])

text \<open>
  C9. Only authentic completions are taken. When signatures are required, a request that changes anything of the
  receiver has a body within the limit that is JSON, names a job, and carries a signature that spells the digest of
  exactly that job and body; every other request is answered with an error and changes nothing.
\<close>

theorem webhook_authentic:
  assumes "handleWebhookRequest opts nowIso req s = (resp, s')" and "wr_method req = ''POST''"
    and "wo_signatureRequired opts" and "wo_secret opts \<noteq> []" and "s' \<noteq> s \<or> hr_status resp = 200"
  shows "\<exists>cs evs payload jobId sig. wr_url req = ''/notify'' \<and> wr_body req = map BodyChunk cs @ BodyEnd # evs \<and>
    (cs = [] \<or> js_length (concat cs) \<le> wo_bodyLimitBytes opts) \<and>
    so_parse (wo_store opts) (wo_decode opts (concat cs)) = Some payload \<and> extractWebhookJobId payload = Some jobId \<and>
    wr_signature req = Some (''sha256='' @ sig) \<and>
    from_hex sig = wo_hmac opts (wo_secret opts) (jobId @ '':'' @ wo_decode opts (concat cs))"
proof -
  have url: "wr_url req = ''/notify''" and h: "handleNotify opts nowIso req s = (resp, s')"
    using assms(1,2,5) by (auto simp: handleWebhookRequest_def error_response_def split: if_splits)
  obtain rawBody where b: "read_body (wo_decode opts) (wo_bodyLimitBytes opts) [] 0 (wr_body req) = BodyText rawBody"
    using h assms(5) by (auto simp: handleNotify_def error_response_def split: body_result.splits)
  from read_body_bounded [OF this] obtain cs evs where c: "wr_body req = map BodyChunk cs @ BodyEnd # evs"
    "rawBody = wo_decode opts (concat cs)" "cs = [] \<or> js_length (concat cs) \<le> wo_bodyLimitBytes opts" by auto
  obtain payload where p: "so_parse (wo_store opts) rawBody = Some payload"
    using h b assms(5) by (auto simp: handleNotify_def error_response_def split: option.splits)
  obtain jobId where i: "extractWebhookJobId payload = Some jobId"
    using h b p assms(5) by (auto simp: handleNotify_def error_response_def split: option.splits)
  have t: "truthy_str (wr_signature req)"
    using h b p i assms(3,5) by (auto simp: handleNotify_def error_response_def split: if_splits)
  then obtain signature where sg: "wr_signature req = Some signature" "signature \<noteq> []" by (cases "wr_signature req") auto
  have "verifyWebhookSignature (wo_hmac opts) jobId rawBody signature (wo_secret opts)"
    using h b p i assms(3,5) sg by (auto simp: handleNotify_def error_response_def split: if_splits)
  then have "starts_with ''sha256='' signature" "from_hex (drop 7 signature) = wo_hmac opts (wo_secret opts) (jobId @ '':'' @ rawBody)"
    using dispatch_signature.verify_iff [OF assms(4)] by blast+
  then obtain sig where "signature = ''sha256='' @ sig" "from_hex sig = wo_hmac opts (wo_secret opts) (jobId @ '':'' @ rawBody)"
    by (auto simp: starts_with_iff)
  with url c p i sg show ?thesis by blast
qed

theorem webhook_authentic_witness:
  "hr_status (fst (handleWebhookRequest sample_webhook (stamp 3) sample_delivery sample_receiver)) = 200 \<and>
   (\<exists>cs evs payload jobId sig. wr_body sample_delivery = map BodyChunk cs @ BodyEnd # evs \<and>
     so_parse (wo_store sample_webhook) (wo_decode sample_webhook (concat cs)) = Some payload \<and>
     extractWebhookJobId payload = Some jobId \<and> wr_signature sample_delivery = Some (''sha256='' @ sig) \<and>
     from_hex sig = wo_hmac sample_webhook (wo_secret sample_webhook) (jobId @ '':'' @ wo_decode sample_webhook (concat cs)))"
proof -
  obtain resp s' where r: "handleWebhookRequest sample_webhook (stamp 3) sample_delivery sample_receiver = (resp, s')"
    by fastforce
  have st: "hr_status resp = 200" using sample_delivery_answer r by auto
  have "wr_method sample_delivery = ''POST''" "wo_signatureRequired sample_webhook" "wo_secret sample_webhook \<noteq> []"
    by (simp_all add: sample_delivery_def sample_webhook_def Let_def)
  from webhook_authentic [OF r this] st have "\<exists>cs evs payload jobId sig. wr_body sample_delivery = map BodyChunk cs @ BodyEnd # evs \<and>
     so_parse (wo_store sample_webhook) (wo_decode sample_webhook (concat cs)) = Some payload \<and>
     extractWebhookJobId payload = Some jobId \<and> wr_signature sample_delivery = Some (''sha256='' @ sig) \<and>
     from_hex sig = wo_hmac sample_webhook (wo_secret sample_webhook) (jobId @ '':'' @ wo_decode sample_webhook (concat cs))"
    by blast
  with r st show ?thesis by simp
qed

lemma webhook_refusals:
  assumes "handleWebhookRequest opts nowIso req s = (resp, s')" and "hr_status resp \<in> {400, 401, 404, 413}"
  shows "s' = s"
  using assms
  by (auto simp: handleWebhookRequest_def handleNotify_def handleHealth_def acknowledge_def
      split: if_splits body_result.splits option.splits sum.splits prod.splits)

section \<open>The port\<close>

text \<open>
  The server listens on the first free port from the one it starts with; it tries further ports only when no
  port was asked for and none beyond the largest, and it fails only when the port it tried last cannot be used.
\<close>

theorem webhook_port_found:
  "case tryListen listen port portMax start of
     Inr p \<Rightarrow> start \<le> p \<and> listen p = Listening \<and> (\<forall>q \<in> {start..<p}. listen q = AddressInUse) \<and>
       (p = start \<or> port = 0 \<and> p \<le> portMax)
   | Inl e \<Rightarrow> \<exists>p \<ge> start. listen p \<noteq> Listening \<and> (\<forall>q \<in> {start..<p}. listen q = AddressInUse) \<and>
       (listen p \<noteq> AddressInUse \<or> port \<noteq> 0 \<or> portMax \<le> p)"
proof (induction listen port portMax start rule: tryListen.induct)
  case (1 listen port portMax currentPort)
  show ?case
  proof (cases "listen currentPort = AddressInUse \<and> port = 0 \<and> currentPort < portMax")
    case True
    have e: "tryListen listen port portMax currentPort = tryListen listen port portMax (currentPort + 1)"
      using True by (subst tryListen.simps) simp
    have range: "(\<forall>q \<in> {currentPort..<p}. listen q = AddressInUse) \<longleftrightarrow> (\<forall>q \<in> {currentPort + 1..<p}. listen q = AddressInUse)"
      for p using True by (auto simp: Ball_def) (metis add1_zle_eq order_le_less)
    show ?thesis
    proof (cases "tryListen listen port portMax (currentPort + 1)")
      case (Inl m)
      then obtain p where "currentPort + 1 \<le> p" "listen p \<noteq> Listening" "\<forall>q \<in> {currentPort + 1..<p}. listen q = AddressInUse"
        "listen p \<noteq> AddressInUse \<or> port \<noteq> 0 \<or> portMax \<le> p" using 1 True by auto
      then show ?thesis unfolding e Inl by (auto simp: range intro!: exI [of _ p])
    next
      case (Inr p)
      then show ?thesis unfolding e using 1 True by (auto simp: range)
    qed
  next
    case False
    then show ?thesis
      by (auto simp: tryListen.simps [of listen port portMax currentPort] split: listen_result.split
          intro!: exI [of _ currentPort])
  qed
qed

end
