(* ===== verification/BridgeClient.thy ===== *)
theory BridgeClient
  imports UrlText WebhookServer
begin

text \<open>
  The HTTP client of the dispatch server, \<open>omx-dispatch/bridge-client.ts\<close>. \<open>fetch\<close>, the URL parser
  and \<open>JSON.parse\<close> are fields of the client; a request is a transition of the world \<open>'w\<close>.
\<close>

section \<open>Values as text\<close>

fun js_string :: "json \<Rightarrow> string" where
  \<comment> \<open>\<open>String(v)\<close>\<close>
  "js_string JNull = ''null''"
| "js_string (JBool b) = (if b then ''true'' else ''false'')"
| "js_string (JNum i) = dec_int i"
| "js_string (JStr s) = s"
| "js_string (JArr xs) = join_with '','' (map (\<lambda>x. if x = JNull then [] else js_string x) xs)"
| "js_string (JObj kvs) = ''[object Object]''"

definition js_text :: "json option \<Rightarrow> string" where
  "js_text v = (case v of None \<Rightarrow> ''undefined'' | Some x \<Rightarrow> js_string x)"

definition js_truthy :: "json option \<Rightarrow> bool" where
  "js_truthy v \<longleftrightarrow> v \<notin> {None, Some JNull, Some (JBool False), Some (JNum 0), Some (JStr [])}"

definition indent :: "nat \<Rightarrow> string" where
  "indent n = replicate (2 * n) CHR '' ''"

definition json_block :: "nat \<Rightarrow> string \<Rightarrow> string list \<Rightarrow> string \<Rightarrow> string" where
  "json_block n l items r =
     (if items = [] then l @ r
      else l @ [NEWLINE] @ join_with ('','' @ [NEWLINE]) (map ((@) (indent (Suc n))) items) @ [NEWLINE] @ indent n @ r)"

fun json_pretty :: "nat \<Rightarrow> json \<Rightarrow> string" where
  \<comment> \<open>\<open>JSON.stringify(v, null, 2)\<close>, at a depth\<close>
  "json_pretty n (JArr xs) = json_block n ''['' (map (json_pretty (Suc n)) xs) '']''"
| "json_pretty n (JObj kvs) =
     json_block n [CHR 0x7B] (map (\<lambda>kv. json_quote (fst kv) @ '': '' @ json_pretty (Suc n) (snd kv)) kvs) [CHR 0x7D]"
| "json_pretty n v = json_text v"

section \<open>Errors\<close>

datatype dispatch_error =
    InvalidUrl string
  | BridgeHttpError int string json
  | BridgeTimeout int
  | FetchError string
  | CallbackConflictError json dispatch_error
  | NotAnObject string
  | StoreFailed store_error
  | InvalidToolRequest
  | InvalidToolName
  | UnknownTool string

definition formatDetails :: "json \<Rightarrow> string" where
  "formatDetails details =
     (case details of
        JObj _ \<Rightarrow> json_pretty 0 details
      | JArr _ \<Rightarrow> json_pretty 0 details
      | _ \<Rightarrow> js_string details)"

fun error_message :: "(store_error \<Rightarrow> string) \<Rightarrow> dispatch_error \<Rightarrow> string" where
  \<comment> \<open>\<open>describeError\<close> of \<open>index.ts\<close> and \<open>job-operations.ts\<close>: the \<open>message\<close>\<close>
  "error_message storeText (InvalidUrl m) = m"
| "error_message storeText (BridgeHttpError st t details) =
     ''Bridge request failed ('' @ dec_int st @ '' '' @ t @ ''): '' @ formatDetails details"
| "error_message storeText (BridgeTimeout ms) = ''Bridge request timed out after '' @ dec_int ms @ ''ms''"
| "error_message storeText (FetchError m) = m"
| "error_message storeText (CallbackConflictError details cause) =
     ''Bridge callback conflicts with the stored terminal result: '' @ error_message storeText cause"
| "error_message storeText (NotAnObject property) =
     ''Cannot read properties of null (reading '' @ [CHR 0x27] @ property @ [CHR 0x27] @ '')''"
| "error_message storeText (StoreFailed e) = storeText e"
| "error_message storeText InvalidToolRequest = ''Invalid tool request''"
| "error_message storeText InvalidToolName = ''Invalid tool name''"
| "error_message storeText (UnknownTool t) = ''Unknown tool: '' @ t"

section \<open>The client\<close>

record request_init =
  ri_method :: string
  ri_body :: "string option"
  ri_headers :: "(string \<times> string) list"

record fetch_request =
  fr_url :: string
  fr_method :: string
  fr_body :: "string option"
  fr_headers :: "(string \<times> string) list"

text \<open>
  How \<open>fetch\<close> ends: a status, its text and what \<open>response.text()\<close> gives, an error or the body; an abort;
  another error.
\<close>

datatype fetch_answer = Answer int string "string + string" | Abort | Rejected string

record 'w bridge_client =
  bl_baseUrl :: string
  bl_apiToken :: "string option"
  bl_timeoutMs :: int
  bl_fetch :: "fetch_request \<Rightarrow> 'w \<Rightarrow> fetch_answer \<times> 'w"
  bl_newURL :: "string \<Rightarrow> string \<Rightarrow> string + string"
  bl_parse :: "string \<Rightarrow> json option"

definition ensureTrailingSlash :: "string \<Rightarrow> string" where
  "ensureTrailingSlash v = (if ends_with ''/'' v then v else v @ ''/'')"

definition buildUrl :: "'w bridge_client \<Rightarrow> string \<Rightarrow> string + string" where
  "buildUrl client path = bl_newURL client path (ensureTrailingSlash (bl_baseUrl client))"

fun set_entry :: "string \<times> 'a \<Rightarrow> (string \<times> 'a) list \<Rightarrow> (string \<times> 'a) list" where
  "set_entry (k, v) [] = [(k, v)]"
| "set_entry (k, v) ((k', v') # kvs) = (if k = k' then (k, v) # kvs else (k', v') # set_entry (k, v) kvs)"

definition spread :: "(string \<times> 'a) list \<Rightarrow> (string \<times> 'a) list \<Rightarrow> (string \<times> 'a) list" where
  \<comment> \<open>\<open>{ ...a, ...b }\<close>\<close>
  "spread a b = foldl (\<lambda>o' e. set_entry e o') a b"

definition request_headers :: "'w bridge_client \<Rightarrow> request_init \<Rightarrow> string option \<Rightarrow> (string \<times> string) list" where
  "request_headers client init signatureHeader =
     spread
       ([(''Accept'', ''application/json'')] @
        (if truthy_str (ri_body init) then [(''Content-Type'', ''application/json'')] else []) @
        (if truthy_str (bl_apiToken client) then [(''Authorization'', ''Bearer '' @ the (bl_apiToken client))] else []) @
        (if truthy_str signatureHeader then [(''X-Callback-Signature'', the signatureHeader)] else []))
       (ri_headers init)"

definition client_fetchWithTimeout :: "'w bridge_client \<Rightarrow> fetch_request \<Rightarrow> ('w, dispatch_error, int \<times> string \<times> (string + string)) op" where
  "client_fetchWithTimeout client req = (\<lambda>w.
     case bl_fetch client req w of
       (Answer st statusText body, w') \<Rightarrow> (Inr (st, statusText, body), w')
     | (Abort, w') \<Rightarrow> (Inl (BridgeTimeout (bl_timeoutMs client)), w')
     | (Rejected m, w') \<Rightarrow> (Inl (FetchError m), w'))"

definition safeJsonParse :: "'w bridge_client \<Rightarrow> string \<Rightarrow> json" where
  "safeJsonParse client v = nullish (bl_parse client v) (JStr v)"

definition status_ok :: "int \<Rightarrow> bool" where
  "status_ok st \<longleftrightarrow> 200 \<le> st \<and> st \<le> 299"

definition response_value :: "'w bridge_client \<Rightarrow> int \<times> string \<times> (string + string) \<Rightarrow> dispatch_error + json" where
  \<comment> \<open>\<open>requestJson\<close> behind the fetch\<close>
  "response_value client response =
     (case response of
        (_, _, Inl m) \<Rightarrow> Inl (FetchError m)
      | (st, statusText, Inr body) \<Rightarrow>
          (let data = (if length body > 0 then safeJsonParse client body else JNull) in
           if \<not> status_ok st
           then Inl (BridgeHttpError st statusText
                  (if data \<noteq> JNull then data else JStr (if body \<noteq> [] then body else statusText)))
           else Inr data))"

definition requestJson ::
  "'w bridge_client \<Rightarrow> string \<Rightarrow> request_init \<Rightarrow> string option \<Rightarrow> ('w, dispatch_error, json) op" where
  "requestJson client path init signatureHeader =
     (case buildUrl client path of
        Inl m \<Rightarrow> op_fail (InvalidUrl m)
      | Inr url \<Rightarrow>
          op_bind (client_fetchWithTimeout client \<lparr>fr_url = url, fr_method = ri_method init, fr_body = ri_body init,
              fr_headers = request_headers client init signatureHeader\<rparr>)
            (\<lambda>response w. (response_value client response, w)))"

section \<open>What a request carries\<close>

lemma map_of_set_entry: "map_of (set_entry e kvs) = (map_of kvs)(fst e \<mapsto> snd e)"
  by (induction e kvs rule: set_entry.induct) auto

lemma map_of_spread: "map_of (spread a b) = map_of a ++ map_of (rev b)"
proof (induction b arbitrary: a)
  case (Cons e b)
  have "map_of (spread a (e # b)) = map_of (set_entry e a) ++ map_of (rev b)" using Cons by (simp add: spread_def)
  also have "\<dots> = map_of a ++ map_of (rev (e # b))"
    by (cases e) (rule ext, auto simp: map_of_set_entry map_add_def split: option.splits)
  finally show ?case .
qed (simp add: spread_def)

lemma request_header_values:
  assumes "ri_headers init = []"
  shows "map_of (request_headers client init signature) ''X-Callback-Signature'' =
      (if truthy_str signature then signature else None)"
    and "map_of (request_headers client init signature) ''Authorization'' =
      (if truthy_str (bl_apiToken client) then map_option ((@) ''Bearer '') (bl_apiToken client) else None)"
    and "map_of (request_headers client init signature) ''Content-Type'' =
      (if truthy_str (ri_body init) then Some ''application/json'' else None)"
  using assms by (auto simp: request_headers_def map_of_spread truthy_str_def split: option.splits)

end
