(* ===== verification/JobOperations.thy ===== *)
theory JobOperations
  imports BridgeClient
begin

text \<open>
  The operations of the dispatch server on the bridge, \<open>omx-dispatch/job-operations.ts\<close>, over the
  dependencies the code is given: the client, the notification store, the clock and the timer.
  Arguments are JSON values, \<open>None\<close> for \<open>undefined\<close>, because the tools pass on what they receive;
  what the bridge answers is a JSON value too, which the code casts without a test.
\<close>

section \<open>Configuration and dependencies\<close>

record operations_config =
  oc_bridgeUrl :: string
  oc_callbackSecret :: string
  oc_defaultNotifyUrl :: string
  oc_defaultWaitTimeoutMs :: int
  oc_defaultWaitPollIntervalMs :: int
  oc_maxWaitTimeoutMs :: int
  oc_minWaitPollIntervalMs :: int
  oc_maxWaitPollIntervalMs :: int
  oc_terminalNotificationGraceMs :: int

record 'w operations_deps =
  od_bridgeClient :: "'w bridge_client"
  od_getNotificationStats :: "int \<Rightarrow> ('w, dispatch_error, notification_stats) op"
  od_drainNotificationForJob :: "json option \<Rightarrow> ('w, dispatch_error, job_notification option) op"
  od_buildCallbackSignatureHeader :: "string \<Rightarrow> string \<Rightarrow> string"
  od_describeError :: "dispatch_error \<Rightarrow> string"
  od_sleep :: "int \<Rightarrow> 'w \<Rightarrow> 'w"
  od_now :: "'w \<Rightarrow> int \<times> 'w"

type_synonym ('w, 'a) dispatch_op = "('w, dispatch_error, 'a) op"

definition now_op :: "'w operations_deps \<Rightarrow> ('w, int) dispatch_op" where
  "now_op deps = (\<lambda>w. case od_now deps w of (t, w') \<Rightarrow> (Inr t, w'))"

definition property :: "json \<Rightarrow> string \<Rightarrow> ('w, json option) dispatch_op" where
  \<comment> \<open>\<open>v.k\<close>\<close>
  "property v k = (if v = JNull then op_fail (NotAnObject k) else op_return (jfield v k))"

section \<open>Requests\<close>

definition request :: "'w operations_deps \<Rightarrow> string \<Rightarrow> string \<Rightarrow> string option \<Rightarrow> string option \<Rightarrow> ('w, json) dispatch_op" where
  "request deps path m body signatureHeader =
     requestJson (od_bridgeClient deps) path \<lparr>ri_method = m, ri_body = body, ri_headers = []\<rparr> signatureHeader"

definition job_path :: "json option \<Rightarrow> string" where
  "job_path jobId = ''jobs/'' @ encodeURIComponent (js_text jobId)"

definition if_truthy :: "json \<Rightarrow> string \<Rightarrow> string \<times> json option" where
  \<comment> \<open>\<open>...(k ? { k } : {})\<close>: the property is there, or left out\<close>
  "if_truthy input k = (k, if js_truthy (jfield input k) then jfield input k else None)"

definition submit_body :: "operations_config \<Rightarrow> json \<Rightarrow> json" where
  "submit_body cfg input = object_of
     [(''prompt'', jfield input ''prompt''),
      if_truthy input ''executionMode'', if_truthy input ''cwd'', if_truthy input ''requestId'',
      if_truthy input ''originRoutingKey'', if_truthy input ''metadata'', if_truthy input ''source'',
      if_truthy input ''sourceName'',
      (''notifyUrl'', if jfield input ''notifyUrl'' \<in> {None, Some JNull}
                      then Some (JStr (oc_defaultNotifyUrl cfg)) else jfield input ''notifyUrl'')]"

definition submitBridgeJob :: "operations_config \<Rightarrow> 'w operations_deps \<Rightarrow> json \<Rightarrow> ('w, json) dispatch_op" where
  "submitBridgeJob cfg deps input = request deps ''jobs'' ''POST'' (Some (json_text (submit_body cfg input))) None"

definition getBridgeJob :: "'w operations_deps \<Rightarrow> json option \<Rightarrow> ('w, json) dispatch_op" where
  "getBridgeJob deps jobId = request deps (job_path jobId) ''GET'' None None"

definition getBridgeJobSession :: "'w operations_deps \<Rightarrow> json option \<Rightarrow> ('w, json) dispatch_op" where
  "getBridgeJobSession deps jobId = request deps (job_path jobId @ ''/session'') ''GET'' None None"

definition getBridgeJobStats :: "'w operations_deps \<Rightarrow> ('w, json) dispatch_op" where
  "getBridgeJobStats deps = request deps ''jobs/stats'' ''GET'' None None"

definition listBridgeJobs :: "'w operations_deps \<Rightarrow> json option \<Rightarrow> ('w, json) dispatch_op" where
  "listBridgeJobs deps status =
     (let suffix = (if js_truthy status then ''?status='' @ form_encode (js_text status) else [])
      in request deps (''jobs'' @ suffix) ''GET'' None None)"

definition cancelBridgeJob :: "'w operations_deps \<Rightarrow> json option \<Rightarrow> ('w, json) dispatch_op" where
  "cancelBridgeJob deps jobId = request deps (job_path jobId @ ''/cancel'') ''POST'' None None"

definition callback_body :: "json \<Rightarrow> json" where
  \<comment> \<open>a property that is \<open>undefined\<close> is not written\<close>
  "callback_body input = object_of
     [(''status'', jfield input ''status''), (''stdout'', jfield input ''stdout''),
      (''stderr'', jfield input ''stderr''), (''exitCode'', jfield input ''exitCode'')]"

definition callbackBridgeJob :: "operations_config \<Rightarrow> 'w operations_deps \<Rightarrow> json \<Rightarrow> ('w, json) dispatch_op" where
  "callbackBridgeJob cfg deps input =
     (let jobId = jfield input ''jobId'';
          bodyText = json_text (callback_body input);
          signatureHeader = (if oc_callbackSecret cfg \<noteq> []
            then Some (od_buildCallbackSignatureHeader deps (js_text jobId) bodyText) else None)
      in op_catch (request deps (job_path jobId @ ''/callback'') ''POST'' (Some bodyText) signatureHeader)
           (\<lambda>error. case error of
              BridgeHttpError st _ details \<Rightarrow>
                op_fail (if st = 409 then CallbackConflictError details error else error)
            | _ \<Rightarrow> op_fail error))"

section \<open>Health\<close>

record dispatch_health =
  dh_reachable :: bool
  dh_url :: string
  dh_stats :: "json option"
  dh_error :: "string option"
  dh_notifications :: notification_stats

definition getDispatchHealth :: "operations_config \<Rightarrow> 'w operations_deps \<Rightarrow> ('w, dispatch_health) dispatch_op" where
  "getDispatchHealth cfg deps =
     op_bind (od_getNotificationStats deps 0) (\<lambda>notifications.
       op_catch
         (op_bind (getBridgeJobStats deps) (\<lambda>stats. op_return
            \<lparr>dh_reachable = True, dh_url = oc_bridgeUrl cfg, dh_stats = Some stats, dh_error = None,
             dh_notifications = notifications\<rparr>))
         (\<lambda>error. op_return
            \<lparr>dh_reachable = False, dh_url = oc_bridgeUrl cfg, dh_stats = None,
             dh_error = Some (od_describeError deps error), dh_notifications = notifications\<rparr>))"

section \<open>Waiting for a job\<close>

definition isTerminalJobStatus :: "json option \<Rightarrow> bool" where
  "isTerminalJobStatus v \<longleftrightarrow> v \<in> {Some (JStr ''succeeded''), Some (JStr ''failed''), Some (JStr ''cancelled'')}"

definition clampNumber :: "json option \<Rightarrow> int \<Rightarrow> int \<Rightarrow> int \<Rightarrow> int" where
  "clampNumber v fallback lo hi =
     (case v of
        Some (JNum i) \<Rightarrow> max lo (min hi i)
      | _ \<Rightarrow> max lo (min hi fallback))"

record wait_result =
  wr_jobId :: "json option"
  wr_status :: "json option"
  wr_completed :: bool
  wr_timedOut :: bool
  wr_notification :: "job_notification option"
  wr_job :: json
  wr_notificationMissing :: bool

record wait_params =
  wp_jobId :: "json option"
  wp_deadline :: int
  wp_pollIntervalMs :: int

datatype wait_step = WaitDone wait_result | WaitSleep int "int option"

definition notified :: "json option \<Rightarrow> job_notification \<Rightarrow> wait_result" where
  "notified jobId n =
     (let status = Some (JStr (status_name (j_status (nt_job n)))) in
      \<lparr>wr_jobId = jobId, wr_status = status, wr_completed = isTerminalJobStatus status, wr_timedOut = False,
       wr_notification = Some n, wr_job = webhook_job_json (nt_job n), wr_notificationMissing = False\<rparr>)"

definition unnotified :: "json option \<Rightarrow> json \<Rightarrow> wait_result" where
  \<comment> \<open>the two results without a notification; in the first one the status is terminal\<close>
  "unnotified jobId job =
     (let status = jfield job ''status'' in
      \<lparr>wr_jobId = jobId, wr_status = status, wr_completed = isTerminalJobStatus status,
       wr_timedOut = (\<not> isTerminalJobStatus status), wr_notification = None, wr_job = job,
       wr_notificationMissing = isTerminalJobStatus status\<rparr>)"

definition wait_pause ::
  "operations_config \<Rightarrow> 'w operations_deps \<Rightarrow> wait_params \<Rightarrow> json \<Rightarrow> int option \<Rightarrow> ('w, wait_step) dispatch_op" where
  \<comment> \<open>the end of a round\<close>
  "wait_pause cfg deps p latestJob terminalObservedAt =
     op_bind (now_op deps) (\<lambda>t.
       let remainingMs = wp_deadline p - t in
       if remainingMs \<le> 0 then op_return (WaitDone (unnotified (wp_jobId p) latestJob))
       else op_return (WaitSleep
         (if terminalObservedAt \<noteq> None then min remainingMs (oc_minWaitPollIntervalMs cfg)
          else min remainingMs (wp_pollIntervalMs p)) terminalObservedAt))"

definition wait_terminal ::
  "operations_config \<Rightarrow> 'w operations_deps \<Rightarrow> wait_params \<Rightarrow> json \<Rightarrow> int option \<Rightarrow> ('w, wait_step) dispatch_op" where
  \<comment> \<open>the branch of a terminal status\<close>
  "wait_terminal cfg deps p latestJob terminalObservedAt =
     op_bind (case terminalObservedAt of Some t \<Rightarrow> op_return t | None \<Rightarrow> now_op deps) (\<lambda>observedAt.
     op_bind (now_op deps) (\<lambda>t.
       if t - observedAt \<ge> oc_terminalNotificationGraceMs cfg
       then op_return (WaitDone (unnotified (wp_jobId p) latestJob))
       else wait_pause cfg deps p latestJob (Some observedAt)))"

definition wait_round ::
  "operations_config \<Rightarrow> 'w operations_deps \<Rightarrow> wait_params \<Rightarrow> int option \<Rightarrow> ('w, wait_step) dispatch_op" where
  \<comment> \<open>the body of the loop up to the call of \<open>sleep\<close>\<close>
  "wait_round cfg deps p terminalObservedAt =
     op_bind (od_drainNotificationForJob deps (wp_jobId p)) (\<lambda>notification.
       case notification of
         Some n \<Rightarrow> op_return (WaitDone (notified (wp_jobId p) n))
       | None \<Rightarrow>
           op_bind (getBridgeJob deps (wp_jobId p)) (\<lambda>latestJob.
           op_bind (property latestJob ''status'') (\<lambda>status.
             if isTerminalJobStatus status then wait_terminal cfg deps p latestJob terminalObservedAt
             else wait_pause cfg deps p latestJob None)))"

partial_function (option) poll_loop ::
  "operations_config \<Rightarrow> 'w operations_deps \<Rightarrow> wait_params \<Rightarrow> int option \<Rightarrow> 'w \<Rightarrow>
   ((dispatch_error + wait_result) \<times> 'w) option" where
  \<comment> \<open>\<open>while (true)\<close>: \<open>None\<close> when it never ends\<close>
  "poll_loop cfg deps p terminalObservedAt w =
     (case wait_round cfg deps p terminalObservedAt w of
        (Inl e, w') \<Rightarrow> Some (Inl e, w')
      | (Inr (WaitDone r), w') \<Rightarrow> Some (Inr r, w')
      | (Inr (WaitSleep ms observed), w') \<Rightarrow> poll_loop cfg deps p observed (od_sleep deps ms w'))"

definition resolveWaitOptions :: "operations_config \<Rightarrow> json option \<Rightarrow> json option \<Rightarrow> int \<times> int" where
  "resolveWaitOptions cfg waitTimeoutMs pollIntervalMs =
     (clampNumber waitTimeoutMs (oc_defaultWaitTimeoutMs cfg) 1 (oc_maxWaitTimeoutMs cfg),
      clampNumber pollIntervalMs (oc_defaultWaitPollIntervalMs cfg)
        (oc_minWaitPollIntervalMs cfg) (oc_maxWaitPollIntervalMs cfg))"

definition waitForJobCompletion ::
  "operations_config \<Rightarrow> 'w operations_deps \<Rightarrow> json option \<Rightarrow> json option \<Rightarrow> json option \<Rightarrow> 'w \<Rightarrow>
   ((dispatch_error + wait_result) \<times> 'w) option" where
  \<comment> \<open>the first answer of the bridge is only tested for an error\<close>
  "waitForJobCompletion cfg deps jobId waitTimeoutMs pollIntervalMs w =
     (case resolveWaitOptions cfg waitTimeoutMs pollIntervalMs of
        (timeout, poll) \<Rightarrow>
          (case od_now deps w of
             (t, w1) \<Rightarrow>
               (case getBridgeJob deps jobId w1 of
                  (Inl e, w2) \<Rightarrow> Some (Inl e, w2)
                | (Inr _, w2) \<Rightarrow>
                    poll_loop cfg deps \<lparr>wp_jobId = jobId, wp_deadline = t + timeout, wp_pollIntervalMs = poll\<rparr> None w2)))"

definition sample_operations_config :: operations_config where
  "sample_operations_config = \<lparr>oc_bridgeUrl = ''http://b/'', oc_callbackSecret = ''k'', oc_defaultNotifyUrl = ''u'',
     oc_defaultWaitTimeoutMs = 10, oc_defaultWaitPollIntervalMs = 1, oc_maxWaitTimeoutMs = 20,
     oc_minWaitPollIntervalMs = 1, oc_maxWaitPollIntervalMs = 5, oc_terminalNotificationGraceMs = 2\<rparr>"

end
