(* ===== verification/JobWaiting.thy ===== *)
theory JobWaiting
  imports JobOperations
begin

text \<open>
  Waiting for a job (\<open>JobOperations.waitForJobCompletion\<close>): that the loop ends and what it returns,
  from what the code relies on of its clock and its dependencies. \<open>clock w\<close> is the time in the state
  \<open>w\<close>: no operation turns it back, and a sleep moves it.
\<close>

section \<open>Options\<close>

lemma clamp_range: "lo \<le> clampNumber v fallback lo hi"
    "lo \<le> hi \<Longrightarrow> clampNumber v fallback lo hi \<le> hi"
  by (auto simp: clampNumber_def split: option.split json.split)

lemma clamp_between: "lo \<le> i \<Longrightarrow> i \<le> hi \<Longrightarrow> clampNumber (Some (JNum i)) fallback lo hi = i"
  by (simp add: clampNumber_def)

lemma result_fields:
  "r = notified jobId n \<Longrightarrow> wr_jobId r = jobId \<and> wr_completed r = isTerminalJobStatus (wr_status r)"
  "r = unnotified jobId job \<Longrightarrow> wr_jobId r = jobId \<and> wr_completed r = isTerminalJobStatus (wr_status r)"
  by (simp_all add: notified_def unnotified_def Let_def)

section \<open>The loop\<close>

locale dispatch_clock =
  fixes deps :: "'w operations_deps" and clock :: "'w \<Rightarrow> int"
  assumes now_reads: "od_now deps w = (t, w') \<Longrightarrow> clock w \<le> t \<and> t \<le> clock w'"
    and fetch_forward: "clock w \<le> clock (snd (bl_fetch (od_bridgeClient deps) req w))"
    and drain_forward: "clock w \<le> clock (snd (od_drainNotificationForJob deps jobId w))"
    and drain_own: "fst (od_drainNotificationForJob deps jobId w) = Inr (Some n) \<Longrightarrow> jobId = Some (JStr (nt_id n))"
    and sleep_forward: "0 < ms \<Longrightarrow> clock w < clock (od_sleep deps ms w)"
begin

lemma now_op_forward: "now_op deps w = (r, w') \<Longrightarrow> \<exists>t. r = Inr t \<and> clock w \<le> t \<and> t \<le> clock w'"
  using now_reads by (fastforce simp: now_op_def split: prod.splits)

lemma request_forward: "request deps path m body signature w = (r, w') \<Longrightarrow> clock w \<le> clock w'"
proof -
  have "clock w \<le> clock (snd (request deps path m body signature w))"
    using fetch_forward [of w]
    by (auto simp: request_def requestJson_def client_fetchWithTimeout_def op_bind_def op_fail_def
        split: sum.splits prod.splits fetch_answer.splits dest!: arg_cong [where f = snd])
  then show "request deps path m body signature w = (r, w') \<Longrightarrow> clock w \<le> clock w'" by simp
qed

lemma getBridgeJob_forward: "getBridgeJob deps jobId w = (r, w') \<Longrightarrow> clock w \<le> clock w'"
  unfolding getBridgeJob_def by (rule request_forward)

definition pause_ok :: "operations_config \<Rightarrow> wait_params \<Rightarrow> int \<Rightarrow> wait_step \<Rightarrow> 'w \<Rightarrow> bool" where
  \<comment> \<open>what the end of a round leaves: a result at the deadline or after the grace period that began
     at \<open>b\<close>, or a pause in the time that is left\<close>
  "pause_ok cfg p b step w' =
     (case step of
        WaitDone r \<Rightarrow> r = unnotified (wp_jobId p) (wr_job r) \<and>
          (wp_deadline p \<le> clock w' \<or> wr_completed r \<and> b + oc_terminalNotificationGraceMs cfg \<le> clock w')
      | WaitSleep ms observed \<Rightarrow>
          (0 < oc_minWaitPollIntervalMs cfg \<and> 0 < wp_pollIntervalMs p \<longrightarrow> 0 < ms) \<and>
          (\<forall>t. observed = Some t \<longrightarrow> b \<le> t \<and> t \<le> clock w'))"

lemma wait_pause_run:
  assumes "wait_pause cfg deps p job observed w = (r, w')" and "\<forall>t. observed = Some t \<longrightarrow> b \<le> t \<and> t \<le> clock w"
  shows "\<exists>step. r = Inr step \<and> clock w \<le> clock w' \<and> pause_ok cfg p b step w' \<and>
    (\<forall>ms o'. step = WaitSleep ms o' \<longrightarrow> clock w < wp_deadline p)"
proof -
  obtain t w1 where n: "now_op deps w = (Inr t, w1)" "clock w \<le> t" "t \<le> clock w1"
    using now_op_forward [of w] by (metis prod.exhaust)
  from assms(1) n(1) have e: "w' = w1" "r = Inr (if wp_deadline p - t \<le> 0
      then WaitDone (unnotified (wp_jobId p) job)
      else WaitSleep (if observed \<noteq> None then min (wp_deadline p - t) (oc_minWaitPollIntervalMs cfg)
        else min (wp_deadline p - t) (wp_pollIntervalMs p)) observed)"
    by (auto simp: wait_pause_def op_bind_def op_return_def Let_def split: if_splits)
  show ?thesis
    using n assms(2) unfolding e pause_ok_def by (auto simp: unnotified_def Let_def)
qed

lemma wait_terminal_run:
  assumes "wait_terminal cfg deps p job observed w = (r, w')" and "isTerminalJobStatus (jfield job ''status'')"
    and "b = nullish observed (clock w)" and "b \<le> clock w"
  shows "\<exists>step. r = Inr step \<and> clock w \<le> clock w' \<and> pause_ok cfg p b step w' \<and>
    (\<forall>ms o'. step = WaitSleep ms o' \<longrightarrow> clock w < wp_deadline p)"
proof -
  obtain t0 w0 where n0: "(case observed of Some t \<Rightarrow> op_return t | None \<Rightarrow> now_op deps) w = (Inr t0, w0)"
    "clock w \<le> clock w0" "b \<le> t0" "t0 \<le> clock w0"
  proof (cases observed)
    case None
    obtain t w1 where "now_op deps w = (Inr t, w1)" "clock w \<le> t" "t \<le> clock w1"
      using now_op_forward [of w] by (metis prod.exhaust)
    then show ?thesis using that [of t w1] None assms(3) by simp
  next
    case (Some t)
    then show ?thesis using that [of t w] assms(3,4) by (simp add: op_return_def)
  qed
  obtain t w1 where n: "now_op deps w0 = (Inr t, w1)" "clock w0 \<le> t" "t \<le> clock w1"
    using now_op_forward [of w0] by (metis prod.exhaust)
  show ?thesis
  proof (cases "t - t0 \<ge> oc_terminalNotificationGraceMs cfg")
    case True
    with assms(1) n0(1) n(1) have "w' = w1" "r = Inr (WaitDone (unnotified (wp_jobId p) job))"
      by (auto simp: wait_terminal_def op_bind_def op_return_def)
    with True n n0 assms(2) show ?thesis by (auto simp: pause_ok_def unnotified_def Let_def)
  next
    case False
    with assms(1) n0(1) n(1) have "wait_pause cfg deps p job (Some t0) w1 = (r, w')"
      by (auto simp: wait_terminal_def op_bind_def)
    from wait_pause_run [OF this, of b] n n0 show ?thesis by fastforce
  qed
qed

lemma wait_round_run:
  assumes "wait_round cfg deps p observed w = (r, w')" and "b = nullish observed (clock w)" and "b \<le> clock w"
  shows "clock w \<le> clock w' \<and>
    (\<forall>step. r = Inr step \<longrightarrow>
       (\<exists>n. step = WaitDone (notified (wp_jobId p) n) \<and> wp_jobId p = Some (JStr (nt_id n))) \<or>
       pause_ok cfg p b step w' \<and> (\<forall>ms o'. step = WaitSleep ms o' \<longrightarrow> clock w < wp_deadline p))"
proof -
  obtain r1 w1 where d: "od_drainNotificationForJob deps (wp_jobId p) w = (r1, w1)" by fastforce
  have c1: "clock w \<le> clock w1" using drain_forward [of w "wp_jobId p"] d by simp
  show ?thesis
  proof (cases r1)
    case (Inl e)
    with assms(1) d c1 show ?thesis by (auto simp: wait_round_def op_bind_def)
  next
    case (Inr notification)
    show ?thesis
    proof (cases notification)
      case (Some n)
      with assms(1) d Inr c1 drain_own [of "wp_jobId p" w n] show ?thesis
        by (auto simp: wait_round_def op_bind_def op_return_def)
    next
      case None
      obtain r2 w2 where g: "getBridgeJob deps (wp_jobId p) w1 = (r2, w2)" by fastforce
      have c2: "clock w1 \<le> clock w2" by (rule getBridgeJob_forward [OF g])
      show ?thesis
      proof (cases "\<exists>job. r2 = Inr job \<and> job \<noteq> JNull")
        case False
        with assms(1) d Inr None g c1 c2 show ?thesis
          by (cases r2) (auto simp: wait_round_def op_bind_def property_def op_fail_def)
      next
        case True
        then obtain job where job: "r2 = Inr job" "job \<noteq> JNull" by blast
        show ?thesis
        proof (cases "isTerminalJobStatus (jfield job ''status'')")
          case t: True
          with assms(1) d Inr None g job have e: "wait_terminal cfg deps p job observed w2 = (r, w')"
            by (simp add: wait_round_def op_bind_def property_def op_return_def)
          let ?b = "nullish observed (clock w2)"
          have "?b \<le> clock w2" "b \<le> ?b" using assms(2,3) c1 c2 by (cases observed; simp)+
          with wait_terminal_run [OF e t refl] c1 c2 show ?thesis
            by (fastforce simp: pause_ok_def split: wait_step.splits)
        next
          case False
          with assms(1) d Inr None g job have e: "wait_pause cfg deps p job None w2 = (r, w')"
            by (simp add: wait_round_def op_bind_def property_def op_return_def)
          from wait_pause_run [OF this, of b] c1 c2 show ?thesis by fastforce
        qed
      qed
    qed
  qed
qed

lemma poll_loop_ends:
  assumes "0 < oc_minWaitPollIntervalMs cfg" and "0 < wp_pollIntervalMs p" and "nullish observed (clock w) \<le> clock w"
  shows "\<exists>y. poll_loop cfg deps p observed w = Some y"
  using assms(3)
proof (induction "nat (wp_deadline p - clock w)" arbitrary: observed w rule: less_induct)
  case less
  obtain r w' where e: "wait_round cfg deps p observed w = (r, w')" by fastforce
  note run = wait_round_run [OF e refl less.prems]
  show ?case
  proof (cases "\<exists>ms o'. r = Inr (WaitSleep ms o')")
    case False
    then show ?thesis by (subst poll_loop.simps) (auto simp: e split: sum.split wait_step.split)
  next
    case True
    then obtain ms o' where s: "r = Inr (WaitSleep ms o')" by blast
    with run assms(1,2) have m: "0 < ms" "clock w < wp_deadline p" "clock w \<le> clock w'"
      and o: "\<forall>t. o' = Some t \<longrightarrow> t \<le> clock w'" by (auto simp: pause_ok_def)
    let ?w = "od_sleep deps ms w'"
    have "clock w' < clock ?w" by (rule sleep_forward [OF m(1)])
    with m(2,3) o have "\<exists>y. poll_loop cfg deps p o' ?w = Some y"
      by (intro less.hyps) (cases o'; force)+
    then show ?thesis by (subst poll_loop.simps) (simp add: e s)
  qed
qed

definition wait_ok :: "operations_config \<Rightarrow> wait_params \<Rightarrow> int \<Rightarrow> wait_result \<Rightarrow> 'w \<Rightarrow> bool" where
  \<comment> \<open>a result is a notification of this job, or what the bridge answered when the time was up, or a
     terminal status that stayed without a notification for the grace period since \<open>b\<close>\<close>
  "wait_ok cfg p b r w' \<longleftrightarrow>
     (\<exists>n. r = notified (wp_jobId p) n \<and> wp_jobId p = Some (JStr (nt_id n))) \<or>
     r = unnotified (wp_jobId p) (wr_job r) \<and>
     (wp_deadline p \<le> clock w' \<or> wr_completed r \<and> b + oc_terminalNotificationGraceMs cfg \<le> clock w')"

lemma poll_loop_result:
  assumes "poll_loop cfg deps p observed w = Some (res, w')"
    and "0 < oc_minWaitPollIntervalMs cfg" and "0 < wp_pollIntervalMs p" and "nullish observed (clock w) \<le> clock w"
  shows "clock w \<le> clock w' \<and> (\<forall>r. res = Inr r \<longrightarrow> wait_ok cfg p (nullish observed (clock w)) r w')"
  using assms(1,4)
proof (induction "nat (wp_deadline p - clock w)" arbitrary: observed w rule: less_induct)
  case less
  obtain r1 w1 where e: "wait_round cfg deps p observed w = (r1, w1)" by fastforce
  note run = wait_round_run [OF e refl less.prems(2)]
  show ?case
  proof (cases "\<exists>ms o'. r1 = Inr (WaitSleep ms o')")
    case False
    with less.prems(1) run show ?thesis
      by (subst (asm) poll_loop.simps) (auto simp: e wait_ok_def pause_ok_def split: sum.splits wait_step.splits)
  next
    case True
    then obtain ms o' where s: "r1 = Inr (WaitSleep ms o')" by blast
    let ?b = "nullish observed (clock w)"
    from s run assms(2,3) have m: "0 < ms" "clock w < wp_deadline p" "clock w \<le> clock w1"
      and o: "\<forall>t. o' = Some t \<longrightarrow> ?b \<le> t \<and> t \<le> clock w1" by (auto simp: pause_ok_def)
    let ?w = "od_sleep deps ms w1"
    have f: "clock w1 < clock ?w" by (rule sleep_forward [OF m(1)])
    have next_b: "?b \<le> nullish o' (clock ?w)" "nullish o' (clock ?w) \<le> clock ?w"
      using o f m(3) less.prems(2) by (cases o'; force)+
    have l: "poll_loop cfg deps p o' ?w = Some (res, w')"
      using less.prems(1) by (subst (asm) poll_loop.simps) (simp add: e s)
    have "clock ?w \<le> clock w' \<and> (\<forall>r. res = Inr r \<longrightarrow> wait_ok cfg p (nullish o' (clock ?w)) r w')"
      using m f by (intro less.hyps [OF _ l next_b(2)]) simp
    with next_b(1) m f show ?thesis by (fastforce simp: wait_ok_def)
  qed
qed

lemma wait_returns:
  assumes "0 < oc_minWaitPollIntervalMs cfg"
  shows "\<exists>res w'. waitForJobCompletion cfg deps jobId timeout poll w = Some (res, w') \<and>
    (\<forall>r. res = Inr r \<longrightarrow>
       wr_jobId r = jobId \<and> wr_completed r = isTerminalJobStatus (wr_status r) \<and>
       ((\<exists>n. r = notified jobId n \<and> jobId = Some (JStr (nt_id n))) \<or>
        r = unnotified jobId (wr_job r) \<and>
        (clock w + fst (resolveWaitOptions cfg timeout poll) \<le> clock w' \<or>
         wr_completed r \<and> clock w + oc_terminalNotificationGraceMs cfg \<le> clock w')))"
proof -
  obtain ms every where o: "resolveWaitOptions cfg timeout poll = (ms, every)" by fastforce
  have every: "0 < every" using o assms clamp_range(1) [of "oc_minWaitPollIntervalMs cfg" poll]
    by (auto simp: resolveWaitOptions_def intro: less_le_trans)
  obtain t w1 where n: "od_now deps w = (t, w1)" by fastforce
  note t = now_reads [OF n]
  obtain r2 w2 where g: "getBridgeJob deps jobId w1 = (r2, w2)" by fastforce
  have c: "clock w1 \<le> clock w2" by (rule getBridgeJob_forward [OF g])
  show ?thesis
  proof (cases r2)
    case (Inl e)
    then show ?thesis by (simp add: waitForJobCompletion_def o n g)
  next
    case (Inr job)
    let ?p = "\<lparr>wp_jobId = jobId, wp_deadline = t + ms, wp_pollIntervalMs = every\<rparr>"
    obtain res w' where l: "poll_loop cfg deps ?p None w2 = Some (res, w')"
      using poll_loop_ends [OF assms, of ?p None w2] every by (metis (no_types) nullish_simps(1) order_refl surj_pair wait_params.select_convs(3))
    from poll_loop_result [OF l assms] every have r: "\<forall>r. res = Inr r \<longrightarrow> wait_ok cfg ?p (clock w2) r w'" by simp
    have "waitForJobCompletion cfg deps jobId timeout poll w = Some (res, w')"
      by (simp add: waitForJobCompletion_def o n g Inr l)
    moreover have "wr_jobId r = jobId \<and> wr_completed r = isTerminalJobStatus (wr_status r) \<and>
       ((\<exists>n. r = notified jobId n \<and> jobId = Some (JStr (nt_id n))) \<or>
        r = unnotified jobId (wr_job r) \<and>
        (clock w + ms \<le> clock w' \<or> wr_completed r \<and> clock w + oc_terminalNotificationGraceMs cfg \<le> clock w'))"
      if "res = Inr r" for r
    proof -
      have w: "wait_ok cfg ?p (clock w2) r w'" using r that by blast
      then have "wr_jobId r = jobId \<and> wr_completed r = isTerminalJobStatus (wr_status r)"
        unfolding wait_ok_def wait_params.select_convs by (elim disjE exE conjE) (erule result_fields)+
      moreover have "clock w + oc_terminalNotificationGraceMs cfg \<le> clock w'"
        if "clock w2 + oc_terminalNotificationGraceMs cfg \<le> clock w'" using that t c by linarith
      moreover have "clock w + ms \<le> clock w'" if "t + ms \<le> clock w'" using that t by linarith
      ultimately show ?thesis using w unfolding wait_ok_def wait_params.select_convs by blast
    qed
    ultimately show ?thesis unfolding o fst_conv by blast
  qed
qed

end

end
