(* ===== verification/ToolHandlers.thy ===== *)
theory ToolHandlers
  imports JobOperations
begin

text \<open>
  The tools of the dispatch server, \<open>omx-dispatch/tool-handlers.ts\<close>: the schemas it announces, and
  the dispatch of a call to the operations it is given. The arguments of a call are passed on as they
  come; nothing in the handler tests them against the announced schema.
\<close>

section \<open>The announced tools\<close>

record tool_config =
  tc_jobStatusValues :: "string list"
  tc_maxWaitTimeoutMs :: int
  tc_minWaitPollIntervalMs :: int
  tc_maxWaitPollIntervalMs :: int
  tc_notificationPreviewMax :: int

definition submitJobInputSchema :: "string \<Rightarrow> (string \<times> json) list" where
  "submitJobInputSchema notifyUrlDescription = [
     (''type'', JStr ''object''),
     (''properties'', JObj [(''prompt'', JObj [(''type'', JStr ''string''),
          (''minLength'', JNum 1),
          (''maxLength'', JNum 4000),
          (''description'', JStr ''Prompt to submit to the omx-bridge service.'')]),
        (''cwd'', JObj [(''type'', JStr ''string''),
          (''description'', JStr ''Working directory for the job (absolute path).'')]),
        (''executionMode'', JObj [(''type'', JStr ''string''),
          (''enum'', JArr (map (JStr \<circ> mode_name) JOB_EXECUTION_MODES)),
          (''description'', JStr ''Execution backend. Defaults to exec; use tmux for long-running session-backed jobs.'')]),
        (''requestId'', JObj [(''type'', JStr ''string''),
          (''maxLength'', JNum 200),
          (''description'', JStr ''Optional request correlation identifier.'')]),
        (''metadata'', JObj [(''type'', JStr ''object''),
          (''description'', JStr ''Optional metadata passed through to the bridge (e.g. chat_id, source).''),
          (''additionalProperties'', JBool True)]),
        (''originRoutingKey'', JObj [(''type'', JStr ''string''),
          (''maxLength'', JNum 200),
          (''description'', JStr ''Routing key of the conversation that initiated this job (e.g. 'telegram:direct:123456'). Channel brokers use this to route the callback result back to the correct chat.'')]),
        (''notifyUrl'', JObj [(''type'', JStr ''string''),
          (''description'', JStr notifyUrlDescription)]),
        (''source'', JObj [(''type'', JStr ''string''),
          (''enum'', JArr (map (JStr \<circ> source_name) JOB_SOURCE_VALUES)),
          (''description'', JStr ''Caller class. Use 'dispatch' for Claude Code CLI sessions and 'channel' for broker-owned channel routing.'')]),
        (''sourceName'', JObj [(''type'', JStr ''string''),
          (''maxLength'', JNum 200),
          (''description'', JStr ''Optional concrete channel broker name when source is 'channel', e.g. 'claude-chopper'.'')])]),
     (''required'', JArr [JStr ''prompt'']),
     (''additionalProperties'', JBool False)]"

definition submit_job_tool :: "tool_config \<Rightarrow> json" where
  "submit_job_tool config = JObj [
     (''name'', JStr ''omx_submit_job''),
     (''description'', JStr ''Submit a new prompt to the local omx-bridge service and return the assigned job id. Use this for coding, implementation, testing, and any development tasks that should be delegated to OMX.''),
     (''inputSchema'', JObj (submitJobInputSchema 
        ''Webhook URL to receive job completion callback. Defaults to the MCP server's local webhook. Pass the caller's own notify endpoint when the callback must be routed to a different process (e.g. synapse routing).''))]"

definition submit_job_and_wait_tool :: "tool_config \<Rightarrow> json" where
  "submit_job_and_wait_tool config = JObj [
     (''name'', JStr ''omx_submit_job_and_wait''),
     (''description'', JStr ''Submit a new prompt to the local omx-bridge service, then wait for that specific job to complete. Use this in interactive CLI sessions when the user expects the completion result in the same flow.''),
     (''inputSchema'', (let schema = submitJobInputSchema
          ''Webhook URL to receive job completion callback. Defaults to the MCP server's local webhook.''
      in JObj (spread schema [(''properties'', JObj (spread (props_of (the (map_of schema ''properties''))) [
        (''waitTimeoutMs'', JObj [(''type'', JStr ''number''),
          (''minimum'', JNum 1),
          (''maximum'', JNum (tc_maxWaitTimeoutMs config)),
          (''description'', JStr ''Maximum time to wait for this job to complete. Defaults to OMX_DISPATCH_WAIT_TIMEOUT_MS or 300000.'')]),
        (''pollIntervalMs'', JObj [(''type'', JStr ''number''),
          (''minimum'', JNum (tc_minWaitPollIntervalMs config)),
          (''maximum'', JNum (tc_maxWaitPollIntervalMs config)),
          (''description'', JStr ''Polling interval while waiting. Defaults to OMX_DISPATCH_WAIT_POLL_INTERVAL_MS or 1000.'')])]))])))]"

definition get_job_tool :: "tool_config \<Rightarrow> json" where
  "get_job_tool config = JObj [
     (''name'', JStr ''omx_get_job''),
     (''description'', JStr ''Fetch the full status and result payload for a specific omx-bridge job.''),
     (''inputSchema'', JObj [(''type'', JStr ''object''),
        (''properties'', JObj [(''jobId'', JObj [(''type'', JStr ''string''),
            (''minLength'', JNum 1),
            (''description'', JStr ''Bridge job identifier.'')])]),
        (''required'', JArr [JStr ''jobId'']),
        (''additionalProperties'', JBool False)])]"

definition get_job_session_tool :: "tool_config \<Rightarrow> json" where
  "get_job_session_tool config = JObj [
     (''name'', JStr ''omx_get_job_session''),
     (''description'', JStr ''Fetch compact tmux session status and attach command details for a specific omx-bridge job.''),
     (''inputSchema'', JObj [(''type'', JStr ''object''),
        (''properties'', JObj [(''jobId'', JObj [(''type'', JStr ''string''),
            (''minLength'', JNum 1),
            (''description'', JStr ''Bridge job identifier.'')])]),
        (''required'', JArr [JStr ''jobId'']),
        (''additionalProperties'', JBool False)])]"

definition wait_for_job_tool :: "tool_config \<Rightarrow> json" where
  "wait_for_job_tool config = JObj [
     (''name'', JStr ''omx_wait_for_job''),
     (''description'', JStr ''Wait for an existing omx-bridge job to complete. Drains only that job's notification from the shared notification store and leaves other pending notifications untouched.''),
     (''inputSchema'', JObj [(''type'', JStr ''object''),
        (''properties'', JObj [(''jobId'', JObj [(''type'', JStr ''string''),
            (''minLength'', JNum 1),
            (''description'', JStr ''Bridge job identifier.'')]),
          (''waitTimeoutMs'', JObj [(''type'', JStr ''number''),
            (''minimum'', JNum 1),
            (''maximum'', JNum (tc_maxWaitTimeoutMs config)),
            (''description'', JStr ''Maximum time to wait for this job to complete. Defaults to OMX_DISPATCH_WAIT_TIMEOUT_MS or 300000.'')]),
          (''pollIntervalMs'', JObj [(''type'', JStr ''number''),
            (''minimum'', JNum (tc_minWaitPollIntervalMs config)),
            (''maximum'', JNum (tc_maxWaitPollIntervalMs config)),
            (''description'', JStr ''Polling interval while waiting. Defaults to OMX_DISPATCH_WAIT_POLL_INTERVAL_MS or 1000.'')])]),
        (''required'', JArr [JStr ''jobId'']),
        (''additionalProperties'', JBool False)])]"

definition list_jobs_tool :: "tool_config \<Rightarrow> json" where
  "list_jobs_tool config = JObj [
     (''name'', JStr ''omx_list_jobs''),
     (''description'', JStr ''List omx-bridge jobs, optionally filtered by job status.''),
     (''inputSchema'', JObj [(''type'', JStr ''object''),
        (''properties'', JObj [(''status'', JObj [(''type'', JStr ''string''),
            (''enum'', JArr (map JStr (tc_jobStatusValues config))),
            (''description'', JStr ''Optional status filter.'')])]),
        (''additionalProperties'', JBool False)])]"

definition cancel_job_tool :: "tool_config \<Rightarrow> json" where
  "cancel_job_tool config = JObj [
     (''name'', JStr ''omx_cancel_job''),
     (''description'', JStr ''Cancel a queued or running omx-bridge job and return the updated job record.''),
     (''inputSchema'', JObj [(''type'', JStr ''object''),
        (''properties'', JObj [(''jobId'', JObj [(''type'', JStr ''string''),
            (''minLength'', JNum 1),
            (''description'', JStr ''Bridge job identifier.'')])]),
        (''required'', JArr [JStr ''jobId'']),
        (''additionalProperties'', JBool False)])]"

definition callback_job_tool :: "tool_config \<Rightarrow> json" where
  "callback_job_tool config = JObj [
     (''name'', JStr ''omx_callback_job''),
     (''description'', JStr ''Send a callback to mark an omx-bridge job as completed. Automatically signs the request with X-Callback-Signature using BRIDGE_CALLBACK_SECRET.''),
     (''inputSchema'', JObj [(''type'', JStr ''object''),
        (''properties'', JObj [(''jobId'', JObj [(''type'', JStr ''string''),
            (''minLength'', JNum 1),
            (''description'', JStr ''Bridge job identifier.'')]),
          (''status'', JObj [(''type'', JStr ''string''),
            (''enum'', JArr [JStr ''succeeded'', JStr ''failed'', JStr ''cancelled'']),
            (''description'', JStr ''Terminal status to set on the job.'')]),
          (''stdout'', JObj [(''type'', JStr ''string''),
            (''description'', JStr ''Standard output from the job.'')]),
          (''stderr'', JObj [(''type'', JStr ''string''),
            (''description'', JStr ''Standard error from the job.'')]),
          (''exitCode'', JObj [(''type'', JArr [JStr ''number'', JStr ''null'']),
            (''description'', JStr ''Exit code.'')])]),
        (''required'', JArr [JStr ''jobId'', JStr ''status'']),
        (''additionalProperties'', JBool False)])]"

definition get_notifications_tool :: "tool_config \<Rightarrow> json" where
  "get_notifications_tool config = JObj [
     (''name'', JStr ''omx_get_notifications''),
     (''description'', JStr ''Return all pending job-completion notifications received via the shared webhook notification store and clear the queue. Call this to check whether any OMX jobs have finished since the last poll.''),
     (''inputSchema'', JObj [(''type'', JStr ''object''),
        (''properties'', JObj []),
        (''additionalProperties'', JBool False)])]"

definition health_tool :: "tool_config \<Rightarrow> json" where
  "health_tool config = JObj [
     (''name'', JStr ''omx_health''),
     (''description'', JStr ''Return a compact operational health summary for omx-dispatch and the local omx-bridge service, including bridge job stats and pending completion notifications.''),
     (''inputSchema'', JObj [(''type'', JStr ''object''),
        (''properties'', JObj []),
        (''additionalProperties'', JBool False)])]"

definition notification_stats_tool :: "tool_config \<Rightarrow> json" where
  "notification_stats_tool config = JObj [
     (''name'', JStr ''omx_notification_stats''),
     (''description'', JStr ''Inspect the shared job-completion notification store without draining it. Use this to see whether pending OMX completion notifications exist and optionally preview a bounded subset.''),
     (''inputSchema'', JObj [(''type'', JStr ''object''),
        (''properties'', JObj [(''previewCount'', JObj [(''type'', JStr ''number''),
            (''minimum'', JNum 0),
            (''maximum'', JNum (tc_notificationPreviewMax config)),
            (''description'', JStr ''Number of pending notifications to preview without draining. Defaults to 0.'')])]),
        (''additionalProperties'', JBool False)])]"

definition buildTools :: "tool_config \<Rightarrow> json list" where
  "buildTools config = [submit_job_tool config,
     submit_job_and_wait_tool config,
     get_job_tool config,
     get_job_session_tool config,
     wait_for_job_tool config,
     list_jobs_tool config,
     cancel_job_tool config,
     callback_job_tool config,
     get_notifications_tool config,
     health_tool config,
     notification_stats_tool config]"

section \<open>Reading a schema\<close>

text \<open>What the schemas above say of a value, by the JSON Schema keywords they use.\<close>

fun has_type :: "string \<Rightarrow> json \<Rightarrow> bool" where
  "has_type t v \<longleftrightarrow>
     t = ''string'' \<and> is_string v \<or> t = ''number'' \<and> is_number v \<or> t = ''object'' \<and> isRecord v \<or>
     t = ''null'' \<and> v = JNull"

definition type_ok :: "json option \<Rightarrow> json \<Rightarrow> bool" where
  "type_ok t v =
     (case t of
        Some (JStr n) \<Rightarrow> has_type n v
      | Some (JArr ns) \<Rightarrow> list_ex (\<lambda>n. has_type (str_of n) v) ns
      | _ \<Rightarrow> True)"

definition limit_ok :: "(int \<Rightarrow> int \<Rightarrow> bool) \<Rightarrow> json option \<Rightarrow> int \<Rightarrow> bool" where
  "limit_ok le limit i = (case limit of Some (JNum m) \<Rightarrow> le m i | _ \<Rightarrow> True)"

definition value_fits :: "json \<Rightarrow> json \<Rightarrow> bool" where
  "value_fits schema v \<longleftrightarrow>
     type_ok (jfield schema ''type'') v \<and>
     (case jfield schema ''enum'' of Some (JArr vs) \<Rightarrow> v \<in> set vs | _ \<Rightarrow> True) \<and>
     (case v of
        JStr s \<Rightarrow> limit_ok (\<le>) (jfield schema ''minLength'') (js_length s) \<and>
          limit_ok (\<ge>) (jfield schema ''maxLength'') (js_length s)
      | JNum i \<Rightarrow> limit_ok (\<le>) (jfield schema ''minimum'') i \<and> limit_ok (\<ge>) (jfield schema ''maximum'') i
      | _ \<Rightarrow> True)"

definition args_fit :: "json \<Rightarrow> json \<Rightarrow> bool" where
  \<comment> \<open>the arguments of a call and the input schema of its tool\<close>
  "args_fit schema args \<longleftrightarrow>
     isRecord args \<and>
     list_all (\<lambda>k. jfield args (str_of k) \<noteq> None) (items_of (nullish (jfield schema ''required'') JNull)) \<and>
     list_all (\<lambda>kv. case jfield (nullish (jfield schema ''properties'') JNull) (fst kv) of
         None \<Rightarrow> jfield schema ''additionalProperties'' \<noteq> Some (JBool False)
       | Some s \<Rightarrow> value_fits s (snd kv)) (props_of args)"

definition tool_schema :: "tool_config \<Rightarrow> string \<Rightarrow> json option" where
  "tool_schema config tool =
     map_option (\<lambda>t. nullish (jfield t ''inputSchema'') JNull)
       (find (\<lambda>t. jfield t ''name'' = Some (JStr tool)) (buildTools config))"

section \<open>Calls\<close>

record 'w tool_deps =
  td_submitBridgeJob :: "json \<Rightarrow> ('w, json) dispatch_op"
  td_getBridgeJob :: "json option \<Rightarrow> ('w, json) dispatch_op"
  td_getBridgeJobSession :: "json option \<Rightarrow> ('w, json) dispatch_op"
  td_waitForJobCompletion :: "json option \<Rightarrow> json option \<Rightarrow> json option \<Rightarrow> 'w \<Rightarrow>
    ((dispatch_error + wait_result) \<times> 'w) option"
  td_listBridgeJobs :: "json option \<Rightarrow> ('w, json) dispatch_op"
  td_cancelBridgeJob :: "json option \<Rightarrow> ('w, json) dispatch_op"
  td_callbackBridgeJob :: "json \<Rightarrow> ('w, json) dispatch_op"
  td_drainNotifications :: "('w, job_notification list) dispatch_op"
  td_getDispatchHealth :: "('w, dispatch_health) dispatch_op"
  td_getNotificationStats :: "int \<Rightarrow> ('w, notification_stats) dispatch_op"

definition preview_json :: "notification_preview \<Rightarrow> json" where
  "preview_json p = object_of
     [(''jobId'', Some (JStr (np_jobId p))), (''status'', Some (JStr (status_name (np_status p)))),
      (''receivedAt'', Some (JStr (np_receivedAt p))), (''finishedAt'', map_option JStr (np_finishedAt p)),
      (''stdoutPreview'', Some (JStr (np_stdoutPreview p))), (''stderrPreview'', Some (JStr (np_stderrPreview p)))]"

definition stats_json :: "notification_stats \<Rightarrow> json" where
  "stats_json st = object_of
     [(''pending'', Some (JNum (ns_pending st))), (''dropped'', Some (JNum (ns_dropped st))),
      (''storePath'', Some (JStr (ns_storePath st))), (''storeBytes'', Some (JNum (ns_storeBytes st))),
      (''oldestEnqueuedAt'', Some (case ns_oldestEnqueuedAt st of None \<Rightarrow> JNull | Some t \<Rightarrow> JStr t)),
      (''preview'', map_option (JArr \<circ> map preview_json) (ns_preview st))]"

definition health_json :: "dispatch_health \<Rightarrow> json" where
  "health_json h = object_of
     [(''bridge'', Some (object_of
        [(''reachable'', Some (JBool (dh_reachable h))), (''url'', Some (JStr (dh_url h))),
         (''stats'', dh_stats h), (''error'', map_option JStr (dh_error h))])),
      (''notifications'', Some (stats_json (dh_notifications h)))]"

definition wait_json :: "wait_result \<Rightarrow> json" where
  "wait_json r = object_of
     [(''jobId'', wr_jobId r), (''status'', wr_status r), (''completed'', Some (JBool (wr_completed r))),
      (''timedOut'', Some (JBool (wr_timedOut r))),
      (''notification'', Some (case wr_notification r of None \<Rightarrow> JNull | Some n \<Rightarrow> notification_json n)),
      (''job'', Some (wr_job r)),
      (''notificationMissing'', if wr_notificationMissing r then Some (JBool True) else None)]"

definition toTextResult :: "json \<Rightarrow> json" where
  "toTextResult payload = object_of
     [(''content'', Some (JArr [object_of
        [(''type'', Some (JStr ''text'')), (''text'', Some (JStr (json_pretty 0 payload)))]]))]"

definition parseToolRequest :: "json \<Rightarrow> dispatch_error + string \<times> json" where
  "parseToolRequest req =
     (case jfield req ''params'' of
        Some params \<Rightarrow>
          (if \<not> isRecord params then Inl InvalidToolRequest
           else (case jfield params ''name'' of
                   Some (JStr tool) \<Rightarrow>
                     Inr (tool, case jfield params ''arguments'' of
                         Some rawArgs \<Rightarrow> if isRecord rawArgs then rawArgs else JObj []
                       | None \<Rightarrow> JObj [])
                 | _ \<Rightarrow> Inl InvalidToolName))
      | None \<Rightarrow> Inl InvalidToolRequest)"

definition returning :: "('a \<Rightarrow> json) \<Rightarrow> ('w, 'a) dispatch_op \<Rightarrow> 'w \<Rightarrow> ((dispatch_error + json) \<times> 'w) option" where
  \<comment> \<open>\<open>return toTextResult(await ...)\<close>\<close>
  "returning render m w = (case m w of (Inl e, w') \<Rightarrow> Some (Inl e, w') | (Inr x, w') \<Rightarrow> Some (Inr (toTextResult (render x)), w'))"

definition waiting ::
  "'w tool_deps \<Rightarrow> json option \<Rightarrow> json \<Rightarrow> 'w \<Rightarrow> ((dispatch_error + json) \<times> 'w) option" where
  "waiting deps jobId args w =
     (case td_waitForJobCompletion deps jobId (jfield args ''waitTimeoutMs'') (jfield args ''pollIntervalMs'') w of
        None \<Rightarrow> None
      | Some (Inl e, w') \<Rightarrow> Some (Inl e, w')
      | Some (Inr r, w') \<Rightarrow> Some (Inr (toTextResult (wait_json r)), w'))"

definition submit_and_wait ::
  "'w tool_deps \<Rightarrow> json \<Rightarrow> 'w \<Rightarrow> ((dispatch_error + json) \<times> 'w) option" where
  \<comment> \<open>the case \<open>omx_submit_job_and_wait\<close>\<close>
  "submit_and_wait deps args w =
     (let input = JObj (filter (\<lambda>kv. fst kv \<noteq> ''waitTimeoutMs'' \<and> fst kv \<noteq> ''pollIntervalMs'') (props_of args)) in
      case op_bind (td_submitBridgeJob deps input) (\<lambda>submitted. property submitted ''jobId'') w of
        (Inl e, w') \<Rightarrow> Some (Inl e, w')
      | (Inr jobId, w') \<Rightarrow> waiting deps jobId args w')"

definition callTool :: "'w tool_deps \<Rightarrow> json \<Rightarrow> 'w \<Rightarrow> ((dispatch_error + json) \<times> 'w) option" where
  "callTool deps req w =
     (case parseToolRequest req of
        Inl e \<Rightarrow> Some (Inl e, w)
      | Inr (tool, args) \<Rightarrow>
          (if tool = ''omx_submit_job'' then returning id (td_submitBridgeJob deps args) w
           else if tool = ''omx_submit_job_and_wait'' then submit_and_wait deps args w
           else if tool = ''omx_get_job'' then returning id (td_getBridgeJob deps (jfield args ''jobId'')) w
           else if tool = ''omx_get_job_session'' then returning id (td_getBridgeJobSession deps (jfield args ''jobId'')) w
           else if tool = ''omx_wait_for_job'' then waiting deps (jfield args ''jobId'') args w
           else if tool = ''omx_list_jobs'' then returning id (td_listBridgeJobs deps (jfield args ''status'')) w
           else if tool = ''omx_cancel_job'' then returning id (td_cancelBridgeJob deps (jfield args ''jobId'')) w
           else if tool = ''omx_callback_job'' then returning id (td_callbackBridgeJob deps args) w
           else if tool = ''omx_get_notifications''
           then returning (\<lambda>pending. object_of
               [(''count'', Some (JNum (js_length pending))),
                (''notifications'', Some (JArr (map notification_json pending)))]) (td_drainNotifications deps) w
           else if tool = ''omx_health'' then returning health_json (td_getDispatchHealth deps) w
           else if tool = ''omx_notification_stats''
           then returning stats_json (td_getNotificationStats deps
               (case jfield args ''previewCount'' of Some (JNum i) \<Rightarrow> i | _ \<Rightarrow> 0)) w
           else Some (Inl (UnknownTool tool), w)))"

end
