(* ===== verification/DispatchSystem.thy ===== *)
theory DispatchSystem
  imports JobWaiting ToolHandlers DispatchConfig
begin

text \<open>
  The dispatch server as \<open>omx-dispatch/index.ts\<close> puts it together: the client, the store, the
  operations and the tools share one state. While an operation awaits, time passes, the receiver of
  completions changes the store, and the bridge goes on working; \<open>ds_events\<close> says how.
\<close>

section \<open>The process\<close>

record 'b dispatch_event =
  de_elapsed :: nat
  de_store :: "store_state \<Rightarrow> store_state"
  de_bridge :: "'b \<Rightarrow> 'b"

record 'b dispatch_state =
  ds_store :: store_state
  ds_now :: int
  ds_bridge :: 'b
  ds_events :: "'b dispatch_event list"

definition meanwhile :: "'b dispatch_state \<Rightarrow> 'b dispatch_state" where
  "meanwhile s =
     (case ds_events s of
        [] \<Rightarrow> s
      | e # es \<Rightarrow> s\<lparr>ds_events := es, ds_now := ds_now s + int (de_elapsed e),
                    ds_store := de_store e (ds_store s), ds_bridge := de_bridge e (ds_bridge s)\<rparr>)"

definition on_notifications :: "'a store_op \<Rightarrow> ('b dispatch_state, 'a) dispatch_op" where
  "on_notifications m = (\<lambda>s.
     case m (ds_store s) of
       (Inl e, st) \<Rightarrow> (Inl (StoreFailed e), meanwhile (s\<lparr>ds_store := st\<rparr>))
     | (Inr x, st) \<Rightarrow> (Inr x, meanwhile (s\<lparr>ds_store := st\<rparr>)))"

definition index_getNotificationStats :: "store_options \<Rightarrow> int \<Rightarrow> ('b dispatch_state, notification_stats) dispatch_op" where
  "index_getNotificationStats opts previewCount = on_notifications (store_getStats opts previewCount)"

definition index_drainNotificationForJob ::
  "store_options \<Rightarrow> json option \<Rightarrow> ('b dispatch_state, job_notification option) dispatch_op" where
  \<comment> \<open>what is not a string equals no identifier, like the empty string\<close>
  "index_drainNotificationForJob opts jobId =
     on_notifications (store_drainForJob opts (case jobId of Some (JStr i) \<Rightarrow> i | _ \<Rightarrow> []))"

definition index_drainNotifications :: "store_options \<Rightarrow> ('b dispatch_state, job_notification list) dispatch_op" where
  "index_drainNotifications opts = on_notifications (store_drainAll opts)"

section \<open>The wiring\<close>

text \<open>\<open>serve\<close> is the bridge behind \<open>fetch\<close>, \<open>newURL\<close> the URL parser.\<close>

definition index_client ::
  "dispatch_config \<Rightarrow> (string \<Rightarrow> string \<Rightarrow> string + string) \<Rightarrow> (string \<Rightarrow> json option) \<Rightarrow>
   (fetch_request \<Rightarrow> 'b \<Rightarrow> fetch_answer \<times> 'b) \<Rightarrow> 'b dispatch_state bridge_client" where
  "index_client c newURL parse serve = \<lparr>
     bl_baseUrl = dc_bridgeUrl c, bl_apiToken = Some (dc_bridgeApiToken c), bl_timeoutMs = dc_bridgeRequestTimeoutMs c,
     bl_fetch = (\<lambda>req s. case serve req (ds_bridge s) of (a, b) \<Rightarrow> (a, meanwhile (s\<lparr>ds_bridge := b\<rparr>))),
     bl_newURL = newURL, bl_parse = parse\<rparr>"

definition index_config :: "dispatch_config \<Rightarrow> string \<Rightarrow> operations_config" where
  "index_config c selfNotifyUrl = \<lparr>
     oc_bridgeUrl = dc_bridgeUrl c, oc_callbackSecret = dc_bridgeCallbackSecret c, oc_defaultNotifyUrl = selfNotifyUrl,
     oc_defaultWaitTimeoutMs = dc_defaultWaitTimeoutMs c, oc_defaultWaitPollIntervalMs = dc_defaultWaitPollIntervalMs c,
     oc_maxWaitTimeoutMs = dc_maxWaitTimeoutMs c, oc_minWaitPollIntervalMs = dc_minWaitPollIntervalMs c,
     oc_maxWaitPollIntervalMs = dc_maxWaitPollIntervalMs c,
     oc_terminalNotificationGraceMs = dc_terminalNotificationGraceMs c\<rparr>"

definition index_deps ::
  "dispatch_config \<Rightarrow> 'b dispatch_state bridge_client \<Rightarrow> store_options \<Rightarrow> (string \<Rightarrow> string \<Rightarrow> string) \<Rightarrow>
   (store_error \<Rightarrow> string) \<Rightarrow> 'b dispatch_state operations_deps" where
  \<comment> \<open>the clock and the timer are the ones of the platform; a sleep takes at least its time\<close>
  "index_deps c client opts hmac storeText = \<lparr>
     od_bridgeClient = client,
     od_getNotificationStats = index_getNotificationStats opts,
     od_drainNotificationForJob = index_drainNotificationForJob opts,
     od_buildCallbackSignatureHeader = (\<lambda>jobId body. dispatch_buildCallbackSignatureHeader hmac jobId body (dc_bridgeCallbackSecret c)),
     od_describeError = error_message storeText,
     od_sleep = (\<lambda>ms s. meanwhile (s\<lparr>ds_now := ds_now s + ms\<rparr>)),
     od_now = (\<lambda>s. (ds_now s, s))\<rparr>"

definition index_tool_config :: "dispatch_config \<Rightarrow> tool_config" where
  "index_tool_config c = \<lparr>
     tc_jobStatusValues = map status_name JOB_STATUSES, tc_maxWaitTimeoutMs = dc_maxWaitTimeoutMs c,
     tc_minWaitPollIntervalMs = dc_minWaitPollIntervalMs c, tc_maxWaitPollIntervalMs = dc_maxWaitPollIntervalMs c,
     tc_notificationPreviewMax = dc_notificationPreviewMax c\<rparr>"

definition index_tools ::
  "operations_config \<Rightarrow> 'b dispatch_state operations_deps \<Rightarrow> store_options \<Rightarrow> 'b dispatch_state tool_deps" where
  "index_tools cfg deps opts = \<lparr>
     td_submitBridgeJob = submitBridgeJob cfg deps,
     td_getBridgeJob = getBridgeJob deps,
     td_getBridgeJobSession = getBridgeJobSession deps,
     td_waitForJobCompletion = waitForJobCompletion cfg deps,
     td_listBridgeJobs = listBridgeJobs deps,
     td_cancelBridgeJob = cancelBridgeJob deps,
     td_callbackBridgeJob = callbackBridgeJob cfg deps,
     td_drainNotifications = index_drainNotifications opts,
     td_getDispatchHealth = getDispatchHealth cfg deps,
     td_getNotificationStats = index_getNotificationStats opts\<rparr>"

section \<open>The clock\<close>

lemma meanwhile_forward: "ds_now s \<le> ds_now (meanwhile s)"
  by (cases "ds_events s") (simp_all add: meanwhile_def)

lemma on_notifications_forward: "ds_now s \<le> ds_now (snd (on_notifications m s))"
  using meanwhile_forward [of "s\<lparr>ds_store := snd (m (ds_store s))\<rparr>"]
  by (cases "m (ds_store s)") (auto simp: on_notifications_def split: sum.split)

lemma read_ids: "n \<in> set (read_notifications opts f) \<Longrightarrow> nt_id n \<noteq> []"
  by (auto simp: read_notifications_def List.map_filter_def read_line_def nt_id_def split: option.splits)
    (drule normalizeNotification_ok, simp add: notification_ok_def)

lemma drained_own:
  assumes "fst (store_drainForJob opts i s) = Inr (Some n)"
  shows "nt_id n = i \<and> i \<noteq> []"
proof -
  obtain s' where run: "store_drainForJob opts i s = (Inr (Some n), s')" using assms by (metis prod.collapse)
  obtain t :: store_state and ns where f: "find (\<lambda>x. nt_id x = i) (dedupe opts ns) = Some n" "set ns \<subseteq> set (read_notifications opts (st_file t)) \<or> ns = []"
  proof -
    obtain t :: store_state where body: "\<And>m :: job_notification option store_op. withFileLock m s = (Inr (Some n), s') \<Longrightarrow> m t = (Inr (Some n), s')"
      by (cases "st_locks s"; cases "hd (st_locks s)") (auto simp: withFileLock_def)
    note r = body [OF run [unfolded store_drainForJob_def]]
    show ?thesis
    proof (cases rule: read_cases [of opts t])
      case (1 u)
      with r have "find (\<lambda>x. nt_id x = i) (dedupe opts (read_notifications opts (st_file t))) = Some n"
        by (auto simp: op_bind_Inr_iff op_return_def Let_def split: if_splits)
      then show ?thesis using that by blast
    next
      case (2 u)
      with r show ?thesis by (simp add: op_bind_def op_fail_def)
    qed
  qed
  then have "nt_id n = i" "n \<in> set (dedupe opts ns)" by (auto simp: find_Some_iff)
  then have "n \<in> set ns" using dedupe_subset by blast
  with f(2) read_ids have "nt_id n \<noteq> []" by (cases ns) auto
  with \<open>nt_id n = i\<close> show ?thesis by simp
qed

interpretation index: dispatch_clock "index_deps c (index_client c newURL parse serve) opts hmac storeText" ds_now
  for c newURL parse serve opts hmac storeText
proof
  fix w w' t req jobId n ms
  let ?deps = "index_deps c (index_client c newURL parse serve) opts hmac storeText"
  show "od_now ?deps w = (t, w') \<Longrightarrow> ds_now w \<le> t \<and> t \<le> ds_now w'" by (auto simp: index_deps_def)
  show "ds_now w \<le> ds_now (snd (bl_fetch (od_bridgeClient ?deps) req w))"
    using meanwhile_forward [of "w\<lparr>ds_bridge := snd (serve req (ds_bridge w))\<rparr>"]
    by (cases "serve req (ds_bridge w)") (simp add: index_deps_def index_client_def)
  show "ds_now w \<le> ds_now (snd (od_drainNotificationForJob ?deps jobId w))"
    by (simp add: index_deps_def index_drainNotificationForJob_def on_notifications_forward)
  show "0 < ms \<Longrightarrow> ds_now w < ds_now (od_sleep ?deps ms w)"
    using meanwhile_forward [of "w\<lparr>ds_now := ds_now w + ms\<rparr>"] by (simp add: index_deps_def)
  assume "fst (od_drainNotificationForJob ?deps jobId w) = Inr (Some n)"
  then have "fst (store_drainForJob opts (case jobId of Some (JStr i) \<Rightarrow> i | _ \<Rightarrow> []) (ds_store w)) = Inr (Some n)"
    by (auto simp: index_deps_def index_drainNotificationForJob_def on_notifications_def split: prod.splits sum.splits)
  from drained_own [OF this] show "jobId = Some (JStr (nt_id n))" by (auto split: option.splits json.splits)
qed

section \<open>Every wait ends\<close>

abbreviation index_operations ::
  "dispatch_config \<Rightarrow> (string \<Rightarrow> string \<Rightarrow> string + string) \<Rightarrow> (string \<Rightarrow> json option) \<Rightarrow>
   (fetch_request \<Rightarrow> 'b \<Rightarrow> fetch_answer \<times> 'b) \<Rightarrow> store_options \<Rightarrow> (string \<Rightarrow> string \<Rightarrow> string) \<Rightarrow>
   (store_error \<Rightarrow> string) \<Rightarrow> 'b dispatch_state operations_deps" where
  "index_operations c newURL parse serve opts hmac storeText \<equiv>
     index_deps c (index_client c newURL parse serve) opts hmac storeText"

lemma loaded_poll:
  assumes "loadRuntimeConfig hostname ver env cwd = Inr c"
  shows "dc_minWaitPollIntervalMs c = 250"
  using assms unfolding loadRuntimeConfig_def Let_def try_bind_Inr sum.inject by (elim exE conjE) (hypsubst, simp)


definition sample_dispatch :: "unit dispatch_state" where
  "sample_dispatch = \<lparr>ds_store = \<lparr>st_queue = [], st_dropped = 0, st_file = None, st_locks = [], st_io = [], st_log = []\<rparr>,
     ds_now = 0, ds_bridge = (), ds_events = []\<rparr>"

definition sample_busy :: "fetch_request \<Rightarrow> unit \<Rightarrow> fetch_answer \<times> unit" where
  \<comment> \<open>a bridge on which every job runs for ever\<close>
  "sample_busy req b = (Answer 200 ''OK'' (Inr ''{}''), b)"


section \<open>Every call is answered\<close>

lemma calls_answered:
  assumes "loadRuntimeConfig hostname ver env cwd = Inr c"
  shows "\<exists>y. callTool (index_tools (index_config c url) (index_operations c newURL parse serve opts hmac storeText) opts) req s = Some y"
proof -
  let ?cfg = "index_config c url" and ?deps = "index_operations c newURL parse serve opts hmac storeText"
  have p: "0 < oc_minWaitPollIntervalMs ?cfg" by (simp add: index_config_def loaded_poll [OF assms])
  have w: "\<exists>y. waiting (index_tools ?cfg ?deps opts) jobId args t = Some y" for jobId args t
  proof -
    obtain res t' where "waitForJobCompletion ?cfg ?deps jobId (jfield args ''waitTimeoutMs'') (jfield args ''pollIntervalMs'') t = Some (res, t')"
      using index.wait_returns [OF p] by blast
    then show ?thesis by (cases res) (simp_all add: waiting_def index_tools_def)
  qed
  have r: "\<exists>y. returning f m t = Some y" for f m and t :: "'a dispatch_state" by (auto simp: returning_def split: prod.split sum.split)
  have sw: "\<exists>y. submit_and_wait (index_tools ?cfg ?deps opts) args t = Some y" for args t
    using w unfolding submit_and_wait_def Let_def by (blast | auto simp only: split: prod.split sum.split)+
  show ?thesis
  proof (cases "parseToolRequest req")
    case (Inl e)
    then show ?thesis by (simp add: callTool_def)
  next
    case (Inr call)
    obtain tool args where "call = (tool, args)" by fastforce
    with Inr show ?thesis unfolding callTool_def by (simp only: sum.case prod.case) (simp only: w r sw option.inject simp_thms split: if_split)
  qed
qed

end
