(* ===== verification/BridgePlugin.thy ===== *)
theory BridgePlugin
  imports ToolHandlers
begin

text \<open>
  The agent tools of \<open>omx-bridge-plugin/index.ts\<close>: the configuration the plugin reads, its parameter
  schemas, the requests of its six tools. The host (its configuration store, the registration of tools) and
  the type builder of the schemas are libraries; the configuration is a JSON value the host gives, read
  anew by every call. An error is its message.
\<close>

section \<open>Parameter schemas\<close>

text \<open>The constructors are the calls of the type builder, with their options.\<close>

datatype plugin_type =
    TString "(string \<times> json) list"
  | TNumber "(string \<times> json) list"
  | TNull
  | TLiteral string
  | TUnion "plugin_type list" "(string \<times> json) list"
  | TUnknown "(string \<times> json) list"
  | TRecord plugin_type plugin_type
  | TOptional plugin_type
  | TObject "(string \<times> plugin_type) list" "(string \<times> json) list"

definition PLUGIN_ID :: string where "PLUGIN_ID = ''omx-bridge-plugin''"

definition DEFAULT_BRIDGE_URL :: string where "DEFAULT_BRIDGE_URL = ''http://localhost:3992''"

definition DEFAULT_REQUEST_TIMEOUT_MS :: int where "DEFAULT_REQUEST_TIMEOUT_MS = 10000"

definition closed :: "(string \<times> json) list" where "closed = [(''additionalProperties'', JBool False)]"

definition described :: "string \<Rightarrow> string \<times> json" where "described d = (''description'', JStr d)"

definition pluginConfigSchema :: plugin_type where
  "pluginConfigSchema = TObject
     [(''bridgeUrl'', TOptional (TString
         [(''default'', JStr DEFAULT_BRIDGE_URL), described ''Base URL for the omx-bridge HTTP service.''])),
      (''callbackSecret'', TOptional (TString
         [described ''HMAC-SHA256 secret for signing callback requests. Must match BRIDGE_CALLBACK_SECRET unless the server explicitly runs insecure loopback mode.''])),
      (''apiToken'', TOptional (TString
         [described ''Bearer token for non-callback bridge routes (POST /jobs etc.). Must match BRIDGE_API_TOKEN unless the server explicitly runs insecure loopback mode.''])),
      (''requestTimeoutMs'', TOptional (TNumber
         [(''minimum'', JNum 1), (''default'', JNum DEFAULT_REQUEST_TIMEOUT_MS),
          described ''Timeout in milliseconds for each omx-bridge HTTP request.'']))] closed"

definition submitJobParameters :: plugin_type where
  "submitJobParameters = TObject
     [(''prompt'', TString
         [(''minLength'', JNum 1), (''maxLength'', JNum 4000), described ''Prompt to submit to the omx-bridge service.'']),
      (''executionMode'', TOptional (TUnion (map (TLiteral \<circ> mode_name) JOB_EXECUTION_MODES)
         [described ''Execution backend. Defaults to exec; use tmux for long-running session-backed jobs.''])),
      (''cwd'', TOptional (TString
         [(''maxLength'', JNum 500),
          described ''Working directory for the job. Must be an absolute path when provided.''])),
      (''requestId'', TOptional (TString
         [(''maxLength'', JNum 200), described ''Optional request correlation identifier.''])),
      (''originRoutingKey'', TOptional (TString
         [(''maxLength'', JNum 200),
          described ''Conversation key to preserve for correlation. For OpenClaw jobs, this is correlation-only; callback ownership is controlled by notifyUrl.''])),
      (''notifyUrl'', TOptional (TString
         [(''maxLength'', JNum 500), described ''Loopback webhook URL to receive job completion callbacks.''])),
      (''sourceName'', TOptional (TString
         [(''maxLength'', JNum 200),
          described ''Optional concrete OpenClaw integration name for routing diagnostics.''])),
      (''metadata'', TOptional (TRecord (TString [])
         (TUnknown [described ''Additional OpenClaw metadata passed through to the bridge.''])))] closed"

definition jobIdParameters :: plugin_type where
  "jobIdParameters = TObject
     [(''jobId'', TString [(''minLength'', JNum 1), described ''Bridge job identifier.''])] closed"

definition listJobsParameters :: plugin_type where
  "listJobsParameters = TObject
     [(''status'', TOptional (TUnion (map (TLiteral \<circ> status_name) JOB_STATUSES) [described ''Optional status filter.'']))] closed"

definition callbackJobParameters :: plugin_type where
  "callbackJobParameters = TObject
     [(''jobId'', TString [(''minLength'', JNum 1), described ''Bridge job identifier.'']),
      (''status'', TUnion [TLiteral ''succeeded'', TLiteral ''failed'', TLiteral ''cancelled'']
         [described ''Terminal status to set on the job.'']),
      (''stdout'', TOptional (TString [described ''Standard output from the job.''])),
      (''stderr'', TOptional (TString [described ''Standard error from the job.''])),
      (''exitCode'', TOptional (TUnion [TNumber [], TNull] [described ''Exit code.'']))] closed"

text \<open>What a schema says of a value, \<open>None\<close> for a property that is not there.\<close>

fun type_fits :: "plugin_type \<Rightarrow> json option \<Rightarrow> bool" where
  "type_fits (TString opts) v =
     (case v of
        Some (JStr s) \<Rightarrow> limit_ok (\<le>) (map_of opts ''minLength'') (js_length s) \<and>
          limit_ok (\<ge>) (map_of opts ''maxLength'') (js_length s)
      | _ \<Rightarrow> False)"
| "type_fits (TNumber opts) v =
     (case v of Some (JNum i) \<Rightarrow> limit_ok (\<le>) (map_of opts ''minimum'') i | _ \<Rightarrow> False)"
| "type_fits TNull v \<longleftrightarrow> v = Some JNull"
| "type_fits (TLiteral s) v \<longleftrightarrow> v = Some (JStr s)"
| "type_fits (TUnion ts opts) v = list_ex (\<lambda>t. type_fits t v) ts"
| "type_fits (TUnknown opts) v \<longleftrightarrow> v \<noteq> None"
| "type_fits (TRecord kt vt) v =
     (case v of
        Some (JObj kvs) \<Rightarrow> list_all (\<lambda>kv. type_fits kt (Some (JStr (fst kv))) \<and> type_fits vt (Some (snd kv))) kvs
      | _ \<Rightarrow> False)"
| "type_fits (TOptional t) v \<longleftrightarrow> v = None \<or> type_fits t v"
| "type_fits (TObject members opts) v =
     (case v of
        Some (JObj kvs) \<Rightarrow>
          list_all (\<lambda>ft. type_fits (snd ft) (jfield (JObj kvs) (fst ft))) members \<and>
          (map_of opts ''additionalProperties'' = Some (JBool False) \<longrightarrow> set (map fst kvs) \<subseteq> set (map fst members))
      | _ \<Rightarrow> False)"

section \<open>Configuration\<close>

record 'w plugin_api =
  pa_loadConfig :: "'w \<Rightarrow> json \<times> 'w"
  pa_fetch :: "fetch_request \<Rightarrow> 'w \<Rightarrow> fetch_answer \<times> 'w"
  pa_newURL :: "string \<Rightarrow> string \<Rightarrow> string + string"
  pa_parse :: "string \<Rightarrow> json option"
  pa_hmac :: "string \<Rightarrow> string \<Rightarrow> string"

type_synonym ('w, 'a) plugin_op = "('w, string, 'a) op"

record plugin_config =
  gp_bridgeUrl :: string
  gp_callbackSecret :: "string option"
  gp_apiToken :: "string option"
  gp_requestTimeoutMs :: "int option"

definition plugin_property :: "json \<Rightarrow> string \<Rightarrow> string + json option" where
  \<comment> \<open>\<open>v.k\<close>\<close>
  "plugin_property v k =
     (if v = JNull then Inl (error_message (\<lambda>_. []) (NotAnObject k)) else Inr (jfield v k))"

definition text_or :: "json option \<Rightarrow> string option \<Rightarrow> string option" where
  \<comment> \<open>\<open>typeof v === 'string' && v.length > 0 ? v : d\<close>\<close>
  "text_or v d = (case v of Some (JStr s) \<Rightarrow> if s \<noteq> [] then Some s else d | _ \<Rightarrow> d)"

definition is_object :: "json \<Rightarrow> bool" where
  \<comment> \<open>\<open>v && typeof v === 'object'\<close>\<close>
  "is_object v = (case v of JObj _ \<Rightarrow> True | JArr _ \<Rightarrow> True | _ \<Rightarrow> False)"

definition plugin_config_of :: "json option \<Rightarrow> plugin_config" where
  \<comment> \<open>\<open>getPluginConfig\<close> behind the lookup\<close>
  "plugin_config_of pluginConfig =
     (case pluginConfig of
        None \<Rightarrow> \<lparr>gp_bridgeUrl = DEFAULT_BRIDGE_URL, gp_callbackSecret = None, gp_apiToken = None, gp_requestTimeoutMs = None\<rparr>
      | Some v \<Rightarrow>
          (if \<not> is_object v
           then \<lparr>gp_bridgeUrl = DEFAULT_BRIDGE_URL, gp_callbackSecret = None, gp_apiToken = None, gp_requestTimeoutMs = None\<rparr>
           else
             \<lparr>gp_bridgeUrl = the (text_or (jfield v ''bridgeUrl'') (Some DEFAULT_BRIDGE_URL)),
              gp_callbackSecret = text_or (jfield v ''callbackSecret'') None,
              gp_apiToken = text_or (jfield v ''apiToken'') None,
              gp_requestTimeoutMs = Some (case jfield v ''requestTimeoutMs'' of
                  Some (JNum i) \<Rightarrow> if i > 0 then i else DEFAULT_REQUEST_TIMEOUT_MS
                | _ \<Rightarrow> DEFAULT_REQUEST_TIMEOUT_MS)\<rparr>))"

definition getPluginConfig :: "'w plugin_api \<Rightarrow> ('w, plugin_config) plugin_op" where
  "getPluginConfig api = (\<lambda>w.
     case pa_loadConfig api w of
       (loadedConfig, w') \<Rightarrow>
         (case plugin_property loadedConfig ''plugins'' of
            Inl m \<Rightarrow> (Inl m, w')
          | Inr plugins \<Rightarrow>
              (Inr (plugin_config_of
                 (Option.bind (Option.bind (Option.bind plugins (\<lambda>p. jfield p ''entries''))
                    (\<lambda>e. jfield e PLUGIN_ID)) (\<lambda>e. jfield e ''config''))), w')))"

section \<open>Requests\<close>

definition buildBridgeUrl :: "'w plugin_api \<Rightarrow> string \<Rightarrow> ('w, string) plugin_op" where
  "buildBridgeUrl api path =
     op_bind (getPluginConfig api) (\<lambda>c w. (pa_newURL api path (ensureTrailingSlash (gp_bridgeUrl c)), w))"

definition plugin_fetchWithTimeout ::
  "'w plugin_api \<Rightarrow> fetch_request \<Rightarrow> int \<Rightarrow> ('w, int \<times> string \<times> (string + string)) plugin_op" where
  "plugin_fetchWithTimeout api req timeoutMs = (\<lambda>w.
     case pa_fetch api req w of
       (Answer st statusText body, w') \<Rightarrow> (Inr (st, statusText, body), w')
     | (Abort, w') \<Rightarrow> (Inl (''Bridge request timed out after '' @ dec_int timeoutMs @ ''ms''), w')
     | (Rejected m, w') \<Rightarrow> (Inl m, w'))"

definition plugin_headers :: "plugin_config \<Rightarrow> request_init \<Rightarrow> string option \<Rightarrow> (string \<times> string) list" where
  "plugin_headers pluginConfig init signatureHeader =
     spread
       ([(''Accept'', ''application/json'')] @
        (if truthy_str (ri_body init) then [(''Content-Type'', ''application/json'')] else []) @
        (if truthy_str (gp_apiToken pluginConfig) then [(''Authorization'', ''Bearer '' @ the (gp_apiToken pluginConfig))] else []) @
        (if truthy_str signatureHeader then [(''X-Callback-Signature'', the signatureHeader)] else []))
       (ri_headers init)"

definition plugin_value :: "'w plugin_api \<Rightarrow> int \<times> string \<times> (string + string) \<Rightarrow> string + json" where
  \<comment> \<open>\<open>requestJson\<close> behind the fetch\<close>
  "plugin_value api response =
     (case response of
        (_, _, Inl m) \<Rightarrow> Inl m
      | (st, statusText, Inr body) \<Rightarrow>
          (let data = (if length body > 0 then nullish (pa_parse api body) (JStr body) else JNull) in
           if \<not> status_ok st
           then Inl (''Bridge request failed ('' @ dec_int st @ '' '' @ statusText @ ''): '' @
                  (if is_object data then json_pretty 0 data else if body \<noteq> [] then body else statusText))
           else Inr data))"

definition plugin_requestJson ::
  "'w plugin_api \<Rightarrow> string \<Rightarrow> request_init \<Rightarrow> string option \<Rightarrow> ('w, json) plugin_op" where
  "plugin_requestJson api path init signatureHeader =
     op_bind (getPluginConfig api) (\<lambda>pluginConfig.
     op_bind (buildBridgeUrl api path) (\<lambda>url.
     op_bind (plugin_fetchWithTimeout api
         \<lparr>fr_url = url, fr_method = ri_method init, fr_body = ri_body init,
          fr_headers = plugin_headers pluginConfig init signatureHeader\<rparr>
         (nullish (gp_requestTimeoutMs pluginConfig) DEFAULT_REQUEST_TIMEOUT_MS))
       (\<lambda>response w. (plugin_value api response, w))))"

definition plugin_toTextResult :: "json \<Rightarrow> json" where
  "plugin_toTextResult payload = object_of
     [(''content'', Some (JArr [object_of
        [(''type'', Some (JStr ''text'')), (''text'', Some (JStr (json_pretty 0 payload)))]])),
      (''details'', Some payload)]"

section \<open>The tools\<close>

definition plugin_send :: "'w plugin_api \<Rightarrow> string \<Rightarrow> string \<Rightarrow> string option \<Rightarrow> string option \<Rightarrow> ('w, json) plugin_op" where
  "plugin_send api path m body signatureHeader =
     op_bind (plugin_requestJson api path \<lparr>ri_method = m, ri_body = body, ri_headers = []\<rparr> signatureHeader)
       (\<lambda>result. op_return (plugin_toTextResult result))"

definition plugin_submit_body :: "json \<Rightarrow> json" where
  "plugin_submit_body input = object_of
     [(''prompt'', jfield input ''prompt''),
      (''source'', Some (JStr ''openclaw'')),
      if_truthy input ''executionMode'', if_truthy input ''cwd'', if_truthy input ''requestId'',
      if_truthy input ''originRoutingKey'', if_truthy input ''notifyUrl'', if_truthy input ''sourceName'',
      if_truthy input ''metadata'']"

definition plugin_submit_job :: "'w plugin_api \<Rightarrow> json \<Rightarrow> ('w, json) plugin_op" where
  "plugin_submit_job api input = (\<lambda>w.
     case plugin_property input ''prompt'' of
       Inl m \<Rightarrow> (Inl m, w)
     | Inr _ \<Rightarrow> plugin_send api ''jobs'' ''POST'' (Some (json_text (plugin_submit_body input))) None w)"

definition plugin_job_request :: "'w plugin_api \<Rightarrow> json \<Rightarrow> string \<Rightarrow> string \<Rightarrow> ('w, json) plugin_op" where
  \<comment> \<open>the tools that read \<open>input.jobId\<close> and send no body\<close>
  "plugin_job_request api input suffix m = (\<lambda>w.
     case plugin_property input ''jobId'' of
       Inl e \<Rightarrow> (Inl e, w)
     | Inr jobId \<Rightarrow> plugin_send api (job_path jobId @ suffix) m None None w)"

definition plugin_get_job :: "'w plugin_api \<Rightarrow> json \<Rightarrow> ('w, json) plugin_op" where
  "plugin_get_job api input = plugin_job_request api input [] ''GET''"

definition plugin_get_job_session :: "'w plugin_api \<Rightarrow> json \<Rightarrow> ('w, json) plugin_op" where
  "plugin_get_job_session api input = plugin_job_request api input ''/session'' ''GET''"

definition plugin_cancel_job :: "'w plugin_api \<Rightarrow> json \<Rightarrow> ('w, json) plugin_op" where
  "plugin_cancel_job api input = plugin_job_request api input ''/cancel'' ''POST''"

definition plugin_list_jobs :: "'w plugin_api \<Rightarrow> json \<Rightarrow> ('w, json) plugin_op" where
  "plugin_list_jobs api input = (\<lambda>w.
     case plugin_property input ''status'' of
       Inl e \<Rightarrow> (Inl e, w)
     | Inr status \<Rightarrow>
         (let suffix = (if js_truthy status then ''?status='' @ form_encode (js_text status) else [])
          in plugin_send api (''jobs'' @ suffix) ''GET'' None None w))"

definition plugin_callback_job :: "'w plugin_api \<Rightarrow> json \<Rightarrow> ('w, json) plugin_op" where
  "plugin_callback_job api input = (\<lambda>w.
     case plugin_property input ''status'' of
       Inl e \<Rightarrow> (Inl e, w)
     | Inr _ \<Rightarrow>
         (let bodyText = json_text (callback_body input); jobId = jfield input ''jobId'' in
          op_bind (getPluginConfig api) (\<lambda>config.
            plugin_send api (job_path jobId @ ''/callback'') ''POST'' (Some bodyText)
              (if truthy_str (gp_callbackSecret config)
               then Some (plugin_buildCallbackSignatureHeader (pa_hmac api) (the (gp_callbackSecret config)) (js_text jobId) bodyText)
               else None)) w))"

record 'w plugin_tool =
  pt_name :: string
  pt_label :: string
  pt_description :: string
  pt_parameters :: plugin_type
  pt_execute :: "json \<Rightarrow> ('w, json) plugin_op"

definition plugin_register :: "'w plugin_api \<Rightarrow> 'w plugin_tool list" where
  \<comment> \<open>\<open>register\<close>, in the order of the calls\<close>
  "plugin_register api =
     [\<lparr>pt_name = ''omx_submit_job'', pt_label = ''Submit OMX Job'',
       pt_description = ''Submit a new prompt to the local omx-bridge service and return the assigned job id.'',
       pt_parameters = submitJobParameters, pt_execute = plugin_submit_job api\<rparr>,
      \<lparr>pt_name = ''omx_get_job'', pt_label = ''Get OMX Job'',
       pt_description = ''Fetch the full status and result payload for a specific omx-bridge job.'',
       pt_parameters = jobIdParameters, pt_execute = plugin_get_job api\<rparr>,
      \<lparr>pt_name = ''omx_get_job_session'', pt_label = ''Get OMX Job Session'',
       pt_description = ''Fetch compact tmux session status and attach command details for a specific omx-bridge job.'',
       pt_parameters = jobIdParameters, pt_execute = plugin_get_job_session api\<rparr>,
      \<lparr>pt_name = ''omx_list_jobs'', pt_label = ''List OMX Jobs'',
       pt_description = ''List omx-bridge jobs, optionally filtered by job status.'',
       pt_parameters = listJobsParameters, pt_execute = plugin_list_jobs api\<rparr>,
      \<lparr>pt_name = ''omx_cancel_job'', pt_label = ''Cancel OMX Job'',
       pt_description = ''Cancel a queued or running omx-bridge job and return the updated job record.'',
       pt_parameters = jobIdParameters, pt_execute = plugin_cancel_job api\<rparr>,
      \<lparr>pt_name = ''omx_callback_job'', pt_label = ''Callback OMX Job'',
       pt_description = ''Send a callback to mark an omx-bridge job as completed (used by external processes). Automatically signs the request with X-Callback-Signature when callbackSecret is configured.'',
       pt_parameters = callbackJobParameters, pt_execute = plugin_callback_job api\<rparr>]"

definition plugin_call :: "'w plugin_api \<Rightarrow> string \<Rightarrow> json \<Rightarrow> ('w, json) plugin_op option" where
  \<comment> \<open>the host runs the tool that is registered under a name\<close>
  "plugin_call api tool params =
     map_option (\<lambda>t. pt_execute t params) (find (\<lambda>t. pt_name t = tool) (plugin_register api))"

section \<open>The dispatch server's operations\<close>

definition plugin_settings :: "'w plugin_api \<Rightarrow> plugin_config \<Rightarrow> bool" where
  \<comment> \<open>the host's configuration gives these settings and does not change\<close>
  "plugin_settings api c \<longleftrightarrow> (\<forall>w. getPluginConfig api w = (Inr c, w))"

definition dispatch_client_of :: "'w plugin_api \<Rightarrow> plugin_config \<Rightarrow> 'w bridge_client" where
  "dispatch_client_of api c = \<lparr>bl_baseUrl = gp_bridgeUrl c, bl_apiToken = gp_apiToken c,
     bl_timeoutMs = nullish (gp_requestTimeoutMs c) DEFAULT_REQUEST_TIMEOUT_MS,
     bl_fetch = pa_fetch api, bl_newURL = pa_newURL api, bl_parse = pa_parse api\<rparr>"

definition same_settings :: "'w plugin_api \<Rightarrow> plugin_config \<Rightarrow> operations_config \<Rightarrow> 'w operations_deps \<Rightarrow> bool" where
  \<comment> \<open>a dispatch server with the settings of the plugin\<close>
  "same_settings api c cfg deps \<longleftrightarrow>
     plugin_settings api c \<and> od_bridgeClient deps = dispatch_client_of api c \<and>
     oc_callbackSecret cfg = nullish (gp_callbackSecret c) [] \<and>
     od_buildCallbackSignatureHeader deps =
       (\<lambda>i b. dispatch_buildCallbackSignatureHeader (pa_hmac api) i b (oc_callbackSecret cfg))"

fun cause_of :: "dispatch_error \<Rightarrow> dispatch_error" where
  "cause_of (CallbackConflictError details cause) = cause"
| "cause_of e = e"

definition spelled_alike :: "dispatch_error \<Rightarrow> bool" where
  \<comment> \<open>an error answer is not a single JSON string, number or word, which the two print differently\<close>
  "spelled_alike e = (case e of BridgeHttpError _ _ details \<Rightarrow> is_object details | _ \<Rightarrow> True)"

definition agree :: "(json \<Rightarrow> json) \<Rightarrow> (dispatch_error + json) \<times> 'w \<Rightarrow> (string + json) \<times> 'w \<Rightarrow> bool" where
  "agree f x y \<longleftrightarrow> snd x = snd y \<and>
     (case fst x of
        Inr v \<Rightarrow> fst y = Inr (f v)
      | Inl e \<Rightarrow> \<exists>m. fst y = Inl m \<and> (spelled_alike (cause_of e) \<longrightarrow> m = error_message (\<lambda>_. []) (cause_of e)))"

lemma values_agree: "agree id (response_value (dispatch_client_of api c) r, w) (plugin_value api r, w)"
proof -
  obtain st t b where r: "r = (st, t, b)" by (cases r)
  show ?thesis
    unfolding r
    by (cases b) (auto simp: agree_def response_value_def plugin_value_def dispatch_client_of_def safeJsonParse_def
        spelled_alike_def is_object_def formatDetails_def Let_def split: json.splits)
qed

lemma headers_agree: "plugin_headers c init sg = request_headers (dispatch_client_of api c) init sg"
  by (simp add: plugin_headers_def request_headers_def dispatch_client_of_def)

lemma requests_agree:
  assumes "plugin_settings api c"
  shows "agree id (requestJson (dispatch_client_of api c) path init sg w) (plugin_requestJson api path init sg w)"
proof -
  have cfg: "getPluginConfig api w = (Inr c, w)" for w using assms by (simp add: plugin_settings_def)
  show ?thesis
  proof (cases "pa_newURL api path (ensureTrailingSlash (gp_bridgeUrl c))")
    case (Inl m)
    then show ?thesis
      by (simp add: plugin_requestJson_def requestJson_def buildBridgeUrl_def buildUrl_def cfg op_bind_def op_fail_def
          agree_def dispatch_client_of_def)
  next
    case (Inr url)
    let ?req = "\<lparr>fr_url = url, fr_method = ri_method init, fr_body = ri_body init, fr_headers = plugin_headers c init sg\<rparr>"
    obtain a w' where f: "pa_fetch api ?req w = (a, w')" by (cases "pa_fetch api ?req w")
    from Inr f show ?thesis
      using values_agree [of api c _ w']
      by (cases a) (simp_all add: plugin_requestJson_def requestJson_def buildBridgeUrl_def buildUrl_def cfg op_bind_def
          plugin_fetchWithTimeout_def client_fetchWithTimeout_def headers_agree [where api = api] agree_def
          dispatch_client_of_def spelled_alike_def)
  qed
qed

lemma sends_agree:
  assumes "same_settings api c cfg deps"
  shows "agree plugin_toTextResult (request deps path m body sg w) (plugin_send api path m body sg w)"
proof -
  have "plugin_settings api c" "od_bridgeClient deps = dispatch_client_of api c"
    using assms by (simp_all add: same_settings_def)
  with requests_agree [of api c path "\<lparr>ri_method = m, ri_body = body, ri_headers = []\<rparr>" sg w] show ?thesis
    by (auto simp: agree_def request_def plugin_send_def op_bind_def op_return_def split: sum.splits prod.splits)
qed

lemma job_requests_agree:
  assumes "same_settings api c cfg deps" and "input \<noteq> JNull"
  shows "agree plugin_toTextResult (request deps (job_path (jfield input ''jobId'') @ sfx) m None None w)
    (plugin_job_request api input sfx m w)"
  using sends_agree [OF assms(1)] assms(2) by (simp add: plugin_job_request_def plugin_property_def)

lemma conflict_agrees:
  assumes "agree f x y"
  shows "agree f (op_catch (\<lambda>_. x) (\<lambda>error. case error of
      BridgeHttpError st _ details \<Rightarrow> op_fail (if st = 409 then CallbackConflictError details error else error)
    | _ \<Rightarrow> op_fail error) w) y"
  using assms by (cases x; cases "fst x")
    (auto simp: op_catch_def op_fail_def agree_def split: dispatch_error.splits)

lemma callbacks_agree:
  assumes "same_settings api c cfg deps" and "input \<noteq> JNull"
  shows "agree plugin_toTextResult (callbackBridgeJob cfg deps input w) (plugin_callback_job api input w)"
proof -
  let ?body = "json_text (callback_body input)"
  let ?sg = "if oc_callbackSecret cfg \<noteq> []
      then Some (od_buildCallbackSignatureHeader deps (js_text (jfield input ''jobId'')) ?body) else None"
  have s: "plugin_settings api c" "oc_callbackSecret cfg = nullish (gp_callbackSecret c) []"
    "od_buildCallbackSignatureHeader deps =
       (\<lambda>i b. dispatch_buildCallbackSignatureHeader (pa_hmac api) i b (oc_callbackSecret cfg))"
    using assms(1) by (simp_all add: same_settings_def)
  have "(if truthy_str (gp_callbackSecret c)
      then Some (plugin_buildCallbackSignatureHeader (pa_hmac api) (the (gp_callbackSecret c)) (js_text (jfield input ''jobId'')) ?body)
      else None) = ?sg"
    by (cases "gp_callbackSecret c") (auto simp: s(2,3) truthy_str_def copies_agree)
  then have "plugin_callback_job api input w =
      plugin_send api (job_path (jfield input ''jobId'') @ ''/callback'') ''POST'' (Some ?body) ?sg w"
    using s(1) assms(2)
    unfolding plugin_callback_job_def plugin_property_def plugin_settings_def op_bind_def Let_def by simp
  moreover note conflict_agrees [OF sends_agree [OF assms(1), of "job_path (jfield input ''jobId'') @ ''/callback''"
      "''POST''" "Some ?body" ?sg w], where w = w]
  ultimately show ?thesis by (simp add: callbackBridgeJob_def Let_def op_catch_def)
qed

definition same_tool :: "'w plugin_api \<Rightarrow> string \<Rightarrow> json \<Rightarrow> ('w, json) dispatch_op \<Rightarrow> bool" where
  \<comment> \<open>a call of the plugin's tool is the operation, and its text result\<close>
  "same_tool api tool params operation \<longleftrightarrow>
     (\<exists>f. plugin_call api tool params = Some f \<and> (\<forall>w. agree plugin_toTextResult (operation w) (f w)))"

text \<open>
  C19. The plugin's tools are the operations of the dispatch server. With the same settings and a bridge behind the
  same \<open>fetch\<close>, reading, listing and cancelling jobs, reading a session and reporting a result send the same
  requests, signatures included, and end alike: with the text of the same value, or with an error, whose message
  is the same unless the bridge answers with a bare JSON string or number; only the wrapping of a conflict is
  missing.
\<close>

theorem plugin_matches_dispatch:
  assumes "same_settings api c cfg deps" and "input \<noteq> JNull"
  shows "same_tool api ''omx_get_job'' input (getBridgeJob deps (jfield input ''jobId'')) \<and>
    same_tool api ''omx_get_job_session'' input (getBridgeJobSession deps (jfield input ''jobId'')) \<and>
    same_tool api ''omx_list_jobs'' input (listBridgeJobs deps (jfield input ''status'')) \<and>
    same_tool api ''omx_cancel_job'' input (cancelBridgeJob deps (jfield input ''jobId'')) \<and>
    same_tool api ''omx_callback_job'' input (callbackBridgeJob cfg deps input)"
proof -
  note job = job_requests_agree [OF assms]
  have "agree plugin_toTextResult (listBridgeJobs deps (jfield input ''status'') w) (plugin_list_jobs api input w)" for w
    using sends_agree [OF assms(1)] assms(2) by (simp add: listBridgeJobs_def plugin_list_jobs_def plugin_property_def Let_def)
  with job [where sfx = "[]"] job [where sfx = "''/session''"] job [where sfx = "''/cancel''"] callbacks_agree [OF assms]
  show ?thesis
    by (simp add: same_tool_def plugin_call_def plugin_register_def plugin_get_job_def plugin_get_job_session_def
        plugin_cancel_job_def getBridgeJob_def getBridgeJobSession_def cancelBridgeJob_def)
qed

definition sample_plugin :: "unit plugin_api" where
  "sample_plugin = \<lparr>pa_loadConfig = (\<lambda>w. (JObj [(''plugins'', JObj [(''entries'', JObj
       [(PLUGIN_ID, JObj [(''config'', JObj [(''callbackSecret'', JStr ''k''), (''requestTimeoutMs'', JNum 5)])])])])], w)),
     pa_fetch = (\<lambda>req w. (Answer 409 ''Conflict'' (Inr [CHR 0x7B, CHR 0x7D]), w)),
     pa_newURL = (\<lambda>path base. Inr (base @ path)), pa_parse = (\<lambda>_. Some (JObj [])), pa_hmac = (\<lambda>k m. k)\<rparr>"

definition sample_plugin_deps :: "unit operations_deps" where
  "sample_plugin_deps = \<lparr>od_bridgeClient = dispatch_client_of sample_plugin
       \<lparr>gp_bridgeUrl = DEFAULT_BRIDGE_URL, gp_callbackSecret = Some ''k'', gp_apiToken = None, gp_requestTimeoutMs = Some 5\<rparr>,
     od_getNotificationStats = (\<lambda>n. op_fail InvalidToolName), od_drainNotificationForJob = (\<lambda>i. op_return None),
     od_buildCallbackSignatureHeader = (\<lambda>i b. dispatch_buildCallbackSignatureHeader (\<lambda>k m. k) i b ''k''),
     od_describeError = (\<lambda>_. []), od_sleep = (\<lambda>ms s. s), od_now = (\<lambda>s. (0, s))\<rparr>"

theorem plugin_matches_dispatch_witness:
  "same_tool sample_plugin ''omx_callback_job'' (JObj [(''jobId'', JStr ''i''), (''status'', JStr ''failed'')])
     (callbackBridgeJob sample_operations_config sample_plugin_deps (JObj [(''jobId'', JStr ''i''), (''status'', JStr ''failed'')]))"
proof -
  have "same_settings sample_plugin
      \<lparr>gp_bridgeUrl = DEFAULT_BRIDGE_URL, gp_callbackSecret = Some ''k'', gp_apiToken = None, gp_requestTimeoutMs = Some 5\<rparr>
      sample_operations_config sample_plugin_deps"
    by (simp add: same_settings_def plugin_settings_def sample_operations_config_def sample_plugin_deps_def sample_plugin_def
        getPluginConfig_def plugin_property_def plugin_config_of_def is_object_def text_or_def)
  from plugin_matches_dispatch [OF this, of "JObj [(''jobId'', JStr ''i''), (''status'', JStr ''failed'')]"] show ?thesis by simp
qed

end
