(* ===== verification/JobRequests.thy ===== *)
theory JobRequests
  imports JobsService BridgeSamples
begin

text \<open>
  The bodies of the bridge's requests: the classes of \<open>src/jobs/dto\<close> with their decorators, as the
  validation pipe of \<open>src/main.ts\<close> applies them (\<open>transform\<close>, \<open>whitelist\<close>, \<open>forbidNonWhitelisted\<close>).
  A body is a JSON value; the result is the instance the services receive. \<open>IsOptional\<close> skips the
  other tests of a property that is absent or \<open>null\<close>. The tests \<open>isURL\<close> and the host name of a URL are
  parameters.
\<close>

section \<open>Decorators\<close>

record dto_env =
  dt_isUrl :: "string \<Rightarrow> bool"
  dt_hostname :: "string \<Rightarrow> string option"

definition IsOptional :: "(json \<Rightarrow> bool) \<Rightarrow> json option \<Rightarrow> bool" where
  "IsOptional test v = (case v of None \<Rightarrow> True | Some x \<Rightarrow> x = JNull \<or> test x)"

definition IsIn :: "string list \<Rightarrow> json \<Rightarrow> bool" where
  "IsIn vals v = (case v of JStr s \<Rightarrow> s \<in> set vals | _ \<Rightarrow> False)"

definition MaxLength :: "int \<Rightarrow> json \<Rightarrow> bool" where
  "MaxLength n v = (case v of JStr s \<Rightarrow> js_length s \<le> n | _ \<Rightarrow> False)"

definition IsNotEmpty :: "json \<Rightarrow> bool" where
  "IsNotEmpty v \<longleftrightarrow> v \<noteq> JStr [] \<and> v \<noteq> JNull"

definition MAX_PROMPT_LENGTH :: int where "MAX_PROMPT_LENGTH = 4000"

definition MAX_METADATA_BYTES :: int where "MAX_METADATA_BYTES = 8192"

definition LOOPBACK_HOSTS :: "string list" where
  "LOOPBACK_HOSTS = [''127.0.0.1'', ''localhost'', ''[::1]'', ''::1'']"

definition IsLoopbackNotifyUrl :: "dto_env \<Rightarrow> json \<Rightarrow> bool" where
  "IsLoopbackNotifyUrl env v =
     (case v of
        JStr s \<Rightarrow> (case dt_hostname env s of None \<Rightarrow> False | Some h \<Rightarrow> h \<in> set LOOPBACK_HOSTS)
      | _ \<Rightarrow> False)"

definition MaxJsonByteLength :: "int \<Rightarrow> json \<Rightarrow> bool" where
  "MaxJsonByteLength maxBytes v \<longleftrightarrow> js_length (utf8_bytes (json_text v)) \<le> maxBytes"

definition IsUrl :: "dto_env \<Rightarrow> json \<Rightarrow> bool" where
  "IsUrl env v = (case v of JStr s \<Rightarrow> dt_isUrl env s | _ \<Rightarrow> False)"

definition only_properties :: "string list \<Rightarrow> json \<Rightarrow> bool" where
  \<comment> \<open>\<open>forbidNonWhitelisted\<close>\<close>
  "only_properties names v = list_all (\<lambda>kv. fst kv \<in> set names) (props_of v)"

section \<open>Creating a job\<close>

definition create_source_field :: "json \<Rightarrow> json option" where
  \<comment> \<open>the transformation of \<open>source\<close>\<close>
  "create_source_field body =
     (if jfield body ''source'' = Some (JStr ''synapse'') then Some (JStr ''channel'') else jfield body ''source'')"

definition create_source_name :: "json \<Rightarrow> json option" where
  \<comment> \<open>the transformation of \<open>sourceName\<close>, and the assignment to it in the one of \<open>source\<close>\<close>
  "create_source_name body =
     (if jfield body ''source'' = Some (JStr ''synapse'') \<and> jfield body ''sourceName'' \<in> {None, Some JNull}
      then Some (JStr ''claude-synapse'') else jfield body ''sourceName'')"

record create_instance =
  ci_prompt :: "json option"
  ci_executionMode :: "json option"
  ci_cwd :: "json option"
  ci_requestId :: "json option"
  ci_originRoutingKey :: "json option"
  ci_source :: "json option"
  ci_sourceName :: "json option"
  ci_metadata :: "json option"
  ci_notifyUrl :: "json option"

definition create_instance_of :: "json \<Rightarrow> create_instance" where
  "create_instance_of body = \<lparr>ci_prompt = jfield body ''prompt'', ci_executionMode = jfield body ''executionMode'',
     ci_cwd = jfield body ''cwd'', ci_requestId = jfield body ''requestId'',
     ci_originRoutingKey = jfield body ''originRoutingKey'', ci_source = create_source_field body,
     ci_sourceName = create_source_name body, ci_metadata = jfield body ''metadata'',
     ci_notifyUrl = jfield body ''notifyUrl''\<rparr>"

definition create_valid :: "dto_env \<Rightarrow> create_instance \<Rightarrow> bool" where
  \<comment> \<open>the decorators of the class\<close>
  "create_valid env i \<longleftrightarrow>
     present (\<lambda>v. is_string v \<and> IsNotEmpty v \<and> MaxLength MAX_PROMPT_LENGTH v) (ci_prompt i) \<and>
     IsOptional (\<lambda>v. is_string v \<and> IsIn [''exec'', ''tmux''] v) (ci_executionMode i) \<and>
     IsOptional (\<lambda>v. is_string v \<and> MaxLength 500 v) (ci_cwd i) \<and>
     IsOptional (\<lambda>v. is_string v \<and> MaxLength 200 v) (ci_requestId i) \<and>
     IsOptional (\<lambda>v. is_string v \<and> MaxLength 200 v) (ci_originRoutingKey i) \<and>
     IsOptional (\<lambda>v. is_string v \<and> IsIn [''dispatch'', ''channel'', ''openclaw''] v) (ci_source i) \<and>
     IsOptional (\<lambda>v. is_string v \<and> MaxLength 200 v) (ci_sourceName i) \<and>
     IsOptional (\<lambda>v. isRecord v \<and> MaxJsonByteLength MAX_METADATA_BYTES v) (ci_metadata i) \<and>
     IsOptional (\<lambda>v. is_string v \<and> IsUrl env v \<and> IsLoopbackNotifyUrl env v \<and> MaxLength 500 v) (ci_notifyUrl i)"

definition CreateJobDto :: "dto_env \<Rightarrow> json \<Rightarrow> create_instance option" where
  \<comment> \<open>\<open>None\<close>: 400\<close>
  "CreateJobDto env body =
     (if isRecord body \<and>
         only_properties [''prompt'', ''executionMode'', ''cwd'', ''requestId'', ''originRoutingKey'', ''source'',
           ''sourceName'', ''metadata'', ''notifyUrl''] body \<and>
         create_valid env (create_instance_of body)
      then Some (create_instance_of body) else None)"

definition no_null :: "json option \<Rightarrow> json option" where
  "no_null v = (if v = Some JNull then None else v)"

definition create_dto_of :: "create_instance \<Rightarrow> create_dto" where
  \<comment> \<open>an instance as the service's type has it; there, \<open>null\<close> has no place\<close>
  "create_dto_of i = \<lparr>
     cd_prompt = str_of (the (ci_prompt i)),
     cd_executionMode = map_option (enum_of mode_name JOB_EXECUTION_MODES) (no_null (ci_executionMode i)),
     cd_cwd = map_option str_of (no_null (ci_cwd i)),
     cd_requestId = map_option str_of (no_null (ci_requestId i)),
     cd_originRoutingKey = map_option str_of (no_null (ci_originRoutingKey i)),
     cd_source = map_option (Source \<circ> enum_of source_name JOB_SOURCE_VALUES) (no_null (ci_source i)),
     cd_sourceName = map_option str_of (no_null (ci_sourceName i)),
     cd_metadata = map_option props_of (no_null (ci_metadata i)),
     cd_notifyUrl = map_option str_of (no_null (ci_notifyUrl i))\<rparr>"

definition new_job_document ::
  "bridge_env \<Rightarrow> create_instance \<Rightarrow> string option \<Rightarrow> string option \<Rightarrow> string \<Rightarrow> string \<Rightarrow> string \<Rightarrow> json" where
  \<comment> \<open>the object \<open>job\<close> of \<open>createJob\<close> as it is serialised, its properties copied from the instance\<close>
  "new_job_document env i cwd requestFingerprint jobId queueOrder now = object_of
     [(''id'', Some (JStr jobId)),
      (''prompt'', ci_prompt i),
      (''executionMode'', Some (nullish (no_null (ci_executionMode i)) (JStr ''exec''))),
      (''cwd'', map_option JStr cwd),
      (''queueOrder'', Some (JStr queueOrder)),
      (''requestId'', ci_requestId i),
      (''requestFingerprint'', map_option JStr requestFingerprint),
      (''originRoutingKey'', ci_originRoutingKey i),
      (''source'', ci_source i),
      (''sourceName'', ci_sourceName i),
      (''metadata'', ci_metadata i),
      (''notifyUrl'', ci_notifyUrl i),
      (''status'', Some (JStr ''queued'')),
      (''createdAt'', Some (JStr now)),
      (''exitCode'', Some JNull),
      (''stdout'', Some (JStr [])),
      (''stderr'', Some (JStr [])),
      (''execution'', Some (object_of
         [(''command'', Some (JStr (bc_omxCommand (be_cfg env)))),
          (''timeoutMs'', Some (JNum (bc_jobTimeoutMs (be_cfg env)))),
          (''maxOutputChars'', Some (JNum (bc_maxOutputChars (be_cfg env))))]))]"

section \<open>Reporting a result\<close>

definition TERMINAL_JOB_STATUSES :: "string list" where
  "TERMINAL_JOB_STATUSES = map status_name (filter (\<lambda>s. s \<noteq> Queued \<and> s \<noteq> Running) JOB_STATUSES)"

definition JobCallbackExecutionDto :: "json \<Rightarrow> bool" where
  "JobCallbackExecutionDto v \<longleftrightarrow>
     isRecord v \<and> only_properties [''durationMs'', ''timedOut'', ''outputTruncated'', ''errorType''] v \<and>
     IsOptional is_number (jfield v ''durationMs'') \<and>
     IsOptional is_boolean (jfield v ''timedOut'') \<and>
     IsOptional is_boolean (jfield v ''outputTruncated'') \<and>
     IsOptional (IsIn (map error_type_name EXECUTION_ERROR_TYPES)) (jfield v ''errorType'')"

definition ValidateNested :: "(json \<Rightarrow> bool) \<Rightarrow> json \<Rightarrow> bool" where
  \<comment> \<open>the members of an array are validated one by one\<close>
  "ValidateNested test v = (case v of JArr vs \<Rightarrow> list_all test vs | _ \<Rightarrow> test v)"

definition JobCallbackDto :: "json \<Rightarrow> bool" where
  "JobCallbackDto body \<longleftrightarrow>
     isRecord body \<and> only_properties [''status'', ''stdout'', ''stderr'', ''exitCode'', ''execution''] body \<and>
     present (IsIn TERMINAL_JOB_STATUSES) (jfield body ''status'') \<and>
     IsOptional (\<lambda>v. is_string v \<and> MaxLength 32000 v) (jfield body ''stdout'') \<and>
     IsOptional (\<lambda>v. is_string v \<and> MaxLength 32000 v) (jfield body ''stderr'') \<and>
     IsOptional is_number (jfield body ''exitCode'') \<and>
     IsOptional (ValidateNested JobCallbackExecutionDto) (jfield body ''execution'')"

definition declared :: "(json \<Rightarrow> 'a) \<Rightarrow> json option \<Rightarrow> 'a field" where
  \<comment> \<open>a declared property of an instance; the services read \<open>null\<close> like \<open>undefined\<close>\<close>
  "declared read v = (case no_null v of None \<Rightarrow> Undefined | Some x \<Rightarrow> Given (read x))"

definition callback_execution_of :: "json \<Rightarrow> callback_execution" where
  "callback_execution_of v =
     (case v of
        JObj _ \<Rightarrow> \<lparr>cx_durationMs = declared num_of (jfield v ''durationMs''),
                   cx_timedOut = declared bool_of (jfield v ''timedOut''),
                   cx_outputTruncated = declared bool_of (jfield v ''outputTruncated''),
                   cx_errorType = declared (enum_of error_type_name EXECUTION_ERROR_TYPES) (jfield v ''errorType'')\<rparr>
      | _ \<Rightarrow> \<lparr>cx_durationMs = Absent, cx_timedOut = Absent, cx_outputTruncated = Absent, cx_errorType = Absent\<rparr>)"

definition callback_dto_of :: "json \<Rightarrow> callback_dto" where
  "callback_dto_of body = \<lparr>
     cb_status = enum_of status_name JOB_STATUSES (the (jfield body ''status'')),
     cb_stdout = declared str_of (jfield body ''stdout''),
     cb_stderr = declared str_of (jfield body ''stderr''),
     cb_exitCode = (case jfield body ''exitCode'' of None \<Rightarrow> Undefined | Some v \<Rightarrow> Given (nullable_num v)),
     cb_execution = declared callback_execution_of (jfield body ''execution'')\<rparr>"

definition ListJobsDto :: "string option \<Rightarrow> job_status option option" where
  \<comment> \<open>the query parameter \<open>status\<close>; \<open>None\<close>: 400\<close>
  "ListJobsDto status =
     (case status of
        None \<Rightarrow> Some None
      | Some s \<Rightarrow> map_option Some (enum_find status_name JOB_STATUSES s))"

definition execution_nulls :: "json \<Rightarrow> bool" where
  \<comment> \<open>the report of the execution has a property that is \<open>null\<close>\<close>
  "execution_nulls body =
     (case jfield body ''execution'' of
        Some (JObj kvs) \<Rightarrow> list_ex (\<lambda>k. jfield (JObj kvs) k = Some JNull)
          [''durationMs'', ''timedOut'', ''outputTruncated'', ''errorType'']
      | _ \<Rightarrow> False)"

section \<open>What a validated body gives\<close>

definition lost_nulls :: "create_instance \<Rightarrow> bool" where
  \<comment> \<open>a property that is copied to the job is \<open>null\<close>\<close>
  "lost_nulls i \<longleftrightarrow> ci_requestId i = Some JNull \<or> ci_originRoutingKey i = Some JNull \<or> ci_source i = Some JNull \<or>
     ci_sourceName i = Some JNull \<or> ci_metadata i = Some JNull \<or> ci_notifyUrl i = Some JNull"

lemma IsOptional_iff: "IsOptional test v \<longleftrightarrow> v = None \<or> v = Some JNull \<or> (\<exists>x. v = Some x \<and> test x)"
  by (auto simp: IsOptional_def split: option.splits)

lemma is_string_iff: "is_string v \<longleftrightarrow> (\<exists>s. v = JStr s)" by (cases v) auto

lemma isRecord_iff: "isRecord v \<longleftrightarrow> (\<exists>kvs. v = JObj kvs)" by (cases v) auto

lemma optional_string: "IsOptional (\<lambda>v. is_string v \<and> P v) x \<Longrightarrow> x = None \<or> x = Some JNull \<or> (\<exists>t. x = Some (JStr t))"
  by (auto simp: IsOptional_iff is_string_iff)

lemma optional_name:
  "IsOptional (\<lambda>v. is_string v \<and> IsIn (map name vals) v) x \<Longrightarrow>
   x = None \<or> x = Some JNull \<or> (\<exists>m. x = Some (JStr (name m)))"
  by (auto simp: IsOptional_iff is_string_iff IsIn_def)

lemma optional_record: "IsOptional (\<lambda>v. isRecord v \<and> P v) x \<Longrightarrow> x = None \<or> x = Some JNull \<or> (\<exists>t. x = Some (JObj t))"
  by (auto simp: IsOptional_iff isRecord_iff)

lemma dto_names:
  "[''exec'', ''tmux''] = map mode_name JOB_EXECUTION_MODES"
  "[''dispatch'', ''channel'', ''openclaw''] = map source_name JOB_SOURCE_VALUES"
  by (simp_all add: JOB_EXECUTION_MODES_def JOB_SOURCE_VALUES_def)

lemma valid_fields:
  assumes "create_valid env i"
  shows "\<exists>p. ci_prompt i = Some (JStr p)"
    and "ci_executionMode i = None \<or> ci_executionMode i = Some JNull \<or> (\<exists>m. ci_executionMode i = Some (JStr (mode_name m)))"
    and "ci_requestId i = None \<or> ci_requestId i = Some JNull \<or> (\<exists>t. ci_requestId i = Some (JStr t))"
    and "ci_originRoutingKey i = None \<or> ci_originRoutingKey i = Some JNull \<or> (\<exists>t. ci_originRoutingKey i = Some (JStr t))"
    and "ci_source i = None \<or> ci_source i = Some JNull \<or> (\<exists>m. ci_source i = Some (JStr (source_name m)))"
    and "ci_sourceName i = None \<or> ci_sourceName i = Some JNull \<or> (\<exists>t. ci_sourceName i = Some (JStr t))"
    and "ci_metadata i = None \<or> ci_metadata i = Some JNull \<or> (\<exists>kvs. ci_metadata i = Some (JObj kvs))"
    and "ci_notifyUrl i = None \<or> ci_notifyUrl i = Some JNull \<or> (\<exists>t. ci_notifyUrl i = Some (JStr t))"
proof -
  note v = assms [unfolded create_valid_def dto_names]
  have "present is_string (ci_prompt i)" using conjunct1 [OF v] by (cases "ci_prompt i") auto
  then show "\<exists>p. ci_prompt i = Some (JStr p)" by (cases "ci_prompt i") (auto simp: is_string_iff)
  show "ci_executionMode i = None \<or> ci_executionMode i = Some JNull \<or> (\<exists>m. ci_executionMode i = Some (JStr (mode_name m)))"
    by (rule optional_name, insert v, elim conjE, assumption)
  show "ci_source i = None \<or> ci_source i = Some JNull \<or> (\<exists>m. ci_source i = Some (JStr (source_name m)))"
    by (rule optional_name, insert v, elim conjE, assumption)
  show "ci_metadata i = None \<or> ci_metadata i = Some JNull \<or> (\<exists>kvs. ci_metadata i = Some (JObj kvs))"
    by (rule optional_record, insert v, elim conjE, assumption)
qed (rule optional_string, insert assms [unfolded create_valid_def], elim conjE, assumption)+

lemma field_read_back:
  "x = None \<or> x = Some JNull \<or> (\<exists>t. x = Some (JStr t)) \<Longrightarrow> x \<noteq> Some JNull \<Longrightarrow> map_option (JStr \<circ> str_of) (no_null x) = x"
  "x = None \<or> x = Some JNull \<or> (\<exists>t. x = Some (JObj t)) \<Longrightarrow> x \<noteq> Some JNull \<Longrightarrow> map_option (JObj \<circ> props_of) (no_null x) = x"
  "x = None \<or> x = Some JNull \<or> (\<exists>m. x = Some (JStr (source_name m))) \<Longrightarrow> x \<noteq> Some JNull \<Longrightarrow>
   map_option ((JStr \<circ> source_name) \<circ> (known_source \<circ> (Source \<circ> enum_of source_name JOB_SOURCE_VALUES))) (no_null x) = x"
  by (auto simp: no_null_def)

lemma map_filter_cons:
  "List.map_filter g (x # xs) = (case g x of None \<Rightarrow> [] | Some y \<Rightarrow> [y]) @ List.map_filter g xs"
  "List.map_filter g [] = []"
  by (simp_all add: List.map_filter_simps split: option.split)

lemma document_is_job:
  assumes "create_valid env i" and "\<not> lost_nulls i"
  shows "new_job_document benv i cwd fp jobId q now =
    job_json (new_job benv ((create_dto_of i)\<lparr>cd_cwd := cwd\<rparr>) fp jobId q now)"
proof -
  note f = valid_fields [OF assms(1)]
  obtain p where p: "ci_prompt i = Some (JStr p)" using f(1) by blast
  have n: "ci_requestId i \<noteq> Some JNull" "ci_originRoutingKey i \<noteq> Some JNull" "ci_source i \<noteq> Some JNull"
    "ci_sourceName i \<noteq> Some JNull" "ci_metadata i \<noteq> Some JNull" "ci_notifyUrl i \<noteq> Some JNull"
    using assms(2) by (auto simp: lost_nulls_def)
  have m: "mode_name (nullish (map_option (enum_of mode_name JOB_EXECUTION_MODES) (no_null (ci_executionMode i))) ExecMode) =
      str_of (nullish (no_null (ci_executionMode i)) (JStr ''exec''))"
    "JStr (str_of (nullish (no_null (ci_executionMode i)) (JStr ''exec''))) = nullish (no_null (ci_executionMode i)) (JStr ''exec'')"
    using f(2) by (auto simp: no_null_def)
  show ?thesis
    unfolding new_job_document_def job_json_def new_job_def create_dto_of_def exec_meta_json_def
    by (simp add: p m option.map_comp field_read_back(1) [OF f(3) n(1)] field_read_back(1) [OF f(4) n(2)]
        field_read_back(3) [OF f(5) n(3)] field_read_back(1) [OF f(6) n(4)] field_read_back(2) [OF f(7) n(5)] field_read_back(1) [OF f(8) n(6)]
        object_of_def map_filter_cons del: List.map_filter_simps)
qed

lemma document_has_null:
  assumes "lost_nulls i"
  shows "\<not> isBridgeJob (new_job_document benv i cwd fp jobId q now) jobId"
proof -
  let ?d = "new_job_document benv i cwd fp jobId q now"
  have "jfield ?d ''requestId'' = ci_requestId i" "jfield ?d ''originRoutingKey'' = ci_originRoutingKey i"
    "jfield ?d ''source'' = ci_source i" "jfield ?d ''sourceName'' = ci_sourceName i"
    "jfield ?d ''metadata'' = ci_metadata i" "jfield ?d ''notifyUrl'' = ci_notifyUrl i"
    by (simp_all add: new_job_document_def)
  moreover have "\<not> isOneOf source_name JOB_SOURCE_VALUES JNull" by (simp add: isOneOf_def)
  ultimately show ?thesis using assms by (auto simp: isBridgeJob_def lost_nulls_def)
qed

text \<open>
  C18. What is accepted can be stored, but for \<open>null\<close>. The document written for an accepted request is the
  serialised job, one the store reads back, unless a copied optional property of the body is \<open>null\<close>: such a
  body is accepted all the same, and its document is one the store refuses to read.
\<close>

theorem accepted_job_readable:
  assumes "CreateJobDto dto body = Some i"
  shows "isBridgeJob (new_job_document env i cwd fp jobId q now) jobId = (\<not> lost_nulls i) \<and>
    (lost_nulls i \<or>
     new_job_document env i cwd fp jobId q now =
       job_json (new_job env ((create_dto_of i)\<lparr>cd_cwd := cwd\<rparr>) fp jobId q now))"
proof -
  have v: "create_valid dto i" using assms by (auto simp: CreateJobDto_def split: if_splits)
  show ?thesis
  proof (cases "lost_nulls i")
    case True
    with document_has_null [OF this] show ?thesis by blast
  next
    case False
    with document_is_job [OF v False] show ?thesis by (simp add: isBridgeJob_job_json new_job_def)
  qed
qed

definition sample_dto :: dto_env where
  "sample_dto = \<lparr>dt_isUrl = (\<lambda>_. True), dt_hostname = (\<lambda>_. Some ''localhost'')\<rparr>"

theorem accepted_job_readable_witness:
  "\<exists>i. CreateJobDto sample_dto (JObj [(''prompt'', JStr ''p''), (''requestId'', JNull)]) = Some i \<and>
     \<not> isBridgeJob (new_job_document sample_bridge i None None uuid3 ''0'' ''t'') uuid3"
proof -
  let ?body = "JObj [(''prompt'', JStr ''p''), (''requestId'', JNull)]"
  have "case CreateJobDto sample_dto ?body of None \<Rightarrow> False | Some i \<Rightarrow> ci_requestId i = Some JNull" by code_simp
  then obtain i where i: "CreateJobDto sample_dto ?body = Some i" "ci_requestId i = Some JNull"
    by (auto split: option.splits)
  from accepted_job_readable [OF i(1)] i show ?thesis by (auto simp: lost_nulls_def)
qed

section \<open>The report of an execution\<close>

definition execution_document :: "json \<Rightarrow> exec_meta \<Rightarrow> json" where
  \<comment> \<open>\<open>{ ...job.execution, ...this.projectCallbackExecution(input.execution) }\<close> as it is serialised\<close>
  "execution_document body e =
     (case jfield body ''execution'' of
        Some (JObj x) \<Rightarrow>
          JObj (foldl (\<lambda>kvs k. case map_of x k of None \<Rightarrow> kvs | Some v \<Rightarrow> put_prop k v kvs) (props_of (exec_meta_json e))
            [''durationMs'', ''timedOut'', ''outputTruncated'', ''errorType''])
      | _ \<Rightarrow> exec_meta_json e)"

lemma foldl_overrides:
  "map_of (foldl (\<lambda>kvs k. case map_of x k of None \<Rightarrow> kvs | Some v \<Rightarrow> put_prop k v kvs) kvs ks) k =
   (if k \<in> set ks \<and> map_of x k \<noteq> None then map_of x k else map_of kvs k)"
  by (induction ks arbitrary: kvs) (auto simp: map_of_put_prop split: option.splits)

lemma execution_document_field:
  assumes "jfield body ''execution'' = Some (JObj x)"
  shows "jfield (execution_document body e) k =
    (if k \<in> set [''durationMs'', ''timedOut'', ''outputTruncated'', ''errorType''] \<and> map_of x k \<noteq> None
     then map_of x k else jfield (exec_meta_json e) k)"
proof -
  have "exec_meta_json e = JObj (props_of (exec_meta_json e))" by (simp add: exec_meta_json_def object_of_def)
  then have "jfield (exec_meta_json e) k = map_of (props_of (exec_meta_json e)) k" by (metis jfield.simps(1))
  then show ?thesis using assms unfolding execution_document_def by (simp only: option.case json.case jfield.simps foldl_overrides)
qed

lemma execution_fields:
  assumes "JobCallbackExecutionDto (JObj x)"
  shows "map_of x ''durationMs'' = None \<or> map_of x ''durationMs'' = Some JNull \<or> (\<exists>n. map_of x ''durationMs'' = Some (JNum n))"
    and "map_of x ''timedOut'' = None \<or> map_of x ''timedOut'' = Some JNull \<or> (\<exists>b. map_of x ''timedOut'' = Some (JBool b))"
    and "map_of x ''outputTruncated'' = None \<or> map_of x ''outputTruncated'' = Some JNull \<or> (\<exists>b. map_of x ''outputTruncated'' = Some (JBool b))"
    and "map_of x ''errorType'' = None \<or> map_of x ''errorType'' = Some JNull \<or> (\<exists>t. map_of x ''errorType'' = Some (JStr (error_type_name t)))"
proof -
  note v = assms [unfolded JobCallbackExecutionDto_def IsOptional_iff jfield.simps]
  have num: "is_number y \<Longrightarrow> \<exists>n. y = JNum n" and bool: "is_boolean y \<Longrightarrow> \<exists>b. y = JBool b" for y by (cases y; simp)+
  have err: "IsIn (map error_type_name EXECUTION_ERROR_TYPES) y \<Longrightarrow> \<exists>t. y = JStr (error_type_name t)" for y
    by (cases y) (auto simp: IsIn_def)
  show "map_of x ''durationMs'' = None \<or> map_of x ''durationMs'' = Some JNull \<or> (\<exists>n. map_of x ''durationMs'' = Some (JNum n))"
    using v num by blast
  show "map_of x ''timedOut'' = None \<or> map_of x ''timedOut'' = Some JNull \<or> (\<exists>b. map_of x ''timedOut'' = Some (JBool b))"
    using v bool by blast
  show "map_of x ''outputTruncated'' = None \<or> map_of x ''outputTruncated'' = Some JNull \<or> (\<exists>b. map_of x ''outputTruncated'' = Some (JBool b))"
    using v bool by blast
  show "map_of x ''errorType'' = None \<or> map_of x ''errorType'' = Some JNull \<or> (\<exists>t. map_of x ''errorType'' = Some (JStr (error_type_name t)))"
    using v err by blast
qed

lemma optional_written:
  "optional is_number (map_option JNum v)" "optional is_boolean (map_option JBool w)"
  "optional (isOneOf error_type_name EXECUTION_ERROR_TYPES) (map_option (JStr \<circ> error_type_name) t)"
  by (cases v; cases w; cases t; simp add: error_types.accepts_name)+

lemma patch_simps: "declared read None = Undefined" "v \<noteq> JNull \<Longrightarrow> declared read (Some v) = Given (read v)"
  "cx_durationMs (callback_execution_of (JObj x)) = declared num_of (map_of x ''durationMs'')"
  "cx_timedOut (callback_execution_of (JObj x)) = declared bool_of (map_of x ''timedOut'')"
  "cx_outputTruncated (callback_execution_of (JObj x)) = declared bool_of (map_of x ''outputTruncated'')"
  "cx_errorType (callback_execution_of (JObj x)) =
     declared (enum_of error_type_name EXECUTION_ERROR_TYPES) (map_of x ''errorType'')"
  by (simp_all add: declared_def no_null_def callback_execution_of_def)

lemma optional_unless_null:
  "x = None \<or> x = Some JNull \<or> (\<exists>v. x = Some (f v)) \<Longrightarrow> (\<And>v. P (f v)) \<Longrightarrow> \<not> P JNull \<Longrightarrow> optional P x = (x \<noteq> Some JNull)"
  by auto

text \<open>
  The same holds of a reported execution: what a valid callback body makes of the execution of a job is
  one the store reads back, and then the typed projection, unless a property of the report is \<open>null\<close>.
\<close>

theorem reported_execution_readable:
  assumes "JobCallbackDto body"
  shows "isExecutionMetadata (execution_document body e) = (\<not> execution_nulls body) \<and>
    (execution_nulls body \<or>
     exec_meta_of (execution_document body e) = projectCallbackExecution (cb_execution (callback_dto_of body)) e)"
proof (cases "\<exists>x. jfield body ''execution'' = Some (JObj x)")
  case False
  have "isExecutionMetadata (exec_meta_json e)" "exec_meta_of (exec_meta_json e) = e"
    by (simp_all add: isExecutionMetadata_def exec_meta_of_def exec_meta_fields optional_written exec_meta_json_def)
  moreover have "execution_document body e = exec_meta_json e" "\<not> execution_nulls body"
    using False by (auto simp: execution_document_def execution_nulls_def split: option.split json.split)
  moreover have "projectCallbackExecution (cb_execution (callback_dto_of body)) e = e"
    using False by (auto simp: projectCallbackExecution_def callback_dto_of_def declared_def no_null_def callback_execution_of_def
        split: option.split json.split)
  ultimately show ?thesis by simp
next
  case True
  then obtain x where x: "jfield body ''execution'' = Some (JObj x)" by blast
  have "JobCallbackExecutionDto (JObj x)" using assms x by (simp add: JobCallbackDto_def IsOptional_def ValidateNested_def)
  note f = execution_fields [OF this]
  have nulls: "execution_nulls body \<longleftrightarrow> map_of x ''durationMs'' = Some JNull \<or> map_of x ''timedOut'' = Some JNull \<or>
      map_of x ''outputTruncated'' = Some JNull \<or> map_of x ''errorType'' = Some JNull"
    by (simp add: execution_nulls_def x)
  note g = execution_document_field [OF x, of e]
  have p: "optional is_number (jfield (execution_document body e) ''durationMs'') = (map_of x ''durationMs'' \<noteq> Some JNull)"
    "optional is_boolean (jfield (execution_document body e) ''timedOut'') = (map_of x ''timedOut'' \<noteq> Some JNull)"
    "optional is_boolean (jfield (execution_document body e) ''outputTruncated'') = (map_of x ''outputTruncated'' \<noteq> Some JNull)"
    "optional (isOneOf error_type_name EXECUTION_ERROR_TYPES) (jfield (execution_document body e) ''errorType'') =
      (map_of x ''errorType'' \<noteq> Some JNull)"
    unfolding g exec_meta_fields
    using optional_unless_null [OF f(1), of is_number] optional_unless_null [OF f(2), of is_boolean]
      optional_unless_null [OF f(3), of is_boolean]
      optional_unless_null [OF f(4), of "isOneOf error_type_name EXECUTION_ERROR_TYPES"]
    by (simp_all add: optional_written error_types.accepts_name isOneOf_def [of _ _ JNull])
  have q: "isRecord (execution_document body e)" by (simp add: execution_document_def x)
  have r: "jfield (execution_document body e) k = jfield (exec_meta_json e) k"
    if "k \<in> {''command'', ''timeoutMs'', ''maxOutputChars'', ''recoveredFromRestart''}" for k using that unfolding g by auto
  have o: "present is_string (jfield (execution_document body e) ''command'')"
    "present is_number (jfield (execution_document body e) ''timeoutMs'')"
    "present is_number (jfield (execution_document body e) ''maxOutputChars'')"
    "optional is_boolean (jfield (execution_document body e) ''recoveredFromRestart'')"
    by (simp_all add: r exec_meta_fields optional_written)
  have valid: "isExecutionMetadata (execution_document body e) = (\<not> execution_nulls body)"
    unfolding isExecutionMetadata_def p nulls using q o by blast
  have "exec_meta_of (execution_document body e) = projectCallbackExecution (cb_execution (callback_dto_of body)) e"
    if n: "\<not> execution_nulls body"
  proof -
    have d: "map_of x ''durationMs'' \<noteq> Some JNull" "map_of x ''timedOut'' \<noteq> Some JNull"
      "map_of x ''outputTruncated'' \<noteq> Some JNull" "map_of x ''errorType'' \<noteq> Some JNull" using n nulls by blast+
    have c: "given (cb_execution (callback_dto_of body)) = Some (callback_execution_of (JObj x))"
      by (simp add: callback_dto_of_def x declared_def no_null_def)
    let ?x = "callback_execution_of (JObj x)" and ?d = "execution_document body e"
    have "map_option num_of (jfield ?d ''durationMs'') = (case given (cx_durationMs ?x) of None \<Rightarrow> em_durationMs e | v \<Rightarrow> v)"
      using f(1) d(1) by (auto simp: patch_simps g exec_meta_fields option.map_comp comp_def option.map_ident)
    moreover have "map_option bool_of (jfield ?d ''timedOut'') = (case given (cx_timedOut ?x) of None \<Rightarrow> em_timedOut e | v \<Rightarrow> v)"
      using f(2) d(2) by (auto simp: patch_simps g exec_meta_fields option.map_comp comp_def option.map_ident)
    moreover have "map_option bool_of (jfield ?d ''outputTruncated'') =
        (case given (cx_outputTruncated ?x) of None \<Rightarrow> em_outputTruncated e | v \<Rightarrow> v)"
      using f(3) d(3) by (auto simp: patch_simps g exec_meta_fields option.map_comp comp_def option.map_ident)
    moreover have "map_option (enum_of error_type_name EXECUTION_ERROR_TYPES) (jfield ?d ''errorType'') =
        (case given (cx_errorType ?x) of None \<Rightarrow> em_errorType e | v \<Rightarrow> v)"
      using f(4) d(4) by (auto simp: patch_simps g exec_meta_fields option.map_comp comp_def option.map_ident)
    moreover have "map_option bool_of (jfield ?d ''recoveredFromRestart'') = em_recoveredFromRestart e"
      by (cases "em_recoveredFromRestart e") (simp_all add: r exec_meta_fields)
    ultimately show ?thesis
      unfolding projectCallbackExecution_def c option.case exec_meta_of_def
      by (simp add: r exec_meta_fields)
  qed
  with valid show ?thesis by blast
qed

theorem reported_execution_readable_witness:
  "\<not> isExecutionMetadata (execution_document
     (JObj [(''status'', JStr ''failed''), (''execution'', JObj [(''durationMs'', JNull)])]) sample_exec)"
proof -
  let ?body = "JObj [(''status'', JStr ''failed''), (''execution'', JObj [(''durationMs'', JNull)])]"
  have "JobCallbackDto ?body" "execution_nulls ?body" by code_simp+
  with reported_execution_readable [of ?body sample_exec] show ?thesis by blast
qed

end
