(* ===== verification/ToolRequests.thy ===== *)
theory ToolRequests
  imports ToolHandlers JobRequests
begin

text \<open>
  The tools and the job API: a submission whose arguments fit the announced schema of its tool, as the
  request the dispatch server makes of it, against the classes of the bridge.
\<close>

section \<open>Arguments that fit a schema\<close>

lemma fits_field:
  assumes "args_fit schema args" and "jfield args k = Some v"
    and "jfield (nullish (jfield schema ''properties'') JNull) k = Some s"
  shows "value_fits s v"
proof -
  have "(k, v) \<in> set (props_of args)" using assms(2) by (cases args) (auto dest: map_of_SomeD)
  then have "case jfield (nullish (jfield schema ''properties'') JNull) k of
         None \<Rightarrow> jfield schema ''additionalProperties'' \<noteq> Some (JBool False) | Some s \<Rightarrow> value_fits s v"
    using assms(1) unfolding args_fit_def list_all_iff by (metis fst_conv snd_conv)
  with assms(3) show ?thesis by simp
qed

lemma fits_required:
  assumes "args_fit schema args" and "jfield schema ''required'' = Some (JArr ks)" and "JStr k \<in> set ks"
  shows "jfield args k \<noteq> None"
  using assms by (auto simp: args_fit_def list_all_iff)

lemma fits_string:
  assumes "value_fits s v" and "jfield s ''type'' = Some (JStr ''string'')"
  shows "\<exists>t. v = JStr t \<and> limit_ok (\<le>) (jfield s ''minLength'') (js_length t) \<and> limit_ok (\<ge>) (jfield s ''maxLength'') (js_length t)"
  using assms by (cases v) (auto simp: value_fits_def type_ok_def)

lemma fits_enum:
  assumes "value_fits s v" and "jfield s ''enum'' = Some (JArr vs)"
  shows "v \<in> set vs"
  using assms by (auto simp: value_fits_def)

section \<open>The body of a submission\<close>

lemma body_fields:
  "jfield (submit_body cfg input) ''prompt'' = jfield input ''prompt''"
  "k \<in> set [''executionMode'', ''cwd'', ''requestId'', ''originRoutingKey'', ''metadata'', ''source'', ''sourceName''] \<Longrightarrow>
   jfield (submit_body cfg input) k = (if js_truthy (jfield input k) then jfield input k else None)"
  "jfield (submit_body cfg input) ''notifyUrl'' =
     (if jfield input ''notifyUrl'' \<in> {None, Some JNull} then Some (JStr (oc_defaultNotifyUrl cfg)) else jfield input ''notifyUrl'')"
  unfolding submit_body_def if_truthy_def by auto

lemma only_object_of: "set (map fst ps) \<subseteq> set names \<Longrightarrow> only_properties names (object_of ps)"
  by (induction ps) (auto simp: only_properties_def object_of_def List.map_filter_simps split: option.split)

lemma body_names:
  "only_properties [''prompt'', ''executionMode'', ''cwd'', ''requestId'', ''originRoutingKey'', ''source'',
     ''sourceName'', ''metadata'', ''notifyUrl''] (submit_body cfg input)"
  unfolding submit_body_def if_truthy_def by (rule only_object_of) simp

lemma body_record: "isRecord (submit_body cfg input)" by (simp add: submit_body_def)

lemma body_instance:
  assumes "jfield input ''source'' \<noteq> Some (JStr ''synapse'')"
  shows "create_instance_of (submit_body cfg input) =
    \<lparr>ci_prompt = jfield input ''prompt'', ci_executionMode = snd (if_truthy input ''executionMode''),
     ci_cwd = snd (if_truthy input ''cwd''), ci_requestId = snd (if_truthy input ''requestId''),
     ci_originRoutingKey = snd (if_truthy input ''originRoutingKey''), ci_source = snd (if_truthy input ''source''),
     ci_sourceName = snd (if_truthy input ''sourceName''), ci_metadata = snd (if_truthy input ''metadata''),
     ci_notifyUrl = (if jfield input ''notifyUrl'' \<in> {None, Some JNull}
        then Some (JStr (oc_defaultNotifyUrl cfg)) else jfield input ''notifyUrl'')\<rparr>"
  using assms by (simp add: create_instance_of_def create_source_field_def create_source_name_def body_fields if_truthy_def)

section \<open>What the schema of a submission gives\<close>

definition submit_fields_ok :: "json \<Rightarrow> bool" where
  \<comment> \<open>the types, limits and names the schema announces\<close>
  "submit_fields_ok args \<longleftrightarrow>
     (\<exists>p. jfield args ''prompt'' = Some (JStr p) \<and> 1 \<le> js_length p \<and> js_length p \<le> 4000) \<and>
     (\<forall>v. jfield args ''cwd'' = Some v \<longrightarrow> is_string v) \<and>
     (\<forall>v. jfield args ''executionMode'' = Some v \<longrightarrow> v \<in> JStr ` {''exec'', ''tmux''}) \<and>
     (\<forall>k \<in> {''requestId'', ''originRoutingKey'', ''sourceName''}. \<forall>v. jfield args k = Some v \<longrightarrow>
        (\<exists>t. v = JStr t \<and> js_length t \<le> 200)) \<and>
     (\<forall>v. jfield args ''metadata'' = Some v \<longrightarrow> isRecord v) \<and>
     (\<forall>v. jfield args ''notifyUrl'' = Some v \<longrightarrow> is_string v) \<and>
     (\<forall>v. jfield args ''source'' = Some v \<longrightarrow> v \<in> JStr ` {''dispatch'', ''channel'', ''openclaw''})"

abbreviation submit_property :: "string \<Rightarrow> string \<Rightarrow> json option" where
  "submit_property d k \<equiv> jfield (the (jfield (JObj (submitJobInputSchema d)) ''properties'')) k"

lemma submit_properties:
  "\<exists>s. submit_property d ''prompt'' = Some s \<and> jfield s ''type'' = Some (JStr ''string'') \<and>
     jfield s ''minLength'' = Some (JNum 1) \<and> jfield s ''maxLength'' = Some (JNum 4000)"
  "\<exists>s. submit_property d ''cwd'' = Some s \<and> jfield s ''type'' = Some (JStr ''string'')"
  "\<exists>s. submit_property d ''notifyUrl'' = Some s \<and> jfield s ''type'' = Some (JStr ''string'')"
  "\<exists>s. submit_property d ''metadata'' = Some s \<and> jfield s ''type'' = Some (JStr ''object'')"
  "\<exists>s. submit_property d ''executionMode'' = Some s \<and> jfield s ''enum'' = Some (JArr (map JStr [''exec'', ''tmux'']))"
  "\<exists>s. submit_property d ''source'' = Some s \<and> jfield s ''enum'' = Some (JArr (map JStr [''dispatch'', ''channel'', ''openclaw'']))"
  "k \<in> {''requestId'', ''originRoutingKey'', ''sourceName''} \<Longrightarrow>
   \<exists>s. submit_property d k = Some s \<and> jfield s ''type'' = Some (JStr ''string'') \<and> jfield s ''maxLength'' = Some (JNum 200)"
  by (auto simp: submitJobInputSchema_def JOB_EXECUTION_MODES_def JOB_SOURCE_VALUES_def)

lemma submit_schema_fields:
  assumes "args_fit (JObj (submitJobInputSchema d)) args"
  shows "submit_fields_ok args"
proof -
  have announced: "jfield args k = Some v \<Longrightarrow> submit_property d k = Some s \<Longrightarrow> value_fits s v" for k v s
    by (rule fits_field [OF assms]) (simp_all add: submitJobInputSchema_def)
  have limited: "value_fits s v \<Longrightarrow> jfield s ''type'' = Some (JStr ''string'') \<Longrightarrow> jfield s ''maxLength'' = Some (JNum n) \<Longrightarrow>
      \<exists>t. v = JStr t \<and> js_length t \<le> n" for s v n
    using fits_string [of s v] by (auto simp: limit_ok_def)
  have "jfield args ''prompt'' \<noteq> None"
    by (rule fits_required [OF assms, of "[JStr ''prompt'']"]) (simp_all add: submitJobInputSchema_def)
  then obtain v where v: "jfield args ''prompt'' = Some v" by blast
  have "\<exists>p. v = JStr p \<and> 1 \<le> js_length p \<and> js_length p \<le> 4000"
  proof -
    obtain s where s: "submit_property d ''prompt'' = Some s" "jfield s ''type'' = Some (JStr ''string'')"
      "jfield s ''minLength'' = Some (JNum 1)" "jfield s ''maxLength'' = Some (JNum 4000)"
      using submit_properties(1) [of d] by blast
    from fits_string [OF announced [OF v s(1)] s(2)] show ?thesis by (simp add: limit_ok_def s(3,4))
  qed
  with v have a: "\<exists>p. jfield args ''prompt'' = Some (JStr p) \<and> 1 \<le> js_length p \<and> js_length p \<le> 4000" by blast
  have b: "jfield args ''cwd'' = Some v \<Longrightarrow> is_string v" "jfield args ''notifyUrl'' = Some v \<Longrightarrow> is_string v" for v
    using announced submit_properties(2,3) [of d] fits_string unfolding is_string_iff by blast+
  have c: "jfield args ''executionMode'' = Some v \<Longrightarrow> v \<in> JStr ` {''exec'', ''tmux''}" for v
    using announced [of "''executionMode''" v] submit_properties(5) [of d] fits_enum [of _ v] by fastforce
  have d: "jfield args ''source'' = Some v \<Longrightarrow> v \<in> JStr ` {''dispatch'', ''channel'', ''openclaw''}" for v
    using announced [of "''source''" v] submit_properties(6) [of d] fits_enum [of _ v] by fastforce
  have e: "jfield args ''metadata'' = Some v \<Longrightarrow> isRecord v" for v
    using announced [of "''metadata''" v] submit_properties(4) [of d] by (auto simp: value_fits_def type_ok_def)
  have f: "k \<in> {''requestId'', ''originRoutingKey'', ''sourceName''} \<Longrightarrow> jfield args k = Some v \<Longrightarrow>
      \<exists>t. v = JStr t \<and> js_length t \<le> 200" for k v
    using announced [of k v] submit_properties(7) [of k d] limited [of _ v] by blast
  from a b c d e f show ?thesis unfolding submit_fields_ok_def by blast
qed

lemma truthy_string: "js_truthy (Some (JStr t)) = (t \<noteq> [])" by (simp add: js_truthy_def)

lemma truthy_object [simp]: "js_truthy (Some (JObj kvs))" "js_truthy None = False" by (simp_all add: js_truthy_def)

lemma never_null: "snd (if_truthy args k) \<noteq> Some JNull" by (simp add: if_truthy_def js_truthy_def)

definition bridge_limits :: "dto_env \<Rightarrow> operations_config \<Rightarrow> json \<Rightarrow> bool" where
  \<comment> \<open>what the bridge asks beyond the announced schema\<close>
  "bridge_limits dto cfg args \<longleftrightarrow>
     optional (MaxLength 500) (jfield args ''cwd'') \<and>
     optional (MaxJsonByteLength MAX_METADATA_BYTES) (jfield args ''metadata'') \<and>
     (let u = nullish (jfield args ''notifyUrl'') (JStr (oc_defaultNotifyUrl cfg)) in
      IsUrl dto u \<and> IsLoopbackNotifyUrl dto u \<and> MaxLength 500 u)"

text \<open>
  C35. A submission that fits the announced schema is well-typed for the bridge. The bridge accepts the
  request made of it exactly when the working directory, the metadata and the callback URL are within the
  limits only the bridge knows, and then the job it stores is one it can read back: no property is \<open>null\<close>.
\<close>

theorem submission_well_typed:
  assumes "args_fit (JObj (submitJobInputSchema d)) args"
  shows "(case CreateJobDto dto (submit_body cfg args) of
            None \<Rightarrow> \<not> bridge_limits dto cfg args
          | Some i \<Rightarrow> bridge_limits dto cfg args \<and> \<not> lost_nulls i)"
proof -
  note ok = submit_schema_fields [OF assms, unfolded submit_fields_ok_def]
  let ?i = "create_instance_of (submit_body cfg args)"
  have src: "jfield args ''source'' \<noteq> Some (JStr ''synapse'')" using ok by fastforce
  note inst = body_instance [OF src, of cfg]
  have cwd: "IsOptional (\<lambda>v. is_string v \<and> MaxLength 500 v) (ci_cwd ?i) = optional (MaxLength 500) (jfield args ''cwd'')"
    using ok unfolding inst by (cases "jfield args ''cwd''") (auto simp: IsOptional_def if_truthy_def is_string_iff truthy_string MaxLength_def js_length_def)
  have mode: "IsOptional (\<lambda>v. is_string v \<and> IsIn [''exec'', ''tmux''] v) (ci_executionMode ?i)"
    using ok unfolding inst by (cases "jfield args ''executionMode''") (auto simp: IsOptional_def if_truthy_def IsIn_def)
  have source: "IsOptional (\<lambda>v. is_string v \<and> IsIn [''dispatch'', ''channel'', ''openclaw''] v) (ci_source ?i)"
    using ok unfolding inst by (cases "jfield args ''source''") (auto simp: IsOptional_def if_truthy_def IsIn_def)
  have text200: "IsOptional (\<lambda>v. is_string v \<and> MaxLength 200 v) (snd (if_truthy args k))"
    if "k \<in> {''requestId'', ''originRoutingKey'', ''sourceName''}" for k
    using ok that by (cases "jfield args k") (force simp: IsOptional_def if_truthy_def MaxLength_def)+
  have prompt: "present (\<lambda>v. is_string v \<and> IsNotEmpty v \<and> MaxLength MAX_PROMPT_LENGTH v) (ci_prompt ?i)"
    using ok unfolding inst by (auto simp: IsNotEmpty_def MaxLength_def MAX_PROMPT_LENGTH_def js_length_def)
  have meta: "IsOptional (\<lambda>v. isRecord v \<and> MaxJsonByteLength MAX_METADATA_BYTES v) (ci_metadata ?i) =
      optional (MaxJsonByteLength MAX_METADATA_BYTES) (jfield args ''metadata'')"
    using ok unfolding inst by (cases "jfield args ''metadata''") (auto simp: IsOptional_def if_truthy_def isRecord_iff)
  have url: "IsOptional (\<lambda>v. is_string v \<and> IsUrl dto v \<and> IsLoopbackNotifyUrl dto v \<and> MaxLength 500 v) (ci_notifyUrl ?i) =
      (let u = nullish (jfield args ''notifyUrl'') (JStr (oc_defaultNotifyUrl cfg)) in
       IsUrl dto u \<and> IsLoopbackNotifyUrl dto u \<and> MaxLength 500 u)"
    using ok unfolding inst by (cases "jfield args ''notifyUrl''") (auto simp: IsOptional_def is_string_iff Let_def)
  have valid: "create_valid dto ?i = bridge_limits dto cfg args"
    unfolding create_valid_def bridge_limits_def cwd meta url
    using mode source prompt text200 by (simp add: inst)
  have "\<not> lost_nulls ?i"
    unfolding inst lost_nulls_def by (simp add: never_null)
  with valid show ?thesis by (simp add: CreateJobDto_def body_record body_names)
qed

theorem submission_well_typed_witness:
  "\<exists>i. CreateJobDto sample_dto (submit_body sample_operations_config (JObj [(''prompt'', JStr ''p''), (''source'', JStr ''dispatch''),
      (''notifyUrl'', JStr ''http://localhost/n'')])) = Some i \<and> \<not> lost_nulls i"
proof -
  let ?args = "JObj [(''prompt'', JStr ''p''), (''source'', JStr ''dispatch''), (''notifyUrl'', JStr ''http://localhost/n'')]"
  have "args_fit (JObj (submitJobInputSchema [])) ?args" by code_simp
  from submission_well_typed [OF this, of sample_dto sample_operations_config]
  have "case CreateJobDto sample_dto (submit_body sample_operations_config ?args) of
      None \<Rightarrow> \<not> bridge_limits sample_dto sample_operations_config ?args | Some i \<Rightarrow> bridge_limits sample_dto sample_operations_config ?args \<and> \<not> lost_nulls i" .
  moreover have "bridge_limits sample_dto sample_operations_config ?args"
    by (simp add: bridge_limits_def IsUrl_def IsLoopbackNotifyUrl_def MaxLength_def sample_dto_def LOOPBACK_HOSTS_def js_length_def)
  ultimately show ?thesis by (auto split: option.splits)
qed

end
