(* ===== verification/PluginRequests.thy ===== *)
theory PluginRequests
  imports BridgePlugin ToolRequests
begin

text \<open>
  A submission of the plugin against the classes of the bridge: what the parameter schema of the tool
  guarantees, and what the bridge makes of the request.
\<close>

section \<open>What the parameters guarantee\<close>

lemma member_fits:
  "type_fits (TObject members opts) (Some args) \<Longrightarrow> (k, t) \<in> set members \<Longrightarrow> type_fits t (jfield args k)"
  by (cases args) (auto simp: list_all_iff)

lemma text_member:
  assumes "type_fits (TObject members opts) (Some args)" and "(k, TOptional (TString limits)) \<in> set members"
    and "map_of limits ''maxLength'' = Some (JNum n)" and "jfield args k = Some v"
  shows "is_string v \<and> MaxLength n v"
  using member_fits [OF assms(1,2)] assms(3,4) by (cases v) (simp_all add: limit_ok_def MaxLength_def)

lemma submit_type_fields:
  assumes "type_fits submitJobParameters (Some args)"
  shows "isRecord args"
    and "\<exists>p. jfield args ''prompt'' = Some (JStr p) \<and> 1 \<le> js_length p \<and> js_length p \<le> 4000"
    and "jfield args ''executionMode'' = Some v \<Longrightarrow> v \<in> JStr ` {''exec'', ''tmux''}"
    and "jfield args ''cwd'' = Some v \<Longrightarrow> is_string v \<and> MaxLength 500 v"
    and "jfield args ''notifyUrl'' = Some v \<Longrightarrow> is_string v \<and> MaxLength 500 v"
    and "k \<in> {''requestId'', ''originRoutingKey'', ''sourceName''} \<Longrightarrow> jfield args k = Some v \<Longrightarrow>
      is_string v \<and> MaxLength 200 v"
    and "jfield args ''metadata'' = Some v \<Longrightarrow> isRecord v"
proof -
  note member = member_fits [OF assms [unfolded submitJobParameters_def]]
  show "isRecord args" using assms by (cases args) (simp_all add: submitJobParameters_def)
  have "type_fits (TString [(''minLength'', JNum 1), (''maxLength'', JNum 4000),
      described ''Prompt to submit to the omx-bridge service.'']) (jfield args ''prompt'')"
    by (rule member) simp
  then show "\<exists>p. jfield args ''prompt'' = Some (JStr p) \<and> 1 \<le> js_length p \<and> js_length p \<le> 4000"
    by (auto simp: limit_ok_def split: option.splits json.splits)
  have "type_fits (TOptional (TUnion (map (TLiteral \<circ> mode_name) JOB_EXECUTION_MODES)
      [described ''Execution backend. Defaults to exec; use tmux for long-running session-backed jobs.'']))
      (jfield args ''executionMode'')"
    by (rule member) simp
  then show "jfield args ''executionMode'' = Some v \<Longrightarrow> v \<in> JStr ` {''exec'', ''tmux''}"
    by (auto simp: JOB_EXECUTION_MODES_def)
  note short = text_member [OF assms [unfolded submitJobParameters_def]]
  show "jfield args ''cwd'' = Some v \<Longrightarrow> is_string v \<and> MaxLength 500 v"
    by (rule short [where limits = "[(''maxLength'', JNum 500),
      described ''Working directory for the job. Must be an absolute path when provided.'']"]) simp_all
  show "jfield args ''notifyUrl'' = Some v \<Longrightarrow> is_string v \<and> MaxLength 500 v"
    by (rule short [where limits = "[(''maxLength'', JNum 500),
      described ''Loopback webhook URL to receive job completion callbacks.'']"]) simp_all
  show "jfield args k = Some v \<Longrightarrow> is_string v \<and> MaxLength 200 v" if k: "k \<in> {''requestId'', ''originRoutingKey'', ''sourceName''}"
  proof -
    obtain d where "(k, TOptional (TString [(''maxLength'', JNum 200), described d])) \<in> set
       (case submitJobParameters of TObject members _ \<Rightarrow> members | _ \<Rightarrow> [])"
      using k unfolding submitJobParameters_def by auto
    from short [OF this [unfolded submitJobParameters_def plugin_type.case]]
    show "jfield args k = Some v \<Longrightarrow> is_string v \<and> MaxLength 200 v" by simp
  qed
  have "type_fits (TOptional (TRecord (TString []) (TUnknown
      [described ''Additional OpenClaw metadata passed through to the bridge.'']))) (jfield args ''metadata'')"
    by (rule member) simp
  then show "jfield args ''metadata'' = Some v \<Longrightarrow> isRecord v" by (cases v) auto
qed

section \<open>What the bridge makes of it\<close>

lemma plugin_body_fields:
  "jfield (plugin_submit_body input) ''prompt'' = jfield input ''prompt''"
  "jfield (plugin_submit_body input) ''source'' = Some (JStr ''openclaw'')"
  "k \<in> set [''executionMode'', ''cwd'', ''requestId'', ''originRoutingKey'', ''notifyUrl'', ''sourceName'', ''metadata''] \<Longrightarrow>
   jfield (plugin_submit_body input) k = snd (if_truthy input k)"
  unfolding plugin_submit_body_def if_truthy_def by auto

lemma plugin_body_names:
  "only_properties [''prompt'', ''executionMode'', ''cwd'', ''requestId'', ''originRoutingKey'', ''source'',
     ''sourceName'', ''metadata'', ''notifyUrl''] (plugin_submit_body input)"
  unfolding plugin_submit_body_def if_truthy_def by (rule only_object_of) simp

lemma plugin_body_record: "isRecord (plugin_submit_body input)" by (simp add: plugin_submit_body_def)

lemma plugin_instance:
  "create_instance_of (plugin_submit_body input) =
    \<lparr>ci_prompt = jfield input ''prompt'', ci_executionMode = snd (if_truthy input ''executionMode''),
     ci_cwd = snd (if_truthy input ''cwd''), ci_requestId = snd (if_truthy input ''requestId''),
     ci_originRoutingKey = snd (if_truthy input ''originRoutingKey''), ci_source = Some (JStr ''openclaw''),
     ci_sourceName = snd (if_truthy input ''sourceName''), ci_metadata = snd (if_truthy input ''metadata''),
     ci_notifyUrl = snd (if_truthy input ''notifyUrl'')\<rparr>"
  by (simp add: create_instance_of_def create_source_field_def create_source_name_def plugin_body_fields)

definition plugin_limits :: "dto_env \<Rightarrow> json \<Rightarrow> bool" where
  \<comment> \<open>what the bridge asks beyond the parameter schema\<close>
  "plugin_limits dto args \<longleftrightarrow>
     optional (MaxJsonByteLength MAX_METADATA_BYTES) (jfield args ''metadata'') \<and>
     optional (\<lambda>u. u = JStr [] \<or> IsUrl dto u \<and> IsLoopbackNotifyUrl dto u) (jfield args ''notifyUrl'')"

lemma if_truthy_optional:
  assumes "\<And>v. jfield args k = Some v \<Longrightarrow> P v"
  shows "IsOptional P (snd (if_truthy args k))"
  using assms by (auto simp: IsOptional_def if_truthy_def split: option.split)

text \<open>
  A submission of the plugin is well-typed for the bridge. When the parameters fit the schema of the tool, the
  bridge accepts the request exactly when the metadata and the callback URL meet the tests a schema cannot
  express, as a job of OpenClaw, and the job it stores can be read back: no property is \<open>null\<close>.
\<close>

theorem plugin_submission_accepted:
  assumes "type_fits submitJobParameters (Some args)"
  shows "(case CreateJobDto dto (plugin_submit_body args) of
            None \<Rightarrow> \<not> plugin_limits dto args
          | Some i \<Rightarrow> plugin_limits dto args \<and> \<not> lost_nulls i \<and> cd_source (create_dto_of i) = Some (Source OpenClaw))"
proof -
  note fits = submit_type_fields [OF assms]
  let ?i = "create_instance_of (plugin_submit_body args)"
  have prompt: "present (\<lambda>v. is_string v \<and> IsNotEmpty v \<and> MaxLength MAX_PROMPT_LENGTH v) (ci_prompt ?i)"
    using fits(2) unfolding plugin_instance by (auto simp: IsNotEmpty_def MaxLength_def MAX_PROMPT_LENGTH_def js_length_def)
  have mode: "IsOptional (\<lambda>v. is_string v \<and> IsIn [''exec'', ''tmux''] v) (ci_executionMode ?i)"
    unfolding plugin_instance using fits(3) by (auto intro!: if_truthy_optional simp: IsIn_def)
  have texts: "IsOptional (\<lambda>v. is_string v \<and> MaxLength 500 v) (ci_cwd ?i)"
    "k \<in> {''requestId'', ''originRoutingKey'', ''sourceName''} \<Longrightarrow>
     IsOptional (\<lambda>v. is_string v \<and> MaxLength 200 v) (snd (if_truthy args k))" for k
    unfolding plugin_instance using fits(4) fits(6) [of k] by (auto intro!: if_truthy_optional)
  have meta: "IsOptional (\<lambda>v. isRecord v \<and> MaxJsonByteLength MAX_METADATA_BYTES v) (ci_metadata ?i) =
      optional (MaxJsonByteLength MAX_METADATA_BYTES) (jfield args ''metadata'')"
    unfolding plugin_instance using fits(7)
    by (cases "jfield args ''metadata''") (auto simp: IsOptional_def if_truthy_def isRecord_iff)
  have url: "IsOptional (\<lambda>v. is_string v \<and> IsUrl dto v \<and> IsLoopbackNotifyUrl dto v \<and> MaxLength 500 v) (ci_notifyUrl ?i) =
      optional (\<lambda>u. u = JStr [] \<or> IsUrl dto u \<and> IsLoopbackNotifyUrl dto u) (jfield args ''notifyUrl'')"
    unfolding plugin_instance using fits(5)
    by (cases "jfield args ''notifyUrl''") (auto simp: IsOptional_def if_truthy_def is_string_iff truthy_string)
  have valid: "create_valid dto ?i = plugin_limits dto args"
    unfolding create_valid_def plugin_limits_def meta url
    using prompt mode texts by (simp add: plugin_instance IsOptional_def IsIn_def)
  moreover have "\<not> lost_nulls ?i"
    unfolding plugin_instance lost_nulls_def by (simp add: never_null)
  moreover have "cd_source (create_dto_of ?i) = Some (Source OpenClaw)"
    unfolding plugin_instance create_dto_of_def by (simp add: no_null_def, code_simp)
  ultimately show ?thesis by (simp add: CreateJobDto_def plugin_body_record plugin_body_names)
qed

theorem plugin_submission_accepted_witness:
  "\<exists>i. CreateJobDto sample_dto (plugin_submit_body (JObj [(''prompt'', JStr ''p''), (''cwd'', JStr ''/w'')])) = Some i \<and>
     \<not> lost_nulls i \<and> cd_source (create_dto_of i) = Some (Source OpenClaw)"
proof -
  let ?args = "JObj [(''prompt'', JStr ''p''), (''cwd'', JStr ''/w'')]"
  have "type_fits submitJobParameters (Some ?args)"
    by (simp add: submitJobParameters_def limit_ok_def js_length_def closed_def described_def)
  from plugin_submission_accepted [OF this, of sample_dto]
  have "case CreateJobDto sample_dto (plugin_submit_body ?args) of
      None \<Rightarrow> \<not> plugin_limits sample_dto ?args
    | Some i \<Rightarrow> plugin_limits sample_dto ?args \<and> \<not> lost_nulls i \<and> cd_source (create_dto_of i) = Some (Source OpenClaw)" .
  moreover have "plugin_limits sample_dto ?args" by (simp add: plugin_limits_def)
  ultimately show ?thesis by (auto split: option.splits)
qed

end
