(* ===== verification/BridgeServer.thy ===== *)
theory BridgeServer
  imports JobRequests BridgeClient
begin

text \<open>
  The HTTP interface of the bridge, \<open>src/jobs/jobs.controller.ts\<close>: its routes with their guards and the
  results of the services as responses, and \<open>bridge_serve\<close>, which answers a request of a client. Of the
  framework it uses what it documents: middleware (the body parser \<open>main.ts\<close> installs), then the guards in
  the order they are listed, then the validation of the body, then the handler, whose exceptions become
  the responses of their status. Paths are matched as they are declared.
\<close>

section \<open>Errors\<close>

datatype http_error =
    BadBody
  | BodyOverLimit
  | Refused guard_error
  | InvalidRequest
  | Service bridge_error
  | NoRoute

fun error_status :: "http_error \<Rightarrow> int" where
  "error_status BadBody = 400"
| "error_status BodyOverLimit = 413"
| "error_status (Refused e) = (if e = UnsupportedMediaType then 415 else 401)"
| "error_status InvalidRequest = 400"
| "error_status (Service e) =
     (case e of
        NotFoundException _ \<Rightarrow> 404
      | ConflictException _ \<Rightarrow> 409
      | TooManyRequests _ \<Rightarrow> 429
      | BadCwd _ \<Rightarrow> 400
      | _ \<Rightarrow> 500)"
| "error_status NoRoute = 404"

record server_env =
  sv_bridge :: bridge_env
  sv_dto :: dto_env
  sv_bodyLimit :: int
  sv_parse :: "string \<Rightarrow> json option"
  sv_statusText :: "int \<Rightarrow> string"
  sv_errorBody :: "http_error \<Rightarrow> json"

type_synonym 'a server_op = "(bridge_state, http_error, 'a) op"

definition service :: "'a bridge_op \<Rightarrow> 'a server_op" where
  "service m = (\<lambda>s. case m s of (Inl e, s') \<Rightarrow> (Inl (Service e), s') | (Inr x, s') \<Rightarrow> (Inr x, s'))"

section \<open>Routes\<close>

datatype route =
    CreateJobRoute
  | ListJobsRoute "string option"
  | StatsRoute
  | SessionRoute string
  | JobRoute string
  | CallbackRoute string
  | RetryRoute string
  | CancelRoute string

definition route_of :: "string \<Rightarrow> string list \<Rightarrow> string option \<Rightarrow> route option" where
  \<comment> \<open>method, segments of the path, query parameter \<open>status\<close>; in the order of the declarations; a
     trailing slash is ignored and a parameter is not empty\<close>
  "route_of m segments status =
     (case (if segments \<noteq> [] \<and> last segments = [] then butlast segments else segments) of
        [c] \<Rightarrow>
          (if c \<noteq> ''jobs'' then None
           else if m = ''POST'' then Some CreateJobRoute
           else if m = ''GET'' then Some (ListJobsRoute status) else None)
      | [c, i] \<Rightarrow>
          (if c \<noteq> ''jobs'' \<or> i = [] \<or> m \<noteq> ''GET'' then None
           else if i = ''stats'' then Some StatsRoute else Some (JobRoute i))
      | [c, i, a] \<Rightarrow>
          (if c \<noteq> ''jobs'' \<or> i = [] then None
           else if m = ''GET'' \<and> a = ''session'' then Some (SessionRoute i)
           else if m = ''POST'' \<and> a = ''callback'' then Some (CallbackRoute i)
           else if m = ''POST'' \<and> a = ''cancel'' then Some (CancelRoute i) else None)
      | [c, i, a, b] \<Rightarrow>
          (if c = ''jobs'' \<and> i \<noteq> [] \<and> a = ''notify'' \<and> b = ''retry'' \<and> m = ''POST'' then Some (RetryRoute i) else None)
      | _ \<Rightarrow> None)"

definition guards :: "server_env \<Rightarrow> route \<Rightarrow> http_request \<Rightarrow> guard_error + unit" where
  \<comment> \<open>\<open>@UseGuards\<close>\<close>
  "guards env r req =
     (let cfg = be_cfg (sv_bridge env) in
      case r of
        CreateJobRoute \<Rightarrow> try_bind (ApiTokenGuard cfg req) (\<lambda>_. JsonContentTypeGuard req)
      | CallbackRoute i \<Rightarrow>
          try_bind (JsonContentTypeGuard req)
            (\<lambda>_. CallbackAuthGuard (be_hmac (sv_bridge env)) cfg (req\<lparr>rq_idParam := Some i\<rparr>))
      | _ \<Rightarrow> ApiTokenGuard cfg req)"

definition job_stats_json :: "job_stats \<Rightarrow> json" where
  "job_stats_json st = object_of
     [(''queuedCount'', Some (JNum (st_queuedCount st))), (''runningCount'', Some (JNum (st_runningCount st))),
      (''activeCount'', Some (JNum (st_activeCount st))), (''terminalCount'', Some (JNum (st_terminalCount st))),
      (''maxActiveJobs'', Some (JNum (st_maxActiveJobs st))), (''maxConcurrency'', Some (JNum (st_maxConcurrency st))),
      (''oldestQueuedAgeMs'', Some (case st_oldestQueuedAgeMs st of None \<Rightarrow> JNull | Some age \<Rightarrow> json_nullable age))]"

definition summary_json :: "session_summary \<Rightarrow> json" where
  "summary_json x = object_of
     [(''jobId'', Some (JStr (ss_jobId x))), (''jobStatus'', Some (JStr (status_name (ss_jobStatus x)))),
      (''executionMode'', Some (JStr (mode_name (ss_executionMode x)))),
      (''attachCommand'', Some (case ss_attachCommand x of None \<Rightarrow> JNull | Some c \<Rightarrow> JStr c)),
      (''session'', Some (case ss_session x of None \<Rightarrow> JNull | Some t \<Rightarrow> tmux_session_json t))]"

definition created_json :: "bridge_job \<Rightarrow> json" where
  "created_json job = object_of [(''jobId'', Some (JStr (j_id job))), (''status'', Some (JStr (status_name (j_status job))))]"

definition responding :: "int \<Rightarrow> ('a \<Rightarrow> json) \<Rightarrow> 'a bridge_op \<Rightarrow> (int \<times> json) server_op" where
  "responding st render m = op_bind (service m) (\<lambda>x. op_return (st, render x))"

definition handle_route :: "server_env \<Rightarrow> route \<Rightarrow> json \<Rightarrow> (int \<times> json) server_op" where
  \<comment> \<open>the pipes and the handlers of the controller; a copied property that is \<open>null\<close> is taken as
     absent (\<open>accepted_job_readable\<close> says what becomes of such a job)\<close>
  "handle_route env r body =
     (let bridge = sv_bridge env in
      case r of
        CreateJobRoute \<Rightarrow>
          (case CreateJobDto (sv_dto env) body of
             None \<Rightarrow> op_fail InvalidRequest
           | Some i \<Rightarrow> responding 202 created_json (createJob bridge (create_dto_of i)))
      | ListJobsRoute status \<Rightarrow>
          (case ListJobsDto status of
             None \<Rightarrow> op_fail InvalidRequest
           | Some st \<Rightarrow> responding 200 (JArr \<circ> map job_json) (listJobs bridge st))
      | StatsRoute \<Rightarrow> responding 200 job_stats_json (getStats bridge)
      | SessionRoute i \<Rightarrow> responding 200 summary_json (getJobSessionOrThrow bridge i)
      | JobRoute i \<Rightarrow> responding 200 job_json (getJobOrThrow bridge i)
      | CallbackRoute i \<Rightarrow>
          (if \<not> JobCallbackDto body then op_fail InvalidRequest
           else responding 201 job_json (completeJobFromCallback bridge i (callback_dto_of body)))
      | RetryRoute i \<Rightarrow> responding 201 job_json (triggerNotifyRetry bridge i)
      | CancelRoute i \<Rightarrow> responding 201 job_json (cancelJob bridge i))"

definition parsed_body :: "server_env \<Rightarrow> http_request \<Rightarrow> http_error + json" where
  \<comment> \<open>the body parser: a JSON body is an object or an array, no body is an empty object\<close>
  "parsed_body env req =
     (case rq_rawBody req of
        None \<Rightarrow> Inr (JObj [])
      | Some raw \<Rightarrow>
          (if js_length (utf8_bytes raw) > sv_bodyLimit env then Inl BodyOverLimit
           else (case sv_parse env raw of
                   Some (JObj kvs) \<Rightarrow> Inr (JObj kvs)
                 | Some (JArr vs) \<Rightarrow> Inr (JArr vs)
                 | _ \<Rightarrow> Inl BadBody)))"

definition handle_request :: "server_env \<Rightarrow> route option \<Rightarrow> http_request \<Rightarrow> (int \<times> json) server_op" where
  "handle_request env r req =
     (case parsed_body env req of
        Inl e \<Rightarrow> op_fail e
      | Inr body \<Rightarrow>
          (case r of
             None \<Rightarrow> op_fail NoRoute
           | Some rt \<Rightarrow>
               (case guards env rt req of
                  Inl e \<Rightarrow> op_fail (Refused e)
                | Inr _ \<Rightarrow> handle_route env rt body)))"

section \<open>Requests of a client\<close>

definition those_segments :: "string \<Rightarrow> string list option" where
  "those_segments path = those (map decodeURIComponent (split_on CHR ''/'' path))"

definition status_parameter :: "string \<Rightarrow> string option" where
  \<comment> \<open>the query of a URL, read for \<open>status\<close>\<close>
  "status_parameter query = (if starts_with ''?status='' query then Some (drop 8 query) else None)"

definition http_request_of :: "fetch_request \<Rightarrow> http_request" where
  "http_request_of req =
     (let h = map_of (fr_headers req) in
      \<lparr>rq_idParam = None, rq_signature = h ''X-Callback-Signature'', rq_authorization = h ''Authorization'',
       rq_contentType = h ''Content-Type'',
       rq_rawBody = (if h ''Content-Type'' = Some ''application/json'' then fr_body req else None)\<rparr>)"

definition answer_of :: "server_env \<Rightarrow> http_error + int \<times> json \<Rightarrow> fetch_answer" where
  "answer_of env r =
     (case r of
        Inl e \<Rightarrow> Answer (error_status e) (sv_statusText env (error_status e)) (Inr (json_text (sv_errorBody env e)))
      | Inr (st, body) \<Rightarrow> Answer st (sv_statusText env st) (Inr (json_text body)))"

definition bridge_serve :: "server_env \<Rightarrow> string \<Rightarrow> fetch_request \<Rightarrow> bridge_state \<Rightarrow> fetch_answer \<times> bridge_state" where
  \<comment> \<open>the server whose address is \<open>base\<close>\<close>
  "bridge_serve env base req s =
     (let target = drop (length base) (fr_url req);
          path = takeWhile (\<lambda>c. c \<noteq> CHR ''?'') target;
          query = dropWhile (\<lambda>c. c \<noteq> CHR ''?'') target;
          hreq = http_request_of req
      in case those_segments path of
           None \<Rightarrow> (answer_of env (Inl BadBody), s)
         | Some segments \<Rightarrow>
             (case handle_request env (route_of (fr_method req) segments (status_parameter query)) hreq s of
                (r, s') \<Rightarrow> (answer_of env r, s')))"

end
