(* ===== verification/RemoteJobs.thy ===== *)
theory RemoteJobs
  imports BridgeServer JobOperations BridgeSamples
begin

text \<open>
  The operations of the dispatch server against the server of the bridge: what the tools ask for over
  HTTP is what the job API does, with its errors as the errors of the client.
\<close>

section \<open>The connection\<close>

definition plain_path :: "string \<Rightarrow> bool" where
  "plain_path path \<longleftrightarrow> list_all (\<lambda>g. g \<notin> {[], ''.'', ''..''}) (split_on CHR ''/'' path)"

definition connected :: "server_env \<Rightarrow> string \<Rightarrow> bridge_state operations_deps \<Rightarrow> bool" where
  \<comment> \<open>the client talks to this server, with its token; a relative path without dot segments resolves
     to the base followed by it\<close>
  "connected env base deps \<longleftrightarrow>
     (let client = od_bridgeClient deps; cfg = be_cfg (sv_bridge env) in
      bl_fetch client = bridge_serve env base \<and>
      (\<forall>path. plain_path path \<longrightarrow> buildUrl client path = Inr (base @ path)) \<and>
      json_reader (bl_parse client) \<and> json_reader (sv_parse env) \<and>
      bl_apiToken client = bc_apiToken cfg \<and> (truthy_str (bc_apiToken cfg) \<or> bc_insecureLoopback cfg) \<and>
      (\<forall>e. json_wf (sv_errorBody env e) \<and> sv_errorBody env e \<noteq> JNull))"

definition reply :: "server_env \<Rightarrow> http_error + int \<times> json \<Rightarrow> dispatch_error + json" where
  "reply env r =
     (case r of
        Inl e \<Rightarrow> Inl (BridgeHttpError (error_status e) (sv_statusText env (error_status e)) (sv_errorBody env e))
      | Inr (st, v) \<Rightarrow> Inr v)"

lemma error_not_ok: "\<not> status_ok (error_status e)"
  by (cases e) (auto simp: status_ok_def split: bridge_error.split)

lemma text_nonempty [simp]: "json_text v \<noteq> []"
proof (cases v)
  case (JNum i)
  then show ?thesis by (simp add: dec_int_def)
qed (simp_all add: json_quote_def)

lemma answered:
  assumes "connected env base deps" and "\<And>st v. r = Inr (st, v) \<Longrightarrow> json_wf v \<and> status_ok st"
  shows "\<exists>st t b. answer_of env r = Answer st t (Inr b) \<and> response_value (od_bridgeClient deps) (st, t, Inr b) = reply env r"
proof -
  have reader: "json_reader (bl_parse (od_bridgeClient deps))" using assms(1) by (simp add: connected_def Let_def)
  have p: "json_wf v \<Longrightarrow> safeJsonParse (od_bridgeClient deps) (json_text v) = v" for v
    by (simp add: safeJsonParse_def json_reader.parse_text [OF reader])
  have e: "json_wf (sv_errorBody env e)" "sv_errorBody env e \<noteq> JNull" for e
    using assms(1) by (simp_all add: connected_def Let_def)
  show ?thesis
  proof (cases r)
    case (Inl x)
    then show ?thesis by (simp add: answer_of_def response_value_def reply_def p e error_not_ok Let_def)
  next
    case (Inr y)
    then obtain st v where r: "r = Inr (st, v)" by (cases y) simp
    with assms(2) [OF r] show ?thesis by (simp add: answer_of_def response_value_def reply_def p Let_def)
  qed
qed

section \<open>The paths of a job\<close>

definition job_suffix :: "string \<Rightarrow> bool" where
  "job_suffix sfx \<longleftrightarrow> sfx \<in> set [[], ''/session'', ''/callback'', ''/cancel'']"

definition nameable :: "string \<Rightarrow> bool" where
  \<comment> \<open>an identifier whose path names it\<close>
  "nameable i \<longleftrightarrow> i \<notin> set [[], ''.'', ''..'', ''stats'']"

lemma encode_plain: "i \<notin> set [[], ''.'', ''..''] \<Longrightarrow> encodeURIComponent i \<notin> {[], ''.'', ''..''}"
proof -
  have "encodeURIComponent ''.'' = ''.''" "encodeURIComponent ''..'' = ''..''" by code_simp+
  then show "i \<notin> set [[], ''.'', ''..''] \<Longrightarrow> encodeURIComponent i \<notin> {[], ''.'', ''..''}"
    using encode_inj [of i "''.''"] encode_inj [of i "''..''"] by auto
qed

lemma split_job_path:
  "split_on CHR ''/'' (''jobs/'' @ encodeURIComponent i @ sfx) =
   ''jobs'' # (case split_on CHR ''/'' sfx of [] \<Rightarrow> [] | w # ws \<Rightarrow> (encodeURIComponent i @ w) # ws)"
proof -
  have "split_on CHR ''/'' (xs @ sfx) = (case split_on CHR ''/'' sfx of [] \<Rightarrow> [] | w # ws \<Rightarrow> (xs @ w) # ws)"
    if "CHR ''/'' \<notin> set xs" for xs
    using that
  proof (induction xs)
    case Nil
    then show ?case by (cases "split_on CHR ''/'' sfx") simp_all
  next
    case (Cons x xs)
    then show ?case by (cases "split_on CHR ''/'' sfx") auto
  qed
  from this [OF encoded_no_slash(1)] show ?thesis by simp
qed

lemma job_path_parts:
  assumes "job_suffix sfx" and "nameable i"
  shows "plain_path (job_path (Some (JStr i)) @ sfx)"
    and "those_segments (job_path (Some (JStr i)) @ sfx) = Some (''jobs'' # i # tl (split_on CHR ''/'' sfx))"
    and "takeWhile (\<lambda>c. c \<noteq> CHR ''?'') (job_path (Some (JStr i)) @ sfx) = job_path (Some (JStr i)) @ sfx"
proof -
  have path: "job_path (Some (JStr i)) @ sfx = ''jobs/'' @ encodeURIComponent i @ sfx" by (simp add: job_path_def js_text_def)
  have sfx: "sfx = [] \<or> sfx = ''/session'' \<or> sfx = ''/callback'' \<or> sfx = ''/cancel''" using assms(1) by (simp add: job_suffix_def)
  have words: "split_on CHR ''/'' [] = [[]]" "split_on CHR ''/'' ''/session'' = [[], ''session'']"
    "split_on CHR ''/'' ''/callback'' = [[], ''callback'']" "split_on CHR ''/'' ''/cancel'' = [[], ''cancel'']" by simp_all
  have q: "CHR ''?'' \<notin> set sfx" using sfx by auto
  have enc: "encodeURIComponent i \<notin> {[], ''.'', ''..''}" by (rule encode_plain) (use assms(2) in \<open>simp add: nameable_def\<close>)
  have jobs: "decodeURIComponent ''jobs'' = Some ''jobs''" "decodeURIComponent ''session'' = Some ''session''"
    "decodeURIComponent ''callback'' = Some ''callback''" "decodeURIComponent ''cancel'' = Some ''cancel''" by code_simp+
  show "plain_path (job_path (Some (JStr i)) @ sfx)"
    unfolding plain_path_def path split_job_path using sfx enc by (elim disjE) (simp_all only: words, simp_all)
  show "those_segments (job_path (Some (JStr i)) @ sfx) = Some (''jobs'' # i # tl (split_on CHR ''/'' sfx))"
    unfolding those_segments_def path split_job_path using sfx
    by (elim disjE) (simp_all only: words list.case list.map append_Nil2 jobs decode_encode list.sel, simp_all)
  have "CHR ''?'' \<notin> set (''jobs/'' @ encodeURIComponent i @ sfx)" using encoded_no_slash(2) [of i] q by simp
  then show "takeWhile (\<lambda>c. c \<noteq> CHR ''?'') (job_path (Some (JStr i)) @ sfx) = job_path (Some (JStr i)) @ sfx"
    unfolding path by (subst takeWhile_eq_all_conv) blast
qed

lemma job_request:
  assumes "connected env base deps" and "job_suffix sfx" and "nameable i"
    and "route_of m (''jobs'' # i # tl (split_on CHR ''/'' sfx)) None = Some rt"
    and "hreq = http_request_of \<lparr>fr_url = base @ job_path (Some (JStr i)) @ sfx, fr_method = m, fr_body = body,
      fr_headers = request_headers (od_bridgeClient deps) \<lparr>ri_method = m, ri_body = body, ri_headers = []\<rparr> signature\<rparr>"
    and "handle_request env (Some rt) hreq s = (r, s')"
    and "\<And>st v. r = Inr (st, v) \<Longrightarrow> json_wf v \<and> status_ok st"
  shows "request deps (job_path (Some (JStr i)) @ sfx) m body signature s = (reply env r, s')"
proof -
  let ?path = "job_path (Some (JStr i)) @ sfx" and ?c = "od_bridgeClient deps"
  note parts = job_path_parts [OF assms(2,3)]
  have c: "bl_fetch ?c = bridge_serve env base" "buildUrl ?c ?path = Inr (base @ ?path)"
    using assms(1) parts(1) by (simp_all add: connected_def Let_def)
  have d: "dropWhile (\<lambda>c. c \<noteq> CHR ''?'') ?path = []"
    using takeWhile_dropWhile_id [of "\<lambda>c. c \<noteq> CHR ''?''" ?path] parts(3) by simp
  have q: "status_parameter [] = None" by code_simp
  obtain st t b where a: "answer_of env r = Answer st t (Inr b)" "response_value ?c (st, t, Inr b) = reply env r"
    using answered [OF assms(1,7)] by blast
  show ?thesis
    using a assms(4,6) unfolding request_def requestJson_def c client_fetchWithTimeout_def op_bind_def bridge_serve_def assms(5)
    by (simp add: parts d q)
qed

section \<open>Reading and cancelling\<close>

definition result_of :: "server_env \<Rightarrow> ('a \<Rightarrow> json) \<Rightarrow> bridge_error + 'a \<Rightarrow> dispatch_error + json" where
  "result_of env render q =
     (case q of
        Inl e \<Rightarrow> Inl (BridgeHttpError (error_status (Service e)) (sv_statusText env (error_status (Service e)))
                   (sv_errorBody env (Service e)))
      | Inr x \<Rightarrow> Inr (render x))"

lemma responding_run:
  "m s = (q, s') \<Longrightarrow>
   responding st render m s = ((case q of Inl e \<Rightarrow> Inl (Service e) | Inr x \<Rightarrow> Inr (st, render x)), s')"
  by (cases q) (simp_all add: responding_def service_def op_bind_def op_return_def)

lemma reply_responding:
  "reply env (case q of Inl e \<Rightarrow> Inl (Service e) | Inr x \<Rightarrow> Inr (st, render x)) = result_of env render q"
  by (cases q) (simp_all add: reply_def result_of_def)

lemma answer_wf:
  "(case q of Inl e \<Rightarrow> Inl (Service e) | Inr x \<Rightarrow> Inr (st, render x)) = Inr (st', v) \<Longrightarrow>
   (\<And>x. q = Inr x \<Longrightarrow> json_wf (render x)) \<Longrightarrow> status_ok st \<Longrightarrow> json_wf v \<and> status_ok st'"
  by (auto split: sum.splits)

lemma token_passes:
  assumes "connected env base deps" and "h = request_headers (od_bridgeClient deps) \<lparr>ri_method = m, ri_body = b, ri_headers = []\<rparr> sg"
  shows "ApiTokenGuard (be_cfg (sv_bridge env)) (http_request_of \<lparr>fr_url = u, fr_method = m, fr_body = b, fr_headers = h\<rparr>) = Inr ()"
proof -
  have c: "bl_apiToken (od_bridgeClient deps) = bc_apiToken (be_cfg (sv_bridge env))"
    "truthy_str (bc_apiToken (be_cfg (sv_bridge env))) \<or> bc_insecureLoopback (be_cfg (sv_bridge env))"
    using assms(1) by (simp_all add: connected_def Let_def)
  then show ?thesis
    unfolding ApiTokenGuard_iff assms(2)
    by (cases "bc_apiToken (be_cfg (sv_bridge env))") (auto simp: http_request_of_def Let_def request_header_values)
qed

lemma no_body:
  "h = request_headers client \<lparr>ri_method = m, ri_body = None, ri_headers = []\<rparr> sg \<Longrightarrow>
   parsed_body env (http_request_of \<lparr>fr_url = u, fr_method = m, fr_body = None, fr_headers = h\<rparr>) = Inr (JObj [])"
  by (simp add: parsed_body_def http_request_of_def Let_def request_header_values)

lemma bodyless_request:
  assumes "connected env base deps" and "job_suffix sfx" and "nameable i"
    and "route_of m (''jobs'' # i # tl (split_on CHR ''/'' sfx)) None = Some rt"
    and "\<And>req. guards env rt req = ApiTokenGuard (be_cfg (sv_bridge env)) req"
    and "handle_route env rt (JObj []) = responding st render op" and "op s = (q, s')"
    and "status_ok st" and "\<And>x. q = Inr x \<Longrightarrow> json_wf (render x)"
  shows "request deps (job_path (Some (JStr i)) @ sfx) m None None s = (result_of env render q, s')"
proof -
  let ?h = "http_request_of \<lparr>fr_url = base @ job_path (Some (JStr i)) @ sfx, fr_method = m, fr_body = None,
      fr_headers = request_headers (od_bridgeClient deps) \<lparr>ri_method = m, ri_body = None, ri_headers = []\<rparr> None\<rparr>"
  have "handle_request env (Some rt) ?h s = ((case q of Inl e \<Rightarrow> Inl (Service e) | Inr x \<Rightarrow> Inr (st, render x)), s')"
    by (simp add: handle_request_def no_body assms(5,6) token_passes [OF assms(1)] responding_run [where m = op and s = s, OF assms(7)])
  from job_request [OF assms(1,2,3,4) refl this] answer_wf [where q = q and st = st and render = render] assms(8,9)
  show ?thesis unfolding reply_responding by blast
qed

lemma remote_get:
  assumes "connected env base deps" and "nameable i" and "getJobOrThrow (sv_bridge env) i s = (q, s')"
    and "\<And>j. q = Inr j \<Longrightarrow> meta_wf j"
  shows "getBridgeJob deps (Some (JStr i)) s = (result_of env job_json q, s')"
proof -
  have "route_of ''GET'' (''jobs'' # i # tl (split_on CHR ''/'' [])) None = Some (JobRoute i)"
    using assms(2) by (simp add: route_of_def nameable_def)
  from bodyless_request [where op = "getJobOrThrow (sv_bridge env) i" and s = s and st = 200 and render = job_json
      and sfx = "[]", OF assms(1) _ assms(2) this _ _ assms(3)] assms(4) show ?thesis
    by (simp add: job_suffix_def guards_def Let_def handle_route_def status_ok_def json_wf_job getBridgeJob_def)
qed

lemma remote_cancel:
  assumes "connected env base deps" and "nameable i" and "cancelJob (sv_bridge env) i s = (q, s')"
    and "\<And>j. q = Inr j \<Longrightarrow> meta_wf j"
  shows "cancelBridgeJob deps (Some (JStr i)) s = (result_of env job_json q, s')"
proof -
  have "route_of ''POST'' (''jobs'' # i # tl (split_on CHR ''/'' ''/cancel'')) None = Some (CancelRoute i)"
    using assms(2) by (simp add: route_of_def nameable_def)
  from bodyless_request [where op = "cancelJob (sv_bridge env) i" and s = s and st = 201 and render = job_json
      and sfx = "''/cancel''", OF assms(1) _ assms(2) this _ _ assms(3)] assms(4) show ?thesis
    by (simp add: job_suffix_def guards_def Let_def handle_route_def status_ok_def json_wf_job cancelBridgeJob_def)
qed

lemma remote_session:
  assumes "connected env base deps" and "nameable i" and "getJobSessionOrThrow (sv_bridge env) i s = (q, s')"
  shows "getBridgeJobSession deps (Some (JStr i)) s = (result_of env summary_json q, s')"
proof -
  have "route_of ''GET'' (''jobs'' # i # tl (split_on CHR ''/'' ''/session'')) None = Some (SessionRoute i)"
    using assms(2) by (simp add: route_of_def nameable_def)
  moreover have "json_wf (summary_json x)" for x
    unfolding summary_json_def by (rule json_wf_object_of) (auto split: option.split)
  ultimately show ?thesis
    using bodyless_request [where op = "getJobSessionOrThrow (sv_bridge env) i" and s = s and st = 200 and render = summary_json
      and sfx = "''/session''", OF assms(1) _ assms(2) _ _ _ assms(3)]
    by (simp add: job_suffix_def guards_def Let_def handle_route_def status_ok_def getBridgeJobSession_def)
qed

section \<open>Reporting a result\<close>

definition shares_secret :: "server_env \<Rightarrow> operations_config \<Rightarrow> bridge_state operations_deps \<Rightarrow> bool" where
  \<comment> \<open>both sides are configured with one secret, and \<open>index.ts\<close> signs with it\<close>
  "shares_secret env cfg deps \<longleftrightarrow>
     oc_callbackSecret cfg \<noteq> [] \<and> bc_callbackSecret (be_cfg (sv_bridge env)) = Some (oc_callbackSecret cfg) \<and>
     od_buildCallbackSignatureHeader deps =
       (\<lambda>i b. dispatch_buildCallbackSignatureHeader (be_hmac (sv_bridge env)) i b (oc_callbackSecret cfg))"

definition callback_answer :: "server_env \<Rightarrow> bridge_error + bridge_job \<Rightarrow> dispatch_error + json" where
  \<comment> \<open>a conflict is reported as such\<close>
  "callback_answer env q =
     (case result_of env job_json q of
        Inl (BridgeHttpError st t details) \<Rightarrow>
          Inl (if st = 409 then CallbackConflictError details (BridgeHttpError st t details) else BridgeHttpError st t details)
      | r \<Rightarrow> r)"

lemma callback_body_object: "\<exists>kvs. callback_body input = JObj kvs"
  by (simp add: callback_body_def object_of_def)

lemma remote_callback:
  assumes "connected env base deps" and "shares_secret env cfg deps"
    and "jfield input ''jobId'' = Some (JStr i)" and "nameable i"
    and "JobCallbackDto (callback_body input)" and "json_wf (callback_body input)"
    and "js_length (utf8_bytes (json_text (callback_body input))) \<le> sv_bodyLimit env"
    and "completeJobFromCallback (sv_bridge env) i (callback_dto_of (callback_body input)) s = (q, s')"
    and "\<And>j. q = Inr j \<Longrightarrow> meta_wf j"
  shows "callbackBridgeJob cfg deps input s = (callback_answer env q, s')"
proof -
  define body where "body = json_text (callback_body input)"
  let ?body = body and ?hmac = "be_hmac (sv_bridge env)" and ?secret = "oc_callbackSecret cfg"
  let ?sig = "dispatch_buildCallbackSignatureHeader ?hmac i ?body ?secret"
  let ?h = "http_request_of \<lparr>fr_url = base @ job_path (Some (JStr i)) @ ''/callback'', fr_method = ''POST'', fr_body = Some ?body,
      fr_headers = request_headers (od_bridgeClient deps) \<lparr>ri_method = ''POST'', ri_body = Some ?body, ri_headers = []\<rparr> (Some ?sig)\<rparr>"
  have reader: "json_reader (sv_parse env)" using assms(1) by (simp add: connected_def Let_def)
  obtain kvs where kvs: "callback_body input = JObj kvs" using callback_body_object by blast
  have sec: "?secret \<noteq> []" "bc_callbackSecret (be_cfg (sv_bridge env)) = Some ?secret"
    using assms(2) by (simp_all add: shares_secret_def)
  have sig: "?sig \<noteq> []" by (simp add: dispatch_buildCallbackSignatureHeader_def Let_def)
  have body_nonempty: "body \<noteq> []" by (simp add: body_def)
  have fields: "rq_rawBody ?h = Some ?body" "rq_signature ?h = Some ?sig" "rq_contentType ?h = Some ''application/json''"
    using sig by (simp_all add: http_request_of_def Let_def request_header_values body_nonempty)
  have body: "parsed_body env ?h = Inr (callback_body input)"
    using assms(7) json_reader.parse_text [OF reader assms(6)] unfolding body_def [symmetric] by (simp add: parsed_body_def fields kvs)
  have ok: "verifyCallbackSignature ?hmac i ?body ?secret ?sig"
    using bridge_signature.signed_verifies [OF sec(1)] by (simp add: copies_agree)
  have "JsonContentTypeGuard ?h = Inr ()" by (simp add: JsonContentTypeGuard_def fields; code_simp)
  moreover have "CallbackAuthGuard ?hmac (be_cfg (sv_bridge env)) (?h\<lparr>rq_idParam := Some i\<rparr>) = Inr ()"
    using sec ok by (simp add: CallbackAuthGuard_def fields Let_def verifyCallbackSignature_iff)
  ultimately have guard: "guards env (CallbackRoute i) ?h = Inr ()" by (simp add: guards_def Let_def)
  have route: "route_of ''POST'' (''jobs'' # i # tl (split_on CHR ''/'' ''/callback'')) None = Some (CallbackRoute i)"
    using assms(4) by (simp add: route_of_def nameable_def)
  have "handle_request env (Some (CallbackRoute i)) ?h s =
      ((case q of Inl e \<Rightarrow> Inl (Service e) | Inr x \<Rightarrow> Inr (201, job_json x)), s')"
    by (simp add: handle_request_def body guard handle_route_def Let_def assms(5)
        responding_run [where m = "completeJobFromCallback (sv_bridge env) i (callback_dto_of (callback_body input))" and s = s,
          OF assms(8)])
  from job_request [OF assms(1) _ assms(4) route refl this] answer_wf [where q = q and st = 201 and render = job_json] assms(9)
  have "request deps (job_path (Some (JStr i)) @ ''/callback'') ''POST'' (Some ?body) (Some ?sig) s = (result_of env job_json q, s')"
    unfolding reply_responding job_suffix_def status_ok_def using json_wf_job(2) by (force simp: status_ok_def)
  then show ?thesis
    using assms(2,3) by (cases "result_of env job_json q")
      (auto simp: callbackBridgeJob_def body_def Let_def shares_secret_def js_text_def op_catch_def callback_answer_def op_fail_def
        split: dispatch_error.split)
qed

end
