(* ===== verification/RemoteCallback.thy ===== *)
theory RemoteCallback
  imports RemoteJobs ServiceSamples JobResults
begin

text \<open>
  A result reported with the tool of the dispatch server, all the way to the job: the properties that
  span the tool, the HTTP client, the server of the bridge and its job API.
\<close>

text \<open>
  C7. Reporting a result with the tool is the bridge's own operation. When both sides share the secret and
  the body is one the bridge accepts, the request passes the signature guard, the service is called with exactly
  the reported values, its job is the result of the tool, a conflict becomes a conflict error that carries the
  answer, and any other failure the error of the client with the status of that failure.
\<close>

theorem tool_callback_refines:
  assumes "connected env base deps" and "shares_secret env cfg deps"
    and "jfield input ''jobId'' = Some (JStr i)" and "nameable i"
    and "JobCallbackDto (callback_body input)" and "json_wf (callback_body input)"
    and "js_length (utf8_bytes (json_text (callback_body input))) \<le> sv_bodyLimit env"
    and "completeJobFromCallback (sv_bridge env) i (callback_dto_of (callback_body input)) s = (q, s')"
    and "\<And>j. q = Inr j \<Longrightarrow> meta_wf j"
  shows "callbackBridgeJob cfg deps input s = (callback_answer env q, s')"
  using assms by (rule remote_callback)

definition sample_report :: json where
  "sample_report = JObj [(''jobId'', JStr uuid2), (''status'', JStr ''succeeded''), (''stdout'', JStr ''out'')]"

definition sample_server :: server_env where
  "sample_server = \<lparr>sv_bridge = sample_bridge, sv_dto = sample_dto,
     sv_bodyLimit = js_length (utf8_bytes (json_text (callback_body sample_report))),
     sv_parse = json_parse, sv_statusText = (\<lambda>_. ''s''), sv_errorBody = (\<lambda>_. JObj [])\<rparr>"

definition sample_operations :: "bridge_state operations_deps" where
  "sample_operations = \<lparr>
     od_bridgeClient = \<lparr>bl_baseUrl = ''http://b/'', bl_apiToken = Some ''t'', bl_timeoutMs = 10,
       bl_fetch = bridge_serve sample_server ''http://b/'', bl_newURL = (\<lambda>path base. Inr (base @ path)), bl_parse = json_parse\<rparr>,
     od_getNotificationStats = (\<lambda>n. op_fail InvalidToolName), od_drainNotificationForJob = (\<lambda>i. op_return None),
     od_buildCallbackSignatureHeader = (\<lambda>i b. dispatch_buildCallbackSignatureHeader (be_hmac sample_bridge) i b ''k''),
     od_describeError = (\<lambda>_. ''e''), od_sleep = (\<lambda>ms s. s), od_now = (\<lambda>s. (0, s))\<rparr>"

lemma sample_connected: "connected sample_server ''http://b/'' sample_operations"
proof -
  have "ensureTrailingSlash ''http://b/'' = ''http://b/''" by code_simp
  then show ?thesis
    by (simp add: connected_def Let_def sample_operations_def sample_server_def buildUrl_def json_parse.json_reader_axioms
        sample_bridge_def sample_bridge_config_def)
qed

lemma sample_secret: "shares_secret sample_server sample_operations_config sample_operations"
  by (simp add: shares_secret_def sample_server_def sample_operations_config_def sample_operations_def sample_bridge_def
      sample_bridge_config_def)

theorem tool_callback_refines_witness:
  "\<exists>k s'. callbackBridgeJob sample_operations_config sample_operations sample_report sample_bridge_state = (Inr (job_json k), s') \<and>
     j_id k = uuid2"
proof -
  let ?dto = "callback_dto_of (callback_body sample_report)"
  have ran: "case completeJobFromCallback sample_bridge uuid2 ?dto sample_bridge_state of
      (Inl e, _) \<Rightarrow> False | (Inr j, _) \<Rightarrow> j_id j = uuid2 \<and> j_metadata j = None" by code_simp
  obtain k s' where run: "completeJobFromCallback (sv_bridge sample_server) uuid2 ?dto sample_bridge_state = (Inr k, s')"
    "j_id k = uuid2" "j_metadata k = None"
    using ran by (auto simp: sample_server_def split: prod.splits sum.splits)
  have own: "jfield sample_report ''jobId'' = Some (JStr uuid2)" by (simp add: sample_report_def)
  have body: "nameable uuid2" "JobCallbackDto (callback_body sample_report)" by code_simp+
  have wf: "json_wf (callback_body sample_report)" unfolding callback_body_def
    by (rule json_wf_object_of) (auto simp: sample_report_def)
  have small: "js_length (utf8_bytes (json_text (callback_body sample_report))) \<le> sv_bodyLimit sample_server"
    by (simp add: sample_server_def)
  have meta: "meta_wf j" if "Inr k = (Inr j :: bridge_error + bridge_job)" for j using that run(3) by (simp add: meta_wf_def)
  from tool_callback_refines [OF sample_connected sample_secret own body wf small run(1) meta] run(2)
  show ?thesis by (auto simp: callback_answer_def result_of_def)
qed

end
