(* ===== verification/CaptureWrapper.thy ===== *)
theory CaptureWrapper
  imports TmuxSafety JsonParse
begin

text \<open>
  The script a session runs, \<open>buildTmuxCaptureWrapperScript\<close> in
  \<open>src/jobs/tmux-capture-wrapper.ts\<close>, around its class \<open>StreamCapture\<close> (theory \<open>StreamCapture\<close>): how it
  reads its command line, and what it does with the events of its child process. The results of the
  file operations are part of the events: a write that fails may leave any beginning of its text
  behind, and an operation of a capture that throws leaves the capture in any state.

  The options name different files, as in the command line the session runner writes.
\<close>

section \<open>The command line\<close>

definition separator_index :: "string list \<Rightarrow> nat option" where
  \<comment> \<open>\<open>args.indexOf('--')\<close>\<close>
  "separator_index args =
     (if ''--'' \<in> set args then Some (length (takeWhile (\<lambda>a. a \<noteq> ''--'') args)) else None)"

fun read_options :: "nat \<Rightarrow> string list \<Rightarrow> (string \<rightharpoonup> string) \<Rightarrow> (string \<rightharpoonup> string) option" where
  \<comment> \<open>the loop over the pairs before the separator; with an odd number of words the value of the last
     key is the separator\<close>
  "read_options 0 args m = Some m"
| "read_options (Suc n) (key # v # rest) m =
     (if key = [] \<or> \<not> starts_with ''--'' key then None
      else read_options (n - 1) rest (m(drop 2 key \<mapsto> v)))"
| "read_options (Suc n) args m = None"

record wrapper_config =
  cw_cap :: int
  cw_sigkillGraceMs :: int
  cw_stdout :: string
  cw_stderr :: string
  cw_stdoutTail :: string
  cw_stderrTail :: string
  cw_metadata :: string
  cw_exitCode :: string
  cw_command :: string
  cw_commandArgs :: "string list"

definition int_option :: "(string \<rightharpoonup> string) \<Rightarrow> string \<Rightarrow> int option" where
  \<comment> \<open>\<open>Number.parseInt(options[key] || '', 10)\<close>\<close>
  "int_option options key = parse_int (trim (nullish (options key) []))"

definition wrapper_arguments :: "string list \<Rightarrow> string + wrapper_config" where
  \<comment> \<open>\<open>Inl\<close>: \<open>fail\<close> writes the message and exits with 64\<close>
  "wrapper_arguments args =
     (case separator_index args of
        None \<Rightarrow> Inl ''missing command separator''
      | Some separator \<Rightarrow>
          (case read_options separator args Map.empty of
             None \<Rightarrow> Inl ''invalid option''
           | Some options \<Rightarrow>
               (let command = (case drop (separator + 1) args of [] \<Rightarrow> None | c # _ \<Rightarrow> Some c);
                    commandArgs = drop (separator + 2) args;
                    cap = int_option options ''cap'';
                    sigkillGraceMs = int_option options ''sigkill-grace-ms'';
                    given = (\<lambda>key. truthy_str (options key))
                in
                if \<not> truthy_str command \<or> nullish cap 0 \<le> 0 \<or> nullish sigkillGraceMs 0 \<le> 0 \<or>
                   \<not> given ''stdout'' \<or> \<not> given ''stderr'' \<or> \<not> given ''stdout-tail'' \<or>
                   \<not> given ''stderr-tail'' \<or> \<not> given ''metadata'' \<or> \<not> given ''exit-code''
                then Inl ''missing capture options''
                else if int (length live_marker) \<ge> the cap
                then Inl ''capture cap is smaller than truncation marker''
                else Inr \<lparr>cw_cap = the cap, cw_sigkillGraceMs = the sigkillGraceMs,
                       cw_stdout = the (options ''stdout''), cw_stderr = the (options ''stderr''),
                       cw_stdoutTail = the (options ''stdout-tail''),
                       cw_stderrTail = the (options ''stderr-tail''),
                       cw_metadata = the (options ''metadata''), cw_exitCode = the (options ''exit-code''),
                       cw_command = the command, cw_commandArgs = commandArgs\<rparr>)))"

section \<open>The state of the wrapper\<close>

datatype output_stream = ChildStdout | ChildStderr

datatype wrapper_end = Exited int | KilledByGroup

record wrapper_host =
  \<comment> \<open>whether the wrapper leads its process group, and \<open>os.constants.signals\<close>\<close>
  wh_leader :: bool
  wh_signals :: "string \<Rightarrow> nat option"

record wrapper_state =
  ww_now :: int
  ww_stdout :: stream_capture
  ww_stderr :: stream_capture
  ww_metadata :: "content option"
  ww_exitCode :: "content option"
  ww_captureFailure :: "string option"
  ww_terminating :: bool
  ww_killTimer :: "int option"
  ww_exitTimer :: "int option"
  ww_signals :: "string list"
  ww_end :: "wrapper_end option"

text \<open>How a write ends, and how an operation of a capture ends.\<close>

datatype write_end = Stored | StoreFails string "nat option"

datatype capture_end = CaptureDone | CaptureThrows string "stream_capture \<Rightarrow> stream_capture"

definition wrapper_cap :: "wrapper_config \<Rightarrow> nat" where
  "wrapper_cap cfg = nat (cw_cap cfg)"

definition new_wrapper :: "wrapper_config \<Rightarrow> int \<Rightarrow> wrapper_state" where
  \<comment> \<open>both captures are open and the child is spawned\<close>
  "new_wrapper cfg now = \<lparr>
     ww_now = now,
     ww_stdout = new_StreamCapture (wrapper_cap cfg), ww_stderr = new_StreamCapture (wrapper_cap cfg),
     ww_metadata = None, ww_exitCode = None, ww_captureFailure = None, ww_terminating = False,
     ww_killTimer = None, ww_exitTimer = None, ww_signals = [], ww_end = None\<rparr>"

definition wrapper_main :: "string list \<Rightarrow> bool \<Rightarrow> bool \<Rightarrow> int \<Rightarrow> wrapper_end + wrapper_config \<times> wrapper_state" where
  \<comment> \<open>the flags: the capture files can be opened (an exception there is not caught), and \<open>spawn\<close>
     does not throw\<close>
  "wrapper_main args opened spawned now =
     (case wrapper_arguments args of
        Inl _ \<Rightarrow> Inl (Exited 64)
      | Inr cfg \<Rightarrow> (if \<not> opened \<or> \<not> spawned then Inl (Exited 1) else Inr (cfg, new_wrapper cfg now)))"

definition run_capture ::
  "(stream_capture \<Rightarrow> stream_capture) \<Rightarrow> capture_end \<Rightarrow> stream_capture \<Rightarrow> string option \<times> stream_capture" where
  "run_capture f r c = (case r of CaptureDone \<Rightarrow> (None, f c) | CaptureThrows msg g \<Rightarrow> (Some msg, g c))"

definition store_file ::
  "content \<Rightarrow> (nat \<Rightarrow> content) \<Rightarrow> write_end \<Rightarrow> content option \<Rightarrow> string option \<times> content option" where
  \<comment> \<open>\<open>writeFileSync\<close>: the thrown message and the file; a failing write leaves the file as it was or
     the first so many characters of the text\<close>
  "store_file whole part r old =
     (case r of
        Stored \<Rightarrow> (None, Some whole)
      | StoreFails msg None \<Rightarrow> (Some msg, old)
      | StoreFails msg (Some n) \<Rightarrow> (Some msg, Some (part n)))"

section \<open>Metadata and exit code\<close>

definition stream_json :: "stream_metadata \<Rightarrow> json" where
  "stream_json m = JObj
     [(''bytesSeen'', JNum (sm_bytesSeen m)), (''truncated'', JBool (sm_truncated m)),
      (''tailStart'', JNum (sm_tailStart m)), (''tailLength'', JNum (sm_tailLength m)),
      (''finalized'', JBool (sm_finalized m))]"

definition wrapper_metadata :: "int option \<Rightarrow> wrapper_state \<Rightarrow> json" where
  "wrapper_metadata exitCode w = JObj
     [(''version'', JNum 1),
      (''stdout'', stream_json (metadata (ww_stdout w))),
      (''stderr'', stream_json (metadata (ww_stderr w))),
      (''captureFailure'', case ww_captureFailure w of None \<Rightarrow> JNull | Some t \<Rightarrow> JStr t),
      (''exitCode'', case exitCode of None \<Rightarrow> JNull | Some n \<Rightarrow> JNum n)]"

definition json_part :: "json \<Rightarrow> nat \<Rightarrow> content" where
  \<comment> \<open>the text of an object is no JSON until its last character, the newline after it does not matter\<close>
  "json_part v n = (if length (json_text v) \<le> n then JsonText v else RawText (take n (json_text v)))"

definition writeMetadata :: "int option \<Rightarrow> write_end \<Rightarrow> wrapper_state \<Rightarrow> string option \<times> wrapper_state" where
  "writeMetadata exitCode r w =
     (let v = wrapper_metadata exitCode w;
          (e, f) = store_file (JsonText v) (json_part v) r (ww_metadata w)
      in (e, w\<lparr>ww_metadata := f\<rparr>))"

definition exit_text :: "int \<Rightarrow> string" where
  "exit_text exitCode = dec_int exitCode @ [CHR 0x0A]"

definition writeExitCode :: "int \<Rightarrow> write_end \<Rightarrow> wrapper_state \<Rightarrow> string option \<times> wrapper_state" where
  "writeExitCode exitCode r w =
     (let (e, f) = store_file (RawText (exit_text exitCode)) (\<lambda>n. RawText (take n (exit_text exitCode))) r
                     (ww_exitCode w)
      in (e, w\<lparr>ww_exitCode := f\<rparr>))"

section \<open>A capture failure\<close>

definition signalCaptureProcessTree :: "wrapper_host \<Rightarrow> string \<Rightarrow> wrapper_state \<Rightarrow> wrapper_state" where
  \<comment> \<open>a group leader signals itself too: its handler ignores SIGTERM while it terminates a failed
     capture, SIGKILL ends it\<close>
  "signalCaptureProcessTree host sig w =
     (let w1 = w\<lparr>ww_signals := ww_signals w @ [sig]\<rparr>
      in if wh_leader host \<and> sig = ''SIGKILL'' then w1\<lparr>ww_end := Some KilledByGroup\<rparr> else w1)"

definition node_delay :: "int \<Rightarrow> int" where
  \<comment> \<open>\<open>setTimeout\<close> takes a delay it cannot represent for one millisecond\<close>
  "node_delay ms = (if ms > 2147483647 \<or> ms < 1 then 1 else ms)"

definition error_text :: "string \<Rightarrow> string" where
  \<comment> \<open>the message of an \<open>Error\<close>, or the error as a string\<close>
  "error_text msg = (if msg \<noteq> [] then msg else ''Error'')"

definition terminateForCaptureFailure ::
  "wrapper_host \<Rightarrow> wrapper_config \<Rightarrow> string \<Rightarrow> write_end \<Rightarrow> wrapper_state \<Rightarrow> wrapper_state" where
  "terminateForCaptureFailure host cfg msg r w =
     (if truthy_str (ww_captureFailure w) then w
      else
        (let w1 = w\<lparr>ww_captureFailure := Some (error_text msg), ww_terminating := True\<rparr>;
             w2 = snd (writeMetadata None r w1);
             w3 = signalCaptureProcessTree host ''SIGTERM'' w2
         in w3\<lparr>ww_killTimer := Some (ww_now w + node_delay (cw_sigkillGraceMs cfg)),
               ww_exitTimer := Some (ww_now w + node_delay (cw_sigkillGraceMs cfg + 100))\<rparr>))"

section \<open>Events\<close>

text \<open>
  What the wrapper reacts to, with the results of the file operations of the handler: data of one
  of the streams (the capture, the metadata, the metadata once more after a failure), an error of
  the child, its end (the two captures, the metadata, the exit code), SIGTERM, and a millisecond.
\<close>

datatype wrapper_event =
    ChildData output_stream string capture_end write_end write_end
  | ChildError string write_end
  | ChildClose "int option" "string option" capture_end capture_end write_end write_end
  | SigTerm
  | Millisecond

definition capture_of :: "output_stream \<Rightarrow> wrapper_state \<Rightarrow> stream_capture" where
  "capture_of st w = (case st of ChildStdout \<Rightarrow> ww_stdout w | ChildStderr \<Rightarrow> ww_stderr w)"

definition with_capture :: "output_stream \<Rightarrow> stream_capture \<Rightarrow> wrapper_state \<Rightarrow> wrapper_state" where
  "with_capture st c w = (case st of ChildStdout \<Rightarrow> w\<lparr>ww_stdout := c\<rparr> | ChildStderr \<Rightarrow> w\<lparr>ww_stderr := c\<rparr>)"

definition on_child_data ::
  "wrapper_host \<Rightarrow> wrapper_config \<Rightarrow> output_stream \<Rightarrow> string \<Rightarrow> capture_end \<Rightarrow> write_end \<Rightarrow> write_end \<Rightarrow>
   wrapper_state \<Rightarrow> wrapper_state" where
  "on_child_data host cfg st chunk a m r w =
     (let (e, c) = run_capture (\<lambda>c. append_chunk (wrapper_cap cfg) c chunk) a (capture_of st w);
          w1 = with_capture st c w
      in case e of
           Some msg \<Rightarrow> terminateForCaptureFailure host cfg msg r w1
         | None \<Rightarrow>
             (case writeMetadata None m w1 of
                (Some msg, w2) \<Rightarrow> terminateForCaptureFailure host cfg msg r w2
              | (None, w2) \<Rightarrow> w2))"

definition final_exit_code :: "wrapper_host \<Rightarrow> wrapper_state \<Rightarrow> int option \<Rightarrow> string option \<Rightarrow> int" where
  "final_exit_code host w code sig =
     (if truthy_str (ww_captureFailure w) then 1
      else (case code of
              Some n \<Rightarrow> n
            | None \<Rightarrow> (if truthy_str sig \<and> nullish (wh_signals host (the sig)) 0 \<noteq> 0
                       then 128 + int (the (wh_signals host (the sig))) else 1)))"

definition process_exit :: "int \<Rightarrow> wrapper_state \<Rightarrow> wrapper_state" where
  "process_exit code w = w\<lparr>ww_end := Some (Exited code)\<rparr>"

definition on_child_close ::
  "wrapper_host \<Rightarrow> wrapper_config \<Rightarrow> int option \<Rightarrow> string option \<Rightarrow> capture_end \<Rightarrow> capture_end \<Rightarrow>
   write_end \<Rightarrow> write_end \<Rightarrow> wrapper_state \<Rightarrow> wrapper_state" where
  "on_child_close host cfg code sig f1 f2 m x w =
     (let w0 = w\<lparr>ww_killTimer := None, ww_exitTimer := None\<rparr>;
          (e1, c1) = run_capture (finish_capture (wrapper_cap cfg)) f1 (ww_stdout w0);
          w1 = w0\<lparr>ww_stdout := c1\<rparr>
      in if e1 \<noteq> None then process_exit 1 w1
         else
           (let (e2, c2) = run_capture (finish_capture (wrapper_cap cfg)) f2 (ww_stderr w1);
                w2 = w1\<lparr>ww_stderr := c2\<rparr>
            in if e2 \<noteq> None then process_exit 1 w2
               else
                 (let exitCode = final_exit_code host w2 code sig;
                      (e3, w3) = writeMetadata (Some exitCode) m w2
                  in if e3 \<noteq> None then process_exit 1 w3
                     else
                       (let (e4, w4) = writeExitCode exitCode x w3
                        in if e4 \<noteq> None then process_exit 1 w4 else process_exit exitCode w4))))"

definition on_kill_timer :: "wrapper_host \<Rightarrow> wrapper_state \<Rightarrow> wrapper_state" where
  "on_kill_timer host w =
     (case ww_killTimer w of
        Some t \<Rightarrow> (if t \<le> ww_now w then signalCaptureProcessTree host ''SIGKILL'' (w\<lparr>ww_killTimer := None\<rparr>) else w)
      | None \<Rightarrow> w)"

definition on_exit_timer :: "wrapper_state \<Rightarrow> wrapper_state" where
  "on_exit_timer w =
     (case ww_exitTimer w of
        Some t \<Rightarrow> (if t \<le> ww_now w \<and> ww_end w = None then process_exit 1 (w\<lparr>ww_exitTimer := None\<rparr>) else w)
      | None \<Rightarrow> w)"

fun wrapper_react :: "wrapper_host \<Rightarrow> wrapper_config \<Rightarrow> wrapper_event \<Rightarrow> wrapper_state \<Rightarrow> wrapper_state" where
  "wrapper_react host cfg (ChildData st chunk a m r) w = on_child_data host cfg st chunk a m r w"
| "wrapper_react host cfg (ChildError msg r) w = terminateForCaptureFailure host cfg msg r w"
| "wrapper_react host cfg (ChildClose code sig f1 f2 m x) w = on_child_close host cfg code sig f1 f2 m x w"
| "wrapper_react host cfg SigTerm w = (if \<not> ww_terminating w then process_exit 143 w else w)"
| "wrapper_react host cfg Millisecond w =
     on_exit_timer (on_kill_timer host (w\<lparr>ww_now := ww_now w + 1\<rparr>))"

definition wrapper_on :: "wrapper_host \<Rightarrow> wrapper_config \<Rightarrow> wrapper_event \<Rightarrow> wrapper_state \<Rightarrow> wrapper_state" where
  "wrapper_on host cfg ev w = (if ww_end w \<noteq> None then w else wrapper_react host cfg ev w)"

definition wrapper_run :: "wrapper_host \<Rightarrow> wrapper_config \<Rightarrow> wrapper_event list \<Rightarrow> wrapper_state \<Rightarrow> wrapper_state" where
  "wrapper_run host cfg events w = foldl (\<lambda>w ev. wrapper_on host cfg ev w) w events"

lemma wrapper_run_append [simp]:
  "wrapper_run host cfg (es @ fs) w = wrapper_run host cfg fs (wrapper_run host cfg es w)"
  by (simp add: wrapper_run_def)

lemma wrapper_run_Nil [simp]: "wrapper_run host cfg [] w = w"
  by (simp add: wrapper_run_def)

lemma wrapper_run_Cons [simp]:
  "wrapper_run host cfg (e # es) w = wrapper_run host cfg es (wrapper_on host cfg e w)"
  by (simp add: wrapper_run_def)

lemma ended_stays: "ww_end w \<noteq> None \<Longrightarrow> wrapper_run host cfg es w = w"
  by (induction es) (simp_all add: wrapper_on_def)

section \<open>The shell starts the wrapper with the intended words\<close>

definition plain_word :: "string \<Rightarrow> bool" where
  \<comment> \<open>a word without a character the shell reads specially\<close>
  "plain_word w \<longleftrightarrow> w \<noteq> [] \<and> list_all (\<lambda>c. c \<noteq> single_quote \<and> c \<noteq> backslash \<and> c \<noteq> CHR '' '') w"

definition spelled :: "string \<Rightarrow> string \<Rightarrow> bool" where
  "spelled s w \<longleftrightarrow> s = shellQuote w \<or> (s = w \<and> plain_word w)"

lemma sh_scan_letters:
  "list_all (\<lambda>c. c \<noteq> single_quote \<and> c \<noteq> backslash \<and> c \<noteq> CHR '' '') w \<Longrightarrow>
   sh_scan False (Some v) (w @ rest) = sh_scan False (Some (v @ w)) rest"
  by (induction w arbitrary: v) simp_all

lemma sh_scan_spelled: "spelled s w \<Longrightarrow> sh_scan False None (s @ rest) = sh_scan False (Some w) rest"
proof -
  assume "spelled s w"
  then consider "s = shellQuote w" | "s = w" "plain_word w" by (auto simp: spelled_def)
  then show ?thesis
  proof cases
    case 1
    then show ?thesis by (simp add: sh_scan_word)
  next
    case 2
    then obtain c cs where w: "w = c # cs" by (cases w) (auto simp: plain_word_def)
    with 2 show ?thesis using sh_scan_letters [of cs "[c]" rest] by (simp add: plain_word_def)
  qed
qed

lemma sh_words_spelled: "list_all2 spelled ss ws \<Longrightarrow> sh_words (join_with '' '' ss) = Some ws"
proof (induction rule: list_all2_induct)
  case Nil
  then show ?case by (simp add: sh_words_def)
next
  case (Cons s ss w ws)
  show ?case
  proof (cases ss)
    case Nil
    then show ?thesis using Cons sh_scan_spelled [of s w "[]"] by (simp add: sh_words_def)
  next
    case (Cons t ts)
    then have "join_with '' '' (s # ss) = s @ CHR '' '' # join_with '' '' ss" by simp
    then show ?thesis
      using Cons.IH Cons.hyps sh_scan_spelled [of s w] by (simp add: sh_words_def quote_chars)
  qed
qed

lemma spelled_quoted [simp]: "spelled (shellQuote w) w"
  by (simp add: spelled_def)

lemma spelled_quoted_list: "list_all2 spelled (map shellQuote ws) ws"
  by (induction ws) simp_all

lemma spelled_plain: "plain_word w \<Longrightarrow> spelled w w"
  by (simp add: spelled_def)

lemma digit_plain: "is_digit c \<Longrightarrow> c \<noteq> single_quote \<and> c \<noteq> backslash \<and> c \<noteq> CHR '' ''"
  by (auto simp: is_digit_def single_quote_def backslash_def)

lemma plain_dec [simp]: "plain_word (dec_int i)"
proof -
  have "list_all (\<lambda>c. c \<noteq> single_quote \<and> c \<noteq> backslash \<and> c \<noteq> CHR '' '') (dec_nat n)" for n
    using all_digits_dec_nat [of n] by (auto simp: list_all_iff digit_plain)
  then show ?thesis by (simp add: plain_word_def dec_int_def single_quote_def backslash_def)
qed

lemma join_with_last: "ys \<noteq> [] \<Longrightarrow> join_with sep (xs @ [join_with sep ys]) = join_with sep (xs @ ys)"
proof (induction xs)
  case (Cons x xs)
  have "xs @ [join_with sep ys] \<noteq> []" "xs @ ys \<noteq> []" using Cons.prems by simp_all
  then show ?case using Cons by (metis append_Cons join_with.simps(3) neq_Nil_conv)
qed simp

lemma join_lines: "join_with sep [a, b, c, d, x, []] = join_with sep [a, b, c, d, []] @ x @ sep"
  by simp

definition capture_words :: "bridge_env \<Rightarrow> string \<Rightarrow> string list" where
  \<comment> \<open>the words that follow the script of the wrapper\<close>
  "capture_words env i =
     (let cfg = be_cfg env; f = (\<lambda>name. be_pathText env (session_path env i name)) in
      [''--cap'', dec_int (nullish (bc_tmuxMaxCaptureBytesPerStream cfg) DEFAULT_TMUX_MAX_CAPTURE_BYTES_PER_STREAM),
       ''--sigkill-grace-ms'', dec_int (bc_sigkillGraceMs cfg),
       ''--stdout'', f STDOUT_FILE, ''--stderr'', f STDERR_FILE,
       ''--stdout-tail'', f STDOUT_TAIL_FILE, ''--stderr-tail'', f STDERR_TAIL_FILE,
       ''--metadata'', f METADATA_FILE, ''--exit-code'', f EXIT_CODE_FILE,
       ''--''] @ bc_omxCommand cfg # buildOmxExecArgs cfg)"

lemma runner_script_line:
  "\<exists>before cmd. buildRunnerScript env i =
       before @ ''exec '' @ cmd @ '' < '' @ quoted_file env i PROMPT_FILE @ [CHR 0x0A] \<and>
     sh_words cmd = Some (be_execPath env # be_pathText env (session_path env i WRAPPER_FILE) # capture_words env i)"
proof -
  let ?cfg = "be_cfg env"
  let ?q = "quoted_file env i"
  define ws where "ws = bc_omxCommand ?cfg # buildOmxExecArgs ?cfg"
  define front where "front = [shellQuote (be_execPath env), ?q WRAPPER_FILE,
     ''--cap'', dec_int (nullish (bc_tmuxMaxCaptureBytesPerStream ?cfg) DEFAULT_TMUX_MAX_CAPTURE_BYTES_PER_STREAM),
     ''--sigkill-grace-ms'', dec_int (bc_sigkillGraceMs ?cfg),
     ''--stdout'', ?q STDOUT_FILE, ''--stderr'', ?q STDERR_FILE,
     ''--stdout-tail'', ?q STDOUT_TAIL_FILE, ''--stderr-tail'', ?q STDERR_TAIL_FILE,
     ''--metadata'', ?q METADATA_FILE, ''--exit-code'', ?q EXIT_CODE_FILE, ''--'']"
  define cmd where "cmd = join_with '' '' (front @ map shellQuote ws)"
  have cmd: "join_with '' '' (front @ [join_with '' '' (map shellQuote ws)]) = cmd"
    unfolding cmd_def by (rule join_with_last) (simp add: ws_def)
  have "list_all2 spelled (front @ map shellQuote ws)
      (be_execPath env # be_pathText env (session_path env i WRAPPER_FILE) # capture_words env i)"
    unfolding front_def capture_words_def Let_def ws_def quoted_file_def
    using spelled_quoted_list [of "buildOmxExecArgs ?cfg"]
    by (simp add: spelled_plain) (simp add: plain_word_def spelled_def single_quote_def backslash_def)
  then have "sh_words cmd = Some (be_execPath env # be_pathText env (session_path env i WRAPPER_FILE) # capture_words env i)"
    unfolding cmd_def by (rule sh_words_spelled)
  moreover have "\<exists>before. buildRunnerScript env i =
      before @ ''exec '' @ cmd @ '' < '' @ ?q PROMPT_FILE @ [CHR 0x0A]"
    unfolding buildRunnerScript_def Let_def join_lines
    using cmd [unfolded front_def ws_def append_Cons append_Nil list.map] by (simp only: append_assoc list.map) blast
  ultimately show ?thesis by blast
qed

section \<open>The wrapper reads the command line back\<close>

lemma dec_nat_no_ws: "list_all (\<lambda>c. \<not> is_ws c) (dec_nat n)"
  using all_digits_dec_nat [of n] by (auto simp: list_all_iff digit_not_ws)

lemma dec_no_ws: "list_all (\<lambda>c. \<not> is_ws c) (dec_int n)"
  using dec_nat_no_ws by (simp add: dec_int_def is_ws_def)

lemma dropWhile_none: "list_all (\<lambda>c. \<not> P c) s \<Longrightarrow> dropWhile P s = s"
  by (cases s) simp_all

lemma trim_no_ws: "list_all (\<lambda>c. \<not> is_ws c) s \<Longrightarrow> trim s = s"
  using dropWhile_none [of is_ws s] dropWhile_none [of is_ws "rev s"] by (simp add: trim_def)

lemma trim_line_end: "list_all (\<lambda>c. \<not> is_ws c) s \<Longrightarrow> trim (s @ [CHR 0x0A]) = s"
proof (cases s)
  case Nil
  then show ?thesis by (simp add: trim_def is_ws_def)
next
  case (Cons c cs)
  assume "list_all (\<lambda>c. \<not> is_ws c) s"
  with Cons have "dropWhile is_ws (s @ [CHR 0x0A]) = s @ [CHR 0x0A]" "dropWhile is_ws (rev s) = rev s"
    using dropWhile_none [of is_ws "rev s"] by simp_all
  then show ?thesis by (simp add: trim_def is_ws_def)
qed

lemma parse_int_digits:
  assumes "list_all is_digit ds" and "ds \<noteq> []"
  shows "parse_int ds = Some (digits_value ds)" "parse_int (CHR ''-'' # ds) = Some (- digits_value ds)"
proof -
  obtain c cs where "ds = c # cs" using assms(2) by (cases ds) auto
  with assms(1) have signs: "\<not> starts_with ''-'' ds" "\<not> starts_with ''+'' ds"
    by (auto simp: starts_with_def is_digit_def)
  have minus: "starts_with ''-'' (CHR ''-'' # ds)" by (simp add: starts_with_def)
  have digits: "takeWhile is_digit ds = ds" using assms(1) by (simp add: takeWhile_eq_all_conv list_all_iff)
  show "parse_int ds = Some (digits_value ds)" "parse_int (CHR ''-'' # ds) = Some (- digits_value ds)"
    using assms(2) unfolding parse_int_def Let_def by (simp_all add: signs minus digits)
qed

lemma parse_int_dec [simp]: "parse_int (dec_int n) = Some n"
  using parse_int_digits [OF all_digits_dec_nat, of "nat n"] parse_int_digits [OF all_digits_dec_nat, of "nat (- n)"]
  by (simp add: dec_int_def digits_value_dec_nat)

lemma separator_index_append: "''--'' \<notin> set xs \<Longrightarrow> separator_index (xs @ ''--'' # ys) = Some (length xs)"
proof -
  assume "''--'' \<notin> set xs"
  then have "\<forall>x \<in> set xs. x \<noteq> ''--''" by blast
  then show ?thesis by (simp add: separator_index_def)
qed

definition option_words :: "(string \<times> string) list \<Rightarrow> string list" where
  "option_words kvs = concat (map (\<lambda>kv. [''--'' @ fst kv, snd kv]) kvs)"

lemma length_option_words: "length (option_words kvs) = 2 * length kvs"
  by (induction kvs) (simp_all add: option_words_def)

lemma read_option_words:
  "read_options (2 * length kvs) (option_words kvs @ rest) m = Some (foldl (\<lambda>m kv. m(fst kv \<mapsto> snd kv)) m kvs)"
  by (induction kvs arbitrary: m) (simp_all add: option_words_def starts_with_def)

lemma wrapper_arguments_words:
  assumes "''--'' \<notin> set (option_words kvs)"
  shows "separator_index (option_words kvs @ ''--'' # rest) = Some (2 * length kvs)"
    "read_options (2 * length kvs) (option_words kvs @ ''--'' # rest) m =
       Some (foldl (\<lambda>m kv. m(fst kv \<mapsto> snd kv)) m kvs)"
    "drop (2 * length kvs + 1) (option_words kvs @ ''--'' # rest) = rest"
    "drop (2 * length kvs + 2) (option_words kvs @ ''--'' # rest) = drop 1 rest"
  using assms by (simp_all add: separator_index_append length_option_words read_option_words)

lemma dec_not_separator [simp]: "dec_int n \<noteq> ''--''"
proof
  assume eq: "dec_int n = ''--''"
  have "parse_int ''--'' = None" by code_simp
  with eq parse_int_dec [of n] show False by simp
qed

lemma live_marker_length: "length live_marker = 31"
  by code_simp

lemma capture_words_read:
  assumes "0 < bc_sigkillGraceMs (be_cfg env)" and "bc_omxCommand (be_cfg env) \<noteq> []"
    and cap: "nullish (bc_tmuxMaxCaptureBytesPerStream (be_cfg env)) DEFAULT_TMUX_MAX_CAPTURE_BYTES_PER_STREAM = cap"
      "31 < cap"
    and paths: "\<And>name. starts_with ''/'' (be_pathText env (session_path env i name))"
  shows "wrapper_arguments (capture_words env i) = Inr \<lparr>
    cw_cap = cap, cw_sigkillGraceMs = bc_sigkillGraceMs (be_cfg env),
    cw_stdout = be_pathText env (session_path env i STDOUT_FILE),
    cw_stderr = be_pathText env (session_path env i STDERR_FILE),
    cw_stdoutTail = be_pathText env (session_path env i STDOUT_TAIL_FILE),
    cw_stderrTail = be_pathText env (session_path env i STDERR_TAIL_FILE),
    cw_metadata = be_pathText env (session_path env i METADATA_FILE),
    cw_exitCode = be_pathText env (session_path env i EXIT_CODE_FILE),
    cw_command = bc_omxCommand (be_cfg env), cw_commandArgs = buildOmxExecArgs (be_cfg env)\<rparr>"
proof -
  let ?cfg = "be_cfg env" and ?f = "\<lambda>name. be_pathText env (session_path env i name)"
  define kvs where "kvs =
     [(''cap'', dec_int cap), (''sigkill-grace-ms'', dec_int (bc_sigkillGraceMs ?cfg)),
      (''stdout'', ?f STDOUT_FILE), (''stderr'', ?f STDERR_FILE),
      (''stdout-tail'', ?f STDOUT_TAIL_FILE), (''stderr-tail'', ?f STDERR_TAIL_FILE),
      (''metadata'', ?f METADATA_FILE), (''exit-code'', ?f EXIT_CODE_FILE)]"
  define rest where "rest = bc_omxCommand ?cfg # buildOmxExecArgs ?cfg"
  define m where "m = foldl (\<lambda>m kv. m(fst kv \<mapsto> snd kv)) Map.empty kvs"
  have path: "?f name \<noteq> ''--''" "?f name \<noteq> []" for name
    using paths [of name] by (auto simp: starts_with_def)
  have words: "capture_words env i = option_words kvs @ ''--'' # rest"
    by (simp add: capture_words_def option_words_def kvs_def rest_def Let_def cap)
  have "set (option_words kvs) = (\<lambda>kv. ''--'' @ fst kv) ` set kvs \<union> snd ` set kvs"
    by (auto simp: option_words_def)
  moreover have "\<forall>kv \<in> set kvs. ''--'' @ fst kv \<noteq> ''--'' \<and> snd kv \<noteq> ''--''"
    by (simp add: kvs_def path)
  ultimately have sep: "''--'' \<notin> set (option_words kvs)" by auto
  have opts: "m ''cap'' = Some (dec_int cap)" "m ''sigkill-grace-ms'' = Some (dec_int (bc_sigkillGraceMs ?cfg))"
    "m ''stdout'' = Some (?f STDOUT_FILE)" "m ''stderr'' = Some (?f STDERR_FILE)"
    "m ''stdout-tail'' = Some (?f STDOUT_TAIL_FILE)" "m ''stderr-tail'' = Some (?f STDERR_TAIL_FILE)"
    "m ''metadata'' = Some (?f METADATA_FILE)" "m ''exit-code'' = Some (?f EXIT_CODE_FILE)"
    by (simp_all add: m_def kvs_def)
  have ints: "int_option m ''cap'' = Some cap" "int_option m ''sigkill-grace-ms'' = Some (bc_sigkillGraceMs ?cfg)"
    by (simp_all add: int_option_def opts trim_no_ws dec_no_ws)
  show ?thesis
    unfolding wrapper_arguments_def words wrapper_arguments_words(1) [OF sep] option.case
      wrapper_arguments_words(2) [OF sep, of rest Map.empty, folded m_def]
      wrapper_arguments_words(3,4) [OF sep] Let_def ints
    using assms(1,2) cap(2) path by (simp add: opts rest_def truthy_str_def live_marker_length)
qed

text \<open>
  C40. The session's command line. For every configuration the bridge can be started with, the
  shell and the capture wrapper together read the line the runner writes back as intended: the
  wrapper gets the limits of the configuration, the files of this session and the configured
  command with its arguments, whatever characters they contain.
\<close>

theorem wrapper_reads_session_command:
  assumes "buildBridgeConfig vars cwd homeDir = Inr (be_cfg env)" and "bc_omxCommand (be_cfg env) \<noteq> []"
    and "\<And>name. starts_with ''/'' (be_pathText env (session_path env i name))"
  shows "\<exists>before cmd args cfg. buildRunnerScript env i =
       before @ ''exec '' @ cmd @ '' < '' @ quoted_file env i PROMPT_FILE @ [CHR 0x0A] \<and>
     sh_words cmd = Some (be_execPath env # be_pathText env (session_path env i WRAPPER_FILE) # args) \<and>
     wrapper_arguments args = Inr cfg \<and>
     bc_tmuxMaxCaptureBytesPerStream (be_cfg env) = Some (cw_cap cfg) \<and>
     int (length live_marker) < cw_cap cfg \<and>
     cw_sigkillGraceMs cfg = bc_sigkillGraceMs (be_cfg env) \<and>
     map (\<lambda>f. f cfg) [cw_stdout, cw_stderr, cw_stdoutTail, cw_stderrTail, cw_metadata, cw_exitCode] =
       map (\<lambda>name. be_pathText env (session_path env i name))
         [STDOUT_FILE, STDERR_FILE, STDOUT_TAIL_FILE, STDERR_TAIL_FILE, METADATA_FILE, EXIT_CODE_FILE] \<and>
     cw_command cfg # cw_commandArgs cfg = bc_omxCommand (be_cfg env) # buildOmxExecArgs (be_cfg env)"
proof -
  obtain cap where cap: "bc_tmuxMaxCaptureBytesPerStream (be_cfg env) = Some cap" "4096 \<le> cap"
    and "0 < bc_sigkillGraceMs (be_cfg env)"
    using config_numbers_bounded [OF assms(1)]
    by (auto simp: config_numbers_def MIN_TMUX_MAX_CAPTURE_BYTES_PER_STREAM_def)
  from capture_words_read [OF this(3) assms(2) _ _ assms(3), of cap] cap
  obtain cfg where "wrapper_arguments (capture_words env i) = Inr cfg" and
    "cfg = \<lparr>cw_cap = cap, cw_sigkillGraceMs = bc_sigkillGraceMs (be_cfg env),
    cw_stdout = be_pathText env (session_path env i STDOUT_FILE),
    cw_stderr = be_pathText env (session_path env i STDERR_FILE),
    cw_stdoutTail = be_pathText env (session_path env i STDOUT_TAIL_FILE),
    cw_stderrTail = be_pathText env (session_path env i STDERR_TAIL_FILE),
    cw_metadata = be_pathText env (session_path env i METADATA_FILE),
    cw_exitCode = be_pathText env (session_path env i EXIT_CODE_FILE),
    cw_command = bc_omxCommand (be_cfg env), cw_commandArgs = buildOmxExecArgs (be_cfg env)\<rparr>" by simp
  moreover obtain before cmd where "buildRunnerScript env i =
      before @ ''exec '' @ cmd @ '' < '' @ quoted_file env i PROMPT_FILE @ [CHR 0x0A]"
    "sh_words cmd = Some (be_execPath env # be_pathText env (session_path env i WRAPPER_FILE) # capture_words env i)"
    using runner_script_line [of env i] by blast
  ultimately show ?thesis
    using cap by (intro exI [of _ before] exI [of _ cmd] exI [of _ "capture_words env i"] exI [of _ cfg])
      (simp add: live_marker_length)
qed

lemma sample_command_built:
  "case buildBridgeConfig sample_env_vars ''/w'' ''/h'' of Inl _ \<Rightarrow> False | Inr c \<Rightarrow> bc_omxCommand c = ''omx''"
  by code_simp

theorem wrapper_reads_session_command_witness:
  "\<exists>c before cmd args cfg. buildBridgeConfig sample_env_vars ''/w'' ''/h'' = Inr c \<and>
     buildRunnerScript (sample_bridge\<lparr>be_cfg := c\<rparr>) uuid1 = before @ ''exec '' @ cmd @ '' < '' @
       quoted_file (sample_bridge\<lparr>be_cfg := c\<rparr>) uuid1 PROMPT_FILE @ [CHR 0x0A] \<and>
     sh_words cmd = Some (''node'' # be_pathText sample_bridge (session_path sample_bridge uuid1 WRAPPER_FILE) # args) \<and>
     wrapper_arguments args = Inr cfg \<and> cw_command cfg = ''omx''"
proof -
  obtain c where c: "buildBridgeConfig sample_env_vars ''/w'' ''/h'' = Inr c" "bc_omxCommand c = ''omx''"
    using sample_command_built by (auto split: sum.splits)
  let ?env = "sample_bridge\<lparr>be_cfg := c\<rparr>"
  have "starts_with ''/'' (be_pathText ?env (session_path ?env uuid1 name))" for name
    by (simp add: sample_bridge_def session_path_def sessionDirectory_def sample_repo_def starts_with_def)
  from wrapper_reads_session_command [of sample_env_vars "''/w''" "''/h''" ?env, OF _ _ this] c
  obtain before cmd args cfg where "buildRunnerScript ?env uuid1 =
       before @ ''exec '' @ cmd @ '' < '' @ quoted_file ?env uuid1 PROMPT_FILE @ [CHR 0x0A]"
    "sh_words cmd = Some (be_execPath ?env # be_pathText ?env (session_path ?env uuid1 WRAPPER_FILE) # args)"
    "wrapper_arguments args = Inr cfg" "cw_command cfg # cw_commandArgs cfg = ''omx'' # buildOmxExecArgs c"
    by auto
  moreover have "be_execPath ?env = ''node''" "be_pathText ?env = be_pathText sample_bridge"
    "session_path ?env = session_path sample_bridge"
    by (simp_all add: sample_bridge_def fun_eq_iff session_path_def sessionDirectory_def)
  ultimately show ?thesis using c(1) by auto
qed

section \<open>Runs without a failing write\<close>

fun clean_event :: "wrapper_event \<Rightarrow> bool" where
  "clean_event (ChildData st chunk CaptureDone Stored r) = True"
| "clean_event Millisecond = True"
| "clean_event _ = False"

fun data_of :: "output_stream \<Rightarrow> wrapper_event \<Rightarrow> string" where
  "data_of st (ChildData st' chunk a m r) = (if st = st' then chunk else [])"
| "data_of st _ = []"

definition seen :: "output_stream \<Rightarrow> wrapper_event list \<Rightarrow> string" where
  "seen st es = concat (map (data_of st) es)"

lemma seen_append [simp]: "seen st (es @ [e]) = seen st es @ data_of st e"
  by (simp add: seen_def)

definition clean_state :: "wrapper_config \<Rightarrow> wrapper_event list \<Rightarrow> wrapper_state \<Rightarrow> bool" where
  "clean_state cfg es w \<longleftrightarrow>
     ww_end w = None \<and> ww_captureFailure w = None \<and> \<not> ww_terminating w \<and> ww_killTimer w = None \<and>
     ww_exitTimer w = None \<and> ww_exitCode w = None \<and>
     stream_inv (wrapper_cap cfg) (seen ChildStdout es) (ww_stdout w) \<and>
     stream_inv (wrapper_cap cfg) (seen ChildStderr es) (ww_stderr w)"

definition cap_ok :: "wrapper_config \<Rightarrow> bool" where
  \<comment> \<open>what the wrapper checks of the cap before it starts\<close>
  "cap_ok cfg \<longleftrightarrow> int (length live_marker) < cw_cap cfg"

lemma cap_ok_length: "cap_ok cfg \<Longrightarrow> length live_marker < wrapper_cap cfg"
  by (simp add: cap_ok_def wrapper_cap_def)

lemma writeMetadata_stored: "writeMetadata c Stored w = (None, w\<lparr>ww_metadata := Some (JsonText (wrapper_metadata c w))\<rparr>)"
  by (simp add: writeMetadata_def store_file_def)

lemma writeMetadata_frame: obtains e f where "writeMetadata c r w = (e, w\<lparr>ww_metadata := f\<rparr>)"
  using that by (cases "store_file (JsonText (wrapper_metadata c w)) (json_part (wrapper_metadata c w)) r (ww_metadata w)")
    (simp add: writeMetadata_def Let_def)

lemma clean_start: "cap_ok cfg \<Longrightarrow> clean_state cfg [] (new_wrapper cfg now)"
  using stream_all_inv [OF cap_ok_length, of cfg "[]"]
  by (simp add: clean_state_def new_wrapper_def stream_all_def seen_def)

lemma clean_data:
  assumes "clean_state cfg es w" and "cap_ok cfg"
  shows "clean_state cfg (es @ [ChildData st chunk CaptureDone m r])
    (with_capture st (append_chunk (wrapper_cap cfg) (capture_of st w) chunk) w)"
  using assms append_chunk_inv [OF _ cap_ok_length [OF assms(2)]]
  by (cases st) (simp_all add: clean_state_def with_capture_def capture_of_def)

lemma clean_frame [simp]: "clean_state cfg es (w\<lparr>ww_metadata := f\<rparr>) = clean_state cfg es w"
  "clean_state cfg es (w\<lparr>ww_now := t\<rparr>) = clean_state cfg es w"
  "clean_state cfg (es @ [Millisecond]) w = clean_state cfg es w"
  by (simp_all add: clean_state_def)

lemma clean_on:
  assumes "clean_state cfg es w" and "cap_ok cfg" and "clean_event e"
  shows "clean_state cfg (es @ [e]) (wrapper_on host cfg e w)"
proof -
  have open': "ww_end w = None" using assms(1) by (simp add: clean_state_def)
  from assms(3) show ?thesis
  proof (cases e rule: clean_event.cases)
    case (1 st chunk r)
    with open' clean_data [OF assms(1,2), of st chunk Stored r] show ?thesis
      by (simp add: wrapper_on_def on_child_data_def run_capture_def writeMetadata_stored Let_def)
  next
    case 2
    with open' assms(1) show ?thesis
      by (simp add: wrapper_on_def on_kill_timer_def on_exit_timer_def) (simp add: clean_state_def)
  qed simp_all
qed

section \<open>What can become of a run\<close>

definition failed_state :: "wrapper_config \<Rightarrow> wrapper_state \<Rightarrow> bool" where
  "failed_state cfg w \<longleftrightarrow>
     truthy_str (ww_captureFailure w) \<and> ww_terminating w \<and>
     (case ww_end w of
        None \<Rightarrow> (\<exists>t. ww_exitTimer w = Some t \<and> t \<le> ww_now w + cw_sigkillGraceMs cfg + 100)
      | Some e \<Rightarrow> e = Exited 1 \<or> e = KilledByGroup) \<and>
     (ww_exitCode w = None \<or> (\<exists>n. ww_exitCode w = Some (RawText (take n (exit_text 1)))))"

lemma node_delay_le: "1 \<le> ms \<Longrightarrow> node_delay ms \<le> ms"
  by (simp add: node_delay_def)

lemma failure_enters:
  assumes "\<not> truthy_str (ww_captureFailure w)" and "ww_end w = None" and "ww_exitCode w = None"
    and "1 \<le> cw_sigkillGraceMs cfg"
  shows "failed_state cfg (terminateForCaptureFailure host cfg msg r w)"
proof -
  have "node_delay (cw_sigkillGraceMs cfg + 100) \<le> cw_sigkillGraceMs cfg + 100"
    by (rule node_delay_le) (use assms(4) in simp)
  moreover obtain e f where "writeMetadata None r
      (w\<lparr>ww_captureFailure := Some (error_text msg), ww_terminating := True\<rparr>) =
      (e, w\<lparr>ww_captureFailure := Some (error_text msg), ww_terminating := True, ww_metadata := f\<rparr>)"
    by (rule writeMetadata_frame)
  ultimately show ?thesis using assms
    by (simp add: terminateForCaptureFailure_def Let_def signalCaptureProcessTree_def failed_state_def
        error_text_def truthy_str_def)
qed

lemma writeExitCode_result:
  obtains e f where "writeExitCode c x w = (e, w\<lparr>ww_exitCode := f\<rparr>)"
    and "f = ww_exitCode w \<or> (\<exists>n. f = Some (RawText (take n (exit_text c))))"
proof (cases x)
  case Stored
  then have "writeExitCode c x w = (None, w\<lparr>ww_exitCode := Some (RawText (take (length (exit_text c)) (exit_text c)))\<rparr>)"
    by (simp add: writeExitCode_def store_file_def)
  then show ?thesis by (rule that) blast
next
  case (StoreFails msg n)
  show ?thesis
  proof (cases n)
    case None
    show ?thesis by (rule that [of "Some msg" "ww_exitCode w"])
        (simp_all add: StoreFails None writeExitCode_def store_file_def)
  next
    case (Some k)
    show ?thesis by (rule that [of "Some msg" "Some (RawText (take k (exit_text c)))"])
        (simp_all add: StoreFails Some writeExitCode_def store_file_def, blast)
  qed
qed

lemma failed_frame [simp]:
  "failed_state cfg (with_capture st c w) = failed_state cfg w"
  "failed_state cfg (w\<lparr>ww_metadata := f\<rparr>) = failed_state cfg w"
  "failed_state cfg (w\<lparr>ww_stdout := c\<rparr>) = failed_state cfg w"
  "failed_state cfg (w\<lparr>ww_stderr := c\<rparr>) = failed_state cfg w"
  by (cases st; simp add: failed_state_def with_capture_def split: option.split)+

lemma failed_terminate: "truthy_str (ww_captureFailure w) \<Longrightarrow> terminateForCaptureFailure host cfg msg r w = w"
  by (simp add: terminateForCaptureFailure_def)

lemma with_capture_fields [simp]:
  "ww_captureFailure (with_capture st c w) = ww_captureFailure w" "ww_end (with_capture st c w) = ww_end w"
  "ww_exitCode (with_capture st c w) = ww_exitCode w" "ww_exitTimer (with_capture st c w) = ww_exitTimer w"
  "ww_now (with_capture st c w) = ww_now w" "ww_terminating (with_capture st c w) = ww_terminating w"
  by (cases st; simp add: with_capture_def)+

text \<open>Data of a stream changes the captures and the metadata, and may be the first failure.\<close>

lemma data_result:
  obtains c f where "on_child_data host cfg st chunk a m r w = with_capture st c w\<lparr>ww_metadata := f\<rparr>"
    and "a = CaptureDone" "m = Stored"
  | c f msg where "on_child_data host cfg st chunk a m r w =
      terminateForCaptureFailure host cfg msg r (with_capture st c w\<lparr>ww_metadata := f\<rparr>)"
    and "a \<noteq> CaptureDone \<or> m \<noteq> Stored"
proof (cases a)
  case CaptureDone
  let ?w = "with_capture st (append_chunk (wrapper_cap cfg) (capture_of st w) chunk) w"
  show ?thesis
  proof (cases m)
    case Stored
    have "on_child_data host cfg st chunk a m r w =
        ?w\<lparr>ww_metadata := Some (JsonText (wrapper_metadata None ?w))\<rparr>"
      by (simp add: on_child_data_def CaptureDone Stored run_capture_def writeMetadata_stored Let_def)
    then show ?thesis using CaptureDone Stored by (rule that(1))
  next
    case (StoreFails msg n)
    obtain e f where wm: "writeMetadata None m ?w = (e, ?w\<lparr>ww_metadata := f\<rparr>)" by (rule writeMetadata_frame)
    have "e = Some msg" using wm StoreFails
      by (cases n) (simp_all add: writeMetadata_def store_file_def)
    with wm have "on_child_data host cfg st chunk a m r w =
        terminateForCaptureFailure host cfg msg r (?w\<lparr>ww_metadata := f\<rparr>)"
      by (simp add: on_child_data_def CaptureDone run_capture_def)
    then show ?thesis by (rule that(2)) (simp add: StoreFails)
  qed
next
  case (CaptureThrows msg g)
  have same: "v\<lparr>ww_metadata := ww_metadata v\<rparr> = v" for v by simp
  have "on_child_data host cfg st chunk a m r w =
      terminateForCaptureFailure host cfg msg r (with_capture st (g (capture_of st w)) w)"
    by (simp add: on_child_data_def CaptureThrows run_capture_def)
  then have "on_child_data host cfg st chunk a m r w =
      terminateForCaptureFailure host cfg msg r (with_capture st (g (capture_of st w)) w
        \<lparr>ww_metadata := ww_metadata (with_capture st (g (capture_of st w)) w)\<rparr>)" by (simp only: same)
  then show ?thesis by (rule that(2)) (simp add: CaptureThrows)
qed

lemma close_failed:
  assumes "failed_state cfg w" and "ww_end w = None"
  shows "failed_state cfg (on_child_close host cfg code sig f1 f2 m x w)"
proof -
  let ?w0 = "w\<lparr>ww_killTimer := None, ww_exitTimer := None\<rparr>"
  have base: "truthy_str (ww_captureFailure w)" "ww_terminating w"
    "ww_exitCode w = None \<or> (\<exists>n. ww_exitCode w = Some (RawText (take n (exit_text 1))))"
    using assms by (simp_all add: failed_state_def)
  have one: "final_exit_code host v code sig = 1" if "truthy_str (ww_captureFailure v)" for v
    using that by (simp add: final_exit_code_def)
  obtain e1 c1 where r1: "run_capture (finish_capture (wrapper_cap cfg)) f1 (ww_stdout w) = (e1, c1)" by fastforce
  obtain e2 c2 where r2: "run_capture (finish_capture (wrapper_cap cfg)) f2 (ww_stderr w) = (e2, c2)" by fastforce
  let ?w2 = "?w0\<lparr>ww_stdout := c1, ww_stderr := c2\<rparr>"
  obtain e3 g where r3: "writeMetadata (Some 1) m ?w2 = (e3, ?w2\<lparr>ww_metadata := g\<rparr>)" by (rule writeMetadata_frame)
  let ?w3 = "?w2\<lparr>ww_metadata := g\<rparr>"
  obtain e4 f where r4: "writeExitCode 1 x ?w3 = (e4, ?w3\<lparr>ww_exitCode := f\<rparr>)"
    and f: "f = ww_exitCode ?w3 \<or> (\<exists>n. f = Some (RawText (take n (exit_text 1))))" by (rule writeExitCode_result)
  show ?thesis
    using base f one
    by (auto simp: on_child_close_def Let_def r1 r2 r3 r4 process_exit_def failed_state_def)
qed

lemma tick_failed:
  assumes "failed_state cfg w" and "ww_end w = None"
  shows "failed_state cfg (on_exit_timer (on_kill_timer host (w\<lparr>ww_now := ww_now w + 1\<rparr>)))"
  using assms
  by (auto simp: failed_state_def on_kill_timer_def on_exit_timer_def signalCaptureProcessTree_def Let_def
      process_exit_def split: option.splits)

lemma failed_on:
  assumes "failed_state cfg w"
  shows "failed_state cfg (wrapper_on host cfg e w)"
proof (cases "ww_end w = None")
  case False
  with assms show ?thesis by (simp add: wrapper_on_def)
next
  case True
  have t: "truthy_str (ww_captureFailure w)" "ww_terminating w" using assms by (simp_all add: failed_state_def)
  show ?thesis
  proof (cases e)
    case (ChildData st chunk a m r)
    have "failed_state cfg (on_child_data host cfg st chunk a m r w)"
      by (rule data_result [of host cfg st chunk a m r w]) (simp_all add: assms t failed_terminate)
    with True ChildData show ?thesis by (simp add: wrapper_on_def)
  qed (use True t assms close_failed [OF assms True] tick_failed [OF assms True] in
      \<open>simp_all add: wrapper_on_def failed_terminate\<close>)
qed

definition logs_complete :: "wrapper_config \<Rightarrow> wrapper_event list \<Rightarrow> wrapper_state \<Rightarrow> bool" where
  \<comment> \<open>both log files hold what the streams carried, as far as the cap allows\<close>
  "logs_complete cfg es w \<longleftrightarrow>
     sc_file (ww_stdout w) = file_spec (wrapper_cap cfg) (seen ChildStdout es) \<and>
     sc_file (ww_stderr w) = file_spec (wrapper_cap cfg) (seen ChildStderr es)"

definition reported_exit :: "wrapper_host \<Rightarrow> int option \<Rightarrow> string option \<Rightarrow> int" where
  \<comment> \<open>the exit code of a child that ends with a code or by a signal\<close>
  "reported_exit host code sig =
     (case code of
        Some n \<Rightarrow> n
      | None \<Rightarrow> (if truthy_str sig \<and> nullish (wh_signals host (the sig)) 0 \<noteq> 0
                 then 128 + int (the (wh_signals host (the sig))) else 1))"

lemma final_exit_code_ok: "ww_captureFailure w = None \<Longrightarrow> final_exit_code host w code sig = reported_exit host code sig"
  by (simp add: final_exit_code_def reported_exit_def truthy_str_def)

lemma reported_zero: "reported_exit host code sig = 0 \<Longrightarrow> code = Some 0"
  by (auto simp: reported_exit_def split: option.splits if_splits)

definition ended_state :: "wrapper_host \<Rightarrow> wrapper_config \<Rightarrow> wrapper_event list \<Rightarrow> wrapper_state \<Rightarrow> bool" where
  \<comment> \<open>ended without a capture failure: without an exit code, or after the child has closed\<close>
  "ended_state host cfg es w \<longleftrightarrow>
     ww_end w \<noteq> None \<and> ww_captureFailure w = None \<and>
     (ww_exitCode w = None \<or>
      (\<exists>es1 code sig x es2 n. es = es1 @ ChildClose code sig CaptureDone CaptureDone Stored x # es2 \<and>
         list_all clean_event es1 \<and> logs_complete cfg es1 w \<and>
         ww_exitCode w = Some (RawText (take n (exit_text (reported_exit host code sig))))))"

lemma ended_by_close:
  assumes "ww_end w \<noteq> None" and "ww_captureFailure w = None" and "list_all clean_event es"
    and "logs_complete cfg es w"
    and "ww_exitCode w = None \<or> (\<exists>n. ww_exitCode w = Some (RawText (take n (exit_text (reported_exit host code sig)))))"
  shows "ended_state host cfg (es @ [ChildClose code sig CaptureDone CaptureDone Stored x]) w"
  using assms(5)
proof
  assume "\<exists>n. ww_exitCode w = Some (RawText (take n (exit_text (reported_exit host code sig))))"
  then obtain n where "ww_exitCode w = Some (RawText (take n (exit_text (reported_exit host code sig))))" ..
  then show ?thesis using assms(1-4) unfolding ended_state_def by blast
qed (simp add: ended_state_def assms)

lemma close_clean:
  assumes "clean_state cfg es w" and "cap_ok cfg" and "list_all clean_event es"
  shows "ended_state host cfg (es @ [ChildClose code sig f1 f2 m x]) (on_child_close host cfg code sig f1 f2 m x w)"
    "f1 = CaptureDone \<Longrightarrow> f2 = CaptureDone \<Longrightarrow> m = Stored \<Longrightarrow> x = Stored \<Longrightarrow>
       ww_end (on_child_close host cfg code sig f1 f2 m x w) = Some (Exited (reported_exit host code sig)) \<and>
       ww_exitCode (on_child_close host cfg code sig f1 f2 m x w) =
         Some (RawText (exit_text (reported_exit host code sig))) \<and>
       logs_complete cfg es (on_child_close host cfg code sig f1 f2 m x w) \<and>
       (\<exists>v. ww_metadata (on_child_close host cfg code sig f1 f2 m x w) =
          Some (JsonText (wrapper_metadata (Some (reported_exit host code sig)) v)) \<and>
          ww_captureFailure v = None \<and> sc_finalized (ww_stdout v) \<and> sc_finalized (ww_stderr v))"
proof -
  let ?w0 = "w\<lparr>ww_killTimer := None, ww_exitTimer := None\<rparr>" and ?c = "reported_exit host code sig"
  have base: "ww_captureFailure w = None" "ww_exitCode w = None" and logs:
    "sc_file (finish_capture (wrapper_cap cfg) (ww_stdout w)) = file_spec (wrapper_cap cfg) (seen ChildStdout es)"
    "sc_file (finish_capture (wrapper_cap cfg) (ww_stderr w)) = file_spec (wrapper_cap cfg) (seen ChildStderr es)"
    using assms(1) finish_file [OF _ cap_ok_length [OF assms(2)]] by (simp_all add: clean_state_def)
  have code: "final_exit_code host v code sig = ?c" if "ww_captureFailure v = None" for v
    using that by (rule final_exit_code_ok)
  have final: "sc_finalized (finish_capture (wrapper_cap cfg) (ww_stdout w))"
    "sc_finalized (finish_capture (wrapper_cap cfg) (ww_stderr w))"
    using assms(1) by (simp_all add: clean_state_def stream_inv_def finish_capture_def Let_def)
  let ?c1 = "finish_capture (wrapper_cap cfg) (ww_stdout w)" and ?c2 = "finish_capture (wrapper_cap cfg) (ww_stderr w)"
  let ?w2 = "?w0\<lparr>ww_stdout := ?c1, ww_stderr := ?c2\<rparr>"
  let ?w3 = "?w2\<lparr>ww_metadata := Some (JsonText (wrapper_metadata (Some ?c) ?w2))\<rparr>"
  obtain e4 f where r4: "writeExitCode ?c x ?w3 = (e4, ?w3\<lparr>ww_exitCode := f\<rparr>)"
    and f: "f = ww_exitCode ?w3 \<or> (\<exists>n. f = Some (RawText (take n (exit_text ?c))))" by (rule writeExitCode_result)
  have good: "on_child_close host cfg code sig CaptureDone CaptureDone Stored x w =
      process_exit (if e4 = None then ?c else 1) (?w3\<lparr>ww_exitCode := f\<rparr>)"
    using r4 base by (simp add: on_child_close_def Let_def run_capture_def code writeMetadata_stored)
  show "ended_state host cfg (es @ [ChildClose code sig f1 f2 m x]) (on_child_close host cfg code sig f1 f2 m x w)"
  proof (cases "f1 = CaptureDone \<and> f2 = CaptureDone \<and> m = Stored")
    case True
    have "logs_complete cfg es (process_exit k (?w3\<lparr>ww_exitCode := f\<rparr>))" for k
      by (simp add: logs_complete_def process_exit_def logs)
    moreover have "ww_end (process_exit k v) \<noteq> None" for k v by (simp add: process_exit_def)
    moreover have "ww_captureFailure (process_exit k (?w3\<lparr>ww_exitCode := f\<rparr>)) = None"
      "ww_exitCode (process_exit k (?w3\<lparr>ww_exitCode := f\<rparr>)) = f" for k
      using base by (simp_all add: process_exit_def)
    ultimately show ?thesis
      using True f base assms(3) by (simp add: good ended_by_close)
  next
    case False
    obtain e1 d1 where r1: "run_capture (finish_capture (wrapper_cap cfg)) f1 (ww_stdout w) = (e1, d1)" by fastforce
    obtain e2 d2 where r2: "run_capture (finish_capture (wrapper_cap cfg)) f2 (ww_stderr w) = (e2, d2)" by fastforce
    let ?v2 = "?w0\<lparr>ww_stdout := d1, ww_stderr := d2\<rparr>"
    obtain e3 g where r3: "writeMetadata (Some ?c) m ?v2 = (e3, ?v2\<lparr>ww_metadata := g\<rparr>)" by (rule writeMetadata_frame)
    have "e1 \<noteq> None \<or> e2 \<noteq> None \<or> e3 \<noteq> None"
    proof (cases "f1 = CaptureDone \<and> f2 = CaptureDone")
      case True
      with False obtain msg n where "m = StoreFails msg n" by (cases m) auto
      with r3 show ?thesis by (cases n) (auto simp: writeMetadata_def store_file_def)
    next
      case False
      with r1 r2 show ?thesis by (auto simp: run_capture_def split: capture_end.splits)
    qed
    with base show ?thesis
      by (auto simp: on_child_close_def Let_def r1 r2 r3 code process_exit_def ended_state_def)
  qed
  assume all: "f1 = CaptureDone" "f2 = CaptureDone" "m = Stored" "x = Stored"
  then have "e4 = None" "f = Some (RawText (exit_text ?c))"
    using arg_cong [OF r4, of fst] arg_cong [OF r4, of "\<lambda>p. ww_exitCode (snd p)"]
    by (simp_all add: writeExitCode_def store_file_def)
  with all good base logs show "ww_end (on_child_close host cfg code sig f1 f2 m x w) = Some (Exited ?c) \<and>
       ww_exitCode (on_child_close host cfg code sig f1 f2 m x w) = Some (RawText (exit_text ?c)) \<and>
       logs_complete cfg es (on_child_close host cfg code sig f1 f2 m x w) \<and>
       (\<exists>v. ww_metadata (on_child_close host cfg code sig f1 f2 m x w) =
          Some (JsonText (wrapper_metadata (Some ?c) v)) \<and>
          ww_captureFailure v = None \<and> sc_finalized (ww_stdout v) \<and> sc_finalized (ww_stderr v))"
    using final by (auto simp: process_exit_def logs_complete_def)
qed

lemma clean_data_metadata:
  assumes "clean_state cfg es w" and "\<not> clean_event e" and "cap_ok cfg" and "1 \<le> cw_sigkillGraceMs cfg"
    and "list_all clean_event es"
  shows "failed_state cfg (wrapper_on host cfg e w) \<or> ended_state host cfg (es @ [e]) (wrapper_on host cfg e w)"
proof -
  have w: "ww_end w = None" "\<not> truthy_str (ww_captureFailure w)" "ww_exitCode w = None" "\<not> ww_terminating w"
    "ww_captureFailure w = None"
    using assms(1) by (simp_all add: clean_state_def truthy_str_def)
  show ?thesis
  proof (cases e)
    case (ChildData st chunk a m r)
    show ?thesis
      by (rule data_result [of host cfg st chunk a m r w])
        (use assms(2,4) w ChildData in \<open>auto simp: wrapper_on_def intro!: failure_enters\<close>)
  next
    case (ChildError msg r)
    with w failure_enters [OF w(2,1,3) assms(4)] show ?thesis by (simp add: wrapper_on_def)
  next
    case (ChildClose code sig f1 f2 m x)
    with w close_clean(1) [OF assms(1,3,5)] show ?thesis by (simp add: wrapper_on_def)
  next
    case SigTerm
    with w show ?thesis by (simp add: wrapper_on_def process_exit_def ended_state_def)
  next
    case Millisecond
    with assms(2) show ?thesis by simp
  qed
qed

lemma ended_on: "ended_state host cfg es w \<Longrightarrow> ended_state host cfg (es @ [e]) (wrapper_on host cfg e w)"
proof -
  assume ended: "ended_state host cfg es w"
  then have "wrapper_on host cfg e w = w" by (simp add: ended_state_def wrapper_on_def)
  with ended show ?thesis by (auto simp: ended_state_def) blast
qed

lemma clean_run:
  "cap_ok cfg \<Longrightarrow> list_all clean_event es \<Longrightarrow> clean_state cfg es (wrapper_run host cfg es (new_wrapper cfg now))"
  by (induction es rule: rev_induct) (simp_all add: clean_start clean_on)

text \<open>Every run is still clean, has failed, or has ended.\<close>

lemma run_cases:
  assumes "cap_ok cfg" and "1 \<le> cw_sigkillGraceMs cfg"
  defines "w \<equiv> \<lambda>host es now. wrapper_run host cfg es (new_wrapper cfg now)"
  shows "(list_all clean_event es \<and> clean_state cfg es (w host es now)) \<or> failed_state cfg (w host es now) \<or>
    ended_state host cfg es (w host es now)"
proof (induction es rule: rev_induct)
  case Nil
  then show ?case using clean_start [OF assms(1)] by (simp add: w_def)
next
  case (snoc e es)
  have step: "w host (es @ [e]) now = wrapper_on host cfg e (w host es now)" by (simp add: w_def)
  from snoc consider "list_all clean_event es" "clean_state cfg es (w host es now)"
    | "failed_state cfg (w host es now)" | "ended_state host cfg es (w host es now)" by blast
  then show ?case
  proof cases
    case 1
    show ?thesis
    proof (cases "clean_event e")
      case True
      with 1 clean_on [OF 1(2) assms(1) True] show ?thesis by (simp add: step)
    next
      case False
      from clean_data_metadata [OF 1(2) False assms(1,2) 1(1)] show ?thesis by (simp add: step)
    qed
  next
    case 2
    then show ?thesis by (simp add: step failed_on)
  next
    case 3
    then show ?thesis by (simp add: step ended_on)
  qed
qed

section \<open>Reading the exit code\<close>

lemma digits_fold_pos:
  "list_all is_digit cs \<Longrightarrow> 0 < a \<Longrightarrow> 0 < foldl (\<lambda>a c. 10 * a + (of_char c - 48)) (a :: int) cs"
proof (induction cs arbitrary: a)
  case (Cons c cs)
  have "48 \<le> (of_char c :: int)" using Cons.prems(1) by (simp add: is_digit_def) (metis of_nat_le_iff of_nat_numeral of_nat_of_char)
  with Cons show ?case by simp
qed simp

lemma prefix_of_number_pos:
  assumes "0 < n" and "take k (dec_nat n) \<noteq> []"
  shows "0 < digits_value (take k (dec_nat n))"
proof (cases "n < 10")
  case True
  with assms(2) have "take k (dec_nat n) = dec_nat n" by (cases k) (simp_all add: dec_nat_small)
  with assms(1) show ?thesis by (simp add: digits_value_dec_nat)
next
  case False
  obtain c cs where c: "dec_nat n = c # cs" "is_digit c" by (rule dec_nat_head)
  have "c \<noteq> CHR ''0''" using dec_nat_no_zero [of n] False c by simp
  then have "(of_char c :: nat) \<noteq> of_char (CHR ''0'')" by (simp only: of_char_eq_iff not_False_eq_True)
  then have "(of_char c :: nat) \<noteq> 48" by simp
  with c(2) have "48 < (of_char c :: nat)" by (simp add: is_digit_def)
  then have "0 < (of_char c :: int) - 48" by (metis diff_gt_0_iff_gt of_nat_less_iff of_nat_numeral of_nat_of_char)
  moreover have "list_all is_digit (take j cs)" for j
    using all_digits_dec_nat [of n] c by (auto simp: list_all_iff dest: in_set_takeD)
  ultimately have "0 < foldl (\<lambda>a c. 10 * a + (of_char c - 48)) ((of_char c :: int) - 48) (take j cs)" for j
    by (intro digits_fold_pos)
  with assms(2) c show ?thesis by (cases k) (simp_all add: digits_value_def)
qed

lemma trim_exit_text: "trim (take n (exit_text c)) = take n (dec_int c)"
proof (cases "n \<le> length (dec_int c)")
  case True
  have "list_all (\<lambda>c. \<not> is_ws c) (take n (dec_int c))"
    using dec_no_ws [of c] by (auto simp: list_all_iff dest: in_set_takeD)
  with True show ?thesis by (simp add: exit_text_def trim_no_ws)
next
  case False
  then show ?thesis using trim_line_end [OF dec_no_ws, of c] by (simp add: exit_text_def)
qed

lemma exit_text_read [simp]: "parse_int (trim (exit_text c)) = Some c"
  using trim_exit_text [of "length (exit_text c)" c] by (simp add: exit_text_def)

lemma no_digits [simp]: "parse_int [] = None" "parse_int ''-'' = None"
  by code_simp+

lemma prefix_reads_zero:
  assumes "parse_int (trim (take n (exit_text c))) = Some 0"
  shows "c = 0"
proof (rule ccontr)
  assume "c \<noteq> 0"
  have digits: "list_all is_digit (take k (dec_nat m))" for k m
    using all_digits_dec_nat [of m] by (auto simp: list_all_iff dest: in_set_takeD)
  from assms have read: "parse_int (take n (dec_int c)) = Some 0" by (simp only: trim_exit_text)
  show False
  proof (cases "c < 0")
    case False
    with \<open>c \<noteq> 0\<close> have "0 < nat c" and d: "dec_int c = dec_nat (nat c)" by (simp_all add: dec_int_def)
    show False
    proof (cases "take n (dec_nat (nat c)) = []")
      case True
      with read d show False by (simp only: no_digits(1)) simp
    next
      case False
      from parse_int_digits(1) [OF digits False] prefix_of_number_pos [OF \<open>0 < nat c\<close> False] read d
      show False by simp
    qed
  next
    case True
    then have "0 < nat (- c)" and d: "dec_int c = CHR ''-'' # dec_nat (nat (- c))" by (simp_all add: dec_int_def)
    show False
    proof (cases n)
      case 0
      with read show False by (simp only: take0 no_digits(1)) simp
    next
      case (Suc k)
      show False
      proof (cases "take k (dec_nat (nat (- c))) = []")
        case True
        with read d Suc show False by (simp only: take_Suc_Cons no_digits(2)) simp
      next
        case False
        from parse_int_digits(2) [OF digits False] prefix_of_number_pos [OF \<open>0 < nat (- c)\<close> False] read d Suc
        show False by simp
      qed
    qed
  qed
qed

section \<open>What the bridge collects\<close>

definition session_files :: "bridge_env \<Rightarrow> string \<Rightarrow> wrapper_state \<Rightarrow> fs \<Rightarrow> bool" where
  \<comment> \<open>the files of the session on the disk are those of the wrapper\<close>
  "session_files env i w fs \<longleftrightarrow>
     file_content (session_path env i STDOUT_FILE) fs = Some (RawText (sc_file (ww_stdout w))) \<and>
     file_content (session_path env i STDERR_FILE) fs = Some (RawText (sc_file (ww_stderr w))) \<and>
     file_content (session_path env i STDOUT_TAIL_FILE) fs = map_option RawText (sc_tailFile (ww_stdout w)) \<and>
     file_content (session_path env i STDERR_TAIL_FILE) fs = map_option RawText (sc_tailFile (ww_stderr w)) \<and>
     file_content (session_path env i METADATA_FILE) fs = ww_metadata w \<and>
     file_content (session_path env i EXIT_CODE_FILE) fs = ww_exitCode w"

lemma exit_code_of_files:
  "session_files env i w fs \<Longrightarrow> readExitCode env i fs =
     (case ww_exitCode w of None \<Rightarrow> None | Some t \<Rightarrow> parse_int (trim (content_text env t)))"
  by (simp add: session_files_def readExitCode_def read_text_def split: option.split)

lemma metadata_reported:
  assumes "file_content (session_path env i METADATA_FILE) fs = Some (JsonText (wrapper_metadata (Some c) v))"
    and "ww_captureFailure v = None"
  shows "\<not> capture_failed env i c fs"
proof
  assume "capture_failed env i c fs"
  then obtain m where m: "readCaptureMetadata env i fs = Some m"
    and bad: "truthy_str (cm_captureFailure m) \<or> (cm_exitCode m \<noteq> None \<and> cm_exitCode m \<noteq> Some c)"
    by (auto simp: capture_failed_def)
  then have "m = capture_metadata_of (wrapper_metadata (Some c) v)"
    using assms(1) by (simp add: readCaptureMetadata_def split: if_splits)
  then have "cm_captureFailure m = None" "cm_exitCode m = Some c"
    using assms(2) by (simp_all add: capture_metadata_of_def wrapper_metadata_def)
  with bad show False by (simp add: truthy_str_def)
qed

lemma finalized_output:
  assumes "file_content (session_path env i METADATA_FILE) fs = Some (JsonText (wrapper_metadata c v))"
    and "sc_finalized (ww_stdout v)" "sc_finalized (ww_stderr v)"
  shows "readCaptureOutput env p q (map_option cm_stdout (readCaptureMetadata env i fs)) fs = readCapturedFile env p fs"
    "readCaptureOutput env p q (map_option cm_stderr (readCaptureMetadata env i fs)) fs = readCapturedFile env p fs"
proof -
  have "readCaptureMetadata env i fs = None \<or>
      (\<exists>m. readCaptureMetadata env i fs = Some m \<and> sm_finalized (cm_stdout m) \<and> sm_finalized (cm_stderr m))"
    using assms by (simp add: readCaptureMetadata_def capture_metadata_of_def wrapper_metadata_def
        stream_metadata_of_def stream_json_def metadata_def)
  then show "readCaptureOutput env p q (map_option cm_stdout (readCaptureMetadata env i fs)) fs = readCapturedFile env p fs"
    "readCaptureOutput env p q (map_option cm_stderr (readCaptureMetadata env i fs)) fs = readCapturedFile env p fs"
    by (auto simp: readCaptureOutput_def Let_def)
qed

lemma whole_output:
  assumes "file_content p fs = Some (RawText t)" and "0 < bc_maxOutputChars (be_cfg env)"
    and "js_length t \<le> bc_maxOutputChars (be_cfg env)"
  shows "cf_text (readCapturedFile env p fs) = decodeCapturedBuffer (be_codec env) t"
  using assms by (simp add: readCapturedFile_def read_text_def content_text_def Let_def)

lemma collect_reads_exit:
  assumes "j_session job = Some ses" and "readExitCode env (j_id job) (the_fs s) = Some c"
    and "tmux_collect env job s = (Inr out, s')"
  shows "\<exists>res ses'. out = Some (res, ses') \<and> er_exitCode res = Some c \<and>
    (er_status res = Succeeded \<longleftrightarrow> c = 0 \<and> \<not> capture_failed env (j_id job) c (the_fs s)) \<and>
    er_stdout res = cf_text (stdout_of env job s) \<and> er_stderr res = cf_text (stderr_of env job s)"
proof -
  from assms have "op_bind (collect_exited env job ses c) (\<lambda>r. op_return (Some r)) s = (Inr out, s')"
    by (simp add: tmux_collect_def)
  then obtain res ses' where out: "out = Some (res, ses')"
    and run: "collect_exited env job ses c s = (Inr (res, ses'), s')"
    by (auto simp: op_bind_Inr_iff op_return_def)
  moreover have "er_stdout res = cf_text (stdout_of env job s)" "er_stderr res = cf_text (stderr_of env job s)"
    using run by (auto simp: collect_exited_def Let_def op_bind_Inr_iff op_return_def)
  moreover note collect_exited_result [OF run]
  ultimately show ?thesis
    by (cases "c = 0 \<and> \<not> capture_failed env (j_id job) c (the_fs s)") auto
qed

text \<open>
  C37. What a session reports. When no write of the wrapper fails, then however the two streams are
  chunked and interleaved before the command ends, the bridge collects exactly how it ended: the
  exit code (128 plus the number of the signal that killed it), success if and only if that is 0,
  and the text of both streams, each cut in the middle when it is longer than the cap.
\<close>

theorem session_result_collected:
  assumes cfg: "int (length live_marker) < cw_cap cfg" and clean: "list_all clean_event es"
    and w: "w = wrapper_run host cfg (es @ [ChildClose code sig CaptureDone CaptureDone Stored Stored]) (new_wrapper cfg now)"
    and disk: "session_files env (j_id job) w (the_fs s)"
    and job: "j_session job = Some ses" and run: "tmux_collect env job s = (Inr out, s')"
  shows "ww_end w = Some (Exited (reported_exit host code sig)) \<and>
    (\<exists>res ses'. out = Some (res, ses') \<and> er_exitCode res = Some (reported_exit host code sig) \<and>
      (er_status res = Succeeded \<longleftrightarrow> reported_exit host code sig = 0) \<and>
      (let limit = bc_maxOutputChars (be_cfg env);
           output = (\<lambda>st. file_spec (nat (cw_cap cfg)) (seen st es));
           decoded = decodeCapturedBuffer (be_codec env) in
       0 < limit \<longrightarrow>
         (js_length (output ChildStdout) \<le> limit \<longrightarrow> er_stdout res = decoded (output ChildStdout)) \<and>
         (js_length (output ChildStderr) \<le> limit \<longrightarrow> er_stderr res = decoded (output ChildStderr))))"
proof -
  let ?c = "reported_exit host code sig" and ?fs = "the_fs s" and ?i = "j_id job"
  let ?w = "wrapper_run host cfg es (new_wrapper cfg now)"
  have ok: "cap_ok cfg" using cfg by (simp add: cap_ok_def)
  have state: "clean_state cfg es ?w" by (rule clean_run [OF ok clean])
  have w': "w = on_child_close host cfg code sig CaptureDone CaptureDone Stored Stored ?w"
    using state w by (simp add: wrapper_on_def clean_state_def)
  obtain v where ended: "ww_end w = Some (Exited ?c)" and exit: "ww_exitCode w = Some (RawText (exit_text ?c))"
    and logs: "logs_complete cfg es w" and meta: "ww_metadata w = Some (JsonText (wrapper_metadata (Some ?c) v))"
    and v: "ww_captureFailure v = None" "sc_finalized (ww_stdout v)" "sc_finalized (ww_stderr v)"
    using close_clean(2) [OF state ok clean, of CaptureDone CaptureDone Stored Stored host code sig]
    unfolding w' by blast
  have code: "readExitCode env ?i ?fs = Some ?c"
    using exit_code_of_files [OF disk] by (simp add: exit content_text_def)
  have files: "file_content (session_path env ?i METADATA_FILE) ?fs = Some (JsonText (wrapper_metadata (Some ?c) v))"
    "file_content (session_path env ?i STDOUT_FILE) ?fs = Some (RawText (file_spec (nat (cw_cap cfg)) (seen ChildStdout es)))"
    "file_content (session_path env ?i STDERR_FILE) ?fs = Some (RawText (file_spec (nat (cw_cap cfg)) (seen ChildStderr es)))"
    using disk meta logs by (simp_all add: session_files_def logs_complete_def wrapper_cap_def)
  from collect_reads_exit [OF job code run] metadata_reported [OF files(1) v(1)]
  obtain res ses' where res: "out = Some (res, ses')" "er_exitCode res = Some ?c" "er_status res = Succeeded \<longleftrightarrow> ?c = 0"
    and texts: "er_stdout res = cf_text (stdout_of env job s)" "er_stderr res = cf_text (stderr_of env job s)" by auto
  have "stdout_of env job s = readCapturedFile env (session_path env ?i STDOUT_FILE) ?fs"
    "stderr_of env job s = readCapturedFile env (session_path env ?i STDERR_FILE) ?fs"
    by (simp_all add: stdout_of_def stderr_of_def finalized_output [OF files(1) v(2,3)])
  with ended res texts whole_output [OF files(2)] whole_output [OF files(3)] show ?thesis by (simp add: Let_def)
qed

definition sample_wrapper :: wrapper_config where
  "sample_wrapper = \<lparr>cw_cap = 40, cw_sigkillGraceMs = 5, cw_stdout = ''o'', cw_stderr = ''e'',
     cw_stdoutTail = ''ot'', cw_stderrTail = ''et'', cw_metadata = ''m'', cw_exitCode = ''x'',
     cw_command = ''omx'', cw_commandArgs = []\<rparr>"

definition sample_host :: wrapper_host where
  "sample_host = \<lparr>wh_leader = True, wh_signals = (\<lambda>_. None)\<rparr>"

definition sample_output :: "wrapper_event list" where
  "sample_output = [ChildData ChildStdout ''hel'' CaptureDone Stored Stored,
     ChildData ChildStderr ''w'' CaptureDone Stored Stored, Millisecond,
     ChildData ChildStdout ''lo'' CaptureDone Stored Stored]"

definition sample_ended :: wrapper_state where
  "sample_ended = wrapper_run sample_host sample_wrapper
     (sample_output @ [ChildClose (Some 0) None CaptureDone CaptureDone Stored Stored]) (new_wrapper sample_wrapper 0)"

definition wrapper_disk :: "wrapper_state \<Rightarrow> fs" where
  "wrapper_disk w =
     [([''s''], own_dir), ([''s'', ''jobs''], own_dir), ([''s'', ''tmux''], own_dir),
      (sessionDirectory sample_bridge uuid1, own_dir),
      session_file uuid1 SESSION_FILE (JsonText (tmux_session_json (sample_session uuid1))),
      session_file uuid1 STDOUT_FILE (RawText (sc_file (ww_stdout w))),
      session_file uuid1 STDERR_FILE (RawText (sc_file (ww_stderr w))),
      session_file uuid1 METADATA_FILE (the (ww_metadata w)),
      session_file uuid1 EXIT_CODE_FILE (the (ww_exitCode w))]"

definition wrapper_disk_state :: bridge_state where
  "wrapper_disk_state = sample_bridge_state
     \<lparr>bs_repo := bs_repo sample_bridge_state\<lparr>rs_fs := wrapper_disk sample_ended\<rparr>\<rparr>"

lemma sample_wrapper_ok: "int (length live_marker) < cw_cap sample_wrapper" "0 < cw_sigkillGraceMs sample_wrapper"
  by code_simp+

lemma sample_session_files: "session_files sample_bridge uuid1 sample_ended (the_fs wrapper_disk_state)"
  by code_simp

lemma sample_session_collected:
  "case tmux_collect sample_bridge (sample_tmux_job uuid1 Running) wrapper_disk_state of
     (Inl _, _) \<Rightarrow> False | (Inr _, _) \<Rightarrow> True"
  by code_simp

theorem session_result_collected_witness:
  "\<exists>res ses' s'. tmux_collect sample_bridge (sample_tmux_job uuid1 Running) wrapper_disk_state =
      (Inr (Some (res, ses')), s') \<and> er_exitCode res = Some 0 \<and> er_status res = Succeeded \<and> er_stdout res = ''hello''"
proof -
  obtain out s' where run: "tmux_collect sample_bridge (sample_tmux_job uuid1 Running) wrapper_disk_state = (Inr out, s')"
    using sample_session_collected by (auto split: prod.splits sum.splits)
  have "list_all clean_event sample_output" by code_simp
  moreover have "j_id (sample_tmux_job uuid1 Running) = uuid1" by code_simp
  with sample_session_files have
    "session_files sample_bridge (j_id (sample_tmux_job uuid1 Running)) sample_ended (the_fs wrapper_disk_state)" by simp
  moreover have "j_session (sample_tmux_job uuid1 Running) = Some (sample_session uuid1)"
    by (simp add: sample_tmux_job_def)
  moreover have "reported_exit sample_host (Some 0) None = 0" by code_simp
  moreover have "0 < bc_maxOutputChars (be_cfg sample_bridge)" by code_simp
  moreover have "js_length (file_spec 40 (seen ChildStdout sample_output)) \<le> bc_maxOutputChars (be_cfg sample_bridge)"
    by code_simp
  moreover have "decodeCapturedBuffer (be_codec sample_bridge) (file_spec 40 (seen ChildStdout sample_output)) = ''hello''"
    by code_simp
  moreover note session_result_collected [OF sample_wrapper_ok(1) _ sample_ended_def _ _ run]
  ultimately show ?thesis using run by (simp add: sample_wrapper_def Let_def) blast
qed

text \<open>
  C38. No false success. Whatever write fails and in whatever order the events come, an exit code 0 is
  read for a session only if its command ended with 0 after a run in which every piece of its output
  was captured, and then both log files hold all of it, as far as the cap allows.
\<close>

theorem success_is_genuine:
  assumes "int (length live_marker) < cw_cap cfg" and "0 < cw_sigkillGraceMs cfg"
    and "session_files env i (wrapper_run host cfg es (new_wrapper cfg now)) fs"
    and "readExitCode env i fs = Some 0"
  shows "\<exists>es1 sig x es2. es = es1 @ ChildClose (Some 0) sig CaptureDone CaptureDone Stored x # es2 \<and>
    list_all clean_event es1 \<and>
    file_content (session_path env i STDOUT_FILE) fs = Some (RawText (file_spec (nat (cw_cap cfg)) (seen ChildStdout es1))) \<and>
    file_content (session_path env i STDERR_FILE) fs = Some (RawText (file_spec (nat (cw_cap cfg)) (seen ChildStderr es1)))"
proof -
  let ?w = "wrapper_run host cfg es (new_wrapper cfg now)"
  have cfg: "cap_ok cfg" "1 \<le> cw_sigkillGraceMs cfg" using assms(1,2) by (simp_all add: cap_ok_def)
  obtain t where t: "ww_exitCode ?w = Some t" and zero: "parse_int (trim (content_text env t)) = Some 0"
    using assms(4) exit_code_of_files [OF assms(3)] by (auto split: option.splits)
  from run_cases [OF cfg, of es host now] consider "clean_state cfg es ?w" | "failed_state cfg ?w"
    | "ended_state host cfg es ?w" by blast
  then show ?thesis
  proof cases
    case 1
    with t show ?thesis by (simp add: clean_state_def)
  next
    case 2
    with t obtain n where "t = RawText (take n (exit_text 1))" by (auto simp: failed_state_def)
    with zero prefix_reads_zero [of n 1] show ?thesis by (simp add: content_text_def)
  next
    case 3
    with t obtain es1 code sig x es2 n where
      split: "es = es1 @ ChildClose code sig CaptureDone CaptureDone Stored x # es2"
      and es1: "list_all clean_event es1" "logs_complete cfg es1 ?w"
      and "t = RawText (take n (exit_text (reported_exit host code sig)))" by (auto simp: ended_state_def)
    with zero have "reported_exit host code sig = 0" by (simp add: content_text_def prefix_reads_zero)
    then have "code = Some 0" by (rule reported_zero)
    with split es1 assms(3) show ?thesis by (auto simp: session_files_def logs_complete_def wrapper_cap_def)
  qed
qed

theorem success_is_genuine_witness:
  "\<exists>es1 sig x es2. sample_output @ [ChildClose (Some 0) None CaptureDone CaptureDone Stored Stored] =
     es1 @ ChildClose (Some 0) sig CaptureDone CaptureDone Stored x # es2 \<and> list_all clean_event es1 \<and>
     file_content (session_path sample_bridge uuid1 STDOUT_FILE) (the_fs wrapper_disk_state) =
       Some (RawText (file_spec 40 (seen ChildStdout es1)))"
proof -
  have "readExitCode sample_bridge uuid1 (the_fs wrapper_disk_state) = Some 0" by code_simp
  from success_is_genuine [OF sample_wrapper_ok sample_session_files [unfolded sample_ended_def] this] show ?thesis
    by (simp add: sample_wrapper_def) blast
qed

section \<open>A failed capture ends\<close>

fun ticks :: "wrapper_event list \<Rightarrow> nat" where
  "ticks [] = 0"
| "ticks (Millisecond # es) = Suc (ticks es)"
| "ticks (e # es) = ticks es"

lemma failed_pending:
  assumes "failed_state cfg w" and "ww_end w = None" and "ww_exitTimer w = Some t"
  shows "ww_end (wrapper_run host cfg es w) \<noteq> None \<or> int (ticks es) = 0 \<or> ww_now w + int (ticks es) < t"
  using assms
proof (induction es arbitrary: w)
  case (Cons e es)
  let ?v = "wrapper_on host cfg e w"
  have tr: "truthy_str (ww_captureFailure w)" "ww_terminating w" using Cons.prems(1) by (simp_all add: failed_state_def)
  have failed: "failed_state cfg ?v" using Cons.prems(1) by (rule failed_on)
  show ?case
  proof (cases "ww_end ?v = None")
    case False
    then show ?thesis by (simp add: ended_stays)
  next
    case True
    have v: "ww_exitTimer ?v = Some t \<and> ww_now ?v = ww_now w + (if e = Millisecond then 1 else 0) \<and>
        (e = Millisecond \<longrightarrow> ww_now w + 1 < t)"
    proof (cases e)
      case (ChildData st chunk a m r)
      have "ww_exitTimer (on_child_data host cfg st chunk a m r w) = ww_exitTimer w \<and>
          ww_now (on_child_data host cfg st chunk a m r w) = ww_now w"
        by (rule data_result [of host cfg st chunk a m r w]) (simp_all add: failed_terminate tr)
      with ChildData Cons.prems show ?thesis by (simp add: wrapper_on_def)
    next
      case (ChildClose code sig f1 f2 m x)
      have "ww_end (on_child_close host cfg code sig f1 f2 m x w) \<noteq> None"
        by (simp add: on_child_close_def process_exit_def Let_def split: prod.split)
      with ChildClose True Cons.prems(2) show ?thesis by (simp add: wrapper_on_def)
    next
      case Millisecond
      with True Cons.prems show ?thesis
        by (auto simp: wrapper_on_def on_exit_timer_def on_kill_timer_def signalCaptureProcessTree_def Let_def
            process_exit_def split: option.splits if_splits)
    qed (use tr Cons.prems in \<open>simp_all add: wrapper_on_def failed_terminate\<close>)
    from Cons.IH [OF failed True] v show ?thesis by (cases e) auto
  qed
qed simp

text \<open>
  C39. A failed capture ends. Once a write for the output or the metadata has failed, or the command
  cannot be run, the wrapper ends, after the grace period and a tenth of a second at the latest,
  whatever its child does meanwhile; it ends with status 1 or with its process group, and SIGTERM,
  which it sends to its own group, does not end it before.
\<close>

theorem capture_failure_ends:
  assumes "int (length live_marker) < cw_cap cfg" and "0 < cw_sigkillGraceMs cfg"
    and "ww_captureFailure (wrapper_run host cfg es (new_wrapper cfg now)) \<noteq> None"
    and "cw_sigkillGraceMs cfg + 100 \<le> int (ticks fs)"
  shows "ww_end (wrapper_run host cfg (es @ fs) (new_wrapper cfg now)) \<in> {Some (Exited 1), Some KilledByGroup}"
proof -
  let ?w = "wrapper_run host cfg es (new_wrapper cfg now)"
  have cfg: "cap_ok cfg" "1 \<le> cw_sigkillGraceMs cfg" using assms(1,2) by (simp_all add: cap_ok_def)
  have failed: "failed_state cfg ?w"
    using run_cases [OF cfg, of es host now] assms(3) by (auto simp: clean_state_def ended_state_def)
  have end': "failed_state cfg (wrapper_run host cfg fs v)" if "failed_state cfg v" for v
    using that by (induction fs arbitrary: v) (simp_all add: failed_on)
  have "ww_end (wrapper_run host cfg fs ?w) \<noteq> None"
  proof (cases "ww_end ?w")
    case None
    then obtain t where "ww_exitTimer ?w = Some t" "t \<le> ww_now ?w + cw_sigkillGraceMs cfg + 100"
      using failed by (auto simp: failed_state_def)
    with failed_pending [OF failed None this(1), of host fs] assms(2,4) show ?thesis by auto
  next
    case (Some e)
    then show ?thesis by (simp add: ended_stays)
  qed
  with end' [OF failed] show ?thesis by (auto simp: failed_state_def split: option.splits)
qed

theorem capture_failure_ends_witness:
  "ww_end (wrapper_run sample_host sample_wrapper
      ([ChildError ''spawn omx ENOENT'' (StoreFails ''ENOSPC'' (Some 7))] @ replicate 105 Millisecond)
      (new_wrapper sample_wrapper 0)) \<in> {Some (Exited 1), Some KilledByGroup}"
proof (rule capture_failure_ends [OF sample_wrapper_ok])
  show "ww_captureFailure (wrapper_run sample_host sample_wrapper
      [ChildError ''spawn omx ENOENT'' (StoreFails ''ENOSPC'' (Some 7))] (new_wrapper sample_wrapper 0)) \<noteq> None"
    by code_simp
  show "cw_sigkillGraceMs sample_wrapper + 100 \<le> int (ticks (replicate 105 Millisecond))" by code_simp
qed

text \<open>
  A grace period that \<open>setTimeout\<close> cannot represent, which the configuration accepts, is over after a
  millisecond.
\<close>

lemma long_grace_is_lost:
  "ww_end (wrapper_run sample_host (sample_wrapper\<lparr>cw_sigkillGraceMs := 2147483648\<rparr>)
      [ChildError ''spawn omx ENOENT'' Stored, Millisecond] (new_wrapper sample_wrapper 0)) = Some KilledByGroup"
  by code_simp

end
