(* ===== verification/StoreDirectory.thy ===== *)
theory StoreDirectory
  imports PrivateFs NotificationStore
begin

text \<open>
  \<open>ensureDirectory\<close> of \<open>omx-dispatch/notification-store.ts\<close>, which runs before the lock of the
  notification store is taken: the directory of the store is created if it is missing, and neither
  it nor the store and its lock file may be symbolic links. The file system is that of \<open>PrivateFs\<close>.
\<close>

definition assertNotSymlink :: "path \<Rightarrow> fs \<Rightarrow> private_error + unit" where
  "assertNotSymlink p fs =
     (case lstatIfExists p fs of
        Some n \<Rightarrow> (if isSymbolicLink n then Inl (MustNotBeLink p) else Inr ())
      | None \<Rightarrow> Inr ())"

definition create_store_directory :: "process_env \<Rightarrow> path \<Rightarrow> (fs, private_error, unit) op" where
  \<comment> \<open>\<open>mkdir\<close> and \<open>chmod\<close> of a directory that was missing\<close>
  "create_store_directory env d =
     op_bind (mkdir_recursive env PRIVATE_DIRECTORY_MODE d) (\<lambda>_ fs. (Inr (), chmod d PRIVATE_DIRECTORY_MODE fs))"

definition store_ensureDirectory :: "process_env \<Rightarrow> path \<Rightarrow> string \<Rightarrow> (fs, private_error, unit) op" where
  \<comment> \<open>the directory of \<open>storePath\<close> and the name of the store in it\<close>
  "store_ensureDirectory env d name = (\<lambda>fs.
     if pe_win32 env then mkdir_recursive env default_directory_mode d fs
     else
       (case assertNoSymlinkComponents d fs of
          Inl e \<Rightarrow> (Inl e, fs)
        | Inr _ \<Rightarrow>
            (let existing = lstatIfExists d fs;
                 prepare =
                   (case existing of
                      Some n \<Rightarrow>
                        (if isSymbolicLink n then (Inl (MustNotBeLink d), fs)
                         else if \<not> isDirectory n then (Inl (NotADirectory d), fs)
                         else (Inr (), fs))
                    | None \<Rightarrow> create_store_directory env d fs)
             in case prepare of
                  (Inl e, fs') \<Rightarrow> (Inl e, fs')
                | (Inr _, fs') \<Rightarrow>
                    (case assertNotSymlink (d @ [name]) fs' of
                       Inl e \<Rightarrow> (Inl e, fs')
                     | Inr _ \<Rightarrow>
                         (case assertNotSymlink (d @ [name @ ''.lock'']) fs' of
                            Inl e \<Rightarrow> (Inl e, fs')
                          | Inr _ \<Rightarrow> (Inr (), fs'))))))"

section \<open>What it guarantees\<close>

definition real_directory :: "path \<Rightarrow> fs \<Rightarrow> bool" where
  "real_directory p fs \<longleftrightarrow> (case map_of fs p of Some n \<Rightarrow> isDirectory n | None \<Rightarrow> False)"

definition not_link :: "path \<Rightarrow> fs \<Rightarrow> bool" where
  "not_link p fs \<longleftrightarrow> (\<forall>n. map_of fs p = Some n \<longrightarrow> \<not> isSymbolicLink n)"

lemma directory_not_link: "isDirectory n \<Longrightarrow> \<not> isSymbolicLink n"
  by (simp add: isDirectory_def isSymbolicLink_def)

lemma assertNotSymlink_ok: "assertNotSymlink p fs = Inr () \<longleftrightarrow> not_link p fs"
  by (simp add: assertNotSymlink_def not_link_def lstatIfExists_def split: option.split)

lemma last_prefix: "d \<noteq> [] \<Longrightarrow> base @ d \<in> set (prefixes_from base d)"
proof (induction base d rule: prefixes_from.induct)
  case (2 base c cs)
  then show ?case by (cases cs) simp_all
qed simp

lemma mkdir_missing_new:
  "map_of fs p = None \<Longrightarrow> p \<in> set ps \<Longrightarrow>
   map_of (mkdir_missing env m ps fs) p = Some \<lparr>n_kind = DirNode, n_uid = uid_of env, n_mode = m\<rparr>"
proof (induction ps arbitrary: fs)
  case (Cons q ps)
  let ?fs = "if map_of fs q = None then fs_put q \<lparr>n_kind = DirNode, n_uid = uid_of env, n_mode = m\<rparr> fs else fs"
  show ?case
  proof (cases "p = q")
    case True
    with Cons.prems have "map_of ?fs p = Some \<lparr>n_kind = DirNode, n_uid = uid_of env, n_mode = m\<rparr>"
      by (simp add: store_simps)
    then show ?thesis using map_of_mkdir [of ?fs p env m ps] by simp
  next
    case False
    with Cons show ?thesis by (auto simp: store_simps)
  qed
qed simp

lemma create_result:
  assumes "create_store_directory env d fs = (Inr (), fs')" and "map_of fs d = None" and "d \<noteq> []"
  shows "map_of fs' d = Some \<lparr>n_kind = DirNode, n_uid = uid_of env, n_mode = PRIVATE_DIRECTORY_MODE\<rparr>"
    "p \<in> set (prefixes_from [] d) \<Longrightarrow> real_directory p fs'"
    "map_of fs p \<noteq> None \<Longrightarrow> map_of fs' p = map_of fs p"
proof -
  let ?ps = "prefixes_from [] d" and ?m = PRIVATE_DIRECTORY_MODE
  let ?made = "mkdir_missing env ?m ?ps fs"
  have dirs: "list_all (\<lambda>p. case map_of fs p of None \<Rightarrow> True | Some n \<Rightarrow> isDirectory n) ?ps"
    and fs': "fs' = chmod d ?m ?made"
    using assms(1) by (auto simp: create_store_directory_def op_bind_def mkdir_recursive_def split: if_splits)
  have "d \<in> set ?ps" using last_prefix [OF assms(3), of "[]"] by simp
  then have d: "map_of ?made d = Some \<lparr>n_kind = DirNode, n_uid = uid_of env, n_mode = ?m\<rparr>"
    by (rule mkdir_missing_new [OF assms(2)])
  have same: "map_of fs' q = map_of ?made q" for q
    using d by (simp add: fs' store_simps)
  with d show "map_of fs' d = Some \<lparr>n_kind = DirNode, n_uid = uid_of env, n_mode = ?m\<rparr>" by simp
  show "map_of fs p \<noteq> None \<Longrightarrow> map_of fs' p = map_of fs p" by (simp add: same map_of_mkdir)
  assume p: "p \<in> set ?ps"
  show "real_directory p fs'"
  proof (cases "map_of fs p")
    case None
    then show ?thesis using mkdir_missing_new [OF None p] by (simp add: real_directory_def same isDirectory_def)
  next
    case (Some n)
    with dirs p have "isDirectory n" by (auto simp: list_all_iff split: option.splits)
    with Some show ?thesis by (simp add: real_directory_def same map_of_mkdir)
  qed
qed

text \<open>
  After it has succeeded the directory is there and is one, no component of its path is a symbolic
  link, the store and its lock file are none either, a directory it has created is private to the
  user, and whatever was on the disk before is unchanged.
\<close>

theorem store_directory_ready:
  assumes run: "store_ensureDirectory env d name fs = (Inr (), fs')" and "\<not> pe_win32 env" and "d \<noteq> []"
    and parents: "map_of fs d \<noteq> None \<Longrightarrow> \<forall>p \<in> set (prefixes_from [] d). map_of fs p \<noteq> None"
  shows "real_directory d fs' \<and> (\<forall>p \<in> set (prefixes_from [] d). not_link p fs') \<and>
    not_link (d @ [name]) fs' \<and> not_link (d @ [name @ ''.lock'']) fs' \<and>
    (map_of fs d = None \<longrightarrow>
       map_of fs' d = Some \<lparr>n_kind = DirNode, n_uid = uid_of env, n_mode = PRIVATE_DIRECTORY_MODE\<rparr>) \<and>
    (\<forall>p. map_of fs p \<noteq> None \<longrightarrow> map_of fs' p = map_of fs p)"
proof -
  have scan: "scan_components (prefixes_from [] d) fs = Inr ()"
    using run assms(2) by (auto simp: store_ensureDirectory_def assertNoSymlinkComponents_def split: sum.splits)
  have files: "not_link (d @ [name]) fs'" "not_link (d @ [name @ ''.lock'']) fs'"
    using run assms(2) assertNotSymlink_ok [of "d @ [name]" fs'] assertNotSymlink_ok [of "d @ [name @ ''.lock'']" fs']
    by (auto simp: store_ensureDirectory_def Let_def split: sum.splits prod.splits)
  show ?thesis
  proof (cases "map_of fs d")
    case None
    then have "create_store_directory env d fs = (Inr (), fs')"
      using run assms(2) by (auto simp: store_ensureDirectory_def Let_def lstatIfExists_def split: sum.splits prod.splits)
    note made = create_result [OF this None assms(3)]
    have "not_link p fs'" if "p \<in> set (prefixes_from [] d)" for p
      using made(2) [OF that] by (auto simp: real_directory_def not_link_def directory_not_link split: option.splits)
    with made files show ?thesis by (auto simp: real_directory_def isDirectory_def)
  next
    case (Some n)
    then have same: "fs' = fs" and "isDirectory n"
      using run assms(2)
      by (auto simp: store_ensureDirectory_def Let_def lstatIfExists_def split: sum.splits prod.splits if_splits)
    have "not_link p fs" if "p \<in> set (prefixes_from [] d)" for p
      using scan_components_ok [OF scan _ that] parents Some by (auto simp: not_link_def)
    with same Some \<open>isDirectory n\<close> files show ?thesis by (auto simp: real_directory_def)
  qed
qed

definition store_process :: process_env where
  "store_process = \<lparr>pe_win32 = False, pe_uid = Some 7\<rparr>"

lemma store_directory_sample:
  "(case store_ensureDirectory store_process [''state'', ''omx''] ''queue'' [] of
     (Inr _, fs) \<Rightarrow> real_directory [''state''] fs \<and> real_directory [''state'', ''omx''] fs
   | (Inl _, _) \<Rightarrow> False) \<and>
   fst (store_ensureDirectory store_process [''link'', ''omx''] ''queue''
     [([''link''], \<lparr>n_kind = LinkNode, n_uid = 7, n_mode = 511\<rparr>)]) = Inl (LinkComponent [''link''])"
  by code_simp

end
