(* ===== verification/PromiseLock.thy ===== *)
theory PromiseLock
  imports Prelude
begin

text \<open>
  The locks inside a process. \<open>withJobLock\<close> of \<open>src/jobs/job-queue.repository.ts\<close>,
  \<open>withPersistLock\<close> of \<open>src/jobs/job-notify.service.ts\<close> and \<open>withCreateLock\<close> of
  \<open>src/jobs/jobs.service.ts\<close> chain promises: a call waits for the promise the lock holds, which it has
  replaced by one of its own, and resolves its own when its operation has ended, in whatever way. The
  first two keep a promise for each job in a map and drop it again; the third keeps one promise only.

  The model is every interleaving of the calls. What runs between two awaits is one step. It is shown
  to implement a queue for each key (\<open>fifo_step\<close>), which is why the other theories take an operation
  under such a lock for one step.
\<close>

section \<open>The promises\<close>

datatype lock_task =
    NotCalled
  | Awaiting string "nat option" nat \<comment> \<open>key, \<open>previous\<close> (\<open>None\<close>: already resolved), \<open>current\<close>\<close>
  | InOperation string nat
  | Returned

record chain_state =
  pl_locks :: "string \<Rightarrow> nat option"
  pl_resolved :: "nat \<Rightarrow> bool"
  pl_next :: nat
  pl_task :: "nat \<Rightarrow> lock_task"

definition chain_start :: chain_state where
  "chain_start = \<lparr>pl_locks = (\<lambda>_. None), pl_resolved = (\<lambda>_. False), pl_next = 0, pl_task = (\<lambda>_. NotCalled)\<rparr>"

definition withJobLock :: "nat \<Rightarrow> string \<Rightarrow> chain_state \<Rightarrow> chain_state" where
  \<comment> \<open>up to \<open>await previous\<close>\<close>
  "withJobLock i key s =
     (let previous = pl_locks s key; current = pl_next s in
      s\<lparr>pl_next := Suc current, pl_locks := (pl_locks s)(key \<mapsto> current),
        pl_task := (pl_task s)(i := Awaiting key previous current)\<rparr>)"

definition previous_resolved :: "nat option \<Rightarrow> chain_state \<Rightarrow> bool" where
  "previous_resolved p s \<longleftrightarrow> (case p of None \<Rightarrow> True | Some n \<Rightarrow> pl_resolved s n)"

definition lock_continue :: "nat \<Rightarrow> chain_state \<Rightarrow> chain_state" where
  \<comment> \<open>the operation begins; a task whose promise is not resolved is not resumed\<close>
  "lock_continue i s =
     (case pl_task s i of
        Awaiting key p c \<Rightarrow>
          (if previous_resolved p s then s\<lparr>pl_task := (pl_task s)(i := InOperation key c)\<rparr> else s)
      | _ \<Rightarrow> s)"

definition lock_finally :: "bool \<Rightarrow> nat \<Rightarrow> chain_state \<Rightarrow> chain_state" where
  \<comment> \<open>the \<open>finally\<close> block; the flag: the entry of the map is dropped (\<open>withCreateLock\<close> has no map)\<close>
  "lock_finally cleanup i s =
     (case pl_task s i of
        InOperation key current \<Rightarrow>
          (let s1 = s\<lparr>pl_resolved := (pl_resolved s)(current := True), pl_task := (pl_task s)(i := Returned)\<rparr>
           in if cleanup \<and> pl_locks s1 key = Some current then s1\<lparr>pl_locks := (pl_locks s1)(key := None)\<rparr> else s1)
      | _ \<Rightarrow> s)"

inductive chain_step :: "bool \<Rightarrow> chain_state \<Rightarrow> chain_state \<Rightarrow> bool" for cleanup :: bool where
  call: "pl_task s i = NotCalled \<Longrightarrow> chain_step cleanup s (withJobLock i key s)"
| continue: "chain_step cleanup s (lock_continue i s)"
| settle: "chain_step cleanup s (lock_finally cleanup i s)"

inductive chain_run :: "bool \<Rightarrow> chain_state \<Rightarrow> bool" for cleanup :: bool where
  start: "chain_run cleanup chain_start"
| step: "chain_run cleanup s \<Longrightarrow> chain_step cleanup s t \<Longrightarrow> chain_run cleanup t"

section \<open>A queue for each key\<close>

record fifo_state =
  ff_queue :: "string \<Rightarrow> nat list"
  ff_inside :: "string \<Rightarrow> bool" \<comment> \<open>the first of the queue runs its operation\<close>

definition fifo_start :: fifo_state where
  "fifo_start = \<lparr>ff_queue = (\<lambda>_. []), ff_inside = (\<lambda>_. False)\<rparr>"

inductive fifo_step :: "fifo_state \<Rightarrow> fifo_state \<Rightarrow> bool" where
  arrive: "(\<forall>k'. i \<notin> set (ff_queue f k')) \<Longrightarrow>
    fifo_step f (f\<lparr>ff_queue := (ff_queue f)(k := ff_queue f k @ [i])\<rparr>)"
| enter: "ff_queue f k = i # r \<Longrightarrow> \<not> ff_inside f k \<Longrightarrow>
    fifo_step f (f\<lparr>ff_inside := (ff_inside f)(k := True)\<rparr>)"
| leave: "ff_queue f k = i # r \<Longrightarrow> ff_inside f k \<Longrightarrow>
    fifo_step f (f\<lparr>ff_queue := (ff_queue f)(k := r), ff_inside := (ff_inside f)(k := False)\<rparr>)"
| idle: "fifo_step f f"

inductive fifo_run :: "fifo_state \<Rightarrow> bool" where
  start: "fifo_run fifo_start"
| step: "fifo_run f \<Longrightarrow> fifo_step f g \<Longrightarrow> fifo_run g"

section \<open>The relation\<close>

fun waiters :: "chain_state \<Rightarrow> string \<Rightarrow> nat \<Rightarrow> nat list \<Rightarrow> bool" where
  \<comment> \<open>the tasks that wait behind the owner of a promise; the lock holds the promise of the last\<close>
  "waiters s k p [] \<longleftrightarrow> pl_locks s k = Some p"
| "waiters s k p (i # is) \<longleftrightarrow>
     (case pl_task s i of
        Awaiting k' p' c \<Rightarrow> k' = k \<and> p' = Some p \<and> \<not> pl_resolved s c \<and> waiters s k c is
      | _ \<Rightarrow> False)"

fun chained :: "bool \<Rightarrow> chain_state \<Rightarrow> string \<Rightarrow> bool \<Rightarrow> nat list \<Rightarrow> bool" where
  "chained cleanup s k inside [] \<longleftrightarrow> \<not> inside \<and>
     (case pl_locks s k of None \<Rightarrow> True | Some p \<Rightarrow> \<not> cleanup \<and> pl_resolved s p)"
| "chained cleanup s k inside (i # is) \<longleftrightarrow>
     (case pl_task s i of
        Awaiting k' p c \<Rightarrow> k' = k \<and> \<not> inside \<and> previous_resolved p s \<and> \<not> pl_resolved s c \<and> waiters s k c is
      | InOperation k' c \<Rightarrow> k' = k \<and> inside \<and> \<not> pl_resolved s c \<and> waiters s k c is
      | _ \<Rightarrow> False)"

fun own_promise :: "lock_task \<Rightarrow> nat option" where
  "own_promise (Awaiting k p c) = Some c"
| "own_promise (InOperation k c) = Some c"
| "own_promise _ = None"

fun task_key :: "lock_task \<Rightarrow> string option" where
  "task_key (Awaiting k p c) = Some k"
| "task_key (InOperation k c) = Some k"
| "task_key _ = None"

definition promises_ok :: "chain_state \<Rightarrow> bool" where
  "promises_ok s \<longleftrightarrow>
     (\<forall>i c. own_promise (pl_task s i) = Some c \<longrightarrow> c < pl_next s) \<and>
     (\<forall>i j c. own_promise (pl_task s i) = Some c \<and> own_promise (pl_task s j) = Some c \<longrightarrow> i = j) \<and>
     (\<forall>k p. pl_locks s k = Some p \<longrightarrow> p < pl_next s) \<and>
     (\<forall>p. pl_resolved s p \<longrightarrow> p < pl_next s)"

definition lock_view :: "bool \<Rightarrow> chain_state \<Rightarrow> fifo_state \<Rightarrow> bool" where
  "lock_view cleanup s f \<longleftrightarrow>
     promises_ok s \<and>
     (\<forall>k. chained cleanup s k (ff_inside f k) (ff_queue f k) \<and> distinct (ff_queue f k)) \<and>
     (\<forall>i k. task_key (pl_task s i) = Some k \<longleftrightarrow> i \<in> set (ff_queue f k))"

lemma view_start: "lock_view cleanup chain_start fifo_start"
  by (simp add: lock_view_def chain_start_def fifo_start_def promises_ok_def)

lemma waiters_frame:
  assumes "\<forall>j \<in> set is. pl_task t j = pl_task s j" and "pl_locks t k = pl_locks s k"
    and "\<forall>j \<in> set is. \<forall>c. own_promise (pl_task s j) = Some c \<longrightarrow> pl_resolved t c = pl_resolved s c"
  shows "waiters t k p is = waiters s k p is"
  using assms by (induction "is" arbitrary: p) (auto split: lock_task.splits)

lemma chained_frame:
  assumes "chained cleanup s k b is"
    and "\<forall>j \<in> set is. pl_task t j = pl_task s j" and "pl_locks t k = pl_locks s k"
    and "\<forall>j \<in> set is. \<forall>c. own_promise (pl_task s j) = Some c \<longrightarrow> pl_resolved t c = pl_resolved s c"
    and "\<forall>p. pl_resolved s p \<longrightarrow> pl_resolved t p"
  shows "chained cleanup t k b is"
proof (cases "is")
  case Nil
  with assms show ?thesis by (auto split: option.splits)
next
  case (Cons i js)
  have "waiters t k p js = waiters s k p js" for p
    by (rule waiters_frame) (use assms Cons in auto)
  with assms Cons show ?thesis
    by (auto simp: previous_resolved_def split: lock_task.splits option.splits)
qed

lemma waiters_append:
  assumes "waiters s k p is" and "\<forall>j \<in> set is. pl_task t j = pl_task s j"
    and "pl_task t i = Awaiting k (pl_locks s k) c" and "pl_locks t k = Some c" and "\<not> pl_resolved t c"
    and "pl_resolved t = pl_resolved s"
  shows "waiters t k p (is @ [i])"
  using assms by (induction "is" arbitrary: p) (auto split: lock_task.splits)

lemma waiters_blocked:
  "waiters s k p is \<Longrightarrow> \<not> pl_resolved s p \<Longrightarrow> i \<in> set is \<Longrightarrow>
   \<exists>q c. pl_task s i = Awaiting k q c \<and> \<not> previous_resolved q s"
  by (induction "is" arbitrary: p) (auto simp: previous_resolved_def split: lock_task.splits)

lemma waiters_last:
  "waiters s k p is \<Longrightarrow> is \<noteq> [] \<Longrightarrow> \<exists>j \<in> set is. own_promise (pl_task s j) = pl_locks s k"
proof (induction "is" arbitrary: p)
  case (Cons i js)
  then show ?case by (cases js) (auto split: lock_task.splits)
qed simp

lemma chained_keys: "chained cleanup s k b is \<Longrightarrow> i \<in> set is \<Longrightarrow> task_key (pl_task s i) = Some k"
proof -
  have w: "waiters s k p js \<Longrightarrow> i \<in> set js \<Longrightarrow> task_key (pl_task s i) = Some k" for p js
    by (induction js arbitrary: p) (auto split: lock_task.splits)
  show "chained cleanup s k b is \<Longrightarrow> i \<in> set is \<Longrightarrow> task_key (pl_task s i) = Some k"
    by (cases "is") (auto split: lock_task.splits dest: w)
qed

lemma view_queue:
  assumes "lock_view cleanup s f" and "task_key (pl_task s i) = Some k"
  obtains j js where "ff_queue f k = j # js" and "i = j \<or> i \<in> set js" and "j \<notin> set js"
    and "chained cleanup s k (ff_inside f k) (j # js)"
proof -
  have "i \<in> set (ff_queue f k)" "chained cleanup s k (ff_inside f k) (ff_queue f k)" "distinct (ff_queue f k)"
    using assms by (auto simp: lock_view_def)
  then show ?thesis by (cases "ff_queue f k") (auto intro: that)
qed

section \<open>Every step is a step of the queues\<close>

lemma call_step:
  assumes view: "lock_view cleanup s f" and new: "pl_task s i = NotCalled"
  shows "lock_view cleanup (withJobLock i k s) (f\<lparr>ff_queue := (ff_queue f)(k := ff_queue f k @ [i])\<rparr>)"
    and "\<forall>k'. i \<notin> set (ff_queue f k')"
proof -
  let ?t = "withJobLock i k s" and ?c = "pl_next s"
  show absent: "\<forall>k'. i \<notin> set (ff_queue f k')"
    using view new by (metis lock_view_def option.distinct(1) task_key.simps(3))
  have ok: "promises_ok s" and chains: "\<And>k'. chained cleanup s k' (ff_inside f k') (ff_queue f k')"
    using view by (auto simp: lock_view_def)
  have fresh: "\<not> pl_resolved s ?c" using ok by (auto simp: promises_ok_def)
  have t: "pl_task ?t j = (if j = i then Awaiting k (pl_locks s k) ?c else pl_task s j)"
    "pl_locks ?t k' = (if k' = k then Some ?c else pl_locks s k')" "pl_resolved ?t = pl_resolved s" for j k'
    by (simp_all add: withJobLock_def Let_def)
  have "promises_ok ?t"
    using ok new unfolding promises_ok_def t by (auto simp: withJobLock_def Let_def less_Suc_eq)
  moreover have "chained cleanup ?t k' (ff_inside f k') (ff_queue f k')" if "k' \<noteq> k" for k'
    by (rule chained_frame [OF chains [of k']]) (use that absent in \<open>auto simp: t\<close>)
  moreover have "chained cleanup ?t k (ff_inside f k) (ff_queue f k @ [i])"
  proof (cases "ff_queue f k")
    case Nil
    with chains [of k] fresh show ?thesis by (auto simp: t previous_resolved_def split: option.splits)
  next
    case (Cons j js)
    have ne: "j \<noteq> i" "i \<notin> set js" using absent Cons by (metis list.set_intros)+
    have "waiters s k p js \<Longrightarrow> waiters ?t k p (js @ [i])" for p
      by (rule waiters_append) (use ne fresh in \<open>auto simp: t\<close>)
    with chains [of k] Cons ne show ?thesis
      by (auto simp: t previous_resolved_def split: lock_task.splits option.splits)
  qed
  ultimately show "lock_view cleanup ?t (f\<lparr>ff_queue := (ff_queue f)(k := ff_queue f k @ [i])\<rparr>)"
    using view absent new by (auto simp: lock_view_def t)
qed

lemma continue_step:
  assumes view: "lock_view cleanup s f"
  shows "\<exists>g. fifo_step f g \<and> lock_view cleanup (lock_continue i s) g"
proof (cases "\<exists>k p c. pl_task s i = Awaiting k p c \<and> previous_resolved p s")
  case False
  then have "lock_continue i s = s" by (auto simp: lock_continue_def split: lock_task.split)
  with view show ?thesis using fifo_step.idle by auto
next
  case True
  then obtain k p c where i: "pl_task s i = Awaiting k p c" and p: "previous_resolved p s" by blast
  let ?t = "lock_continue i s"
  obtain j js where q: "ff_queue f k = j # js" and mem: "i = j \<or> i \<in> set js" and ne: "j \<notin> set js"
    and ch: "chained cleanup s k (ff_inside f k) (j # js)"
    by (rule view_queue [OF view, of i k]) (simp_all add: i)
  have "i \<notin> set js"
  proof
    assume "i \<in> set js"
    moreover obtain q where "waiters s k q js" "\<not> pl_resolved s q" using ch by (auto split: lock_task.splits)
    ultimately show False using waiters_blocked [of s k q js i] i p by auto
  qed
  with mem have [simp]: "j = i" by simp
  have inside: "\<not> ff_inside f k" and w: "\<not> pl_resolved s c" "waiters s k c js" using ch i by auto
  have t: "?t = s\<lparr>pl_task := (pl_task s)(i := InOperation k c)\<rparr>" using i p by (simp add: lock_continue_def)
  let ?g = "f\<lparr>ff_inside := (ff_inside f)(k := True)\<rparr>"
  have "fifo_step f ?g" using q inside by (auto intro: fifo_step.enter)
  moreover have "lock_view cleanup ?t ?g"
    unfolding lock_view_def
  proof (intro conjI allI)
    have "own_promise (pl_task ?t l) = own_promise (pl_task s l)" for l by (simp add: t i)
    moreover have "promises_ok s" using view by (simp add: lock_view_def)
    ultimately show "promises_ok ?t" by (simp only: promises_ok_def) (simp add: t)
    show "distinct (ff_queue ?g k')" for k' using view by (simp add: lock_view_def)
    show "(task_key (pl_task ?t l) = Some k') = (l \<in> set (ff_queue ?g k'))" for l k'
    proof -
      have "task_key (pl_task ?t l) = task_key (pl_task s l)" by (simp add: t i)
      with view show ?thesis by (simp add: lock_view_def)
    qed
    show "chained cleanup ?t k' (ff_inside ?g k') (ff_queue ?g k')" for k'
    proof (cases "k' = k")
      case True
      have "waiters ?t k c js = waiters s k c js"
        by (rule waiters_frame) (use \<open>i \<notin> set js\<close> in \<open>auto simp: t\<close>)
      with True q w show ?thesis by (simp add: t)
    next
      case False
      then have "i \<notin> set (ff_queue f k')" using view i by (metis lock_view_def option.inject task_key.simps(1))
      have "chained cleanup ?t k' (ff_inside f k') (ff_queue f k')"
        by (rule chained_frame [of cleanup s]) (use view \<open>i \<notin> set (ff_queue f k')\<close> in \<open>auto simp: lock_view_def t\<close>)
      with False show ?thesis by simp
    qed
  qed
  ultimately show ?thesis by blast
qed

lemma settle_step:
  assumes view: "lock_view cleanup s f"
  shows "\<exists>g. fifo_step f g \<and> lock_view cleanup (lock_finally cleanup i s) g"
proof (cases "\<exists>k c. pl_task s i = InOperation k c")
  case False
  then have "lock_finally cleanup i s = s" by (auto simp: lock_finally_def split: lock_task.split)
  with view show ?thesis using fifo_step.idle by auto
next
  case True
  then obtain k c where i: "pl_task s i = InOperation k c" by blast
  let ?t = "lock_finally cleanup i s"
  obtain j js where q: "ff_queue f k = j # js" and mem: "i = j \<or> i \<in> set js" and ne: "j \<notin> set js"
    and ch: "chained cleanup s k (ff_inside f k) (j # js)"
    by (rule view_queue [OF view, of i k]) (simp_all add: i)
  have "i \<notin> set js"
  proof
    assume "i \<in> set js"
    moreover obtain q where "waiters s k q js" "\<not> pl_resolved s q" using ch by (auto split: lock_task.splits)
    ultimately show False using waiters_blocked [of s k q js i] i by auto
  qed
  with mem have [simp]: "j = i" by simp
  have inside: "ff_inside f k" and w: "\<not> pl_resolved s c" "waiters s k c js" using ch i by auto
  have ok: "promises_ok s" using view by (simp add: lock_view_def)
  have other: "own_promise (pl_task s l) \<noteq> Some c" if "l \<noteq> i" for l
    using ok that i unfolding promises_ok_def by (metis own_promise.simps(2))
  have t: "pl_task ?t l = (if l = i then Returned else pl_task s l)" "pl_next ?t = pl_next s"
    "pl_resolved ?t n = (n = c \<or> pl_resolved s n)"
    "pl_locks ?t k' = (if k' = k \<and> cleanup \<and> pl_locks s k = Some c then None else pl_locks s k')" for l n k'
    by (auto simp: lock_finally_def i Let_def)
  let ?g = "f\<lparr>ff_queue := (ff_queue f)(k := js), ff_inside := (ff_inside f)(k := False)\<rparr>"
  have "fifo_step f ?g" using q inside by (auto intro: fifo_step.leave)
  moreover have "lock_view cleanup ?t ?g"
    unfolding lock_view_def
  proof (intro conjI allI)
    show "promises_ok ?t"
      using ok i unfolding promises_ok_def t by (auto split: if_splits) (metis own_promise.simps(2))
    show "distinct (ff_queue ?g k')" for k' using view q by (auto simp: lock_view_def) (metis distinct.simps(2))
    show "(task_key (pl_task ?t l) = Some k') = (l \<in> set (ff_queue ?g k'))" for l k'
    proof (cases "l = i")
      case True
      have "i \<notin> set (ff_queue f k')" if "k' \<noteq> k" using view i that by (metis lock_view_def option.inject task_key.simps(2))
      with True \<open>i \<notin> set js\<close> show ?thesis by (simp add: t)
    next
      case False
      have "(task_key (pl_task s l) = Some k') = (l \<in> set (ff_queue f k'))" using view by (simp add: lock_view_def)
      with False q show ?thesis by (auto simp: t)
    qed
    show "chained cleanup ?t k' (ff_inside ?g k') (ff_queue ?g k')" for k'
    proof (cases "k' = k")
      case False
      have "i \<notin> set (ff_queue f k')" using view i False by (metis lock_view_def option.inject task_key.simps(2))
      have "chained cleanup ?t k' (ff_inside f k') (ff_queue f k')"
      proof (rule chained_frame [of cleanup s])
        show "chained cleanup s k' (ff_inside f k') (ff_queue f k')" using view by (simp add: lock_view_def)
        show "\<forall>l \<in> set (ff_queue f k'). pl_task ?t l = pl_task s l" using \<open>i \<notin> set (ff_queue f k')\<close> by (auto simp: t)
        show "\<forall>l \<in> set (ff_queue f k'). \<forall>n. own_promise (pl_task s l) = Some n \<longrightarrow> pl_resolved ?t n = pl_resolved s n"
          using other \<open>i \<notin> set (ff_queue f k')\<close> by (metis t(3))
      qed (use False in \<open>simp_all add: t\<close>)
      with False show ?thesis by simp
    next
      case [simp]: True
      show ?thesis
      proof (cases js)
        case Nil
        have "pl_resolved ?t c" by (simp add: t)
        moreover have "pl_locks ?t k = (if cleanup then None else Some c)" using w Nil by (simp add: t)
        ultimately show ?thesis using Nil by (cases cleanup) simp_all
      next
        case (Cons l ls)
        obtain m where "m \<in> set js" "own_promise (pl_task s m) = pl_locks s k"
          using waiters_last [OF w(2)] Cons by blast
        with other [of m] \<open>i \<notin> set js\<close> have "pl_locks s k \<noteq> Some c" by metis
        then have keep: "pl_locks ?t k = pl_locks s k" by (simp add: t)
        obtain c' where l: "pl_task s l = Awaiting k (Some c) c'" "\<not> pl_resolved s c'" "waiters s k c' ls"
          using w(2) Cons by (auto split: lock_task.splits)
        have li: "l \<noteq> i" "i \<notin> set ls" using Cons \<open>i \<notin> set js\<close> by auto
        then have "c' \<noteq> c" using other [of l] l by auto
        have "waiters ?t k c' ls = waiters s k c' ls"
        proof (rule waiters_frame)
          show "\<forall>m \<in> set ls. pl_task ?t m = pl_task s m" using li by (auto simp: t)
          show "\<forall>m \<in> set ls. \<forall>n. own_promise (pl_task s m) = Some n \<longrightarrow> pl_resolved ?t n = pl_resolved s n"
            using other li by (metis t(3))
        qed (rule keep)
        with l li Cons \<open>c' \<noteq> c\<close> show ?thesis by (simp add: t previous_resolved_def)
      qed
    qed
  qed
  ultimately show ?thesis by blast
qed

lemma step_refines:
  assumes "lock_view cleanup s f" and "chain_step cleanup s t"
  shows "\<exists>g. fifo_step f g \<and> lock_view cleanup t g"
  using assms(2)
proof cases
  case (call i key)
  with call_step(1) [OF assms(1) call(2), of key] call_step(2) [OF assms(1) call(2)]
  show ?thesis by (auto intro: fifo_step.arrive)
qed (use assms(1) continue_step settle_step in auto)

lemma run_refines: "chain_run cleanup s \<Longrightarrow> \<exists>f. fifo_run f \<and> lock_view cleanup s f"
proof (induction rule: chain_run.induct)
  case start
  show ?case using view_start fifo_run.start by blast
next
  case (step s t)
  then show ?case using step_refines fifo_run.step by blast
qed

lemma view_inside:
  assumes "lock_view cleanup s f" and "pl_task s i = InOperation k c"
  shows "ff_inside f k \<and> ff_queue f k \<noteq> [] \<and> hd (ff_queue f k) = i"
proof -
  obtain j js where q: "ff_queue f k = j # js" and mem: "i = j \<or> i \<in> set js"
    and ch: "chained cleanup s k (ff_inside f k) (j # js)"
    by (rule view_queue [OF assms(1), of i k]) (simp_all add: assms(2))
  have "i \<notin> set js"
  proof
    assume "i \<in> set js"
    moreover obtain q where "waiters s k q js" "\<not> pl_resolved s q" using ch by (auto split: lock_task.splits)
    ultimately show False using waiters_blocked [of s k q js i] assms(2) by auto
  qed
  with mem q ch assms(2) show ?thesis by auto
qed

lemma view_head:
  assumes "lock_view cleanup s f" and "ff_queue f k = i # r"
  shows "\<exists>c. pl_task s i = InOperation k c \<or> pl_task (lock_continue i s) i = InOperation k c"
proof -
  have "chained cleanup s k (ff_inside f k) (i # r)" using assms by (metis lock_view_def)
  then show ?thesis by (auto simp: lock_continue_def split: lock_task.splits)
qed

text \<open>
  C36. The locks of the process. In every interleaving of the calls, the promise chains behave like
  one queue for each key: calls of a key are served in the order in which they were made, one at a time,
  whether the operations succeed or throw; as long as a call of a key is waiting, one of them is in its
  operation or the first can begin it, so nobody waits for ever; and a map of locks holds no entry for a key
  nobody uses.
\<close>

theorem promise_lock_refines_queue:
  assumes "chain_run cleanup s"
  shows "\<exists>f. fifo_run f \<and>
    (\<forall>i k. task_key (pl_task s i) = Some k \<longleftrightarrow> i \<in> set (ff_queue f k)) \<and>
    (\<forall>i k c. pl_task s i = InOperation k c \<longrightarrow> ff_inside f k \<and> ff_queue f k \<noteq> [] \<and> hd (ff_queue f k) = i) \<and>
    (\<forall>k. ff_queue f k \<noteq> [] \<longrightarrow>
       (\<exists>c. pl_task s (hd (ff_queue f k)) = InOperation k c \<or>
            pl_task (lock_continue (hd (ff_queue f k)) s) (hd (ff_queue f k)) = InOperation k c)) \<and>
    (\<forall>k. cleanup \<and> ff_queue f k = [] \<longrightarrow> pl_locks s k = None) \<and>
    (\<forall>t. chain_step cleanup s t \<longrightarrow> (\<exists>g. fifo_step f g \<and> lock_view cleanup t g))"
proof -
  obtain f where run: "fifo_run f" and view: "lock_view cleanup s f" using run_refines [OF assms] by blast
  have "\<exists>c. pl_task s (hd (ff_queue f k)) = InOperation k c \<or>
      pl_task (lock_continue (hd (ff_queue f k)) s) (hd (ff_queue f k)) = InOperation k c"
    if "ff_queue f k \<noteq> []" for k
    using view_head [OF view, of k "hd (ff_queue f k)" "tl (ff_queue f k)"] that by simp
  moreover have "pl_locks s k = None" if "cleanup" "ff_queue f k = []" for k
  proof -
    have "chained cleanup s k (ff_inside f k) []" using view that(2) by (metis lock_view_def)
    with that(1) show ?thesis by (simp split: option.splits)
  qed
  moreover have "\<forall>i k. task_key (pl_task s i) = Some k \<longleftrightarrow> i \<in> set (ff_queue f k)"
    using view by (simp add: lock_view_def)
  moreover note view_inside [OF view] step_refines [OF view] run
  ultimately show ?thesis by (intro exI [of _ f]) blast
qed

lemma sample_chain:
  "chain_run True (lock_continue 1 (withJobLock 2 ''job'' (withJobLock 1 ''job'' chain_start)))"
proof -
  have "chain_run True (withJobLock 1 ''job'' chain_start)"
    by (rule chain_run.step [OF chain_run.start], rule chain_step.call) (simp add: chain_start_def)
  then have "chain_run True (withJobLock 2 ''job'' (withJobLock 1 ''job'' chain_start))"
    by (rule chain_run.step) (rule chain_step.call, simp add: chain_start_def withJobLock_def)
  then show ?thesis by (rule chain_run.step) (rule chain_step.continue)
qed

theorem promise_lock_refines_queue_witness:
  "\<exists>f. fifo_run f \<and> ff_inside f ''job'' \<and> hd (ff_queue f ''job'') = 1 \<and> 2 \<in> set (ff_queue f ''job'')"
proof -
  let ?s = "lock_continue 1 (withJobLock 2 ''job'' (withJobLock 1 ''job'' chain_start))"
  have "pl_task ?s 1 = InOperation ''job'' 0" and "task_key (pl_task ?s 2) = Some ''job''"
    by (simp_all add: lock_continue_def withJobLock_def chain_start_def previous_resolved_def)
  with promise_lock_refines_queue [OF sample_chain] show ?thesis by metis
qed

end
